(* ===== verification/Prelude.thy ===== *)
theory Prelude
  imports Complex_Main "HOL-Library.AList"
begin

text \<open>
  Shared vocabulary of the development: the dynamic values that tool arguments, messages and
  configuration documents are made of, the part of Python's string and list library the
  sources rely on, insertion-ordered dictionaries, and the generic lemmas the component
  theories use.

  A \<open>char\<close> stands for a code point below 256 (Latin-1), so that the whitespace class and the
  line boundaries below are those of Python's \<open>str\<close> restricted to that range.  Dictionaries are
  association lists in insertion order, updated in place by \<open>AList.update\<close>, as Python's are.
  Floating-point quantities are exact rationals.
\<close>

named_theorems py_text \<open>laws of the string operations\<close>
named_theorems py_dict \<open>laws of the dictionary operations\<close>


section \<open>Dynamic values\<close>

datatype pyval =
    PNone
  | PBool bool
  | PInt int
  | PFloat rat
  | PStr string
  | PList "pyval list"
  | PDict "(string \<times> pyval) list"

type_synonym pydict = "(string \<times> pyval) list"

text \<open>Python's truth value of an object (\<open>if x:\<close>).\<close>

fun truthy :: "pyval \<Rightarrow> bool" where
  "truthy PNone = False"
| "truthy (PBool b) = b"
| "truthy (PInt i) = (i \<noteq> 0)"
| "truthy (PFloat q) = (q \<noteq> 0)"
| "truthy (PStr s) = (s \<noteq> [])"
| "truthy (PList xs) = (xs \<noteq> [])"
| "truthy (PDict d) = (d \<noteq> [])"

text \<open>\<open>d.get(k, default)\<close>.\<close>

definition dget :: "('k \<times> 'v) list \<Rightarrow> 'k \<Rightarrow> 'v \<Rightarrow> 'v" where
  "dget d k dflt = (case map_of d k of None \<Rightarrow> dflt | Some v \<Rightarrow> v)"

lemma dget_update [py_dict, simp]:
  "dget (AList.update k v d) k' dflt = (if k' = k then v else dget d k' dflt)"
  by (simp add: dget_def update_conv' fun_upd_def)

lemma map_of_update [py_dict, simp]:
  "map_of (AList.update k v d) k' = (if k' = k then Some v else map_of d k')"
  by (simp add: update_conv')

lemma map_of_delete [py_dict, simp]:
  "map_of (AList.delete k d) k' = (if k' = k then None else map_of d k')"
  by (simp add: delete_conv' restrict_map_def)

lemma map_of_filter_key [py_dict]:
  "map_of (filter (\<lambda>p. P (fst p)) d) k = (if P k then map_of d k else None)"
  by (induction d) auto

lemma map_of_drop_keys [py_dict, simp]:
  "map_of (filter (\<lambda>p. fst p \<notin> F) d) k = (if k \<in> F then None else map_of d k)"
  by (induction d) auto


lemma find_in_set: "find P xs = Some y \<Longrightarrow> y \<in> set xs \<and> P y"
  by (auto simp: find_Some_iff)

lemma find_append_Some: "find P xs = Some x \<Longrightarrow> find P (xs @ ys) = Some x"
  by (induction xs) (auto split: if_splits)


section \<open>Results that may be errors\<close>

text \<open>\<open>Inl\<close> is a raised error, \<open>Inr\<close> a returned value.\<close>

definition sbind :: "'e + 'a \<Rightarrow> ('a \<Rightarrow> 'e + 'b) \<Rightarrow> 'e + 'b" where
  "sbind r f = (case r of Inl e \<Rightarrow> Inl e | Inr x \<Rightarrow> f x)"

lemma sbind_simps [simp]:
  "sbind (Inl e) f = Inl e"
  "sbind (Inr x) f = f x"
  by (simp_all add: sbind_def)

lemma sbind_eq_Inr [simp]: "sbind r f = Inr y \<longleftrightarrow> (\<exists>x. r = Inr x \<and> f x = Inr y)"
  by (cases r) simp_all


section \<open>Operations on a state\<close>

text \<open>
  A stateful operation that may raise: the error or the value, and the state it leaves.  \<open>cget\<close> reads the
  state, \<open>cput\<close> changes it.
\<close>

type_synonym ('s, 'e, 'a) op = "'s \<Rightarrow> ('e + 'a) \<times> 's"

definition cbind :: "('s, 'e, 'a) op \<Rightarrow> ('a \<Rightarrow> ('s, 'e, 'b) op) \<Rightarrow> ('s, 'e, 'b) op" where
  "cbind m f w = (case m w of (Inl e, w) \<Rightarrow> (Inl e, w) | (Inr x, w) \<Rightarrow> f x w)"

definition cfail :: "'e \<Rightarrow> ('s, 'e, 'a) op" where
  "cfail e w = (Inl e, w)"

definition cret :: "'a \<Rightarrow> ('s, 'e, 'a) op" where
  "cret x w = (Inr x, w)"

definition clift :: "'e + 'a \<Rightarrow> ('s, 'e, 'a) op" where
  "clift r w = (r, w)"

definition cget :: "('s \<Rightarrow> 'e + 'a) \<Rightarrow> ('s, 'e, 'a) op" where
  "cget f w = (f w, w)"

definition cput :: "('s \<Rightarrow> 's) \<Rightarrow> ('s, 'e, unit) op" where
  "cput f w = (Inr (), f w)"

definition ccheck :: "bool \<Rightarrow> 'e \<Rightarrow> ('s, 'e, unit) op" where
  "ccheck b e = (if b then cret () else cfail e)"

lemma cbind_eq_Inr:
  "cbind m f w = (Inr y, w') \<longleftrightarrow> (\<exists>x w1. m w = (Inr x, w1) \<and> f x w1 = (Inr y, w'))"
  by (auto simp: cbind_def split: prod.split sum.split)

lemma cbindE:
  assumes "cbind m f w = (Inr y, w')"
  obtains x w1 where "m w = (Inr x, w1)" "f x w1 = (Inr y, w')"
  using assms unfolding cbind_eq_Inr by blast

lemma cbind_ret_Inl [simp]: "cbind m (\<lambda>x. cret (g x)) w = (Inl e, w') \<longleftrightarrow> m w = (Inl e, w')"
  by (auto simp: cbind_def cret_def split: prod.split sum.split)

lemma op_simps [simp]:
  "cfail e w \<noteq> (Inr x, w')" "cret x w = (r, w') \<longleftrightarrow> r = Inr x \<and> w' = w"
  "clift s w = (r, w') \<longleftrightarrow> r = s \<and> w' = w" "cget g w = (r, w') \<longleftrightarrow> r = g w \<and> w' = w"
  "cput h w = (u, w') \<longleftrightarrow> u = Inr () \<and> w' = h w"
  by (auto simp: cfail_def cret_def clift_def cget_def cput_def)

lemma ccheck_eq [simp]: "ccheck b e w = (Inr u, w') \<longleftrightarrow> b \<and> w' = w"
  by (auto simp: ccheck_def)

text \<open>What every outcome of an operation keeps, an error included; reflexive and transitive relations compose.\<close>

definition op_keeps :: "('s \<Rightarrow> 's \<Rightarrow> bool) \<Rightarrow> ('s, 'e, 'a) op \<Rightarrow> bool" where
  "op_keeps R m \<longleftrightarrow> (\<forall>w. R w (snd (m w)))"

locale kept_relation =
  fixes R :: "'s \<Rightarrow> 's \<Rightarrow> bool"
  assumes refl: "R w w" and trans: "R u v \<Longrightarrow> R v w \<Longrightarrow> R u w"
begin

lemma bind [intro]:
  assumes "op_keeps R m" "\<And>x. op_keeps R (f x)"
  shows "op_keeps R (cbind m f)"
proof -
  have "R w (snd (cbind m f w))" for w
    using assms trans unfolding op_keeps_def cbind_def
    by (auto split: prod.split sum.split) (metis snd_conv)+
  then show ?thesis by (simp add: op_keeps_def)
qed

lemma basic [intro!, simp]:
  "op_keeps R (cret x)" "op_keeps R (cfail e)" "op_keeps R (clift r)" "op_keeps R (cget g)" "op_keeps R (ccheck b e)"
  by (simp_all add: op_keeps_def cret_def cfail_def clift_def cget_def ccheck_def refl)

lemma cond [intro]: "\<lbrakk>b \<Longrightarrow> op_keeps R m; \<not> b \<Longrightarrow> op_keeps R n\<rbrakk> \<Longrightarrow> op_keeps R (if b then m else n)"
  by simp

lemma check [intro]:
  assumes "b \<Longrightarrow> op_keeps R (f ())"
  shows "op_keeps R (cbind (ccheck b e) f)"
  using assms by (cases b) (auto simp: op_keeps_def ccheck_def cbind_def cret_def cfail_def refl)

lemma option [intro]:
  "\<lbrakk>o' = None \<Longrightarrow> op_keeps R m; \<And>x. o' = Some x \<Longrightarrow> op_keeps R (f x)\<rbrakk> \<Longrightarrow> op_keeps R (case o' of None \<Rightarrow> m | Some x \<Rightarrow> f x)"
  by (cases o') simp_all

lemma pair [intro]: "(\<And>x y. op_keeps R (f x y)) \<Longrightarrow> op_keeps R (case p of (x, y) \<Rightarrow> f x y)"
  by (cases p) simp

lemma change [intro]: "(\<And>w. R w (f w)) \<Longrightarrow> op_keeps R (cput f)"
  by (simp add: op_keeps_def cput_def)

end


section \<open>Characters and strings\<close>

text \<open>\<open>str.isspace\<close> on code points below 256.\<close>

definition py_space :: "char \<Rightarrow> bool" where
  "py_space c \<longleftrightarrow> c \<in> set [CHR 0x09, CHR 0x0A, CHR 0x0B, CHR 0x0C, CHR 0x0D, CHR 0x1C,
     CHR 0x1D, CHR 0x1E, CHR 0x1F, CHR 0x20, CHR 0x85, CHR 0xA0]"

abbreviation nl :: char where "nl \<equiv> CHR 0x0A"
abbreviation blank :: char where "blank \<equiv> CHR 0x20"

definition py_lstrip :: "string \<Rightarrow> string" where
  "py_lstrip s = dropWhile py_space s"

definition py_rstrip :: "string \<Rightarrow> string" where
  "py_rstrip s = rev (dropWhile py_space (rev s))"

definition py_strip :: "string \<Rightarrow> string" where
  "py_strip s = py_rstrip (py_lstrip s)"

text \<open>\<open>str.split()\<close>: the maximal runs of non-whitespace; \<open>cur\<close> is the run being read.\<close>

fun split_acc :: "string \<Rightarrow> string \<Rightarrow> string list" where
  "split_acc cur [] = (if cur = [] then [] else [cur])"
| "split_acc cur (c # s) =
     (if py_space c then (if cur = [] then split_acc [] s else cur # split_acc [] s)
      else split_acc (cur @ [c]) s)"

definition py_split :: "string \<Rightarrow> string list" where
  "py_split s = split_acc [] s"

text \<open>\<open>sep.join(xs)\<close>.\<close>

fun py_join :: "string \<Rightarrow> string list \<Rightarrow> string" where
  "py_join sep [] = []"
| "py_join sep [x] = x"
| "py_join sep (x # y # xs) = x @ sep @ py_join sep (y # xs)"

definition starts_with :: "string \<Rightarrow> string \<Rightarrow> bool" where
  "starts_with p s \<longleftrightarrow> take (length p) s = p"

definition ends_with :: "string \<Rightarrow> string \<Rightarrow> bool" where
  "ends_with p s \<longleftrightarrow> length p \<le> length s \<and> drop (length s - length p) s = p"

text \<open>\<open>s.find(p)\<close>, with \<open>None\<close> for \<open>-1\<close>, and the same from an index on.\<close>

fun find_sub :: "string \<Rightarrow> string \<Rightarrow> nat option" where
  "find_sub p [] = (if p = [] then Some 0 else None)"
| "find_sub p (c # s) =
     (if starts_with p (c # s) then Some 0 else map_option Suc (find_sub p s))"

definition find_from :: "string \<Rightarrow> string \<Rightarrow> nat \<Rightarrow> nat option" where
  "find_from p s k = map_option (\<lambda>i. k + i) (find_sub p (drop k s))"

definition contains :: "string \<Rightarrow> string \<Rightarrow> bool" where
  "contains p s \<longleftrightarrow> find_sub p s \<noteq> None"

text \<open>\<open>s.replace(old, new)\<close> for a non-empty \<open>old\<close>.\<close>

function replace_all :: "string \<Rightarrow> string \<Rightarrow> string \<Rightarrow> string" where
  "replace_all old new [] = []"
| "replace_all old new (c # s) =
     (if old \<noteq> [] \<and> starts_with old (c # s)
      then new @ replace_all old new (drop (length old) (c # s))
      else c # replace_all old new s)"
  by pat_completeness auto
termination
  by (relation "measure (\<lambda>(old, new, s). length s)") (auto simp: Suc_diff_le)

text \<open>\<open>str.lower\<close> on code points below 256.\<close>

definition lower_char :: "char \<Rightarrow> char" where
  "lower_char c = (let n = of_char c :: nat in
     if (65 \<le> n \<and> n \<le> 90) \<or> (192 \<le> n \<and> n \<le> 222 \<and> n \<noteq> 215) then char_of (n + 32) else c)"

definition py_lower :: "string \<Rightarrow> string" where
  "py_lower s = map lower_char s"

text \<open>Decimal rendering of a count, as an f-string prints it.\<close>

fun show_nat :: "nat \<Rightarrow> string" where
  "show_nat n = (if n < 10 then [char_of (n + 48)]
                 else show_nat (n div 10) @ [char_of (n mod 10 + 48)])"

declare show_nat.simps [simp del]

definition show_int :: "int \<Rightarrow> string" where
  "show_int i = (if i < 0 then CHR ''-'' # show_nat (nat (- i)) else show_nat (nat i))"

text \<open>\<open>str.splitlines()\<close>: a line ends at a line boundary; \<open>CR LF\<close> is one boundary.\<close>

definition line_break :: "char \<Rightarrow> bool" where
  "line_break c \<longleftrightarrow> c \<in> set [CHR 0x0A, CHR 0x0B, CHR 0x0C, CHR 0x0D, CHR 0x1C, CHR 0x1D,
     CHR 0x1E, CHR 0x85]"

fun splitlines_acc :: "string \<Rightarrow> string \<Rightarrow> string list" where
  "splitlines_acc cur [] = (if cur = [] then [] else [cur])"
| "splitlines_acc cur [c] = (if line_break c then [cur] else [cur @ [c]])"
| "splitlines_acc cur (c # d # s) =
     (if c = CHR 0x0D \<and> d = CHR 0x0A then cur # splitlines_acc [] s
      else if line_break c then cur # splitlines_acc [] (d # s)
      else splitlines_acc (cur @ [c]) (d # s))"

definition py_splitlines :: "string \<Rightarrow> string list" where
  "py_splitlines s = splitlines_acc [] s"

text \<open>\<open>xs[i:j]\<close> for Python integers: a negative index counts from the end.\<close>

definition py_index :: "nat \<Rightarrow> int \<Rightarrow> nat" where
  "py_index n i = (if i < 0 then nat (max 0 (int n + i)) else min n (nat i))"

definition py_slice :: "'a list \<Rightarrow> int \<Rightarrow> int \<Rightarrow> 'a list" where
  "py_slice xs i j = (let n = length xs; a = py_index n i; b = py_index n j
                      in take (b - a) (drop a xs))"


section \<open>Laws of the string operations\<close>

lemma py_space_nl [simp]: "py_space nl" and py_space_blank [simp]: "py_space blank"
  by (simp_all add: py_space_def)

text \<open>A word: what \<open>split()\<close> returns.\<close>

definition is_word :: "string \<Rightarrow> bool" where
  "is_word w \<longleftrightarrow> w \<noteq> [] \<and> (\<forall>c \<in> set w. \<not> py_space c)"

lemma split_acc_append_space:
  "py_space c \<Longrightarrow> split_acc cur (s @ c # t) = split_acc cur s @ py_split t"
  by (induction s arbitrary: cur) (auto simp: py_split_def)

lemma py_split_Nil [py_text, simp]: "py_split [] = []"
  by (simp add: py_split_def)

lemma py_split_append_space [py_text]:
  "py_space c \<Longrightarrow> py_split (s @ c # t) = py_split s @ py_split t"
  by (simp add: py_split_def split_acc_append_space)

lemma py_split_space_left [py_text, simp]: "py_space c \<Longrightarrow> py_split (c # s) = py_split s"
  by (simp add: py_split_def)

lemma py_split_space_right [py_text]: "py_space c \<Longrightarrow> py_split (s @ [c]) = py_split s"
  using py_split_append_space [of c s "[]"] by simp

lemma split_acc_word: "\<forall>c \<in> set w. \<not> py_space c \<Longrightarrow> split_acc cur (w @ s) = split_acc (cur @ w) s"
  by (induction w arbitrary: cur) auto

lemma py_split_word [py_text]: "is_word w \<Longrightarrow> py_split w = [w]"
  using split_acc_word [of w "[]" "[]"] by (simp add: is_word_def py_split_def)

lemma split_acc_words: "list_all (\<lambda>c. \<not> py_space c) cur \<Longrightarrow> w \<in> set (split_acc cur s) \<Longrightarrow> is_word w"
proof (induction s arbitrary: cur)
  case Nil
  then show ?case by (simp add: is_word_def list_all_iff split: if_splits)
next
  case (Cons c s)
  show ?case
  proof (cases "py_space c")
    case True
    have rest: "w \<in> set (split_acc [] s) \<Longrightarrow> is_word w" using Cons.IH [of "[]"] by simp
    have "cur \<noteq> [] \<Longrightarrow> is_word cur" using Cons.prems by (simp add: is_word_def list_all_iff)
    with True Cons.prems rest show ?thesis by (auto split: if_splits)
  next
    case False
    with Cons.prems have "list_all (\<lambda>c. \<not> py_space c) (cur @ [c])" by simp
    then show ?thesis by (rule Cons.IH) (use Cons.prems False in simp)
  qed
qed

lemma py_split_words [py_text]: "w \<in> set (py_split s) \<Longrightarrow> is_word w"
  by (rule split_acc_words [of "[]" w s]) (simp_all add: py_split_def)

lemma py_split_join [py_text]:
  "py_space c \<Longrightarrow> py_split (py_join [c] xs) = concat (map py_split xs)"
proof (induction xs rule: induct_list012)
  case (3 x y zs)
  then show ?case by (simp add: py_split_append_space)
qed simp_all

lemma concat_split_words [py_text]:
  "\<forall>w \<in> set ws. is_word w \<Longrightarrow> concat (map py_split ws) = ws"
  by (induction ws) (simp_all add: py_split_word)

lemma py_split_join_words [py_text]:
  "\<forall>w \<in> set ws. is_word w \<Longrightarrow> py_space c \<Longrightarrow> py_split (py_join [c] ws) = ws"
  by (simp add: py_split_join concat_split_words)

lemma py_split_lstrip [py_text, simp]: "py_split (py_lstrip s) = py_split s"
  unfolding py_lstrip_def by (induction s) auto

lemma py_split_rstrip [py_text, simp]: "py_split (py_rstrip s) = py_split s"
  unfolding py_rstrip_def
  by (induction s rule: rev_induct) (auto simp: py_split_space_right)

lemma py_split_strip [py_text, simp]: "py_split (py_strip s) = py_split s"
  by (simp add: py_strip_def)

lemma starts_with_append [simp]: "starts_with p (p @ s)"
  by (simp add: starts_with_def)

lemma starts_with_iff: "starts_with p s \<longleftrightarrow> (\<exists>t. s = p @ t)"
  by (metis append_eq_conv_conj append_take_drop_id starts_with_def)

lemma starts_with_eq_append: "starts_with p s \<Longrightarrow> s = p @ drop (length p) s"
  by (metis append_take_drop_id starts_with_def)

lemma find_sub_Some_starts: "find_sub p s = Some i \<Longrightarrow> i \<le> length s \<and> starts_with p (drop i s)"
proof (induction p s arbitrary: i rule: find_sub.induct)
  case (1 p)
  then show ?case by (auto simp: starts_with_def split: if_splits)
next
  case (2 p c s)
  show ?case
  proof (cases "starts_with p (c # s)")
    case True
    with "2.prems" show ?thesis by simp
  next
    case False
    with "2.prems" obtain j where "find_sub p s = Some j" and "i = Suc j" by auto
    with "2.IH" [OF False] show ?thesis by simp
  qed
qed

lemma find_sub_minimal:
  "find_sub p s = Some i \<Longrightarrow> j < i \<Longrightarrow> \<not> starts_with p (drop j s)"
proof (induction p s arbitrary: i j rule: find_sub.induct)
  case (1 p)
  then show ?case by (auto split: if_splits)
next
  case (2 p c s)
  then show ?case
    by (cases j) (auto split: if_splits)
qed

lemma find_sub_exists:
  "k \<le> length s \<Longrightarrow> starts_with p (drop k s) \<Longrightarrow> \<exists>i \<le> k. find_sub p s = Some i"
proof (induction p s arbitrary: k rule: find_sub.induct)
  case (1 p)
  then show ?case by (auto simp: starts_with_def)
next
  case (2 p c s)
  show ?case
  proof (cases "starts_with p (c # s)")
    case True
    then show ?thesis by simp
  next
    case False
    with "2.prems" obtain j where k: "k = Suc j" by (cases k) auto
    with "2.prems" have "\<exists>i \<le> j. find_sub p s = Some i" using "2.IH" [OF False] by simp
    with False k show ?thesis by auto
  qed
qed

lemma show_nat_nonempty [simp]: "show_nat n \<noteq> []"
  by (subst show_nat.simps) simp


section \<open>Laws of slices\<close>

lemma py_slice_nat [simp]:
  "py_slice xs (int i) (int j) = take (min (length xs) j - min (length xs) i) (drop i xs)"
  by (cases "i \<le> length xs") (simp_all add: py_slice_def py_index_def Let_def)

lemma length_py_slice_le: "length (py_slice xs i j) \<le> length xs"
  by (simp add: py_slice_def Let_def)

lemma set_py_slice: "set (py_slice xs i j) \<subseteq> set xs"
  unfolding py_slice_def Let_def by (meson order_trans set_drop_subset set_take_subset)

lemma concat_take_drop: "i \<le> j \<Longrightarrow> take i xs @ take (j - i) (drop i xs) = take j xs"
  by (metis le_add_diff_inverse take_add)

lemma take_drop_split: "i \<le> j \<Longrightarrow> drop i xs = take (j - i) (drop i xs) @ drop j xs"
  by (metis append_take_drop_id drop_drop le_add_diff_inverse2)

lemma digit_inj: "char_of (a + 48) = (char_of (b + 48) :: char) \<Longrightarrow> a < 10 \<Longrightarrow> b < 10 \<Longrightarrow> a = b" for a b :: nat
proof -
  assume "char_of (a + 48) = (char_of (b + 48) :: char)" "a < 10" "b < 10"
  then have "(a + 48) mod 256 = (b + 48) mod 256" by (metis of_char_of)
  with \<open>a < 10\<close> \<open>b < 10\<close> show "a = b" by simp
qed

lemma show_nat_inject [simp]: "show_nat m = show_nat n \<longleftrightarrow> m = n"
proof
  show "show_nat m = show_nat n \<Longrightarrow> m = n"
  proof (induction m arbitrary: n rule: less_induct)
    case (less m)
    note s = show_nat.simps[of m] show_nat.simps[of n]
    show ?case
    proof (cases "m < 10")
      case True
      then have "n < 10" using less.prems s by (cases "n < 10") (auto simp: Cons_eq_append_conv)
      with True less.prems s digit_inj[of m n] show ?thesis by simp
    next
      case False
      then have n: "\<not> n < 10" using less.prems s by (cases "n < 10") (auto simp: append_eq_Cons_conv)
      with False less.prems s have "show_nat (m div 10) = show_nat (n div 10)" "m mod 10 = n mod 10"
        using digit_inj[of "m mod 10" "n mod 10"] by simp_all
      moreover have "m div 10 < m" using False by simp
      ultimately have "m div 10 = n div 10" "m mod 10 = n mod 10" using less.IH by blast+
      then show ?thesis by (metis div_mult_mod_eq)
    qed
  qed
qed simp

end
