(* ===== verification/Config.thy ===== *)
theory Config
  imports Prelude
begin

text \<open>
  Agent configuration (\<^verbatim>\<open>config_schema.py\<close>) and the input-token budget computed from it
  (\<^verbatim>\<open>providers/catalog_policy.py\<close>, \<open>resolve_input_budget\<close>).  A pydantic model becomes a record;
  its field defaults are collected in one default value per model.
\<close>

section \<open>Configuration records\<close>

record model_config =
  mc_provider_id :: string
  mc_name :: string
  mc_max_tokens :: "int option"
  mc_max_context_tokens :: "int option"
  mc_thinking_enabled :: "bool option"
  mc_thinking_effort :: "string option"

definition default_model_config :: model_config where
  "default_model_config = \<lparr>mc_provider_id = [], mc_name = [], mc_max_tokens = None,
     mc_max_context_tokens = None, mc_thinking_enabled = None, mc_thinking_effort = None\<rparr>"

definition is_configured :: "model_config \<Rightarrow> bool" where
  "is_configured m \<longleftrightarrow> mc_provider_id m \<noteq> [] \<and> mc_name m \<noteq> []"

datatype grant_subject = SubjSelf | SubjAny | SubjNone

record capability_grant =
  g_name :: string
  g_enabled :: bool
  g_subject :: grant_subject
  g_require_approval :: bool
  g_always_loaded :: "bool option"

definition default_grant :: "string \<Rightarrow> capability_grant" where
  "default_grant n = \<lparr>g_name = n, g_enabled = True, g_subject = SubjNone,
     g_require_approval = False, g_always_loaded = None\<rparr>"

record limits =
  lim_max_turns_per_run :: int
  lim_max_cost_per_run :: rat
  lim_session_idle_timeout_min :: int
  lim_max_context_tokens :: "int option"
  lim_core_max_tokens :: int

definition default_limits :: limits where
  "default_limits = \<lparr>lim_max_turns_per_run = 200, lim_max_cost_per_run = 500,
     lim_session_idle_timeout_min = 5, lim_max_context_tokens = None,
     lim_core_max_tokens = 32768\<rparr>"

record heartbeat_config =
  hb_enabled :: bool
  hb_interval_minutes :: int
  hb_task_prompt :: string
  hb_max_cost_per_heartbeat :: rat
  hb_consecutive_failure_threshold :: int

definition default_heartbeat :: heartbeat_config where
  "default_heartbeat = \<lparr>hb_enabled = False, hb_interval_minutes = 60, hb_task_prompt = [],
     hb_max_cost_per_heartbeat = 1 / 2, hb_consecutive_failure_threshold = 3\<rparr>"

record compaction_config =
  cc_auto_compaction :: bool
  cc_threshold :: rat
  cc_protect_first_n :: int
  cc_protect_last_n :: int
  cc_tail_budget_fraction :: rat
  cc_prune_tool_results_over :: int

definition default_compaction :: compaction_config where
  "default_compaction = \<lparr>cc_auto_compaction = True, cc_threshold = 7 / 10,
     cc_protect_first_n = 3, cc_protect_last_n = 20, cc_tail_budget_fraction = 1 / 5,
     cc_prune_tool_results_over = 200\<rparr>"

text \<open>
  The fields of \<open>AgentConfig\<close> the modelled components read.  \<open>capabilities = None\<close> grants every
  built-in tool, \<open>Some []\<close> none.
\<close>

text \<open>\<open>Fallback.on_limit_exceeded\<close>\<close>

datatype limit_policy = TellUserAndStop | HandoffToHuman

fun limit_policy_text :: "limit_policy \<Rightarrow> string" where
  "limit_policy_text TellUserAndStop = ''tell_user_and_stop''"
| "limit_policy_text HandoffToHuman = ''handoff_to_human''"

record agent_config =
  ac_id :: string
  ac_name :: string
  ac_model :: model_config
  ac_soul :: string
  ac_persona :: string
  ac_task :: string
  ac_capabilities :: "capability_grant list option"
  ac_limits :: limits
  ac_heartbeat :: heartbeat_config
  ac_compaction :: compaction_config
  ac_yolo_mode :: bool
  ac_on_limit :: limit_policy

definition default_agent :: "string \<Rightarrow> string \<Rightarrow> model_config \<Rightarrow> agent_config" where
  "default_agent i n m = \<lparr>ac_id = i, ac_name = n, ac_model = m, ac_soul = [], ac_persona = [],
     ac_task = [], ac_capabilities = None, ac_limits = default_limits,
     ac_heartbeat = default_heartbeat, ac_compaction = default_compaction,
     ac_yolo_mode = False, ac_on_limit = TellUserAndStop\<rparr>"


section \<open>The input-token budget\<close>

datatype budget_source =
    UserModelBudget | ResolvedInputLimit | DerivedContextBudget | ApplicationFallback
  | UserRunBudget

record input_budget =
  ib_tokens :: int
  ib_source :: budget_source
  ib_model_limit_known :: bool
  ib_output_reserve :: "int option"

datatype budget_error = NonPositiveBudget | NoInputCapacity

text \<open>\<open>positive\<close>: an \<open>int\<close> that is not a \<open>bool\<close> and above zero.\<close>

fun positive :: "pyval \<Rightarrow> int option" where
  "positive (PInt i) = (if 0 < i then Some i else None)"
| "positive _ = None"

definition bad_budget :: "int option \<Rightarrow> bool" where
  "bad_budget v \<longleftrightarrow> (case v of None \<Rightarrow> False | Some i \<Rightarrow> i \<le> 0)"

text \<open>The budget before the run-level ceiling is applied.\<close>

definition model_budget ::
    "int option \<Rightarrow> int option \<Rightarrow> int option \<Rightarrow> int \<Rightarrow> budget_error + (int \<times> budget_source)" where
  "model_budget model_override inputs context reserve =
     (case model_override of
        Some m \<Rightarrow> Inr (m, UserModelBudget)
      | None \<Rightarrow>
        (case context of
           Some c \<Rightarrow>
             (let remaining = c - reserve in
              if remaining \<le> 0 then Inl NoInputCapacity
              else let tokens = (case inputs of Some i \<Rightarrow> min i remaining | None \<Rightarrow> remaining)
                   in Inr (tokens, if inputs = Some tokens then ResolvedInputLimit
                                   else DerivedContextBudget))
         | None \<Rightarrow>
           (case inputs of
              Some i \<Rightarrow> Inr (i, ResolvedInputLimit)
            | None \<Rightarrow> Inr (32768, ApplicationFallback))))"

definition resolve_input_budget ::
    "pydict option \<Rightarrow> int option \<Rightarrow> int option \<Rightarrow> int option \<Rightarrow> budget_error + input_budget" where
  "resolve_input_budget metadata model_override run_override output_tokens =
     (let fields = (case metadata of None \<Rightarrow> [] | Some d \<Rightarrow> d) in
      if bad_budget model_override \<or> bad_budget run_override \<or> bad_budget output_tokens
      then Inl NonPositiveBudget
      else
        let inputs = positive (dget fields ''max_context_tokens'' PNone);
            context = positive (dget fields ''context_window_tokens'' PNone);
            reserve = (case output_tokens of Some r \<Rightarrow> r
                       | None \<Rightarrow> (case positive (dget fields ''max_output_tokens'' PNone) of
                                   Some r \<Rightarrow> r | None \<Rightarrow> 4096))
        in sbind (model_budget model_override inputs context reserve)
             (\<lambda>(t, s). let (tokens, source) =
                           (case run_override of
                              Some r \<Rightarrow> if r < t then (r, UserRunBudget) else (t, s)
                            | None \<Rightarrow> (t, s))
                in Inr \<lparr>ib_tokens = tokens, ib_source = source,
                        ib_model_limit_known = (inputs \<noteq> None \<or> context \<noteq> None),
                        ib_output_reserve = (if context \<noteq> None \<and> model_override = None
                                             then Some reserve else None)\<rparr>))"

lemma positive_pos: "positive v = Some i \<Longrightarrow> 0 < i"
  by (cases v) (auto split: if_splits)

lemma model_budget_pos:
  assumes "model_budget mo inputs context reserve = Inr (t, s)"
    and "\<not> bad_budget mo" and "\<And>i. inputs = Some i \<Longrightarrow> 0 < i"
  shows "0 < t"
  using assms
  by (auto simp: model_budget_def bad_budget_def Let_def split: option.splits if_splits)

lemma resolve_input_budget_cases:
  assumes "resolve_input_budget md mo ro ot = Inr b"
  obtains t s where
    "model_budget mo (positive (dget (case md of None \<Rightarrow> [] | Some d \<Rightarrow> d) ''max_context_tokens'' PNone))
       (positive (dget (case md of None \<Rightarrow> [] | Some d \<Rightarrow> d) ''context_window_tokens'' PNone))
       (case ot of Some r \<Rightarrow> r
        | None \<Rightarrow> (case positive (dget (case md of None \<Rightarrow> [] | Some d \<Rightarrow> d) ''max_output_tokens'' PNone) of
                    Some r \<Rightarrow> r | None \<Rightarrow> 4096)) = Inr (t, s)"
    and "\<not> bad_budget mo" and "\<not> bad_budget ro"
    and "ib_tokens b = (case ro of Some r \<Rightarrow> min r t | None \<Rightarrow> t)"
  using assms
  by (auto simp: resolve_input_budget_def Let_def split: if_splits option.splits prod.splits)

end
