(* ===== verification/Capabilities.thy ===== *)
theory Capabilities
  imports Config "HOL-Library.Char_ord" "HOL-Library.List_Lexorder"
begin

text \<open>
  Capabilities: effect classes (\<^verbatim>\<open>capabilities/effects.py\<close>), the registry of definitions
  (\<^verbatim>\<open>capabilities/registry.py\<close>) and the authority check of an agent configuration
  (\<open>_grant_for\<close>, \<open>is_capability_granted\<close> of \<^verbatim>\<open>capabilities/catalog.py\<close>).  The executable body of
  a capability is not part of its definition here; the mediator takes it as a parameter.
\<close>

section \<open>Effect classes\<close>

definition ALL_EFFECTS :: "string set" where
  "ALL_EFFECTS = {''read'', ''workspace_write'', ''local_execute'', ''external_write'',
     ''destructive''}"

definition READ_ONLY :: "string set" where
  "READ_ONLY = {''read''}"

definition DEFAULT_MUTATING :: "string set" where
  "DEFAULT_MUTATING = {''external_write''}"

datatype cap_error =
    UnknownEffects "string set"    \<comment> \<open>\<open>Unknown capability effects\<close>\<close>
  | SubjectExposed string          \<comment> \<open>a subject-scoped capability with a \<open>subject\<close> parameter\<close>

definition normalize_effects :: "string set option \<Rightarrow> cap_error + string set" where
  "normalize_effects effects =
     (case effects of
        None \<Rightarrow> Inr DEFAULT_MUTATING
      | Some s \<Rightarrow>
          if s = {} then Inr DEFAULT_MUTATING
          else if s - ALL_EFFECTS \<noteq> {} then Inl (UnknownEffects (s - ALL_EFFECTS))
          else Inr s)"

definition is_read_only :: "string set option \<Rightarrow> cap_error + bool" where
  "is_read_only effects = sbind (normalize_effects effects) (\<lambda>s. Inr (s = READ_ONLY))"

definition effects_from_mcp_annotations :: "pyval \<Rightarrow> string set" where
  "effects_from_mcp_annotations annotations =
     (case annotations of
        PDict d \<Rightarrow>
          if dget d ''readOnlyHint'' PNone = PBool True then READ_ONLY
          else if dget d ''destructiveHint'' PNone = PBool True
               then {''external_write'', ''destructive''}
               else {''external_write''}
      | _ \<Rightarrow> DEFAULT_MUTATING)"

lemma normalize_effects_sound:
  "normalize_effects e = Inr s \<Longrightarrow> s \<noteq> {} \<and> s \<subseteq> ALL_EFFECTS"
  by (auto simp: normalize_effects_def DEFAULT_MUTATING_def ALL_EFFECTS_def
      split: option.splits if_splits)

lemma effects_from_mcp_nonempty: "effects_from_mcp_annotations a \<noteq> {}"
  by (auto simp: effects_from_mcp_annotations_def DEFAULT_MUTATING_def READ_ONLY_def
      split: pyval.splits)

lemma effects_from_mcp_known: "effects_from_mcp_annotations a \<subseteq> ALL_EFFECTS"
  by (auto simp: effects_from_mcp_annotations_def ALL_EFFECTS_def DEFAULT_MUTATING_def
      READ_ONLY_def split: pyval.splits if_splits)


section \<open>Definitions and the registry\<close>

datatype cap_kind = KTool | KMemory | KMcpTool

record capability =
  cap_name :: string
  cap_kind :: cap_kind
  cap_description :: string
  cap_parameters_schema :: pydict
  cap_egress :: bool
  cap_require_approval :: bool
  cap_subject_scoped :: bool
  cap_silent :: bool
  cap_effects :: "string set"

text \<open>\<open>CapabilityDef(...)\<close>: the constructor normalises the effect set.\<close>

definition mk_capability ::
    "string \<Rightarrow> cap_kind \<Rightarrow> string \<Rightarrow> pydict \<Rightarrow> bool \<Rightarrow> bool \<Rightarrow> bool \<Rightarrow> bool \<Rightarrow> string set option
     \<Rightarrow> cap_error + capability" where
  "mk_capability n k d schema eg ra ss si effects =
     sbind (normalize_effects effects)
       (\<lambda>e. Inr \<lparr>cap_name = n, cap_kind = k, cap_description = d, cap_parameters_schema = schema,
                 cap_egress = eg, cap_require_approval = ra, cap_subject_scoped = ss,
                 cap_silent = si, cap_effects = e\<rparr>)"

definition cap_read_only :: "capability \<Rightarrow> cap_error + bool" where
  "cap_read_only c = is_read_only (Some (cap_effects c))"

type_synonym registry = "(string \<times> capability) list"

text \<open>\<open>"subject" in cap.parameters_schema.get("properties", {})\<close>\<close>

definition exposes_subject :: "capability \<Rightarrow> bool" where
  "exposes_subject c =
     (case dget (cap_parameters_schema c) ''properties'' (PDict []) of
        PDict d \<Rightarrow> ''subject'' \<in> set (map fst d)
      | PList xs \<Rightarrow> PStr ''subject'' \<in> set xs
      | PStr s \<Rightarrow> contains ''subject'' s
      | _ \<Rightarrow> False)"

definition register :: "capability \<Rightarrow> registry \<Rightarrow> cap_error + registry" where
  "register c reg =
     (if map_of reg (cap_name c) \<noteq> None then Inr reg
      else if cap_subject_scoped c \<and> exposes_subject c then Inl (SubjectExposed (cap_name c))
      else Inr (AList.update (cap_name c) c reg))"

definition reg_get :: "registry \<Rightarrow> string \<Rightarrow> capability option" where
  "reg_get reg n = map_of reg n"

definition list_all_caps :: "registry \<Rightarrow> capability list" where
  "list_all_caps reg = map snd reg"

definition list_by_kind :: "registry \<Rightarrow> cap_kind \<Rightarrow> capability list" where
  "list_by_kind reg k = filter (\<lambda>c. cap_kind c = k) (map snd reg)"

definition list_names :: "registry \<Rightarrow> string list" where
  "list_names reg = map fst reg"

text \<open>
  Well-formed registry: keys are the names of their entries, no name twice, no subject-scoped
  entry that takes a \<open>subject\<close> argument (D10), effect sets normalised.
\<close>

definition wf_entry :: "string \<Rightarrow> capability \<Rightarrow> bool" where
  "wf_entry n c \<longleftrightarrow> cap_name c = n \<and> (cap_subject_scoped c \<longrightarrow> \<not> exposes_subject c)
     \<and> cap_effects c \<noteq> {} \<and> cap_effects c \<subseteq> ALL_EFFECTS"

definition wf_registry :: "registry \<Rightarrow> bool" where
  "wf_registry reg \<longleftrightarrow> distinct (map fst reg) \<and> (\<forall>p \<in> set reg. wf_entry (fst p) (snd p))"

lemma wf_registry_Nil [simp]: "wf_registry []"
  by (simp add: wf_registry_def)

lemma set_update_subset: "set (AList.update k v d) \<subseteq> insert (k, v) (set d)"
  by (induction d) auto

lemma register_wf:
  assumes "wf_registry reg" and "register c reg = Inr reg'"
    and "cap_effects c \<noteq> {}" and "cap_effects c \<subseteq> ALL_EFFECTS"
  shows "wf_registry reg'"
proof (cases "map_of reg (cap_name c) \<noteq> None")
  case True
  with assms show ?thesis by (simp add: register_def)
next
  case False
  with assms(2) have upd: "reg' = AList.update (cap_name c) c reg"
    and ok: "cap_subject_scoped c \<longrightarrow> \<not> exposes_subject c"
    by (auto simp: register_def split: if_splits)
  have "distinct (map fst reg')"
    using assms(1) by (simp add: upd wf_registry_def distinct_update)
  moreover have "wf_entry (cap_name c) c"
    using assms(3,4) ok by (simp add: wf_entry_def)
  then have "\<forall>p \<in> set reg'. wf_entry (fst p) (snd p)"
    using assms(1) set_update_subset [of "cap_name c" c reg]
    by (auto simp: upd wf_registry_def)
  ultimately show ?thesis by (simp add: wf_registry_def)
qed

lemma mk_capability_effects:
  "mk_capability n k d sch eg ra ss si e = Inr c \<Longrightarrow>
   cap_effects c \<noteq> {} \<and> cap_effects c \<subseteq> ALL_EFFECTS"
  by (auto simp: mk_capability_def dest!: normalize_effects_sound)

text \<open>The first registration of a name wins.\<close>

lemma register_lookup:
  assumes "register c reg = Inr reg'"
  shows "reg_get reg' n =
    (if n = cap_name c \<and> reg_get reg n = None then Some c else reg_get reg n)"
  using assms by (auto simp: register_def reg_get_def split: if_splits)

lemma register_idempotent:
  assumes "register c reg = Inr reg'" and "cap_name c' = cap_name c"
  shows "register c' reg' = Inr reg'"
proof -
  have "reg_get reg' (cap_name c) \<noteq> None"
    unfolding register_lookup [OF assms(1)] by simp
  with assms(2) show ?thesis by (simp add: register_def reg_get_def)
qed

lemma wf_registry_get:
  assumes "wf_registry reg" and "reg_get reg n = Some c"
  shows "cap_name c = n" and "cap_subject_scoped c \<Longrightarrow> \<not> exposes_subject c"
proof -
  have "(n, c) \<in> set reg" using assms(2) by (simp add: reg_get_def map_of_SomeD)
  with assms(1) show "cap_name c = n" and "cap_subject_scoped c \<Longrightarrow> \<not> exposes_subject c"
    unfolding wf_registry_def wf_entry_def by fastforce+
qed


section \<open>Authority of an agent configuration\<close>

definition DISCOVERY_CAPABILITY_NAMES :: "string list" where
  "DISCOVERY_CAPABILITY_NAMES = [''capabilities_search'', ''capabilities_load'']"

definition MCP_SERVER_GRANT_PREFIX :: string where
  "MCP_SERVER_GRANT_PREFIX = ''mcp_server:''"

definition mcp_server_grant_name :: "string \<Rightarrow> string" where
  "mcp_server_grant_name sid = MCP_SERVER_GRANT_PREFIX @ sid"

text \<open>\<open>_tool_map\<close> of the MCP registry: capability name to (server id, tool name).\<close>

type_synonym tool_map = "(string \<times> (string \<times> string)) list"

definition server_id_for_capability :: "tool_map \<Rightarrow> string \<Rightarrow> string option" where
  "server_id_for_capability tm name =
     (if \<not> starts_with ''mcp.'' name then None else map_option fst (map_of tm name))"

definition has_discovery_access :: "agent_config \<Rightarrow> bool" where
  "has_discovery_access config =
     (case ac_capabilities config of None \<Rightarrow> True | Some gs \<Rightarrow> list_ex g_enabled gs)"

text \<open>
  \<open>_grant_for\<close> returns either an explicit grant or, for an unrestricted configuration, the
  capability definition itself; both carry \<open>require_approval\<close>, only the grant \<open>always_loaded\<close>.
\<close>

datatype authority = ByGrant capability_grant | ByDef capability

fun auth_require_approval :: "authority \<Rightarrow> bool" where
  "auth_require_approval (ByGrant g) = g_require_approval g"
| "auth_require_approval (ByDef c) = cap_require_approval c"

definition grant_for ::
    "registry \<Rightarrow> agent_config \<Rightarrow> string \<Rightarrow> string option \<Rightarrow> authority option" where
  "grant_for reg config name server_id =
     (case reg_get reg name of
        None \<Rightarrow> None
      | Some capability \<Rightarrow>
          if name \<in> set DISCOVERY_CAPABILITY_NAMES
          then (if has_discovery_access config then Some (ByDef capability) else None)
          else
            (case ac_capabilities config of
               None \<Rightarrow> if cap_kind capability \<noteq> KMcpTool then Some (ByDef capability) else None
             | Some grants \<Rightarrow>
                 (case find (\<lambda>g. g_name g = name) grants of
                    Some g \<Rightarrow> if g_enabled g then Some (ByGrant g) else None
                  | None \<Rightarrow>
                      map_option ByGrant
                        (find (\<lambda>g. g_enabled g \<and> server_id \<noteq> None \<and> server_id \<noteq> Some []
                                   \<and> g_name g = mcp_server_grant_name (the server_id)) grants))))"

definition is_capability_granted ::
    "registry \<Rightarrow> agent_config \<Rightarrow> string \<Rightarrow> string option \<Rightarrow> bool" where
  "is_capability_granted reg config name server_id \<longleftrightarrow> grant_for reg config name server_id \<noteq> None"

text \<open>
  The ceiling, stated without the search order: a capability is inside it when it is registered
  and, for a listed configuration, its own first grant decides if there is one, else an enabled
  grant of its server does.
\<close>

definition ceiling_allows ::
    "registry \<Rightarrow> agent_config \<Rightarrow> string \<Rightarrow> string option \<Rightarrow> bool" where
  "ceiling_allows reg config name server_id \<longleftrightarrow>
     (\<exists>c. reg_get reg name = Some c \<and>
       (if name \<in> set DISCOVERY_CAPABILITY_NAMES then has_discovery_access config
        else case ac_capabilities config of
               None \<Rightarrow> cap_kind c \<noteq> KMcpTool
             | Some gs \<Rightarrow>
                 (case filter (\<lambda>g. g_name g = name) gs of
                    g # _ \<Rightarrow> g_enabled g
                  | [] \<Rightarrow> \<exists>g \<in> set gs. \<exists>sid. server_id = Some sid \<and> sid \<noteq> [] \<and> g_enabled g
                           \<and> g_name g = mcp_server_grant_name sid)))"

lemma find_filter: "find P xs = (case filter P xs of [] \<Rightarrow> None | x # _ \<Rightarrow> Some x)"
  by (induction xs) auto

lemma find_is_Some: "(\<exists>y. find P xs = Some y) \<longleftrightarrow> (\<exists>x \<in> set xs. P x)"
  by (induction xs) auto

lemma is_capability_granted_iff:
  "is_capability_granted reg config name sid \<longleftrightarrow> ceiling_allows reg config name sid"
proof (cases "reg_get reg name")
  case None
  then show ?thesis by (simp add: is_capability_granted_def ceiling_allows_def grant_for_def)
next
  case (Some c)
  show ?thesis
  proof (cases "ac_capabilities config")
    case None
    with Some show ?thesis
      by (simp add: is_capability_granted_def ceiling_allows_def grant_for_def)
  next
    case (Some gs)
    show ?thesis
      using \<open>reg_get reg name = Some c\<close> Some
      by (cases sid; cases "filter (\<lambda>g. g_name g = name) gs")
         (auto simp: is_capability_granted_def ceiling_allows_def grant_for_def find_is_Some
            find_filter [of "\<lambda>g. g_name g = name"])
  qed
qed

text \<open>A grant the check returns is an enabled one of the configuration.\<close>

lemma grant_for_enabled:
  assumes "grant_for reg config name sid = Some (ByGrant g)"
  shows "g_enabled g" and "\<exists>gs. ac_capabilities config = Some gs \<and> g \<in> set gs"
  using assms
  by (auto simp: grant_for_def find_Some_iff split: option.splits if_splits)

lemma grant_for_registered:
  "grant_for reg config name sid = Some a \<Longrightarrow> \<exists>c. reg_get reg name = Some c"
  by (auto simp: grant_for_def split: option.splits)

text \<open>An agent whose grant list is empty holds no authority at all.\<close>

lemma no_grants_no_authority:
  "ac_capabilities config = Some [] \<Longrightarrow> grant_for reg config name sid = None"
  by (simp add: grant_for_def has_discovery_access_def split: option.splits)

end
