(* ===== verification/Run_Catalog.thy ===== *)
theory Run_Catalog
  imports Capabilities
begin

text \<open>
  Run-scoped capability discovery (\<open>CapabilityRunCatalog\<close> of \<^verbatim>\<open>capabilities/catalog.py\<close>): the
  permission-filtered metadata, its search, and the loading of schemas for the next model turn.
  The MCP tables are lists of rows with their JSON columns decoded (a NULL column is \<open>None\<close>); the
  process-wide registry and tool map are passed explicitly, since building the metadata updates
  both.
\<close>

section \<open>Rows, metadata and the catalog state\<close>

record mcp_server =
  ms_id :: string
  ms_name :: string
  ms_enabled :: bool
  ms_tool_filter :: "string list option"
  ms_env_template :: "(string \<times> string) list option"
  ms_headers :: "(string \<times> string) list option"
  ms_require_approval :: bool

record mcp_tool =
  mt_server_id :: string
  mt_tool_name :: string
  mt_capability_name :: string
  mt_description :: string
  mt_schema :: pydict
  mt_egress :: bool
  mt_require_approval :: bool
  mt_subject_scoped :: bool
  mt_effects :: "string set option"

record mcp_tables =
  tb_tools :: "mcp_tool list"
  tb_servers :: "mcp_server list"

record cap_meta =
  me_name :: string
  me_kind :: cap_kind
  me_description :: string
  me_server_id :: "string option"
  me_server_name :: "string option"
  me_egress :: bool
  me_require_approval :: bool
  me_always_loaded :: bool

record run_catalog =
  rc_config :: agent_config
  rc_db :: "mcp_tables option"
  rc_parent :: "agent_config option"
  rc_max_results :: int
  rc_max_load_per_call :: int
  rc_max_loaded :: int
  rc_loaded :: "string set"
  rc_cache :: "cap_meta list option"

definition new_catalog :: "agent_config \<Rightarrow> mcp_tables option \<Rightarrow> agent_config option \<Rightarrow> run_catalog" where
  "new_catalog config db parent = \<lparr>rc_config = config, rc_db = db, rc_parent = parent,
     rc_max_results = 50, rc_max_load_per_call = 10, rc_max_loaded = 50, rc_loaded = {},
     rc_cache = None\<rparr>"

datatype catalog_error = CatCap cap_error | MultipleRows

definition lift_cap :: "cap_error + 'a \<Rightarrow> catalog_error + 'a" where
  "lift_cap r = (case r of Inl e \<Rightarrow> Inl (CatCap e) | Inr x \<Rightarrow> Inr x)"

lemma lift_cap_Inr [simp]: "lift_cap r = Inr x \<longleftrightarrow> r = Inr x"
  by (cases r) (simp_all add: lift_cap_def)


section \<open>Permission\<close>

definition is_permitted :: "registry \<Rightarrow> run_catalog \<Rightarrow> string \<Rightarrow> string option \<Rightarrow> bool" where
  "is_permitted reg rc name sid \<longleftrightarrow>
     (if \<not> is_capability_granted reg (rc_config rc) name sid then False
      else case rc_parent rc of
             None \<Rightarrow> True
           | Some p \<Rightarrow> is_capability_granted reg p name sid)"

definition always_loaded :: "registry \<Rightarrow> run_catalog \<Rightarrow> string \<Rightarrow> string option \<Rightarrow> bool" where
  "always_loaded reg rc name sid =
     (case reg_get reg name of
        None \<Rightarrow> False
      | Some c \<Rightarrow>
          (case grant_for reg (rc_config rc) name sid of
             None \<Rightarrow> False
           | Some (ByDef _) \<Rightarrow> cap_kind c \<noteq> KMcpTool
           | Some (ByGrant g) \<Rightarrow>
               (case g_always_loaded g of
                  None \<Rightarrow> cap_kind c \<noteq> KMcpTool
                | Some b \<Rightarrow> b)))"

definition meta_approval :: "registry \<Rightarrow> run_catalog \<Rightarrow> string \<Rightarrow> string option \<Rightarrow> bool \<Rightarrow> bool" where
  "meta_approval reg rc name sid dflt =
     (case grant_for reg (rc_config rc) name sid of
        Some a \<Rightarrow> auth_require_approval a | None \<Rightarrow> dflt)"


section \<open>Building the metadata\<close>

text \<open>The loop over built-in definitions; \<open>acc\<close> is \<open>metadata_by_name\<close>.\<close>

fun builtin_metadata ::
    "registry \<Rightarrow> run_catalog \<Rightarrow> capability list \<Rightarrow> (string \<times> cap_meta) list
     \<Rightarrow> (string \<times> cap_meta) list" where
  "builtin_metadata reg rc [] acc = acc"
| "builtin_metadata reg rc (c # cs) acc =
     (if cap_name c \<in> set DISCOVERY_CAPABILITY_NAMES \<or> cap_kind c = KMcpTool
      then builtin_metadata reg rc cs acc
      else if \<not> is_permitted reg rc (cap_name c) None then builtin_metadata reg rc cs acc
      else builtin_metadata reg rc cs
             (AList.update (cap_name c)
                \<lparr>me_name = cap_name c, me_kind = cap_kind c, me_description = cap_description c,
                 me_server_id = None, me_server_name = None, me_egress = cap_egress c,
                 me_require_approval =
                   meta_approval reg rc (cap_name c) None (cap_require_approval c),
                 me_always_loaded = always_loaded reg rc (cap_name c) None\<rparr> acc))"

text \<open>\<open>select(McpTool, McpServer).join(...).where(McpServer.enabled)\<close>\<close>

definition enabled_rows :: "mcp_tables \<Rightarrow> (mcp_tool \<times> mcp_server) list" where
  "enabled_rows db = [(t, s). t \<leftarrow> tb_tools db, s \<leftarrow> tb_servers db,
     ms_id s = mt_server_id t, ms_enabled s]"

text \<open>\<open>if tool_filter and tool.tool_name not in tool_filter\<close>\<close>

definition hidden_by_filter :: "mcp_server \<Rightarrow> mcp_tool \<Rightarrow> bool" where
  "hidden_by_filter s t =
     (case ms_tool_filter s of None \<Rightarrow> False
      | Some f \<Rightarrow> f \<noteq> [] \<and> mt_tool_name t \<notin> set f)"

definition ensure_registered :: "mcp_tool \<Rightarrow> registry \<Rightarrow> cap_error + registry" where
  "ensure_registered t reg =
     (case reg_get reg (mt_capability_name t) of
        Some c \<Rightarrow> Inr reg
      | None \<Rightarrow>
          sbind (mk_capability (mt_capability_name t) KMcpTool (mt_description t) (mt_schema t)
                   (mt_egress t) (mt_require_approval t) (mt_subject_scoped t) False
                   (Some (case mt_effects t of
                            None \<Rightarrow> DEFAULT_MUTATING
                          | Some e \<Rightarrow> e)))
            (\<lambda>c. register c reg))"

definition mcp_meta :: "registry \<Rightarrow> run_catalog \<Rightarrow> mcp_tool \<Rightarrow> mcp_server \<Rightarrow> cap_meta" where
  "mcp_meta reg rc t s =
     \<lparr>me_name = mt_capability_name t, me_kind = KMcpTool, me_description = mt_description t,
      me_server_id = Some (ms_id s), me_server_name = Some (ms_name s),
      me_egress = mt_egress t,
      me_require_approval = meta_approval reg rc (mt_capability_name t) (Some (ms_id s))
                              (mt_require_approval t),
      me_always_loaded = always_loaded reg rc (mt_capability_name t) (Some (ms_id s))\<rparr>"

fun mcp_metadata ::
    "run_catalog \<Rightarrow> (mcp_tool \<times> mcp_server) list \<Rightarrow> registry \<Rightarrow> tool_map
     \<Rightarrow> (string \<times> cap_meta) list
     \<Rightarrow> cap_error + (registry \<times> tool_map \<times> (string \<times> cap_meta) list)" where
  "mcp_metadata rc [] reg tm acc = Inr (reg, tm, acc)"
| "mcp_metadata rc ((t, s) # rows) reg tm acc =
     (if hidden_by_filter s t then mcp_metadata rc rows reg tm acc
      else sbind (ensure_registered t reg) (\<lambda>reg'.
        let tm' = AList.update (mt_capability_name t) (ms_id s, mt_tool_name t) tm in
        if \<not> is_permitted reg' rc (mt_capability_name t) (Some (ms_id s))
        then mcp_metadata rc rows reg' tm' acc
        else mcp_metadata rc rows reg' tm'
               (AList.update (mt_capability_name t) (mcp_meta reg' rc t s) acc)))"

text \<open>The branch without a database: MCP definitions already in memory.\<close>

fun memory_mcp_metadata ::
    "registry \<Rightarrow> tool_map \<Rightarrow> run_catalog \<Rightarrow> capability list \<Rightarrow> (string \<times> cap_meta) list
     \<Rightarrow> (string \<times> cap_meta) list" where
  "memory_mcp_metadata reg tm rc [] acc = acc"
| "memory_mcp_metadata reg tm rc (c # cs) acc =
     (let sid = server_id_for_capability tm (cap_name c) in
      if \<not> is_permitted reg rc (cap_name c) sid then memory_mcp_metadata reg tm rc cs acc
      else memory_mcp_metadata reg tm rc cs
             (AList.update (cap_name c)
                \<lparr>me_name = cap_name c, me_kind = cap_kind c, me_description = cap_description c,
                 me_server_id = sid, me_server_name = None, me_egress = cap_egress c,
                 me_require_approval =
                   meta_approval reg rc (cap_name c) sid (cap_require_approval c),
                 me_always_loaded = always_loaded reg rc (cap_name c) sid\<rparr> acc))"

definition metadata ::
    "registry \<Rightarrow> tool_map \<Rightarrow> run_catalog
     \<Rightarrow> cap_error + (cap_meta list \<times> registry \<times> tool_map \<times> run_catalog)" where
  "metadata reg tm rc =
     (case rc_cache rc of
        Some items \<Rightarrow> Inr (items, reg, tm, rc)
      | None \<Rightarrow>
          let base = builtin_metadata reg rc (list_all_caps reg) [] in
          sbind (case rc_db rc of
                   Some db \<Rightarrow> mcp_metadata rc (enabled_rows db) reg tm base
                 | None \<Rightarrow> Inr (reg, tm, memory_mcp_metadata reg tm rc
                                           (list_by_kind reg KMcpTool) base))
            (\<lambda>(reg', tm', acc). let items = map snd acc in
               Inr (items, reg', tm', rc\<lparr>rc_cache := Some items\<rparr>)))"

definition prepare ::
    "registry \<Rightarrow> tool_map \<Rightarrow> run_catalog \<Rightarrow> bool \<Rightarrow> cap_error + (registry \<times> tool_map \<times> run_catalog)" where
  "prepare reg tm rc refresh =
     sbind (metadata reg tm (if refresh then rc\<lparr>rc_cache := None\<rparr> else rc))
       (\<lambda>(items, reg', tm', rc').
          Inr (reg', tm', rc'\<lparr>rc_loaded := rc_loaded rc' \<inter> set (map me_name items)\<rparr>))"


section \<open>Availability, search, visibility, loading\<close>

definition is_mcp_available :: "run_catalog \<Rightarrow> cap_meta \<Rightarrow> catalog_error + bool" where
  "is_mcp_available rc item =
     (case rc_db rc of
        None \<Rightarrow> Inr True
      | Some db \<Rightarrow>
          if me_kind item \<noteq> KMcpTool then Inr True
          else
            (case [(mt_tool_name t, ms_enabled s, ms_tool_filter s). t \<leftarrow> tb_tools db,
                     s \<leftarrow> tb_servers db, ms_id s = mt_server_id t,
                     mt_capability_name t = me_name item,
                     Some (mt_server_id t) = me_server_id item] of
               [] \<Rightarrow> Inr False
             | [(tool_name, enabled, tool_filter)] \<Rightarrow>
                 if \<not> enabled then Inr False
                 else Inr (case tool_filter of None \<Rightarrow> True | Some f \<Rightarrow> tool_name \<in> set f)
             | _ \<Rightarrow> Inl MultipleRows))"

text \<open>\<open>cap_kind\<close> as its string value.\<close>

fun kind_text :: "cap_kind \<Rightarrow> string" where
  "kind_text KTool = ''tool''"
| "kind_text KMemory = ''memory''"
| "kind_text KMcpTool = ''mcp_tool''"

definition or_empty :: "string option \<Rightarrow> string" where
  "or_empty o1 = (case o1 of None \<Rightarrow> [] | Some s \<Rightarrow> s)"

text \<open>The score of one item, \<open>None\<close> when a filter or the tokens rule it out.\<close>

definition search_score ::
    "string list \<Rightarrow> string \<Rightarrow> string \<Rightarrow> cap_meta \<Rightarrow> nat option" where
  "search_score tokens server_text kind_txt item =
     (if kind_txt \<noteq> [] \<and> py_lower (kind_text (me_kind item)) \<noteq> kind_txt then None
      else if server_text \<noteq> [] \<and> \<not> contains server_text
                (py_lower (or_empty (me_server_id item) @ '' '' @ or_empty (me_server_name item)))
           then None
      else if tokens = [] then Some 0
      else
        let searchable = py_lower (me_name item @ '' '' @ me_description item);
            name_text = py_lower (me_name item);
            matched = length (filter (\<lambda>t. contains t searchable) tokens)
        in if matched = 0 then None
           else Some (matched + length (filter (\<lambda>t. contains t name_text) tokens)))"

definition search ::
    "registry \<Rightarrow> tool_map \<Rightarrow> run_catalog \<Rightarrow> string \<Rightarrow> string option \<Rightarrow> string option \<Rightarrow> int
     \<Rightarrow> cap_error + (cap_meta list \<times> registry \<times> tool_map \<times> run_catalog)" where
  "search reg tm rc query server kind limit =
     (let tokens = py_split (py_lower (py_strip query));
          server_text = py_lower (py_strip (or_empty server));
          kind_txt = py_lower (py_strip (or_empty kind));
          lim = max 1 (min limit (rc_max_results rc))
      in sbind (metadata reg tm rc) (\<lambda>(items, reg', tm', rc').
           let scored = [(the (search_score tokens server_text kind_txt i), i). i \<leftarrow> items,
                           search_score tokens server_text kind_txt i \<noteq> None];
               ranked = sort_key (\<lambda>(s, _). - int s) scored
           in Inr (map snd (take (nat lim) ranked), reg', tm', rc')))"

definition can_discover :: "run_catalog \<Rightarrow> bool" where
  "can_discover rc =
     (case ac_capabilities (rc_config rc) of
        None \<Rightarrow> True
      | Some gs \<Rightarrow>
          if gs = [] then False
          else if (case rc_parent rc of
                     None \<Rightarrow> False
                   | Some p \<Rightarrow> (case ac_capabilities p of
                                 None \<Rightarrow> False
                               | Some pgs \<Rightarrow> \<not> list_ex g_enabled pgs)) then False
          else list_ex g_enabled gs)"

definition model_capability_names :: "registry \<Rightarrow> tool_map \<Rightarrow> run_catalog \<Rightarrow> string list" where
  "model_capability_names reg tm rc =
     (if \<not> can_discover rc then []
      else [cap_name c. c \<leftarrow> list_all_caps reg,
              let sid = server_id_for_capability tm (cap_name c) in
              cap_name c \<in> set DISCOVERY_CAPABILITY_NAMES
              \<or> (cap_name c \<in> rc_loaded rc \<or> always_loaded reg rc (cap_name c) sid)
                \<and> is_permitted reg rc (cap_name c) sid
                \<and> (cap_kind c \<noteq> KMcpTool
                   \<or> (case rc_cache rc of None \<Rightarrow> True
                      | Some items \<Rightarrow> cap_name c \<in> set (map me_name items)))])"

datatype reject_reason = NotPermitted | Unavailable | RunLimitReached | RequestLimitReached

record load_state =
  ls_seen :: "string set"
  ls_accepted :: "string list"
  ls_rejected :: "(string \<times> reject_reason) list"
  ls_loaded :: "string set"

text \<open>One iteration of the loop of \<open>load\<close>.\<close>

definition load_one ::
    "run_catalog \<Rightarrow> cap_meta list \<Rightarrow> string \<Rightarrow> load_state \<Rightarrow> catalog_error + load_state" where
  "load_one rc items name st =
     (if name \<in> ls_seen st then Inr st
      else
        let st = st\<lparr>ls_seen := insert name (ls_seen st)\<rparr> in
        case find (\<lambda>i. me_name i = name) items of
          None \<Rightarrow> Inr (st\<lparr>ls_rejected := ls_rejected st @ [(name, NotPermitted)]\<rparr>)
        | Some item \<Rightarrow>
            sbind (is_mcp_available rc item) (\<lambda>available.
              if \<not> available
              then Inr (st\<lparr>ls_rejected := ls_rejected st @ [(name, Unavailable)]\<rparr>)
              else if name \<in> ls_loaded st
              then Inr (st\<lparr>ls_accepted := ls_accepted st @ [name]\<rparr>)
              else if int (card (ls_loaded st)) \<ge> rc_max_loaded rc
              then Inr (st\<lparr>ls_rejected := ls_rejected st @ [(name, RunLimitReached)]\<rparr>)
              else if int (length (ls_accepted st)) \<ge> rc_max_load_per_call rc
              then Inr (st\<lparr>ls_rejected := ls_rejected st @ [(name, RequestLimitReached)]\<rparr>)
              else Inr (st\<lparr>ls_loaded := insert name (ls_loaded st),
                           ls_accepted := ls_accepted st @ [name]\<rparr>)))"

fun load_names ::
    "run_catalog \<Rightarrow> cap_meta list \<Rightarrow> string list \<Rightarrow> load_state \<Rightarrow> catalog_error + load_state" where
  "load_names rc items [] st = Inr st"
| "load_names rc items (n # ns) st = sbind (load_one rc items n st) (load_names rc items ns)"

record load_result =
  lr_accepted :: "string list"
  lr_rejected :: "(string \<times> reject_reason) list"
  lr_loaded :: "string list"

definition load ::
    "registry \<Rightarrow> tool_map \<Rightarrow> run_catalog \<Rightarrow> string list
     \<Rightarrow> catalog_error + (load_result \<times> registry \<times> tool_map \<times> run_catalog)" where
  "load reg tm rc names =
     sbind (lift_cap (metadata reg tm rc)) (\<lambda>(items, reg', tm', rc').
       sbind (load_names rc' items names
                \<lparr>ls_seen = {}, ls_accepted = [], ls_rejected = [], ls_loaded = rc_loaded rc'\<rparr>)
         (\<lambda>st. Inr (\<lparr>lr_accepted = ls_accepted st, lr_rejected = ls_rejected st,
                     lr_loaded = sorted_list_of_set (ls_loaded st)\<rparr>,
                    reg', tm', rc'\<lparr>rc_loaded := ls_loaded st\<rparr>)))"


section \<open>The metadata stays inside the ceiling\<close>

definition reg_extends :: "registry \<Rightarrow> registry \<Rightarrow> bool" where
  "reg_extends reg reg' \<longleftrightarrow> (\<forall>n c. reg_get reg n = Some c \<longrightarrow> reg_get reg' n = Some c)"

lemma reg_extends_refl [simp]: "reg_extends reg reg"
  by (simp add: reg_extends_def)

lemma reg_extends_trans: "reg_extends a b \<Longrightarrow> reg_extends b c \<Longrightarrow> reg_extends a c"
  by (simp add: reg_extends_def)

lemma register_extends: "register c reg = Inr reg' \<Longrightarrow> reg_extends reg reg'"
  by (simp add: reg_extends_def register_lookup)

lemma ensure_registered_extends: "ensure_registered t reg = Inr reg' \<Longrightarrow> reg_extends reg reg'"
  by (auto simp: ensure_registered_def intro: register_extends split: option.splits)

lemma ensure_registered_wf:
  "wf_registry reg \<Longrightarrow> ensure_registered t reg = Inr reg' \<Longrightarrow> wf_registry reg'"
  by (auto simp: ensure_registered_def intro: register_wf dest!: mk_capability_effects
      split: option.splits)

lemma grant_for_extends:
  assumes "reg_extends reg reg'" and "grant_for reg config n sid = Some a"
  shows "grant_for reg' config n sid = Some a"
proof -
  obtain c where c: "reg_get reg n = Some c" using grant_for_registered [OF assms(2)] by blast
  with assms(1) have "reg_get reg' n = Some c" by (simp add: reg_extends_def)
  with c assms(2) show ?thesis by (simp add: grant_for_def)
qed

lemma is_permitted_extends:
  "reg_extends reg reg' \<Longrightarrow> is_permitted reg rc n sid \<Longrightarrow> is_permitted reg' rc n sid"
  by (auto simp: is_permitted_def is_capability_granted_def dest: grant_for_extends
      split: if_splits option.splits)

text \<open>What every stage of the metadata loop keeps.\<close>

definition meta_ok :: "registry \<Rightarrow> run_catalog \<Rightarrow> (string \<times> cap_meta) list \<Rightarrow> bool" where
  "meta_ok reg rc acc \<longleftrightarrow> distinct (map fst acc)
     \<and> (\<forall>p \<in> set acc. me_name (snd p) = fst p
          \<and> is_permitted reg rc (me_name (snd p)) (me_server_id (snd p)))"

lemma meta_ok_update:
  assumes "meta_ok reg rc acc" and "me_name i = k" and "is_permitted reg rc k (me_server_id i)"
  shows "meta_ok reg rc (AList.update k i acc)"
  using assms set_update_subset [of k i acc]
  by (auto simp: meta_ok_def distinct_update)

lemma meta_ok_extends: "reg_extends reg reg' \<Longrightarrow> meta_ok reg rc acc \<Longrightarrow> meta_ok reg' rc acc"
  unfolding meta_ok_def by (blast intro: is_permitted_extends)

lemma builtin_metadata_ok: "meta_ok reg rc acc \<Longrightarrow> meta_ok reg rc (builtin_metadata reg rc cs acc)"
  by (induction reg rc cs acc rule: builtin_metadata.induct) (simp_all add: meta_ok_update)

lemma memory_mcp_metadata_ok:
  "meta_ok reg rc acc \<Longrightarrow> meta_ok reg rc (memory_mcp_metadata reg tm rc cs acc)"
  by (induction reg tm rc cs acc rule: memory_mcp_metadata.induct)
     (simp_all add: meta_ok_update Let_def)

lemma mcp_metadata_ok:
  assumes "meta_ok reg rc acc" and "mcp_metadata rc rows reg tm acc = Inr (reg', tm', acc')"
  shows "meta_ok reg' rc acc' \<and> reg_extends reg reg'"
  using assms
proof (induction rc rows reg tm acc rule: mcp_metadata.induct)
  case (1 rc reg tm acc)
  then show ?case by simp
next
  case (2 rc t s rows reg tm acc)
  show ?case
  proof (cases "hidden_by_filter s t")
    case True
    with 2 show ?thesis by simp
  next
    case False
    with "2.prems"(2) obtain reg1 where r1: "ensure_registered t reg = Inr reg1" by auto
    have ext: "reg_extends reg reg1" by (rule ensure_registered_extends [OF r1])
    have ok1: "meta_ok reg1 rc acc" by (rule meta_ok_extends [OF ext "2.prems"(1)])
    show ?thesis
    proof (cases "is_permitted reg1 rc (mt_capability_name t) (Some (ms_id s))")
      case True
      have "meta_ok reg1 rc (AList.update (mt_capability_name t) (mcp_meta reg1 rc t s) acc)"
        by (rule meta_ok_update [OF ok1]) (simp_all add: mcp_meta_def True)
      with "2.prems"(2) False True r1 "2.IH"(3) [OF False refl] ext show ?thesis
        by (auto simp: Let_def intro: reg_extends_trans)
    next
      case not_permitted: False
      with "2.prems"(2) False r1 ok1 "2.IH"(2) [OF False refl] ext show ?thesis
        by (auto simp: Let_def intro: reg_extends_trans)
    qed
  qed
qed

lemma meta_ok_Nil [simp]: "meta_ok reg rc []"
  by (simp add: meta_ok_def)

lemma metadata_fresh:
  assumes "rc_cache rc = None" and "metadata reg tm rc = Inr (items, reg', tm', rc')"
  obtains acc where "items = map snd acc" and "meta_ok reg' rc acc" and "reg_extends reg reg'"
    and "rc' = rc\<lparr>rc_cache := Some items\<rparr>"
proof (cases "rc_db rc")
  case None
  with assms show ?thesis
    by (intro that [of "memory_mcp_metadata reg tm rc (list_by_kind reg KMcpTool)
                    (builtin_metadata reg rc (list_all_caps reg) [])"])
       (auto simp: metadata_def Let_def memory_mcp_metadata_ok builtin_metadata_ok)
next
  case (Some db)
  with assms obtain acc where
    "mcp_metadata rc (enabled_rows db) reg tm (builtin_metadata reg rc (list_all_caps reg) [])
       = Inr (reg', tm', acc)"
    and "items = map snd acc" and "rc' = rc\<lparr>rc_cache := Some items\<rparr>"
    by (auto simp: metadata_def Let_def)
  with mcp_metadata_ok [OF builtin_metadata_ok [OF meta_ok_Nil] this(1)] that show ?thesis
    by blast
qed


section \<open>Loading\<close>

text \<open>What the loop of \<open>load\<close> keeps, relative to the set loaded before the call.\<close>

definition load_inv :: "run_catalog \<Rightarrow> cap_meta list \<Rightarrow> string set \<Rightarrow> load_state \<Rightarrow> bool" where
  "load_inv rc items L0 st \<longleftrightarrow>
     finite (ls_loaded st) \<and> L0 \<subseteq> ls_loaded st
   \<and> int (card (ls_loaded st)) \<le> max (int (card L0)) (rc_max_loaded rc)
   \<and> ls_loaded st - L0 \<subseteq> set (ls_accepted st)
   \<and> set (ls_accepted st) \<subseteq> ls_loaded st
   \<and> set (ls_accepted st) \<subseteq> set (map me_name items)
   \<and> set (ls_accepted st) \<union> fst ` set (ls_rejected st) = ls_seen st
   \<and> int (card (ls_loaded st - L0)) \<le> max 0 (rc_max_load_per_call rc)"

lemma load_inv_start:
  "finite L0 \<Longrightarrow> load_inv rc items L0
     \<lparr>ls_seen = {}, ls_accepted = [], ls_rejected = [], ls_loaded = L0\<rparr>"
  by (simp add: load_inv_def)

lemma load_inv_add:
  assumes inv: "load_inv rc items L0 st" and new: "n \<notin> ls_loaded st"
    and room: "int (card (ls_loaded st)) < rc_max_loaded rc"
    and quota: "int (length (ls_accepted st)) < rc_max_load_per_call rc"
    and item: "n \<in> set (map me_name items)"
  shows "load_inv rc items L0 (st\<lparr>ls_seen := insert n (ls_seen st),
           ls_loaded := insert n (ls_loaded st), ls_accepted := ls_accepted st @ [n]\<rparr>)"
proof -
  let ?new = "ls_loaded st - L0"
  have fin: "finite (ls_loaded st)" and sub: "?new \<subseteq> set (ls_accepted st)"
    using inv by (simp_all add: load_inv_def)
  have "card ?new \<le> length (ls_accepted st)"
    by (meson List.finite_set card_length card_mono le_trans sub)
  moreover have "card (insert n (ls_loaded st) - L0) \<le> Suc (card ?new)"
    by (metis Diff_insert_absorb card_insert_le_m1 card_insert_if fin finite_Diff insert_Diff_if
        le_Suc_eq order_refl)
  ultimately have "int (card (insert n (ls_loaded st) - L0)) \<le> rc_max_load_per_call rc"
    using quota by linarith
  then show ?thesis
    using inv new room item fin by (auto simp: load_inv_def)
qed

lemma load_inv_reject:
  "load_inv rc items L0 st \<Longrightarrow> load_inv rc items L0
     (st\<lparr>ls_seen := insert n (ls_seen st), ls_rejected := ls_rejected st @ [(n, r)]\<rparr>)"
  by (simp add: load_inv_def)

lemma load_inv_accept:
  "load_inv rc items L0 st \<Longrightarrow> n \<in> ls_loaded st \<Longrightarrow> n \<in> set (map me_name items) \<Longrightarrow>
   load_inv rc items L0
     (st\<lparr>ls_seen := insert n (ls_seen st), ls_accepted := ls_accepted st @ [n]\<rparr>)"
  by (auto simp: load_inv_def)

lemma load_one_inv:
  assumes "load_inv rc items L0 st" and "load_one rc items n st = Inr st'"
  shows "load_inv rc items L0 st'"
proof (cases "n \<in> ls_seen st")
  case True
  with assms show ?thesis by (simp add: load_one_def)
next
  case seen: False
  show ?thesis
  proof (cases "find (\<lambda>i. me_name i = n) items")
    case None
    with assms seen show ?thesis by (auto simp: load_one_def load_inv_reject Let_def)
  next
    case (Some i)
    then have item: "n \<in> set (map me_name items)" by (auto simp: find_Some_iff)
    from assms(2) seen Some obtain av where av: "is_mcp_available rc i = Inr av"
      by (auto simp: load_one_def Let_def)
    show ?thesis
    proof (cases "\<not> av \<or> n \<in> ls_loaded st \<or> int (card (ls_loaded st)) \<ge> rc_max_loaded rc
        \<or> int (length (ls_accepted st)) \<ge> rc_max_load_per_call rc")
      case True
      with assms seen Some av item show ?thesis
        by (auto simp: load_one_def load_inv_reject load_inv_accept Let_def split: if_splits)
    next
      case False
      with assms(2) seen Some av have "st' = st\<lparr>ls_seen := insert n (ls_seen st),
           ls_loaded := insert n (ls_loaded st), ls_accepted := ls_accepted st @ [n]\<rparr>"
        by (simp add: load_one_def Let_def)
      with load_inv_add [OF assms(1)] False item show ?thesis by simp
    qed
  qed
qed

lemma load_names_inv:
  "load_inv rc items L0 st \<Longrightarrow> load_names rc items ns st = Inr st' \<Longrightarrow> load_inv rc items L0 st'"
  by (induction rc items ns st rule: load_names.induct) (auto dest: load_one_inv)

lemma load_one_seen: "load_one rc items n st = Inr st' \<Longrightarrow> ls_seen st' = insert n (ls_seen st)"
  by (auto simp: load_one_def Let_def split: if_splits option.splits)

lemma load_names_seen:
  "load_names rc items ns st = Inr st' \<Longrightarrow> ls_seen st' = ls_seen st \<union> set ns"
  by (induction rc items ns st rule: load_names.induct) (auto dest: load_one_seen)


section \<open>Properties\<close>



text \<open>A registry with one built-in tool, an agent without a grant list, and its catalog.\<close>

definition ex_read_file :: capability where
  "ex_read_file = \<lparr>cap_name = ''read_file'', cap_kind = KTool, cap_description = ''Read a file'',
     cap_parameters_schema = [], cap_egress = False, cap_require_approval = False,
     cap_subject_scoped = False, cap_silent = False, cap_effects = READ_ONLY\<rparr>"

definition ex_registry :: registry where
  "ex_registry = [(''read_file'', ex_read_file)]"

definition ex_agent :: agent_config where
  "ex_agent = default_agent ''a1'' ''Agent'' default_model_config"

definition ex_catalog :: run_catalog where
  "ex_catalog = new_catalog ex_agent None None"

definition ex_meta :: cap_meta where
  "ex_meta = \<lparr>me_name = ''read_file'', me_kind = KTool, me_description = ''Read a file'',
     me_server_id = None, me_server_name = None, me_egress = False,
     me_require_approval = False, me_always_loaded = True\<rparr>"

lemmas ex_catalog_defs = ex_read_file_def ex_registry_def ex_agent_def ex_catalog_def ex_meta_def
  new_catalog_def default_agent_def

lemma ex_catalog_fields [simp]:
  "rc_cache ex_catalog = None" "rc_db ex_catalog = None" "rc_loaded ex_catalog = {}"
  "rc_max_results ex_catalog = 50" "rc_max_loaded ex_catalog = 50"
  "rc_max_load_per_call ex_catalog = 10" "rc_config ex_catalog = ex_agent"
  "rc_parent ex_catalog = None" "me_name ex_meta = ''read_file''" "me_kind ex_meta = KTool"
  "me_server_id ex_meta = None"
  by (simp_all add: ex_catalog_defs)

lemma ex_metadata:
  "metadata ex_registry [] ex_catalog =
     Inr ([ex_meta], ex_registry, [], ex_catalog\<lparr>rc_cache := Some [ex_meta]\<rparr>)"
  by (simp add: ex_catalog_defs metadata_def list_all_caps_def list_by_kind_def Let_def
      DISCOVERY_CAPABILITY_NAMES_def is_permitted_def is_capability_granted_def grant_for_def
      reg_get_def meta_approval_def always_loaded_def)

lemma ex_search:
  "search ex_registry [] ex_catalog ''Read'' None None 5 =
     Inr ([ex_meta], ex_registry, [], ex_catalog\<lparr>rc_cache := Some [ex_meta]\<rparr>)"
proof -
  have "search_score (py_split (py_lower (py_strip ''Read''))) (py_lower (py_strip (or_empty None)))
     (py_lower (py_strip (or_empty None))) ex_meta = Some 2"
    unfolding ex_meta_def by code_simp
  then show ?thesis by (simp add: search_def ex_metadata Let_def)
qed


text \<open>Loading keeps the run's budget: starting within \<open>max_loaded\<close>, the loaded set never
  exceeds it, at most \<open>max_load_per_call\<close> names are added by one call, nothing already loaded is
  dropped, every name asked for is answered, and only names of permitted capabilities are added.\<close>
theorem load_respects_limits:
  assumes "rc_cache rc = None" and "finite (rc_loaded rc)"
    and "int (card (rc_loaded rc)) \<le> rc_max_loaded rc"
    and "load reg tm rc names = Inr (res, reg', tm', rc')"
  shows "int (card (rc_loaded rc')) \<le> rc_max_loaded rc
    \<and> int (card (rc_loaded rc' - rc_loaded rc)) \<le> max 0 (rc_max_load_per_call rc)
    \<and> rc_loaded rc \<subseteq> rc_loaded rc'
    \<and> set (lr_accepted res) \<union> fst ` set (lr_rejected res) = set names
    \<and> lr_loaded res = sorted_list_of_set (rc_loaded rc')
    \<and> (\<forall>n \<in> rc_loaded rc' - rc_loaded rc.
         \<exists>sid. is_capability_granted reg' (rc_config rc) n sid
           \<and> (\<forall>p. rc_parent rc = Some p \<longrightarrow> is_capability_granted reg' p n sid))"
proof -
  from assms(4) obtain items rc1 st where md: "metadata reg tm rc = Inr (items, reg', tm', rc1)"
    and run: "load_names rc1 items names \<lparr>ls_seen = {}, ls_accepted = [], ls_rejected = [],
                ls_loaded = rc_loaded rc1\<rparr> = Inr st"
    and res: "lr_accepted res = ls_accepted st" "lr_rejected res = ls_rejected st"
      "lr_loaded res = sorted_list_of_set (ls_loaded st)" "rc' = rc1\<lparr>rc_loaded := ls_loaded st\<rparr>"
    by (auto simp: load_def)
  obtain acc where acc: "items = map snd acc" "meta_ok reg' rc acc"
    and rc1: "rc1 = rc\<lparr>rc_cache := Some items\<rparr>"
    using metadata_fresh [OF assms(1) md] by blast
  have inv: "load_inv rc1 items (rc_loaded rc) st"
    using load_names_inv [OF load_inv_start run] assms(2) rc1 by simp
  have seen: "ls_seen st = set names" using load_names_seen [OF run] by simp
  have perm: "\<exists>sid. is_permitted reg' rc n sid" if "n \<in> set (map me_name items)" for n
  proof -
    from that acc(1) obtain p where p: "p \<in> set acc" and n: "me_name (snd p) = n" by auto
    from acc(2) p have "is_permitted reg' rc (me_name (snd p)) (me_server_id (snd p))"
      unfolding meta_ok_def by blast
    with n show ?thesis by blast
  qed
  have "\<forall>n \<in> rc_loaded rc' - rc_loaded rc. \<exists>sid. is_permitted reg' rc n sid"
    using inv perm by (auto simp: load_inv_def res subset_iff)
  moreover have "is_permitted reg' rc n sid \<Longrightarrow> is_capability_granted reg' (rc_config rc) n sid
      \<and> (\<forall>p. rc_parent rc = Some p \<longrightarrow> is_capability_granted reg' p n sid)" for n sid
    by (auto simp: is_permitted_def split: if_splits option.splits)
  ultimately have "\<forall>n \<in> rc_loaded rc' - rc_loaded rc.
      \<exists>sid. is_capability_granted reg' (rc_config rc) n sid
      \<and> (\<forall>p. rc_parent rc = Some p \<longrightarrow> is_capability_granted reg' p n sid)" by meson
  then show ?thesis
    using inv seen assms(3) by (simp add: load_inv_def res rc1)
qed

lemma ex_load:
  "load ex_registry [] ex_catalog [''read_file'', ''nope''] =
     Inr (\<lparr>lr_accepted = [''read_file''], lr_rejected = [(''nope'', NotPermitted)],
           lr_loaded = [''read_file'']\<rparr>, ex_registry, [],
          ex_catalog\<lparr>rc_cache := Some [ex_meta], rc_loaded := {''read_file''}\<rparr>)"
  by (simp add: load_def ex_metadata lift_cap_def load_one_def Let_def is_mcp_available_def)

theorem load_respects_limits_witness:
  "\<exists>res reg' tm' rc'. load ex_registry [] ex_catalog [''read_file'', ''nope''] = Inr (res, reg', tm', rc')
     \<and> int (card (rc_loaded rc')) \<le> 50 \<and> rc_loaded rc' = {''read_file''}"
proof -
  have h: "rc_cache ex_catalog = None" "finite (rc_loaded ex_catalog)"
    "int (card (rc_loaded ex_catalog)) \<le> rc_max_loaded ex_catalog" by simp_all
  from load_respects_limits [OF h ex_load] ex_load show ?thesis by auto
qed


text \<open>Every capability whose schema the model sees, other than the two discovery tools, is
  granted to the agent and, in a sub-agent run, to the parent; with no enabled grant the model
  sees nothing at all.\<close>
theorem visible_names_permitted:
  assumes "n \<in> set (model_capability_names reg tm rc)"
  shows "can_discover rc
    \<and> (n \<in> set DISCOVERY_CAPABILITY_NAMES
       \<or> is_capability_granted reg (rc_config rc) n (server_id_for_capability tm n)
         \<and> (\<forall>p. rc_parent rc = Some p \<longrightarrow>
              is_capability_granted reg p n (server_id_for_capability tm n)))"
  using assms
  by (auto simp: model_capability_names_def is_permitted_def Let_def split: if_splits option.splits)

theorem visible_names_permitted_witness:
  "''read_file'' \<in> set (model_capability_names ex_registry [] ex_catalog)
   \<and> is_capability_granted ex_registry ex_agent ''read_file'' None"
proof -
  have h: "''read_file'' \<in> set (model_capability_names ex_registry [] ex_catalog)"
    by (simp add: model_capability_names_def can_discover_def list_all_caps_def Let_def
        server_id_for_capability_def starts_with_def always_loaded_def is_permitted_def
        is_capability_granted_def grant_for_def reg_get_def DISCOVERY_CAPABILITY_NAMES_def
        ex_catalog_defs)
  from visible_names_permitted [OF this] h show ?thesis
    by (simp add: DISCOVERY_CAPABILITY_NAMES_def server_id_for_capability_def starts_with_def)
qed

text \<open>An empty tool filter, which is meant to disable every tool of a server, does not keep
  the tool out of the listing: a granted tool of an enabled server whose filter is \<open>[]\<close> is in the
  catalog's metadata, while the availability check of the same item refuses it.\<close>
theorem empty_filter_listed_but_unavailable:
  assumes "rc_cache rc = None" and "rc_db rc = Some \<lparr>tb_tools = [t], tb_servers = [s]\<rparr>"
    and "ms_id s = mt_server_id t" and "ms_enabled s" and "ms_tool_filter s = Some []"
    and "reg_get reg (mt_capability_name t) = Some c"
    and "is_permitted reg rc (mt_capability_name t) (Some (ms_id s))"
  shows "\<exists>items tm' rc'. metadata reg tm rc = Inr (items, reg, tm', rc')
      \<and> mcp_meta reg rc t s \<in> set items
      \<and> is_mcp_available rc (mcp_meta reg rc t s) = Inr False"
proof -
  let ?acc = "AList.update (mt_capability_name t) (mcp_meta reg rc t s)
                (builtin_metadata reg rc (list_all_caps reg) [])"
  have rows: "enabled_rows \<lparr>tb_tools = [t], tb_servers = [s]\<rparr> = [(t, s)]"
    using assms(3,4) by (simp add: enabled_rows_def)
  have "mcp_metadata rc [(t, s)] reg tm (builtin_metadata reg rc (list_all_caps reg) [])
     = Inr (reg, AList.update (mt_capability_name t) (ms_id s, mt_tool_name t) tm, ?acc)"
    using assms(5,6,7) by (simp add: hidden_by_filter_def ensure_registered_def Let_def)
  then have md: "\<exists>tm' rc'. metadata reg tm rc = Inr (map snd ?acc, reg, tm', rc')"
    using assms(1,2) rows by (auto simp: metadata_def Let_def)
  have "map_of ?acc (mt_capability_name t) = Some (mcp_meta reg rc t s)" by simp
  then have "(mt_capability_name t, mcp_meta reg rc t s) \<in> set ?acc" by (rule map_of_SomeD)
  then have "mcp_meta reg rc t s \<in> set (map snd ?acc)" by force
  moreover have "is_mcp_available rc (mcp_meta reg rc t s) = Inr False"
    using assms(2-5) by (simp add: is_mcp_available_def mcp_meta_def)
  ultimately show ?thesis using md by blast
qed

definition ex_mcp_server :: mcp_server where
  "ex_mcp_server = \<lparr>ms_id = ''s1'', ms_name = ''notes'', ms_enabled = True,
     ms_tool_filter = Some [], ms_env_template = None, ms_headers = None,
     ms_require_approval = True\<rparr>"

definition ex_mcp_tool :: mcp_tool where
  "ex_mcp_tool = \<lparr>mt_server_id = ''s1'', mt_tool_name = ''find'',
     mt_capability_name = ''mcp.notes.find'', mt_description = ''Find a note'', mt_schema = [],
     mt_egress = True, mt_require_approval = True, mt_subject_scoped = True, mt_effects = None\<rparr>"

definition ex_mcp_cap :: capability where
  "ex_mcp_cap = \<lparr>cap_name = ''mcp.notes.find'', cap_kind = KMcpTool,
     cap_description = ''Find a note'', cap_parameters_schema = [], cap_egress = True,
     cap_require_approval = True, cap_subject_scoped = True, cap_silent = False,
     cap_effects = DEFAULT_MUTATING\<rparr>"

definition ex_mcp_agent :: agent_config where
  "ex_mcp_agent = ex_agent\<lparr>ac_capabilities := Some [default_grant ''mcp_server:s1'']\<rparr>"

definition ex_mcp_catalog :: run_catalog where
  "ex_mcp_catalog = new_catalog ex_mcp_agent
     (Some \<lparr>tb_tools = [ex_mcp_tool], tb_servers = [ex_mcp_server]\<rparr>) None"

theorem empty_filter_listed_but_unavailable_witness:
  "\<exists>items tm' rc'. metadata [(''mcp.notes.find'', ex_mcp_cap)] [] ex_mcp_catalog
        = Inr (items, [(''mcp.notes.find'', ex_mcp_cap)], tm', rc')
      \<and> mcp_meta [(''mcp.notes.find'', ex_mcp_cap)] ex_mcp_catalog ex_mcp_tool ex_mcp_server \<in> set items
      \<and> is_mcp_available ex_mcp_catalog
          (mcp_meta [(''mcp.notes.find'', ex_mcp_cap)] ex_mcp_catalog ex_mcp_tool ex_mcp_server) = Inr False"
  by (rule empty_filter_listed_but_unavailable [where c = ex_mcp_cap])
     (simp_all add: ex_mcp_catalog_def new_catalog_def ex_mcp_server_def ex_mcp_tool_def reg_get_def
        is_permitted_def is_capability_granted_def grant_for_def ex_mcp_agent_def default_grant_def
        ex_agent_def default_agent_def DISCOVERY_CAPABILITY_NAMES_def mcp_server_grant_name_def
        MCP_SERVER_GRANT_PREFIX_def)

end
