(* ===== verification/Approvals.thy ===== *)
theory Approvals
  imports Prelude "HOL-Library.Char_ord" "HOL-Library.List_Lexorder"
begin

text \<open>
  The in-process registries that block a run on a human decision: pending approvals with the
  session allowlists (\<^verbatim>\<open>syscall/approval_registry.py\<close>), pending elicitations
  (\<^verbatim>\<open>syscall/elicitation_registry.py\<close>), the approval endpoints that resolve them
  (\<^verbatim>\<open>api/approvals.py\<close>) and the barrier for the calls of one model turn (\<open>ApprovalBatch\<close> of
  \<^verbatim>\<open>harness/loop.py\<close>).  An \<open>asyncio.Event\<close> is its flag; \<open>fnmatch\<close> is modelled on POSIX, where
  no case folding takes place.

  The locale \<open>pending_store\<close> is the contract both registries offer to the mediator.
\<close>

section \<open>Library parameters\<close>

text \<open>
  What the standard library supplies and the model leaves open: \<open>json.dumps(..., sort_keys=True)\<close>,
  the SHA-256 hex digest of a text, \<open>str(v)\<close> of a value that is not a string, and \<open>uuid4\<close> as the
  \<open>n\<close>-th identifier drawn.
\<close>

record py_lib =
  lib_dumps :: "pyval \<Rightarrow> string"
  lib_sha256 :: "string \<Rightarrow> string"
  lib_str :: "pyval \<Rightarrow> string"
  lib_uuid :: "nat \<Rightarrow> string"

fun py_str :: "py_lib \<Rightarrow> pyval \<Rightarrow> string" where
  "py_str L (PStr s) = s"
| "py_str L (PInt i) = show_int i"
| "py_str L (PBool b) = (if b then ''True'' else ''False'')"
| "py_str L PNone = ''None''"
| "py_str L v = lib_str L v"


section \<open>fnmatch\<close>

text \<open>The members of a character class, as ranges; a \<open>-\<close> at an end stands for itself.\<close>

fun class_ranges :: "string \<Rightarrow> (char \<times> char) list" where
  "class_ranges [] = []"
| "class_ranges [a] = [(a, a)]"
| "class_ranges [a, b] = [(a, a), (b, b)]"
| "class_ranges (a # b # c # cs) =
     (if b = CHR ''-'' then (a, c) # class_ranges cs else (a, a) # class_ranges (b # c # cs))"

definition in_class :: "char \<Rightarrow> string \<Rightarrow> bool" where
  "in_class x stuff \<longleftrightarrow>
     list_ex (\<lambda>(a, b). (of_char a :: nat) \<le> of_char x \<and> (of_char x :: nat) \<le> of_char b)
       (class_ranges stuff)"

text \<open>
  What follows an opening bracket: whether the class is negated, its members, the rest of the
  pattern; \<open>None\<close> when it is never closed.
\<close>

definition class_end :: "string \<Rightarrow> (bool \<times> string \<times> string) option" where
  "class_end p =
     (let neg = (p \<noteq> [] \<and> hd p = CHR ''!'');
          q = (if neg then tl p else p);
          lead = (q \<noteq> [] \<and> hd q = CHR '']'');
          r = (if lead then tl q else q);
          body = takeWhile (\<lambda>c. c \<noteq> CHR '']'') r
      in case dropWhile (\<lambda>c. c \<noteq> CHR '']'') r of
           [] \<Rightarrow> None
         | _ # rest \<Rightarrow> Some (neg, (if lead then [CHR '']''] else []) @ body, rest))"

lemma class_end_shorter: "class_end p = Some (neg, stuff, rest) \<Longrightarrow> length rest < length p"
proof -
  assume h: "class_end p = Some (neg, stuff, rest)"
  have dw: "dropWhile P r = c # rest \<Longrightarrow> length rest < length r" for P :: "char \<Rightarrow> bool" and r c
    using length_dropWhile_le [of P r] by simp
  from h show ?thesis
    unfolding class_end_def Let_def
    by (cases p) (auto split: if_splits list.splits dest!: dw)
qed

function glob :: "string \<Rightarrow> string \<Rightarrow> bool" where
  "glob [] s = (s = [])"
| "glob (c # p) s =
     (if c = CHR ''*'' then glob p s \<or> (case s of [] \<Rightarrow> False | _ # t \<Rightarrow> glob (c # p) t)
      else if c = CHR ''?'' then (case s of [] \<Rightarrow> False | _ # t \<Rightarrow> glob p t)
      else if c = CHR ''['' then
        (case class_end p of
           None \<Rightarrow> (case s of [] \<Rightarrow> False | x # t \<Rightarrow> x = c \<and> glob p t)
         | Some (neg, stuff, rest) \<Rightarrow>
             (case s of [] \<Rightarrow> False
              | x # t \<Rightarrow> (in_class x stuff \<noteq> neg) \<and> glob rest t))
      else (case s of [] \<Rightarrow> False | x # t \<Rightarrow> x = c \<and> glob p t))"
  by pat_completeness auto
termination
  by (relation "measure (\<lambda>(p, s). length p + length s)") (auto dest: class_end_shorter)

declare glob.simps [simp del]

definition fnmatch :: "string \<Rightarrow> string \<Rightarrow> bool" where
  "fnmatch name pat = glob pat name"

lemma glob_Nil [simp]: "glob [] s \<longleftrightarrow> s = []"
  by (simp add: glob.simps)

lemma glob_star: "glob (CHR ''*'' # p) s \<longleftrightarrow> (\<exists>t u. s = t @ u \<and> glob p u)"
proof (induction s)
  case Nil
  then show ?case by (simp add: glob.simps(2) [of "CHR ''*''" p])
next
  case (Cons x s)
  have "glob (CHR ''*'' # p) (x # s) \<longleftrightarrow> glob p (x # s) \<or> glob (CHR ''*'' # p) s"
    by (simp add: glob.simps)
  with Cons show ?case by (auto simp: Cons_eq_append_conv)
qed

definition plain_char :: "char \<Rightarrow> bool" where
  "plain_char c \<longleftrightarrow> c \<notin> set ''*?[''"

lemma glob_plain: "plain_char c \<Longrightarrow> glob (c # p) s \<longleftrightarrow> (\<exists>t. s = c # t \<and> glob p t)"
  by (cases s) (auto simp: glob.simps(2) [of c p] plain_char_def)

text \<open>A pattern of plain characters matches exactly itself, one ending in a star every
  extension of what precedes the star.\<close>

lemma glob_literal: "list_all plain_char p \<Longrightarrow> glob p s \<longleftrightarrow> s = p"
  by (induction p arbitrary: s) (auto simp: glob_plain)

lemma glob_prefix_star:
  "list_all plain_char p \<Longrightarrow> glob (p @ ''*'') s \<longleftrightarrow> starts_with p s"
  by (induction p arbitrary: s) (auto simp: glob_plain glob_star starts_with_iff)


section \<open>Scopes and keys\<close>

datatype remember_scope = ScopeExact | ScopeSameVerb | ScopePattern | ScopeCapability

definition args_hash :: "py_lib \<Rightarrow> string \<Rightarrow> pydict \<Rightarrow> string" where
  "args_hash L cap args =
     take 16 (lib_sha256 L (lib_dumps L (PDict [(''cap'', PStr cap), (''args'', PDict args)])))"

definition extract_verb :: "string \<Rightarrow> pydict \<Rightarrow> string option" where
  "extract_verb cap args =
     (if cap = ''terminal'' then
        (case dget args ''command'' (PStr []) of
           PStr command \<Rightarrow>
             if py_strip command \<noteq> [] then Some (py_lower (hd (py_split (py_strip command))))
             else None
         | _ \<Rightarrow> None)
      else None)"

definition stringified_args :: "py_lib \<Rightarrow> pydict \<Rightarrow> string option" where
  "stringified_args L args =
     (let parts = map (\<lambda>(k, v). k @ ''='' @ py_str L v) (sort_key fst args)
      in if parts \<noteq> [] then Some (py_join '' '' parts) else None)"

definition extract_command_str :: "py_lib \<Rightarrow> string \<Rightarrow> pydict \<Rightarrow> string option" where
  "extract_command_str L cap args =
     (if cap = ''terminal'' then
        (case dget args ''command'' (PStr []) of
           PStr command \<Rightarrow> Some (py_strip command)
         | _ \<Rightarrow> stringified_args L args)
      else stringified_args L args)"

definition cap_key :: "string \<Rightarrow> string" where
  "cap_key cap = ''cap:'' @ cap"

definition pattern_prefix :: "string \<Rightarrow> string" where
  "pattern_prefix cap = ''pattern:'' @ cap @ '':''"

definition verb_key :: "string \<Rightarrow> string \<Rightarrow> string" where
  "verb_key cap verb = ''verb:'' @ cap @ '':'' @ verb"


section \<open>The approval registry\<close>

record pending_approval =
  pa_event :: bool
  pa_decision :: "string option"
  pa_decided_by :: "string option"
  pa_remember :: bool
  pa_scope :: remember_scope
  pa_pattern :: "string option"

record approval_registry =
  ar_pending :: "(string \<times> pending_approval) list"
  ar_allow :: "(string \<times> string set) list"

definition new_approval_registry :: approval_registry where
  "new_approval_registry = \<lparr>ar_pending = [], ar_allow = []\<rparr>"

definition fresh_pending :: pending_approval where
  "fresh_pending = \<lparr>pa_event = False, pa_decision = None, pa_decided_by = None,
     pa_remember = False, pa_scope = ScopeExact, pa_pattern = None\<rparr>"

definition register_approval :: "string \<Rightarrow> approval_registry \<Rightarrow> approval_registry" where
  "register_approval i r = r\<lparr>ar_pending := AList.update i fresh_pending (ar_pending r)\<rparr>"

definition get_approval :: "string \<Rightarrow> approval_registry \<Rightarrow> pending_approval option" where
  "get_approval i r = map_of (ar_pending r) i"

record resolution =
  rs_decision :: string
  rs_by :: string
  rs_remember :: bool
  rs_scope :: remember_scope
  rs_pattern :: "string option"

definition plain_resolution :: "string \<Rightarrow> string \<Rightarrow> resolution" where
  "plain_resolution d who = \<lparr>rs_decision = d, rs_by = who, rs_remember = False,
     rs_scope = ScopeExact, rs_pattern = None\<rparr>"

definition apply_resolution :: "resolution \<Rightarrow> pending_approval" where
  "apply_resolution res = \<lparr>pa_event = True, pa_decision = Some (rs_decision res),
     pa_decided_by = Some (rs_by res), pa_remember = rs_remember res, pa_scope = rs_scope res,
     pa_pattern = rs_pattern res\<rparr>"

definition resolve_approval ::
    "string \<Rightarrow> resolution \<Rightarrow> approval_registry \<Rightarrow> bool \<times> approval_registry" where
  "resolve_approval i res r =
     (case map_of (ar_pending r) i of
        None \<Rightarrow> (False, r)
      | Some pa \<Rightarrow>
          (True, r\<lparr>ar_pending := AList.update i (apply_resolution res) (ar_pending r)\<rparr>))"

definition cleanup_approval :: "string \<Rightarrow> approval_registry \<Rightarrow> approval_registry" where
  "cleanup_approval i r = r\<lparr>ar_pending := AList.delete i (ar_pending r)\<rparr>"

definition list_pending_ids :: "approval_registry \<Rightarrow> string list" where
  "list_pending_ids r = map fst (ar_pending r)"

definition is_session_approved ::
    "py_lib \<Rightarrow> string \<Rightarrow> string \<Rightarrow> pydict \<Rightarrow> approval_registry \<Rightarrow> bool" where
  "is_session_approved L sid cap args r =
     (case map_of (ar_allow r) sid of
        None \<Rightarrow> False
      | Some allowed \<Rightarrow>
          if allowed = {} then False
          else if cap_key cap \<in> allowed then True
          else if (case extract_command_str L cap args of
                     None \<Rightarrow> False
                   | Some cmd \<Rightarrow> cmd \<noteq> [] \<and>
                       (\<exists>key \<in> allowed. starts_with (pattern_prefix cap) key
                          \<and> fnmatch cmd (drop (length (pattern_prefix cap)) key))) then True
          else if (case extract_verb cap args of
                     None \<Rightarrow> False
                   | Some verb \<Rightarrow> verb \<noteq> [] \<and> verb_key cap verb \<in> allowed) then True
          else args_hash L cap args \<in> allowed)"

definition scope_key ::
    "py_lib \<Rightarrow> string \<Rightarrow> pydict \<Rightarrow> remember_scope \<Rightarrow> string option \<Rightarrow> string" where
  "scope_key L cap args scope pattern =
     (case scope of
        ScopeCapability \<Rightarrow> cap_key cap
      | ScopePattern \<Rightarrow>
          (case pattern of
             Some p \<Rightarrow> if p \<noteq> [] \<and> cap \<noteq> [] then pattern_prefix cap @ p else args_hash L cap args
           | None \<Rightarrow> args_hash L cap args)
      | ScopeSameVerb \<Rightarrow>
          (case extract_verb cap args of
             Some verb \<Rightarrow> if verb \<noteq> [] then verb_key cap verb else args_hash L cap args
           | None \<Rightarrow> args_hash L cap args)
      | ScopeExact \<Rightarrow> args_hash L cap args)"

definition remember_approval ::
    "py_lib \<Rightarrow> string \<Rightarrow> string \<Rightarrow> pydict \<Rightarrow> remember_scope \<Rightarrow> string option
     \<Rightarrow> approval_registry \<Rightarrow> approval_registry" where
  "remember_approval L sid cap args scope pattern r =
     (let base = (case map_of (ar_allow r) sid of None \<Rightarrow> {} | Some s \<Rightarrow> s)
      in r\<lparr>ar_allow := AList.update sid (insert (scope_key L cap args scope pattern) base)
                         (ar_allow r)\<rparr>)"

definition clear_session :: "string \<Rightarrow> approval_registry \<Rightarrow> approval_registry" where
  "clear_session sid r = r\<lparr>ar_allow := AList.delete sid (ar_allow r)\<rparr>"


section \<open>The elicitation registry\<close>

record pending_elicitation =
  pe_event :: bool
  pe_response :: "pyval option"
  pe_responded_by :: "string option"

type_synonym elicitation_registry = "(string \<times> pending_elicitation) list"

definition fresh_elicitation :: pending_elicitation where
  "fresh_elicitation = \<lparr>pe_event = False, pe_response = None, pe_responded_by = None\<rparr>"

definition register_elicitation :: "string \<Rightarrow> elicitation_registry \<Rightarrow> elicitation_registry" where
  "register_elicitation i r = AList.update i fresh_elicitation r"

definition get_elicitation :: "string \<Rightarrow> elicitation_registry \<Rightarrow> pending_elicitation option" where
  "get_elicitation i r = map_of r i"

definition resolve_elicitation ::
    "string \<Rightarrow> (pyval \<times> string) \<Rightarrow> elicitation_registry \<Rightarrow> bool \<times> elicitation_registry" where
  "resolve_elicitation i answer r =
     (case map_of r i of
        None \<Rightarrow> (False, r)
      | Some pe \<Rightarrow> (True, AList.update i \<lparr>pe_event = True, pe_response = Some (fst answer),
                             pe_responded_by = Some (snd answer)\<rparr> r))"

definition cancel_elicitation :: "string \<Rightarrow> elicitation_registry \<Rightarrow> bool \<times> elicitation_registry" where
  "cancel_elicitation i r =
     (case map_of r i of
        None \<Rightarrow> (False, r)
      | Some pe \<Rightarrow> (True, AList.update i (pe\<lparr>pe_event := True, pe_response := Some (PStr ''[cancelled]'')\<rparr>) r))"

definition cleanup_elicitation :: "string \<Rightarrow> elicitation_registry \<Rightarrow> elicitation_registry" where
  "cleanup_elicitation i r = AList.delete i r"

definition elicitation_ids :: "elicitation_registry \<Rightarrow> string list" where
  "elicitation_ids r = map fst r"


section \<open>The contract of a pending store\<close>

text \<open>
  What a waiter does to its entry and what other requests do around it, as a list of operations
  run over a store given by its functions.
\<close>

datatype 'r store_op = OpRegister string | OpResolve string 'r | OpCleanup string

fun run_ops ::
    "(string \<Rightarrow> 's \<Rightarrow> 's) \<Rightarrow> (string \<Rightarrow> 'r \<Rightarrow> 's \<Rightarrow> bool \<times> 's) \<Rightarrow> (string \<Rightarrow> 's \<Rightarrow> 's)
     \<Rightarrow> 'r store_op list \<Rightarrow> 's \<Rightarrow> 's" where
  "run_ops reg res cln [] s = s"
| "run_ops reg res cln (OpRegister i # ops) s = run_ops reg res cln ops (reg i s)"
| "run_ops reg res cln (OpResolve i r # ops) s = run_ops reg res cln ops (snd (res i r s))"
| "run_ops reg res cln (OpCleanup i # ops) s = run_ops reg res cln ops (cln i s)"

text \<open>The last resolution of an identifier in a list of operations.\<close>

fun last_resolution :: "string \<Rightarrow> 'r store_op list \<Rightarrow> 'r option \<Rightarrow> 'r option" where
  "last_resolution i [] acc = acc"
| "last_resolution i (OpResolve j r # ops) acc =
     last_resolution i ops (if j = i then Some r else acc)"
| "last_resolution i (_ # ops) acc = last_resolution i ops acc"

fun touches :: "string \<Rightarrow> 'r store_op \<Rightarrow> bool" where
  "touches i (OpRegister j) = (j = i)"
| "touches i (OpResolve j r) = (j = i)"
| "touches i (OpCleanup j) = (j = i)"

fun ends_entry :: "string \<Rightarrow> 'r store_op \<Rightarrow> bool" where
  "ends_entry i (OpRegister j) = (j = i)"
| "ends_entry i (OpResolve j r) = False"
| "ends_entry i (OpCleanup j) = (j = i)"

locale pending_store =
  fixes reg :: "string \<Rightarrow> 's \<Rightarrow> 's"
    and get :: "string \<Rightarrow> 's \<Rightarrow> 'p option"
    and resolve :: "string \<Rightarrow> 'r \<Rightarrow> 's \<Rightarrow> bool \<times> 's"
    and cleanup :: "string \<Rightarrow> 's \<Rightarrow> 's"
    and fresh :: 'p
    and answer :: "'r \<Rightarrow> 'p"
  assumes get_reg: "get j (reg i s) = (if j = i then Some fresh else get j s)"
    and resolve_found: "fst (resolve i r s) \<longleftrightarrow> get i s \<noteq> None"
    and get_resolve: "get j (snd (resolve i r s)) =
          (if j = i \<and> get i s \<noteq> None then Some (answer r) else get j s)"
    and get_cleanup: "get j (cleanup i s) = (if j = i then None else get j s)"
begin

lemma untouched:
  "list_all (\<lambda>oper. \<not> touches i oper) ops \<Longrightarrow> get i (run_ops reg resolve cleanup ops s) = get i s"
proof (induction ops arbitrary: s)
  case (Cons oper ops)
  then show ?case
    by (cases oper) (auto simp: get_reg get_resolve get_cleanup)
qed simp

lemma entry_is_last_resolution:
  "list_all (\<lambda>oper. \<not> ends_entry i oper) ops \<Longrightarrow>
   get i s = Some (case acc of None \<Rightarrow> fresh | Some r \<Rightarrow> answer r) \<Longrightarrow>
   get i (run_ops reg resolve cleanup ops s) =
     Some (case last_resolution i ops acc of None \<Rightarrow> fresh | Some r \<Rightarrow> answer r)"
proof (induction ops arbitrary: s acc)
  case (Cons oper ops)
  note ops = Cons.prems(1) and held = Cons.prems(2)
  show ?case
  proof (cases oper)
    case (OpRegister j)
    with ops have "get i (reg j s) = get i s" by (auto simp: get_reg)
    with OpRegister ops held show ?thesis by (simp add: Cons.IH)
  next
    case (OpResolve j r)
    with ops held show ?thesis
      by (cases "j = i") (simp_all add: Cons.IH get_resolve)
  next
    case (OpCleanup j)
    with ops have "get i (cleanup j s) = get i s" by (auto simp: get_cleanup)
    with OpCleanup ops held show ?thesis by (simp add: Cons.IH)
  qed
qed simp

lemma delivered:
  assumes "list_all (\<lambda>oper. \<not> ends_entry i oper) ops"
  shows "get i (run_ops reg resolve cleanup ops (reg i s)) =
           Some (case last_resolution i ops None of None \<Rightarrow> fresh | Some r \<Rightarrow> answer r)"
  by (rule entry_is_last_resolution [OF assms]) (simp add: get_reg)

lemma late_resolution_lost:
  "\<not> fst (resolve i r (cleanup i s)) \<and> get i (snd (resolve i r (cleanup i s))) = None"
  by (simp add: resolve_found get_resolve get_cleanup)

end

interpretation ap: pending_store register_approval get_approval resolve_approval
    cleanup_approval fresh_pending apply_resolution
  by unfold_locales
    (auto simp: register_approval_def get_approval_def resolve_approval_def cleanup_approval_def
       split: option.splits)

definition answer_elicitation :: "pyval \<times> string \<Rightarrow> pending_elicitation" where
  "answer_elicitation a = \<lparr>pe_event = True, pe_response = Some (fst a), pe_responded_by = Some (snd a)\<rparr>"

interpretation el: pending_store register_elicitation get_elicitation resolve_elicitation
    cleanup_elicitation fresh_elicitation answer_elicitation
  by unfold_locales
    (auto simp: register_elicitation_def get_elicitation_def resolve_elicitation_def
       cleanup_elicitation_def answer_elicitation_def split: option.splits)

text \<open>A waiter reads the answer given to it and no other: from its registration until it
  removes its entry, whatever is registered, resolved or removed under other identifiers, the
  entry holds the last resolution made for this identifier, or is still open when there was none;
  this holds of the approval and of the elicitation registry, and a resolution after the removal
  is reported as not found.\<close>
theorem waiter_reads_its_answer:
  assumes "list_all (\<lambda>oper. \<not> ends_entry i oper) ops"
    and "list_all (\<lambda>oper. \<not> ends_entry i oper) eops"
  shows "get_approval i (run_ops register_approval resolve_approval cleanup_approval ops
            (register_approval i r)) =
          Some (case last_resolution i ops None of None \<Rightarrow> fresh_pending
                | Some x \<Rightarrow> apply_resolution x)
    \<and> get_elicitation i (run_ops register_elicitation resolve_elicitation cleanup_elicitation
            eops (register_elicitation i e)) =
          Some (case last_resolution i eops None of None \<Rightarrow> fresh_elicitation
                | Some x \<Rightarrow> answer_elicitation x)
    \<and> \<not> fst (resolve_approval i x (cleanup_approval i r))
    \<and> \<not> fst (resolve_elicitation i y (cleanup_elicitation i e))"
  using ap.delivered [OF assms(1)] el.delivered [OF assms(2)]
    ap.late_resolution_lost el.late_resolution_lost by simp_all

theorem waiter_reads_its_answer_witness:
  "get_approval ''a'' (run_ops register_approval resolve_approval cleanup_approval
      [OpRegister ''b'', OpResolve ''a'' (plain_resolution ''approved'' ''op''), OpCleanup ''b'']
      (register_approval ''a'' new_approval_registry)) =
    Some (apply_resolution (plain_resolution ''approved'' ''op''))"
  using waiter_reads_its_answer [of "''a''"
      "[OpRegister ''b'', OpResolve ''a'' (plain_resolution ''approved'' ''op''), OpCleanup ''b'']"
      "[]" new_approval_registry]
  by simp


section \<open>The session allowlist\<close>

text \<open>What one remembered approval stands for, as a value instead of a string.\<close>

datatype allow_form =
    FormCapability string
  | FormPattern string string
  | FormVerb string string
  | FormExact string

definition form_of ::
    "py_lib \<Rightarrow> string \<Rightarrow> pydict \<Rightarrow> remember_scope \<Rightarrow> string option \<Rightarrow> allow_form" where
  "form_of L cap args scope pattern =
     (case scope of
        ScopeCapability \<Rightarrow> FormCapability cap
      | ScopePattern \<Rightarrow>
          (case pattern of
             Some p \<Rightarrow> if p \<noteq> [] \<and> cap \<noteq> [] then FormPattern cap p else FormExact (args_hash L cap args)
           | None \<Rightarrow> FormExact (args_hash L cap args))
      | ScopeSameVerb \<Rightarrow>
          (case extract_verb cap args of
             Some verb \<Rightarrow> if verb \<noteq> [] then FormVerb cap verb else FormExact (args_hash L cap args)
           | None \<Rightarrow> FormExact (args_hash L cap args))
      | ScopeExact \<Rightarrow> FormExact (args_hash L cap args))"

fun render_form :: "allow_form \<Rightarrow> string" where
  "render_form (FormCapability c) = cap_key c"
| "render_form (FormPattern c p) = pattern_prefix c @ p"
| "render_form (FormVerb c v) = verb_key c v"
| "render_form (FormExact h) = h"

fun covers :: "py_lib \<Rightarrow> string \<Rightarrow> pydict \<Rightarrow> allow_form \<Rightarrow> bool" where
  "covers L cap args (FormCapability c) = (c = cap)"
| "covers L cap args (FormPattern c p) =
     (c = cap \<and> (case extract_command_str L cap args of
                   None \<Rightarrow> False | Some cmd \<Rightarrow> cmd \<noteq> [] \<and> fnmatch cmd p))"
| "covers L cap args (FormVerb c v) =
     (c = cap \<and> v \<noteq> [] \<and> extract_verb cap args = Some v)"
| "covers L cap args (FormExact h) = (h = args_hash L cap args)"

lemma scope_key_form: "scope_key L cap args scope pattern = render_form (form_of L cap args scope pattern)"
  by (simp add: scope_key_def form_of_def split: remember_scope.splits option.splits)

text \<open>The operations on one session's allowlist.\<close>

datatype allow_op =
    Remember string string pydict remember_scope "string option"
  | ClearSession string

fun run_allow :: "py_lib \<Rightarrow> allow_op list \<Rightarrow> approval_registry \<Rightarrow> approval_registry" where
  "run_allow L [] r = r"
| "run_allow L (Remember sid cap args scope pattern # ops) r =
     run_allow L ops (remember_approval L sid cap args scope pattern r)"
| "run_allow L (ClearSession sid # ops) r = run_allow L ops (clear_session sid r)"

text \<open>The specification: the grants of a session are the remembered forms since its last clear.\<close>

fun grants_of :: "py_lib \<Rightarrow> string \<Rightarrow> allow_op list \<Rightarrow> allow_form set \<Rightarrow> allow_form set" where
  "grants_of L sid [] acc = acc"
| "grants_of L sid (Remember s cap args scope pattern # ops) acc =
     grants_of L sid ops (if s = sid then insert (form_of L cap args scope pattern) acc else acc)"
| "grants_of L sid (ClearSession s # ops) acc = grants_of L sid ops (if s = sid then {} else acc)"

definition allowed_keys :: "string \<Rightarrow> approval_registry \<Rightarrow> string set" where
  "allowed_keys sid r = (case map_of (ar_allow r) sid of None \<Rightarrow> {} | Some s \<Rightarrow> s)"

lemma allowed_keys_remember [simp]:
  "allowed_keys sid (remember_approval L s cap args scope pattern r) =
     (if s = sid then insert (scope_key L cap args scope pattern) (allowed_keys sid r)
      else allowed_keys sid r)"
  by (simp add: allowed_keys_def remember_approval_def Let_def)

lemma allowed_keys_clear [simp]:
  "allowed_keys sid (clear_session s r) = (if s = sid then {} else allowed_keys sid r)"
  by (simp add: allowed_keys_def clear_session_def)

lemma allowed_keys_new [simp]: "allowed_keys sid new_approval_registry = {}"
  by (simp add: allowed_keys_def new_approval_registry_def)

lemma allowed_keys_run:
  "allowed_keys sid r = render_form ` acc \<Longrightarrow>
   allowed_keys sid (run_allow L ops r) = render_form ` grants_of L sid ops acc"
proof (induction L sid ops acc arbitrary: r rule: grants_of.induct)
  case (2 L sid s cap args scope pattern ops acc)
  then show ?case by (cases "s = sid") (simp_all add: scope_key_form)
next
  case (3 L sid s ops acc)
  then show ?case by (cases "s = sid") simp_all
qed simp

lemma is_session_approved_keys:
  "is_session_approved L sid cap args r \<longleftrightarrow>
     cap_key cap \<in> allowed_keys sid r
     \<or> (\<exists>cmd. extract_command_str L cap args = Some cmd \<and> cmd \<noteq> []
          \<and> (\<exists>p. pattern_prefix cap @ p \<in> allowed_keys sid r \<and> fnmatch cmd p))
     \<or> (\<exists>v. extract_verb cap args = Some v \<and> v \<noteq> [] \<and> verb_key cap v \<in> allowed_keys sid r)
     \<or> args_hash L cap args \<in> allowed_keys sid r"
  unfolding is_session_approved_def allowed_keys_def
  by (auto simp: starts_with_iff split: option.splits)

text \<open>Rendering is injective as long as no capability name and no digest has a colon in it.\<close>

definition colon_free :: "string \<Rightarrow> bool" where
  "colon_free s \<longleftrightarrow> CHR '':'' \<notin> set s"

fun form_ok :: "allow_form \<Rightarrow> bool" where
  "form_ok (FormCapability c) = colon_free c"
| "form_ok (FormPattern c p) = colon_free c"
| "form_ok (FormVerb c v) = colon_free c"
| "form_ok (FormExact h) = colon_free h"

lemma colon_split:
  "colon_free a \<Longrightarrow> colon_free b \<Longrightarrow> a @ CHR '':'' # x = b @ CHR '':'' # y \<longleftrightarrow> a = b \<and> x = y"
proof (induction a arbitrary: b)
  case Nil
  then show ?case by (cases b) (auto simp: colon_free_def)
next
  case (Cons c a)
  then show ?case by (cases b) (auto simp: colon_free_def)
qed

lemma render_cap [simp]:
  "form_ok f \<Longrightarrow> cap_key cap = render_form f \<longleftrightarrow> f = FormCapability cap"
  by (cases f) (auto simp: cap_key_def pattern_prefix_def verb_key_def colon_free_def)

lemma render_pattern [simp]:
  "form_ok f \<Longrightarrow> colon_free cap \<Longrightarrow>
   pattern_prefix cap @ p = render_form f \<longleftrightarrow> f = FormPattern cap p"
  by (cases f) (auto simp: cap_key_def pattern_prefix_def verb_key_def colon_split,
      auto simp: colon_free_def)

lemma render_verb [simp]:
  "form_ok f \<Longrightarrow> colon_free cap \<Longrightarrow>
   verb_key cap v = render_form f \<longleftrightarrow> f = FormVerb cap v"
  by (cases f) (auto simp: cap_key_def pattern_prefix_def verb_key_def colon_split,
      auto simp: colon_free_def)

lemma render_exact [simp]:
  "form_ok f \<Longrightarrow> colon_free h \<Longrightarrow> h = render_form f \<longleftrightarrow> f = FormExact h"
  by (cases f) (auto simp: cap_key_def pattern_prefix_def verb_key_def colon_free_def)

lemma mem_render:
  assumes "\<And>f. f \<in> F \<Longrightarrow> form_ok f" and "colon_free cap"
  shows "cap_key cap \<in> render_form ` F \<longleftrightarrow> FormCapability cap \<in> F"
    and "pattern_prefix cap @ p \<in> render_form ` F \<longleftrightarrow> FormPattern cap p \<in> F"
    and "verb_key cap v \<in> render_form ` F \<longleftrightarrow> FormVerb cap v \<in> F"
    and "colon_free h \<Longrightarrow> h \<in> render_form ` F \<longleftrightarrow> FormExact h \<in> F"
  using assms by (auto simp: image_iff)

lemma covers_set:
  "(\<exists>f\<in>F. covers L cap args f) \<longleftrightarrow>
     FormCapability cap \<in> F
     \<or> (\<exists>cmd. extract_command_str L cap args = Some cmd \<and> cmd \<noteq> []
          \<and> (\<exists>p. FormPattern cap p \<in> F \<and> fnmatch cmd p))
     \<or> (\<exists>v. extract_verb cap args = Some v \<and> v \<noteq> [] \<and> FormVerb cap v \<in> F)
     \<or> FormExact (args_hash L cap args) \<in> F" (is "?l = ?r")
proof
  assume ?l
  then obtain f where "f \<in> F" "covers L cap args f" by blast
  then show ?r
    by (cases f) (auto split: option.splits)
next
  assume ?r
  then show ?l
    by (elim disjE exE conjE; force)
qed

fun op_cap :: "allow_op \<Rightarrow> string option" where
  "op_cap (Remember s cap args scope pattern) = Some cap"
| "op_cap (ClearSession s) = None"

definition plain_names :: "allow_op list \<Rightarrow> bool" where
  "plain_names ops \<longleftrightarrow> list_all (\<lambda>oper. case op_cap oper of None \<Rightarrow> True | Some c \<Rightarrow> colon_free c) ops"

definition hex_digest :: "py_lib \<Rightarrow> bool" where
  "hex_digest L \<longleftrightarrow> (\<forall>s. colon_free (lib_sha256 L s))"

lemma args_hash_colon_free: "hex_digest L \<Longrightarrow> colon_free (args_hash L cap args)"
  by (auto simp: hex_digest_def args_hash_def colon_free_def dest: in_set_takeD)

lemma form_of_ok:
  "hex_digest L \<Longrightarrow> colon_free cap \<Longrightarrow> form_ok (form_of L cap args scope pattern)"
  by (auto simp: form_of_def args_hash_colon_free split: remember_scope.splits option.splits)

lemma grants_of_ok:
  "hex_digest L \<Longrightarrow> plain_names ops \<Longrightarrow> (\<And>f. f \<in> acc \<Longrightarrow> form_ok f) \<Longrightarrow>
   f \<in> grants_of L sid ops acc \<Longrightarrow> form_ok f"
proof (induction L sid ops acc rule: grants_of.induct)
  case (2 L sid s cap args scope pattern ops acc)
  show ?case
    by (rule "2.IH") (use 2 form_of_ok in \<open>auto simp: plain_names_def split: if_splits\<close>)
next
  case (3 L sid s ops acc)
  show ?case
    by (rule "3.IH") (use 3 in \<open>auto simp: plain_names_def split: if_splits\<close>)
qed simp

text \<open>C37. The session allowlist implements its specification.  After any history of remembered
  approvals and session clears, a call is pre-approved in a session exactly when one of the grants
  remembered for this session since it was last cleared covers it: the whole capability, a
  wildcard matching its command text, its command verb, or the same arguments.  The strings the
  grants are stored as identify them, provided capability names carry no colon and digests are
  hexadecimal.\<close>
theorem allowlist_refines_grants:
  assumes "hex_digest L" and "plain_names ops" and "colon_free cap"
  shows "is_session_approved L sid cap args (run_allow L ops new_approval_registry) \<longleftrightarrow>
           (\<exists>f\<in>grants_of L sid ops {}. covers L cap args f)"
proof -
  let ?F = "grants_of L sid ops {}"
  have "allowed_keys sid new_approval_registry = render_form ` {}"
    by simp
  then have keys: "allowed_keys sid (run_allow L ops new_approval_registry) = render_form ` ?F"
    by (rule allowed_keys_run)
  have ok: "f \<in> ?F \<Longrightarrow> form_ok f" for f
    using grants_of_ok [OF assms(1,2)] by blast
  note mem = mem_render [OF ok assms(3)] args_hash_colon_free [OF assms(1)]
  show ?thesis
    unfolding is_session_approved_keys keys covers_set by (simp add: mem)
qed

definition ex_lib :: py_lib where
  "ex_lib = \<lparr>lib_dumps = (\<lambda>v. []), lib_sha256 = (\<lambda>s. ''0f'' @ map (\<lambda>c. CHR ''a'') s),
     lib_str = (\<lambda>v. ''obj''), lib_uuid = (\<lambda>n. ''id-'' @ show_nat n)\<rparr>"

lemma ex_lib_hex: "hex_digest ex_lib"
  by (auto simp: hex_digest_def ex_lib_def colon_free_def)

definition ex_history :: "allow_op list" where
  "ex_history = [Remember ''s1'' ''terminal'' [(''command'', PStr ''git push'')] ScopeSameVerb None]"

lemma ex_verb:
  "extract_verb ''terminal'' [(''command'', PStr ''git push'')] = Some ''git''"
  "extract_verb ''terminal'' [(''command'', PStr ''git log'')] = Some ''git''"
  by code_simp+

theorem allowlist_refines_grants_witness:
  "is_session_approved ex_lib ''s1'' ''terminal'' [(''command'', PStr ''git log'')]
     (run_allow ex_lib ex_history new_approval_registry)"
proof -
  have "hex_digest ex_lib" by (rule ex_lib_hex)
  moreover have "plain_names ex_history"
    by (simp add: plain_names_def ex_history_def colon_free_def)
  moreover have "colon_free ''terminal''" by (simp add: colon_free_def)
  ultimately show ?thesis
    by (subst allowlist_refines_grants)
      (simp_all add: ex_history_def form_of_def ex_verb)
qed

text \<open>Without the proviso the stored strings are ambiguous: a wildcard remembered for a
  capability \<open>c\<close> with a pattern that begins like the rest of a longer name \<open>c:d\<close> also pre-approves
  every call of \<open>c:d\<close>, which no remembered grant covers.\<close>
theorem colon_name_inherits_pattern:
  "is_session_approved L sid ''mcp.a:b'' [(''x'', PStr ''1'')]
           (run_allow L [Remember sid ''mcp.a'' args ScopePattern (Some ''b:*'')] new_approval_registry)
   \<and> grants_of L sid [Remember sid ''mcp.a'' args ScopePattern (Some ''b:*'')] {}
           = {FormPattern ''mcp.a'' ''b:*''}
   \<and> \<not> covers L ''mcp.a:b'' [(''x'', PStr ''1'')] (FormPattern ''mcp.a'' ''b:*'')"
proof -
  have keys: "allowed_keys sid (run_allow L [Remember sid ''mcp.a'' args ScopePattern (Some ''b:*'')]
                new_approval_registry) = {pattern_prefix ''mcp.a:b'' @ ''*''}"
    by (simp add: scope_key_def pattern_prefix_def)
  have cmd: "extract_command_str L ''mcp.a:b'' [(''x'', PStr ''1'')] = Some ''x=1''"
    by (simp add: extract_command_str_def stringified_args_def)
  have "fnmatch ''x=1'' ''*''"
    using glob_prefix_star [of "[]" "''x=1''"] by (simp add: fnmatch_def starts_with_iff)
  with keys cmd have "is_session_approved L sid ''mcp.a:b'' [(''x'', PStr ''1'')]
           (run_allow L [Remember sid ''mcp.a'' args ScopePattern (Some ''b:*'')] new_approval_registry)"
    unfolding is_session_approved_keys by auto
  then show ?thesis by (simp add: form_of_def)
qed

end
