(* ===== verification/Approval_Flow.thy ===== *)
theory Approval_Flow
  imports Approvals
begin

text \<open>
  The endpoints that decide a request (\<^verbatim>\<open>api/approvals.py\<close>, \<^verbatim>\<open>api/elicitation.py\<close>) over the
  request rows and the in-process registries, and the barrier that holds the calls of one model
  turn until each has its decision (\<open>ApprovalBatch\<close> of \<^verbatim>\<open>harness/loop.py\<close>).  A table is an
  association list from row identifiers to rows; timestamps are integers; the retry of a
  transaction that met a locked database is not modelled.
\<close>

section \<open>Request rows\<close>

record approval_row =
  ap_run :: string
  ap_call :: "string option"
  ap_sub_agent :: "string option"
  ap_capability :: string
  ap_args :: string
  ap_status :: string
  ap_decided_by :: "string option"
  ap_decided_at :: "int option"

record elicitation_row =
  eq_run :: string
  eq_call :: "string option"
  eq_sub_agent :: "string option"
  eq_question :: pyval
  eq_options :: "string option"
  eq_status :: string
  eq_response :: "pyval option"
  eq_responded_by :: "string option"
  eq_responded_at :: "int option"

datatype http_error = HttpError int string

fun parse_scope :: "string \<Rightarrow> remember_scope option" where
  "parse_scope s =
     (if s = ''exact'' then Some ScopeExact
      else if s = ''same_verb'' then Some ScopeSameVerb
      else if s = ''pattern'' then Some ScopePattern
      else if s = ''capability'' then Some ScopeCapability
      else None)"


section \<open>Deciding approvals\<close>

record approve_request =
  ar_remember :: bool
  ar_scope :: string
  ar_pattern :: "string option"

definition default_approve :: approve_request where
  "default_approve = \<lparr>ar_remember = False, ar_scope = ''exact'', ar_pattern = None\<rparr>"

type_synonym approval_table = "(string \<times> approval_row) list"

text \<open>The transaction both endpoints share: look the row up, refuse a decided one, persist.\<close>

definition persist_decision ::
    "string \<Rightarrow> string \<Rightarrow> string \<Rightarrow> int \<Rightarrow> approval_table \<Rightarrow> http_error + approval_table" where
  "persist_decision i decision operator now tab =
     (case map_of tab i of
        None \<Rightarrow> Inl (HttpError 404 ''Approval not found'')
      | Some row \<Rightarrow>
          if ap_status row \<noteq> ''pending''
          then Inl (HttpError 400 (''Approval already '' @ ap_status row))
          else Inr (AList.update i (row\<lparr>ap_status := decision, ap_decided_by := Some operator,
                      ap_decided_at := Some now\<rparr>) tab))"

definition api_approve ::
    "string \<Rightarrow> approve_request \<Rightarrow> string \<Rightarrow> int \<Rightarrow> approval_table \<Rightarrow> approval_registry
     \<Rightarrow> http_error + (approval_table \<times> approval_registry)" where
  "api_approve i body operator now tab reg =
     (let scope = (case parse_scope (ar_scope body) of Some s \<Rightarrow> s | None \<Rightarrow> ScopeExact) in
      sbind (persist_decision i ''approved'' operator now tab) (\<lambda>tab'.
        Inr (tab', snd (resolve_approval i
                     \<lparr>rs_decision = ''approved'', rs_by = operator, rs_remember = ar_remember body,
                      rs_scope = scope, rs_pattern = ar_pattern body\<rparr> reg))))"

definition api_reject ::
    "string \<Rightarrow> string \<Rightarrow> int \<Rightarrow> approval_table \<Rightarrow> approval_registry
     \<Rightarrow> http_error + (approval_table \<times> approval_registry)" where
  "api_reject i operator now tab reg =
     sbind (persist_decision i ''rejected'' operator now tab) (\<lambda>tab'.
       Inr (tab', snd (resolve_approval i (plain_resolution ''rejected'' operator) reg)))"

definition list_approvals :: "string \<Rightarrow> approval_table \<Rightarrow> (string \<times> approval_row) list" where
  "list_approvals status tab = filter (\<lambda>(i, row). ap_status row = status) tab"

text \<open>A sequence of requests from operators; a refused request changes nothing.\<close>

datatype approval_call =
    CallApprove string approve_request string int
  | CallReject string string int

fun call_target :: "approval_call \<Rightarrow> string" where
  "call_target (CallApprove i body operator now) = i"
| "call_target (CallReject i operator now) = i"

fun serve_approval ::
    "approval_call \<Rightarrow> approval_table \<Rightarrow> approval_registry
     \<Rightarrow> http_error + (approval_table \<times> approval_registry)" where
  "serve_approval (CallApprove i body operator now) tab reg = api_approve i body operator now tab reg"
| "serve_approval (CallReject i operator now) tab reg = api_reject i operator now tab reg"

fun serve_approvals ::
    "approval_call list \<Rightarrow> approval_table \<Rightarrow> approval_registry
     \<Rightarrow> approval_table \<times> approval_registry" where
  "serve_approvals [] tab reg = (tab, reg)"
| "serve_approvals (c # cs) tab reg =
     (case serve_approval c tab reg of
        Inl e \<Rightarrow> serve_approvals cs tab reg
      | Inr (tab', reg') \<Rightarrow> serve_approvals cs tab' reg')"

text \<open>The row of a request and the entry its waiter reads agree.\<close>

definition row_agrees :: "approval_row \<Rightarrow> pending_approval \<Rightarrow> bool" where
  "row_agrees row pa \<longleftrightarrow>
     (if ap_status row = ''pending'' then pa_decision pa = None \<and> \<not> pa_event pa
      else pa_decision pa = Some (ap_status row) \<and> pa_decided_by pa = ap_decided_by row
           \<and> pa_event pa)"

definition tables_agree :: "approval_table \<Rightarrow> approval_registry \<Rightarrow> bool" where
  "tables_agree tab reg \<longleftrightarrow>
     (\<forall>i row pa. map_of tab i = Some row \<longrightarrow> get_approval i reg = Some pa \<longrightarrow> row_agrees row pa)"

lemma persist_decision_ok:
  assumes "persist_decision i d operator now tab = Inr tab'"
  obtains row where "map_of tab i = Some row" and "ap_status row = ''pending''"
    and "tab' = AList.update i (row\<lparr>ap_status := d, ap_decided_by := Some operator,
                      ap_decided_at := Some now\<rparr>) tab"
  using assms by (auto simp: persist_decision_def split: option.splits if_splits)

text \<open>One served request: who decided, and how.\<close>

lemma serve_approval_ok:
  assumes "serve_approval c tab reg = Inr (tab', reg')"
  obtains row res where "map_of tab (call_target c) = Some row" and "ap_status row = ''pending''"
    and "rs_decision res \<in> {''approved'', ''rejected''}"
    and "map_of tab' = (map_of tab)(call_target c \<mapsto>
           row\<lparr>ap_status := rs_decision res, ap_decided_by := Some (rs_by res),
               ap_decided_at := ap_decided_at (the (map_of tab' (call_target c)))\<rparr>)"
    and "reg' = snd (resolve_approval (call_target c) res reg)"
proof (cases c)
  case (CallApprove i body operator now)
  let ?res = "\<lparr>rs_decision = ''approved'', rs_by = operator, rs_remember = ar_remember body,
     rs_scope = (case parse_scope (ar_scope body) of Some s \<Rightarrow> s | None \<Rightarrow> ScopeExact),
     rs_pattern = ar_pattern body\<rparr>"
  from assms CallApprove have p: "persist_decision i ''approved'' operator now tab = Inr tab'"
    and r: "reg' = snd (resolve_approval i ?res reg)"
    by (auto simp: api_approve_def Let_def simp del: parse_scope.simps)
  from p show ?thesis
    by (rule persist_decision_ok) (rule that [of _ ?res], use r CallApprove in \<open>auto simp: update_conv'\<close>)
next
  case (CallReject i operator now)
  from assms CallReject have p: "persist_decision i ''rejected'' operator now tab = Inr tab'"
    and r: "reg' = snd (resolve_approval i (plain_resolution ''rejected'' operator) reg)"
    by (auto simp: api_reject_def)
  from p show ?thesis
    by (rule persist_decision_ok)
      (rule that [of _ "plain_resolution ''rejected'' operator"],
        use r CallReject in \<open>auto simp: update_conv' plain_resolution_def\<close>)
qed

lemma serve_approval_agree:
  assumes "serve_approval c tab reg = Inr (tab', reg')" and "tables_agree tab reg"
  shows "tables_agree tab' reg'"
  using assms(1)
proof (rule serve_approval_ok)
  fix row res
  assume row: "map_of tab (call_target c) = Some row" "ap_status row = ''pending''"
    and dec: "rs_decision res \<in> {''approved'', ''rejected''}"
    and tab': "map_of tab' = (map_of tab)(call_target c \<mapsto>
           row\<lparr>ap_status := rs_decision res, ap_decided_by := Some (rs_by res),
               ap_decided_at := ap_decided_at (the (map_of tab' (call_target c)))\<rparr>)"
    and reg': "reg' = snd (resolve_approval (call_target c) res reg)"
  show "tables_agree tab' reg'"
    unfolding tables_agree_def
  proof (intro allI impI)
    fix i rw pa
    assume i: "map_of tab' i = Some rw" "get_approval i reg' = Some pa"
    show "row_agrees rw pa"
    proof (cases "i = call_target c")
      case True
      with i(2) reg' have "pa = apply_resolution res"
        by (auto simp: ap.get_resolve split: if_splits)
      moreover from True i(1) tab' have "ap_status rw = rs_decision res"
        "ap_decided_by rw = Some (rs_by res)"
        by (metis approval_row.ext_inject approval_row.surjective approval_row.update_convs fun_upd_same
            option.inject)+
      ultimately show ?thesis using dec
        by (auto simp: row_agrees_def apply_resolution_def)
    next
      case False
      with i(1) tab' have "map_of tab i = Some rw" by (metis fun_upd_other)
      moreover from False i(2) reg' have "get_approval i reg = Some pa"
        by (auto simp: ap.get_resolve split: if_splits)
      ultimately show ?thesis using assms(2) by (auto simp: tables_agree_def)
    qed
  qed
qed

lemma serve_approval_decided:
  assumes "serve_approval c tab reg = Inr (tab', reg')"
    and "map_of tab i = Some row" and "ap_status row \<noteq> ''pending''"
  shows "map_of tab' i = Some row \<and> get_approval i reg' = get_approval i reg"
  using assms(1)
proof (rule serve_approval_ok)
  fix rw res
  assume rw: "map_of tab (call_target c) = Some rw" "ap_status rw = ''pending''"
    and tab': "map_of tab' = (map_of tab)(call_target c \<mapsto>
           rw\<lparr>ap_status := rs_decision res, ap_decided_by := Some (rs_by res),
               ap_decided_at := ap_decided_at (the (map_of tab' (call_target c)))\<rparr>)"
    and reg': "reg' = snd (resolve_approval (call_target c) res reg)"
  from rw assms(2,3) have ne: "i \<noteq> call_target c" by auto
  from ne tab' assms(2) have "map_of tab' i = Some row" by (metis fun_upd_other)
  with ne reg' show ?thesis by (simp add: ap.get_resolve)
qed

lemma serve_approvals_agree:
  "serve_approvals cs tab reg = (tab', reg') \<Longrightarrow> tables_agree tab reg \<Longrightarrow> tables_agree tab' reg'"
  by (induction cs tab reg rule: serve_approvals.induct)
    (auto split: sum.splits prod.splits dest: serve_approval_agree)

lemma serve_approvals_decided:
  "serve_approvals cs tab reg = (tab', reg') \<Longrightarrow> map_of tab i = Some row \<Longrightarrow>
   ap_status row \<noteq> ''pending'' \<Longrightarrow>
   map_of tab' i = Some row \<and> get_approval i reg' = get_approval i reg"
proof (induction cs tab reg rule: serve_approvals.induct)
  case (2 c cs tab reg)
  show ?case
  proof (cases "serve_approval c tab reg")
    case (Inl e)
    with 2 show ?thesis by simp
  next
    case (Inr r)
    obtain t1 r1 where r: "r = (t1, r1)" by (cases r)
    note step = serve_approval_decided [OF Inr [unfolded r] "2.prems"(2,3)]
    from Inr r "2.prems"(1) have "serve_approvals cs t1 r1 = (tab', reg')" by simp
    with "2.IH"(2) [OF Inr r [symmetric]] step "2.prems"(3) show ?thesis by simp
  qed
qed simp


text \<open>A request is decided once.  After the first decision every approve and reject request
  for it answers 400, and no sequence of requests changes the row or what its waiter reads.\<close>
theorem decided_once:
  assumes "map_of tab i = Some row" and "ap_status row \<noteq> ''pending''"
  shows "(case serve_approvals cs tab reg of (tab', reg') \<Rightarrow>
            map_of tab' i = Some row \<and> get_approval i reg' = get_approval i reg)
    \<and> api_approve i body operator now tab reg = Inl (HttpError 400 (''Approval already '' @ ap_status row))
    \<and> api_reject i operator now tab reg = Inl (HttpError 400 (''Approval already '' @ ap_status row))"
  using assms
  by (auto simp: api_approve_def api_reject_def persist_decision_def Let_def
      dest: serve_approvals_decided [OF _ assms] simp del: parse_scope.simps)

definition ex_row :: approval_row where
  "ex_row = \<lparr>ap_run = ''r1'', ap_call = None, ap_sub_agent = None, ap_capability = ''terminal'',
     ap_args = ''{}'', ap_status = ''pending'', ap_decided_by = None, ap_decided_at = None\<rparr>"


theorem decided_once_witness:
  "api_reject ''a1'' ''op2'' 6 [(''a1'', ex_row\<lparr>ap_status := ''approved''\<rparr>)] new_approval_registry
     = Inl (HttpError 400 ''Approval already approved'')"
  using decided_once [of "[(''a1'', ex_row\<lparr>ap_status := ''approved''\<rparr>)]" "''a1''"
      "ex_row\<lparr>ap_status := ''approved''\<rparr>"]
  by simp


section \<open>Answering elicitations\<close>

type_synonym elicitation_table = "(string \<times> elicitation_row) list"

definition list_pending_elicitation :: "elicitation_table \<Rightarrow> (string \<times> elicitation_row) list" where
  "list_pending_elicitation tab = filter (\<lambda>(i, row). eq_status row = ''pending'') tab"

text \<open>
  The answer is persisted before the waiter is looked for, so the last error leaves the row
  answered; the state is therefore part of every outcome.
\<close>

definition respond_to_elicitation ::
    "string \<Rightarrow> string \<Rightarrow> string \<Rightarrow> int \<Rightarrow> elicitation_table \<Rightarrow> elicitation_registry
     \<Rightarrow> http_error option \<times> elicitation_table \<times> elicitation_registry" where
  "respond_to_elicitation i response operator now tab reg =
     (case map_of tab i of
        None \<Rightarrow> (Some (HttpError 404 ''Elicitation request not found''), tab, reg)
      | Some row \<Rightarrow>
          if eq_status row \<noteq> ''pending''
          then (Some (HttpError 400 (''Elicitation already '' @ eq_status row)), tab, reg)
          else
            let tab' = AList.update i (row\<lparr>eq_status := ''answered'', eq_response := Some (PStr response),
                         eq_responded_by := Some operator, eq_responded_at := Some now\<rparr>) tab;
                (resolved, reg') = resolve_elicitation i (PStr response, operator) reg
            in if \<not> resolved
               then (Some (HttpError 500
                      ''Elicitation event not found in registry (process may have restarted)''), tab', reg')
               else (None, tab', reg'))"

text \<open>Answering a question needs a live waiter, and says so too late: with no entry in the
  registry the endpoint answers 500 although the row is already stored as answered, so the
  question can never be answered again; with a waiter it succeeds and the waiter reads the
  response that was stored.\<close>
theorem respond_outcome:
  assumes "map_of tab i = Some row" and "eq_status row = ''pending''"
    and "respond_to_elicitation i response operator now tab reg = (e, tab', reg')"
  shows "(e = None \<longleftrightarrow> get_elicitation i reg \<noteq> None)
    \<and> (\<exists>row'. map_of tab' i = Some row' \<and> eq_status row' = ''answered''
         \<and> eq_response row' = Some (PStr response))
    \<and> (e = None \<longrightarrow> get_elicitation i reg' = Some (answer_elicitation (PStr response, operator)))
    \<and> fst (respond_to_elicitation i again operator' now' tab' reg'')
        = Some (HttpError 400 ''Elicitation already answered'')"
  using assms el.resolve_found [of i "(PStr response, operator)" reg]
    el.get_resolve [of i i "(PStr response, operator)" reg]
  by (auto simp: respond_to_elicitation_def Let_def split: prod.splits if_splits)

definition ex_question :: elicitation_row where
  "ex_question = \<lparr>eq_run = ''r1'', eq_call = None, eq_sub_agent = None, eq_question = PStr ''Which?'',
     eq_options = None, eq_status = ''pending'', eq_response = None, eq_responded_by = None,
     eq_responded_at = None\<rparr>"

theorem respond_outcome_witness:
  "fst (respond_to_elicitation ''e1'' ''yes'' ''op'' 5 [(''e1'', ex_question)] []) \<noteq> None"
proof -
  obtain e tab' reg' where
    run: "respond_to_elicitation ''e1'' ''yes'' ''op'' 5 [(''e1'', ex_question)] [] = (e, tab', reg')"
    by (metis prod_cases3)
  have "e \<noteq> None"
    using respond_outcome [OF _ _ run] by (simp add: ex_question_def get_elicitation_def)
  with run show ?thesis by simp
qed


section \<open>The barrier of one model turn\<close>

record approval_batch =
  ab_call_ids :: "string list"
  ab_pending :: "string set"
  ab_event :: bool

definition new_batch :: "string list \<Rightarrow> approval_batch" where
  "new_batch ids = \<lparr>ab_call_ids = ids, ab_pending = set ids, ab_event = False\<rparr>"

definition approval_batch_for :: "string list \<Rightarrow> approval_batch option" where
  "approval_batch_for ids = (if length ids < 2 then None else Some (new_batch ids))"

text \<open>The locked part of \<open>arrive\<close>; the caller then waits for the event.\<close>

definition arrive :: "string \<Rightarrow> approval_batch \<Rightarrow> approval_batch" where
  "arrive c b =
     (let p = ab_pending b - {c}
      in b\<lparr>ab_pending := p, ab_event := (if p = {} then True else ab_event b)\<rparr>)"

text \<open>A call of the turn is being decided, waits in \<open>arrive\<close> with its decision, or has returned.\<close>

datatype call_phase = Deciding | Waiting bool | Returned bool

type_synonym turn = "approval_batch \<times> (nat \<Rightarrow> call_phase)"

inductive turn_step :: "turn \<Rightarrow> turn \<Rightarrow> bool" where
  Arrive: "i < length (ab_call_ids b) \<Longrightarrow> ph i = Deciding \<Longrightarrow>
     turn_step (b, ph) (arrive (ab_call_ids b ! i) b, ph(i := Waiting approved))"
| Release: "i < length (ab_call_ids b) \<Longrightarrow> ph i = Waiting approved \<Longrightarrow> ab_event b \<Longrightarrow>
     turn_step (b, ph) (b, ph(i := Returned approved))"

inductive_cases turn_stepE: "turn_step (b, ph) t"

definition turn_start :: "string list \<Rightarrow> turn" where
  "turn_start ids = (new_batch ids, \<lambda>_. Deciding)"

definition undecided :: "string list \<Rightarrow> (nat \<Rightarrow> call_phase) \<Rightarrow> string set" where
  "undecided ids ph = {ids ! i | i. i < length ids \<and> ph i = Deciding}"

definition turn_inv :: "string list \<Rightarrow> turn \<Rightarrow> bool" where
  "turn_inv ids t \<longleftrightarrow>
     (case t of (b, ph) \<Rightarrow>
        ab_call_ids b = ids
      \<and> ab_pending b = undecided ids ph
      \<and> (ab_event b \<longleftrightarrow> ab_pending b = {})
      \<and> (\<forall>i a. ph i = Returned a \<longrightarrow> ab_event b))"

lemma undecided_other:
  "ph i \<noteq> Deciding \<Longrightarrow> x \<noteq> Deciding \<Longrightarrow> undecided ids (ph(i := x)) = undecided ids ph"
  by (auto simp: undecided_def)

lemma undecided_arrive:
  assumes "distinct ids" and "i < length ids" and "x \<noteq> Deciding"
  shows "undecided ids (ph(i := x)) = undecided ids ph - {ids ! i}"
  using assms by (auto simp: undecided_def nth_eq_iff_index_eq)

lemma turn_inv_start: "ids \<noteq> [] \<Longrightarrow> turn_inv ids (turn_start ids)"
  by (auto simp: turn_inv_def turn_start_def new_batch_def undecided_def in_set_conv_nth)

lemma turn_inv_step:
  assumes "distinct ids" and "turn_inv ids t" and "turn_step t t'"
  shows "turn_inv ids t'"
proof -
  obtain b ph where t: "t = (b, ph)" by (cases t)
  from assms(2) t have inv: "ab_call_ids b = ids" "ab_pending b = undecided ids ph"
      "ab_event b \<longleftrightarrow> ab_pending b = {}" "\<And>i a. ph i = Returned a \<Longrightarrow> ab_event b"
    by (auto simp: turn_inv_def)
  from assms(3) t show ?thesis
  proof (auto elim!: turn_stepE)
    fix i approved
    assume i: "i < length (ab_call_ids b)" and ph: "ph i = Deciding"
    from i inv(1) have u: "undecided ids (ph(i := Waiting approved)) = undecided ids ph - {ids ! i}"
      using assms(1) by (intro undecided_arrive) auto
    have nonempty: "ab_pending b \<noteq> {}"
      using i ph inv(1,2) by (auto simp: undecided_def)
    then have "\<not> ab_event b" using inv(3) by simp
    with inv u show "turn_inv ids (arrive (ab_call_ids b ! i) b, ph(i := Waiting approved))"
      by (auto simp: turn_inv_def arrive_def Let_def split: if_splits)
  next
    fix i approved
    assume "ph i = Waiting approved" and "ab_event b"
    with inv show "turn_inv ids (b, ph(i := Returned approved))"
      by (auto simp: turn_inv_def undecided_other)
  qed
qed

lemma turn_inv_reachable:
  assumes "distinct ids" and "ids \<noteq> []" and "turn_step\<^sup>*\<^sup>* (turn_start ids) t"
  shows "turn_inv ids t"
  using assms(3)
  by (induction rule: rtranclp_induct)
    (use assms(1,2) in \<open>auto intro: turn_inv_start turn_inv_step\<close>)

text \<open>The barrier of a model turn is sound: whatever the order in which the decisions of the
  turn arrive, no call leaves the barrier, approved or not, while another call of the turn is
  still being decided.\<close>
theorem barrier_waits_for_all:
  assumes "distinct ids" and "turn_step\<^sup>*\<^sup>* (turn_start ids) (b, ph)"
    and "i < length ids" and "ph i = Returned a" and "j < length ids"
  shows "ph j \<noteq> Deciding"
proof -
  from assms(3) have "ids \<noteq> []" by auto
  with assms have "turn_inv ids (b, ph)" by (intro turn_inv_reachable)
  with assms(4,5) show ?thesis by (auto simp: turn_inv_def undecided_def)
qed

text \<open>The barrier cannot deadlock: once every call of the turn has its decision the event is
  set, so each call still waiting can return with the decision it brought.\<close>
theorem barrier_opens:
  assumes "distinct ids" and "turn_step\<^sup>*\<^sup>* (turn_start ids) (b, ph)"
    and "i < length ids" and "ph i = Waiting a" and "\<forall>j<length ids. ph j \<noteq> Deciding"
  shows "turn_step (b, ph) (b, ph(i := Returned a))"
proof -
  from assms(3) have "ids \<noteq> []" by auto
  with assms have "turn_inv ids (b, ph)" by (intro turn_inv_reachable)
  with assms(5) have "ab_event b" and "ab_call_ids b = ids"
    by (auto simp: turn_inv_def undecided_def)
  with assms(3,4) show ?thesis by (auto intro: turn_step.Release)
qed

definition ex_phases :: "nat \<Rightarrow> call_phase" where
  "ex_phases = (\<lambda>_. Deciding)(0 := Waiting True, 1 := Waiting False)"

definition ex_batch :: approval_batch where
  "ex_batch = arrive ''c2'' (arrive ''c1'' (new_batch [''c1'', ''c2'']))"

lemma ex_turn: "turn_step\<^sup>*\<^sup>* (turn_start [''c1'', ''c2'']) (ex_batch, ex_phases)"
proof -
  have "turn_step (turn_start [''c1'', ''c2''])
          (arrive ''c1'' (new_batch [''c1'', ''c2'']), (\<lambda>_. Deciding)(0 := Waiting True))"
    using turn_step.Arrive [of 0 "new_batch [''c1'', ''c2'']" "\<lambda>_. Deciding" True]
    by (simp add: turn_start_def new_batch_def)
  moreover have "turn_step (arrive ''c1'' (new_batch [''c1'', ''c2'']), (\<lambda>_. Deciding)(0 := Waiting True))
          (ex_batch, ex_phases)"
    using turn_step.Arrive [of 1 "arrive ''c1'' (new_batch [''c1'', ''c2''])"
        "(\<lambda>_. Deciding)(0 := Waiting True)" False]
    by (simp add: ex_batch_def ex_phases_def new_batch_def arrive_def Let_def)
  ultimately show ?thesis by (meson converse_rtranclp_into_rtranclp rtranclp.rtrancl_refl)
qed

lemma ex_release: "turn_step (ex_batch, ex_phases) (ex_batch, ex_phases(0 := Returned True))"
  by (rule turn_step.Release)
    (simp_all add: ex_batch_def ex_phases_def new_batch_def arrive_def Let_def)

theorem barrier_waits_for_all_witness:
  "(ex_phases(0 := Returned True)) 1 \<noteq> Deciding"
  using barrier_waits_for_all [of "[''c1'', ''c2'']" ex_batch "ex_phases(0 := Returned True)" 0 True 1]
    rtranclp.rtrancl_into_rtrancl [OF ex_turn ex_release]
  by simp

theorem barrier_opens_witness:
  "turn_step (ex_batch, ex_phases) (ex_batch, ex_phases(1 := Returned False))"
  by (rule barrier_opens [OF _ ex_turn]) (auto simp: ex_phases_def less_Suc_eq)

end
