(* ===== verification/Mcp_Servers.thy ===== *)
theory Mcp_Servers
  imports Run_Catalog Approvals
begin

text \<open>
  MCP servers: tool discovery and the tool map (\<^verbatim>\<open>mcp/registry.py\<close>), the binding of a contact to
  a server and credential (\<^verbatim>\<open>mcp/binding.py\<close>), and the rendering of credentials into environment
  and header templates (\<^verbatim>\<open>mcp/credentials.py\<close>).  Decryption, JSON parsing, the connection to the
  server process and the remote call are parameters; the OAuth flow is not modelled.
\<close>

section \<open>Credentials and bindings\<close>

text \<open>\<open>sl_decrypt\<close> is Fernet decryption (\<open>None\<close> when it raises), \<open>sl_loads\<close> is \<open>json.loads\<close>.\<close>

record secret_lib =
  sl_decrypt :: "string \<Rightarrow> string option"
  sl_loads :: "string \<Rightarrow> pydict"

record credential_row =
  cr_id :: string
  cr_server_id :: string
  cr_type :: string
  cr_encrypted :: string

record binding_row =
  bi_id :: string
  bi_contact_id :: string
  bi_server_id :: string
  bi_credential_id :: string

datatype cred_value = CredText string | CredDict pydict

definition DICT_CREDENTIALS :: "string list" where
  "DICT_CREDENTIALS = [''oauth_token'', ''oauth_client_info'', ''oauth_metadata'',
     ''protected_resource_metadata'']"

definition decrypt_credential :: "secret_lib \<Rightarrow> credential_row \<Rightarrow> cred_value option" where
  "decrypt_credential S cred =
     (case sl_decrypt S (cr_encrypted cred) of
        None \<Rightarrow> None
      | Some plaintext \<Rightarrow>
          Some (if cr_type cred \<in> set DICT_CREDENTIALS then CredDict (sl_loads S plaintext)
                else CredText plaintext))"

text \<open>\<open>render\<close>: the placeholders of one template.\<close>

definition VALUE_PLACEHOLDER :: string where
  "VALUE_PLACEHOLDER = ''{{credential_value}}''"

fun render_fields :: "py_lib \<Rightarrow> pydict \<Rightarrow> string \<Rightarrow> string" where
  "render_fields L [] template = template"
| "render_fields L ((key, val) # rest) template =
     render_fields L rest (replace_all (''{{credential.'' @ key @ ''}}'') (py_str L val) template)"

fun render_template :: "py_lib \<Rightarrow> cred_value \<Rightarrow> string \<Rightarrow> string" where
  "render_template L (CredText v) template = replace_all VALUE_PLACEHOLDER v template"
| "render_template L (CredDict d) template =
     (let t = render_fields L d template in
      if contains VALUE_PLACEHOLDER t then replace_all VALUE_PLACEHOLDER (lib_dumps L (PDict d)) t
      else t)"

type_synonym template = "(string \<times> string) list"

definition inject_credential ::
    "py_lib \<Rightarrow> template \<Rightarrow> template \<Rightarrow> cred_value \<Rightarrow> template \<times> template" where
  "inject_credential L env_template headers_template v =
     (map (\<lambda>(k, t). (k, render_template L v t)) env_template,
      map (\<lambda>(k, t). (k, render_template L v t)) headers_template)"

text \<open>
  \<open>get_binding\<close> and \<open>resolve_binding\<close>; a query for one row raises when it finds several
  (\<open>MultipleResultsFound\<close>).
\<close>

definition one_or_none :: "'a list \<Rightarrow> string + 'a option" where
  "one_or_none rows = (case rows of [] \<Rightarrow> Inr None | [r] \<Rightarrow> Inr (Some r)
     | _ \<Rightarrow> Inl ''Multiple rows were found when one or none was required'')"

definition get_binding :: "binding_row list \<Rightarrow> string \<Rightarrow> string \<Rightarrow> string + binding_row option" where
  "get_binding tab contact server =
     one_or_none (filter (\<lambda>b. bi_contact_id b = contact \<and> bi_server_id b = server) tab)"

definition list_credentials :: "credential_row list \<Rightarrow> string \<Rightarrow> credential_row list" where
  "list_credentials tab server = filter (\<lambda>c. cr_server_id c = server) tab"

definition resolve_binding ::
    "binding_row list \<Rightarrow> mcp_server list \<Rightarrow> credential_row list \<Rightarrow> string \<Rightarrow> string
     \<Rightarrow> string + credential_row option" where
  "resolve_binding binds servers creds contact server =
     sbind (get_binding binds contact server) (\<lambda>b.
       case b of
         None \<Rightarrow> Inr None
       | Some b \<Rightarrow>
           (case find (\<lambda>s. ms_id s = server) servers of
              None \<Rightarrow> Inr None
            | Some s \<Rightarrow> Inr (find (\<lambda>c. cr_id c = bi_credential_id b) creds)))"


section \<open>Discovery and the tool map\<close>

record discovered_tool =
  dt_name :: string
  dt_description :: string
  dt_schema :: pydict
  dt_annotations :: pyval

definition namespace :: "string \<Rightarrow> string \<Rightarrow> string" where
  "namespace server_name tool_name =
     (let safe = replace_all ''.'' ''_'' (replace_all '' '' ''_'' (py_lower server_name))
      in ''mcp.'' @ safe @ ''.'' @ tool_name)"

record connection =
  cn_env :: template
  cn_headers :: template

record mcp_state =
  mx_tables :: mcp_tables
  mx_registry :: registry
  mx_tool_map :: tool_map
  mx_clients :: "(string \<times> connection) list"

definition discovered_row :: "mcp_server \<Rightarrow> discovered_tool \<Rightarrow> mcp_tool" where
  "discovered_row server t =
     \<lparr>mt_server_id = ms_id server, mt_tool_name = dt_name t,
      mt_capability_name = namespace (ms_name server) (dt_name t),
      mt_description = dt_description t, mt_schema = dt_schema t, mt_egress = True,
      mt_require_approval = ms_require_approval server, mt_subject_scoped = True,
      mt_effects = Some (effects_from_mcp_annotations (dt_annotations t))\<rparr>"

text \<open>The definition registered for a row.\<close>

definition row_capability :: "mcp_tool \<Rightarrow> cap_error + capability" where
  "row_capability row =
     mk_capability (mt_capability_name row) KMcpTool (mt_description row) (mt_schema row)
       (mt_egress row) (mt_require_approval row) (mt_subject_scoped row) False
       (Some (case mt_effects row of None \<Rightarrow> DEFAULT_MUTATING | Some e \<Rightarrow> e))"

definition register_row :: "mcp_tool \<Rightarrow> registry \<Rightarrow> cap_error + registry" where
  "register_row row reg = sbind (row_capability row) (\<lambda>c. register c reg)"

text \<open>
  The loop over the discovered tools.  A definition that is refused ends it with the registry and
  the tool map as they are by then, and the rows of the transaction are rolled back.
\<close>

fun discover_loop ::
    "mcp_server \<Rightarrow> discovered_tool list \<Rightarrow> mcp_tool list \<Rightarrow> registry \<Rightarrow> tool_map
     \<Rightarrow> cap_error option \<times> mcp_tool list \<times> registry \<times> tool_map" where
  "discover_loop server [] rows reg tm = (None, rows, reg, tm)"
| "discover_loop server (t # ts) rows reg tm =
     (let row = discovered_row server t in
      case register_row row reg of
        Inl e \<Rightarrow> (Some e, rows, reg, tm)
      | Inr reg' \<Rightarrow> discover_loop server ts (rows @ [row]) reg'
                     (AList.update (mt_capability_name row) (ms_id server, dt_name t) tm))"

definition discover_tools ::
    "mcp_server \<Rightarrow> discovered_tool list \<Rightarrow> mcp_state \<Rightarrow> cap_error option \<times> mcp_state" where
  "discover_tools server tools st =
     (let kept = filter (\<lambda>r. mt_server_id r \<noteq> ms_id server) (tb_tools (mx_tables st)) in
      case discover_loop server tools kept (mx_registry st) (mx_tool_map st) of
        (None, rows, reg, tm) \<Rightarrow>
          (None, st\<lparr>mx_tables := (mx_tables st)\<lparr>tb_tools := rows\<rparr>, mx_registry := reg,
                    mx_tool_map := tm\<rparr>)
      | (Some e, rows, reg, tm) \<Rightarrow> (Some e, st\<lparr>mx_registry := reg, mx_tool_map := tm\<rparr>))"

definition forget_tools :: "string list \<Rightarrow> mcp_state \<Rightarrow> mcp_state" where
  "forget_tools names st = st\<lparr>mx_registry := filter (\<lambda>p. fst p \<notin> set names) (mx_registry st),
     mx_tool_map := filter (\<lambda>p. fst p \<notin> set names) (mx_tool_map st)\<rparr>"

definition disconnect_server :: "string \<Rightarrow> mcp_state \<Rightarrow> mcp_state" where
  "disconnect_server sid st =
     forget_tools (map mt_capability_name
                     (filter (\<lambda>r. mt_server_id r = sid) (tb_tools (mx_tables st))))
       (st\<lparr>mx_clients := AList.delete sid (mx_clients st)\<rparr>)"

text \<open>\<open>load_tools_from_db\<close>: the tool map entry is written before the definition is registered.\<close>

fun load_rows ::
    "(mcp_tool \<times> mcp_server) list \<Rightarrow> registry \<Rightarrow> tool_map
     \<Rightarrow> cap_error option \<times> registry \<times> tool_map" where
  "load_rows [] reg tm = (None, reg, tm)"
| "load_rows ((row, server) # rest) reg tm =
     (let tm' = AList.update (mt_capability_name row) (mt_server_id row, mt_tool_name row) tm in
      case register_row row reg of
        Inl e \<Rightarrow> (Some e, reg, tm')
      | Inr reg' \<Rightarrow> load_rows rest reg' tm')"

definition load_tools_from_db :: "mcp_state \<Rightarrow> cap_error option \<times> mcp_state" where
  "load_tools_from_db st =
     (case load_rows (enabled_rows (mx_tables st)) (mx_registry st) (mx_tool_map st) of
        (e, reg, tm) \<Rightarrow> (e, st\<lparr>mx_registry := reg, mx_tool_map := tm\<rparr>))"


section \<open>Connecting and calling\<close>

text \<open>What a call into the outside world ends with; the flag marks a timeout.\<close>

datatype tool_outcome = ToolReturned pyval | ToolRaised bool string | ToolCancelled

definition or_nil :: "'a list option \<Rightarrow> 'a list" where
  "or_nil v = (case v of None \<Rightarrow> [] | Some xs \<Rightarrow> xs)"

text \<open>The credential a connection is made with: the newest one stored for the server.\<close>

definition connection_secrets ::
    "secret_lib \<Rightarrow> py_lib \<Rightarrow> credential_row list \<Rightarrow> mcp_server \<Rightarrow> connection option" where
  "connection_secrets S L creds server =
     (let env_template = or_nil (ms_env_template server); headers = or_nil (ms_headers server) in
      if env_template = [] \<and> headers = [] then Some \<lparr>cn_env = [], cn_headers = headers\<rparr>
      else
        let stored = list_credentials creds (ms_id server) in
        if stored = [] then Some \<lparr>cn_env = env_template, cn_headers = headers\<rparr>
        else map_option
               (\<lambda>v. case inject_credential L env_template headers v of
                      (env, rendered) \<Rightarrow> \<lparr>cn_env = env, cn_headers = AList.updates (map fst rendered) (map snd rendered) headers\<rparr>)
               (decrypt_credential S (last stored)))"

record mcp_remote =
  rm_dial :: "mcp_server \<Rightarrow> connection \<Rightarrow> discovered_tool list option"
  rm_call :: "string \<Rightarrow> connection \<Rightarrow> string \<Rightarrow> pydict \<Rightarrow> tool_outcome"
  rm_error :: "string \<Rightarrow> string"

text \<open>\<open>connect_server\<close> without OAuth: every failure is caught and reported as \<open>False\<close>.\<close>

definition connect_server ::
    "secret_lib \<Rightarrow> py_lib \<Rightarrow> credential_row list \<Rightarrow> mcp_remote \<Rightarrow> mcp_server \<Rightarrow> mcp_state
     \<Rightarrow> bool \<times> mcp_state" where
  "connect_server S L creds rm server st =
     (if map_of (mx_clients st) (ms_id server) \<noteq> None then (True, st)
      else case connection_secrets S L creds server of
        None \<Rightarrow> (False, st)
      | Some cn \<Rightarrow>
          (case rm_dial rm server cn of
             None \<Rightarrow> (False, st)
           | Some tools \<Rightarrow>
               (case discover_tools server tools
                       (st\<lparr>mx_clients := AList.update (ms_id server) cn (mx_clients st)\<rparr>) of
                  (None, st') \<Rightarrow> (True, st')
                | (Some e, st') \<Rightarrow>
                    (False, st'\<lparr>mx_clients := AList.delete (ms_id server) (mx_clients st')\<rparr>))))"

definition quoted :: "string \<Rightarrow> string" where
  "quoted s = [CHR 0x27] @ s @ [CHR 0x27]"

definition execute_mcp_tool ::
    "secret_lib \<Rightarrow> py_lib \<Rightarrow> credential_row list \<Rightarrow> mcp_remote \<Rightarrow> string \<Rightarrow> pydict
     \<Rightarrow> template \<Rightarrow> template \<Rightarrow> mcp_state \<Rightarrow> tool_outcome \<times> mcp_state" where
  "execute_mcp_tool S L creds rm cap args env headers st =
     (case map_of (mx_tool_map st) cap of
        None \<Rightarrow> (ToolRaised False (''MCP tool not found: '' @ cap), st)
      | Some (sid, tool) \<Rightarrow>
          (case map_of (mx_clients st) sid of
             Some cn \<Rightarrow> (rm_call rm sid cn tool args, st)
           | None \<Rightarrow>
               (case find (\<lambda>s. ms_id s = sid) (tb_servers (mx_tables st)) of
                  None \<Rightarrow> (ToolRaised False (''MCP server not found: '' @ sid), st)
                | Some server \<Rightarrow>
                    if \<not> ms_enabled server
                    then (ToolRaised False (''MCP server '' @ quoted (ms_name server) @ '' is disabled''), st)
                    else
                      (case connect_server S L creds rm server st of
                         (False, st') \<Rightarrow>
                           (ToolRaised False (''MCP server '' @ quoted (ms_name server)
                              @ '' is not connected: '' @ rm_error rm sid
                              @ ''. Reconnect from the dashboard.''), st')
                       | (True, st') \<Rightarrow>
                           (case map_of (mx_clients st') sid of
                              None \<Rightarrow> (ToolRaised False (''MCP server ''
                                        @ quoted (ms_name server) @ '' failed to connect''), st')
                            | Some cn \<Rightarrow> (rm_call rm sid cn tool args, st'))))))"


section \<open>What discovery registers\<close>

lemma namespace_inject: "namespace n t = namespace n t' \<longleftrightarrow> t = t'"
  by (simp add: namespace_def Let_def)

text \<open>The definition a discovered tool should get.\<close>

definition discovered_cap :: "mcp_server \<Rightarrow> discovered_tool \<Rightarrow> capability" where
  "discovered_cap server t =
     \<lparr>cap_name = namespace (ms_name server) (dt_name t), cap_kind = KMcpTool,
      cap_description = dt_description t, cap_parameters_schema = dt_schema t, cap_egress = True,
      cap_require_approval = ms_require_approval server, cap_subject_scoped = True,
      cap_silent = False, cap_effects = effects_from_mcp_annotations (dt_annotations t)\<rparr>"

lemma row_capability_discovered: "row_capability (discovered_row server t) = Inr (discovered_cap server t)"
  using effects_from_mcp_nonempty [of "dt_annotations t"] effects_from_mcp_known [of "dt_annotations t"]
  by (auto simp: row_capability_def discovered_row_def mk_capability_def normalize_effects_def
      discovered_cap_def)

lemma discovered_cap_simps [simp]:
  "cap_name (discovered_cap server t) = namespace (ms_name server) (dt_name t)"
  "cap_effects (discovered_cap server t) = effects_from_mcp_annotations (dt_annotations t)"
  by (simp_all add: discovered_cap_def)

lemma discovered_row_simps [simp]:
  "mt_capability_name (discovered_row server t) = namespace (ms_name server) (dt_name t)"
  "mt_server_id (discovered_row server t) = ms_id server"
  by (simp_all add: discovered_row_def)

abbreviation tool_names :: "mcp_server \<Rightarrow> discovered_tool list \<Rightarrow> string set" where
  "tool_names server ts \<equiv> (\<lambda>t. namespace (ms_name server) (dt_name t)) ` set ts"

lemma register_row_discovered:
  "register_row (discovered_row server t) reg = register (discovered_cap server t) reg"
  by (simp add: register_row_def row_capability_discovered)

lemma discover_loop_Cons:
  assumes "discover_loop server (t # ts) rows reg tm = (None, rows', reg', tm')"
  obtains r1 where "register (discovered_cap server t) reg = Inr r1"
    and "discover_loop server ts (rows @ [discovered_row server t]) r1
           (AList.update (namespace (ms_name server) (dt_name t)) (ms_id server, dt_name t) tm)
         = (None, rows', reg', tm')"
proof (cases "register (discovered_cap server t) reg")
  case (Inl e)
  with assms show ?thesis unfolding discover_loop.simps Let_def register_row_discovered by simp
next
  case (Inr r1)
  from assms have "discover_loop server ts (rows @ [discovered_row server t]) r1
           (AList.update (namespace (ms_name server) (dt_name t)) (ms_id server, dt_name t) tm)
         = (None, rows', reg', tm')"
    unfolding discover_loop.simps Let_def register_row_discovered discovered_row_simps Inr sum.case .
  with Inr show ?thesis by (rule that)
qed

lemma discover_loop_rows:
  "discover_loop server ts rows reg tm = (None, rows', reg', tm') \<Longrightarrow>
   rows' = rows @ map (discovered_row server) ts"
proof (induction ts arbitrary: rows reg tm)
  case (Cons t ts)
  from Cons.prems show ?case
  proof (rule discover_loop_Cons)
    fix r1
    assume "discover_loop server ts (rows @ [discovered_row server t]) r1
           (AList.update (namespace (ms_name server) (dt_name t)) (ms_id server, dt_name t) tm)
         = (None, rows', reg', tm')"
    from Cons.IH [OF this] show ?thesis by simp
  qed
qed simp

lemma discover_loop_wf:
  "discover_loop server ts rows reg tm = (None, rows', reg', tm') \<Longrightarrow>
   wf_registry reg \<Longrightarrow> wf_registry reg'"
proof (induction ts arbitrary: rows reg tm)
  case (Cons t ts)
  from Cons.prems(1) show ?case
  proof (rule discover_loop_Cons)
    fix r1
    assume "register (discovered_cap server t) reg = Inr r1"
    from register_wf [OF Cons.prems(2) this] have "wf_registry r1"
      by (simp add: effects_from_mcp_nonempty effects_from_mcp_known)
    then show "discover_loop server ts (rows @ [discovered_row server t]) r1
           (AList.update (namespace (ms_name server) (dt_name t)) (ms_id server, dt_name t) tm)
         = (None, rows', reg', tm') \<Longrightarrow> wf_registry reg'"
      by (rule Cons.IH [rotated])
  qed
qed simp

lemma discover_loop_keeps:
  "discover_loop server ts rows reg tm = (None, rows', reg', tm') \<Longrightarrow>
   reg_get reg n = Some c \<Longrightarrow> reg_get reg' n = Some c"
proof (induction ts arbitrary: rows reg tm)
  case (Cons t ts)
  from Cons.prems(1) show ?case
  proof (rule discover_loop_Cons)
    fix r1
    assume "register (discovered_cap server t) reg = Inr r1"
    with Cons.prems(2) have "reg_get r1 n = Some c" by (simp add: register_lookup)
    then show "discover_loop server ts (rows @ [discovered_row server t]) r1
           (AList.update (namespace (ms_name server) (dt_name t)) (ms_id server, dt_name t) tm)
         = (None, rows', reg', tm') \<Longrightarrow> reg_get reg' n = Some c"
      by (rule Cons.IH [rotated])
  qed
qed simp

lemma discover_loop_other:
  "discover_loop server ts rows reg tm = (None, rows', reg', tm') \<Longrightarrow>
   n \<notin> tool_names server ts \<Longrightarrow> reg_get reg' n = reg_get reg n \<and> map_of tm' n = map_of tm n"
proof (induction ts arbitrary: rows reg tm)
  case (Cons t ts)
  from Cons.prems(1) show ?case
  proof (rule discover_loop_Cons)
    fix r1
    assume "register (discovered_cap server t) reg = Inr r1"
      and "discover_loop server ts (rows @ [discovered_row server t]) r1
           (AList.update (namespace (ms_name server) (dt_name t)) (ms_id server, dt_name t) tm)
         = (None, rows', reg', tm')"
    with Cons.IH [OF this(2)] Cons.prems(2) show ?thesis by (auto simp: register_lookup)
  qed
qed simp

lemma discover_loop_tool:
  "discover_loop server ts rows reg tm = (None, rows', reg', tm') \<Longrightarrow>
   t \<in> set ts \<Longrightarrow> distinct (map dt_name ts) \<Longrightarrow>
   map_of tm' (namespace (ms_name server) (dt_name t)) = Some (ms_id server, dt_name t)
   \<and> reg_get reg' (namespace (ms_name server) (dt_name t)) =
       (case reg_get reg (namespace (ms_name server) (dt_name t)) of
          Some c \<Rightarrow> Some c | None \<Rightarrow> Some (discovered_cap server t))"
proof (induction ts arbitrary: rows reg tm)
  case (Cons u ts)
  from Cons.prems(1) show ?case
  proof (rule discover_loop_Cons)
    fix r1
    assume r1: "register (discovered_cap server u) reg = Inr r1"
      and rest: "discover_loop server ts (rows @ [discovered_row server u]) r1
           (AList.update (namespace (ms_name server) (dt_name u)) (ms_id server, dt_name u) tm)
         = (None, rows', reg', tm')"
    show ?thesis
    proof (cases "t = u")
      case True
      with Cons.prems(3) have "namespace (ms_name server) (dt_name t) \<notin> tool_names server ts"
        by (auto simp: namespace_inject)
      from discover_loop_other [OF rest this] r1 True show ?thesis
        by (auto simp: register_lookup split: option.splits)
    next
      case False
      with Cons.prems(2) have "t \<in> set ts" by simp
      moreover from this have "dt_name t \<in> set (map dt_name ts)" by simp
      with Cons.prems(3) have "dt_name t \<noteq> dt_name u" by auto
      ultimately show ?thesis
        using Cons.IH [OF rest] Cons.prems(3) r1
        by (auto simp: register_lookup namespace_inject split: option.splits)
    qed
  qed
qed simp

text \<open>Discovery makes every tool of the server callable and grantable: its capability maps to
  this server and tool; a name not known before gets a definition that is subject scoped, carries
  the server's approval flag and the effects read from the tool's annotations; the stored rows of
  the server are replaced by one per tool; and the registry stays well formed.\<close>
theorem discovery_registers_tools:
  assumes "discover_tools server tools st = (None, st')" and "distinct (map dt_name tools)"
    and "wf_registry (mx_registry st)" and "t \<in> set tools"
  shows "map_of (mx_tool_map st') (namespace (ms_name server) (dt_name t))
           = Some (ms_id server, dt_name t)
    \<and> (reg_get (mx_registry st) (namespace (ms_name server) (dt_name t)) = None \<longrightarrow>
         reg_get (mx_registry st') (namespace (ms_name server) (dt_name t))
           = Some (discovered_cap server t))
    \<and> filter (\<lambda>r. mt_server_id r = ms_id server) (tb_tools (mx_tables st'))
        = map (discovered_row server) tools
    \<and> wf_registry (mx_registry st')"
proof -
  let ?kept = "filter (\<lambda>r. mt_server_id r \<noteq> ms_id server) (tb_tools (mx_tables st))"
  from assms(1) obtain rows reg tm where
    run: "discover_loop server tools ?kept (mx_registry st) (mx_tool_map st) = (None, rows, reg, tm)"
    and st': "st' = st\<lparr>mx_tables := (mx_tables st)\<lparr>tb_tools := rows\<rparr>, mx_registry := reg,
                mx_tool_map := tm\<rparr>"
    by (auto simp: discover_tools_def Let_def split: prod.splits option.splits)
  have "filter (\<lambda>r. mt_server_id r = ms_id server) rows = map (discovered_row server) tools"
    using discover_loop_rows [OF run] by (simp add: filter_empty_conv)
  with discover_loop_tool [OF run assms(4,2)] discover_loop_wf [OF run assms(3)] st'
  show ?thesis by simp
qed

text \<open>Two servers whose names read the same once lower-cased with blanks and dots replaced
  share their capability names.  Discovering the second after the first leaves the definition of
  the first in the registry, its approval flag included, while the tool map sends the call to the
  second server.\<close>
theorem namespace_collision:
  assumes "namespace (ms_name s1) (dt_name t) = namespace (ms_name s2) (dt_name t)"
    and "discover_tools s1 [t] st = (None, st1)" and "discover_tools s2 [t] st1 = (None, st2)"
    and "reg_get (mx_registry st) (namespace (ms_name s1) (dt_name t)) = None"
  shows "map_of (mx_tool_map st2) (namespace (ms_name s2) (dt_name t)) = Some (ms_id s2, dt_name t)
    \<and> map_option cap_require_approval
        (reg_get (mx_registry st2) (namespace (ms_name s2) (dt_name t)))
        = Some (ms_require_approval s1)"
proof -
  let ?kept = "\<lambda>s st. filter (\<lambda>r. mt_server_id r \<noteq> ms_id s) (tb_tools (mx_tables st))"
  from assms(2) obtain rows reg tm where
    one: "discover_loop s1 [t] (?kept s1 st) (mx_registry st) (mx_tool_map st) = (None, rows, reg, tm)"
    and st1: "mx_registry st1 = reg"
    by (auto simp: discover_tools_def Let_def split: prod.splits option.splits)
  from assms(3) obtain rows2 reg2 tm2 where
    two: "discover_loop s2 [t] (?kept s2 st1) (mx_registry st1) (mx_tool_map st1) = (None, rows2, reg2, tm2)"
    and st2: "mx_registry st2 = reg2" "mx_tool_map st2 = tm2"
    by (auto simp: discover_tools_def Let_def split: prod.splits option.splits)
  have "reg_get reg (namespace (ms_name s1) (dt_name t)) = Some (discovered_cap s1 t)"
    using discover_loop_tool [OF one, of t] assms(4) by simp
  with discover_loop_tool [OF two, of t] st1 assms(1)
  have "map_of tm2 (namespace (ms_name s2) (dt_name t)) = Some (ms_id s2, dt_name t)"
    and "reg_get reg2 (namespace (ms_name s2) (dt_name t)) = Some (discovered_cap s1 t)"
    by simp_all
  with st2 show ?thesis by (simp add: discovered_cap_def)
qed

text \<open>Disconnecting undoes discovery: when none of the names was in use before, the registry
  and the tool map answer every lookup as they did before the server was discovered.\<close>
theorem disconnect_undoes_discovery:
  assumes "discover_tools server tools st = (None, st')"
    and "\<And>r. r \<in> set (tb_tools (mx_tables st)) \<Longrightarrow> mt_server_id r \<noteq> ms_id server"
    and "\<And>t. t \<in> set tools \<Longrightarrow> reg_get (mx_registry st) (namespace (ms_name server) (dt_name t)) = None
           \<and> map_of (mx_tool_map st) (namespace (ms_name server) (dt_name t)) = None"
  shows "reg_get (mx_registry (disconnect_server (ms_id server) st')) n = reg_get (mx_registry st) n
    \<and> map_of (mx_tool_map (disconnect_server (ms_id server) st')) n = map_of (mx_tool_map st) n"
proof -
  let ?kept = "filter (\<lambda>r. mt_server_id r \<noteq> ms_id server) (tb_tools (mx_tables st))"
  from assms(1) obtain rows reg tm where
    run: "discover_loop server tools ?kept (mx_registry st) (mx_tool_map st) = (None, rows, reg, tm)"
    and st': "st' = st\<lparr>mx_tables := (mx_tables st)\<lparr>tb_tools := rows\<rparr>, mx_registry := reg,
                mx_tool_map := tm\<rparr>"
    by (auto simp: discover_tools_def Let_def split: prod.splits option.splits)
  have "filter (\<lambda>r. mt_server_id r = ms_id server) rows = map (discovered_row server) tools"
    using discover_loop_rows [OF run] by (simp add: filter_empty_conv)
  then have names: "set (map mt_capability_name (filter (\<lambda>r. mt_server_id r = ms_id server) rows))
      = tool_names server tools"
    by auto
  show ?thesis
  proof (cases "n \<in> tool_names server tools")
    case True
    with assms(3) names st' show ?thesis
      by (auto simp: disconnect_server_def forget_tools_def reg_get_def map_of_filter_key)
  next
    case False
    with discover_loop_other [OF run False] names st' show ?thesis
      by (auto simp: disconnect_server_def forget_tools_def reg_get_def map_of_filter_key)
  qed
qed


section \<open>Which credential a call is made with\<close>

lemma discover_tools_clients:
  "discover_tools server tools st = (e, st') \<Longrightarrow> mx_clients st' = mx_clients st"
  by (auto simp: discover_tools_def Let_def split: prod.splits option.splits)

lemma connect_server_client:
  assumes "connect_server S L creds rm server st = (True, st')"
    and "map_of (mx_clients st) (ms_id server) = None"
    and "connection_secrets S L creds server = Some cn"
  shows "map_of (mx_clients st') (ms_id server) = Some cn"
proof (cases "rm_dial rm server cn")
  case None
  with assms show ?thesis by (simp add: connect_server_def)
next
  case (Some tools)
  let ?st = "st\<lparr>mx_clients := AList.update (ms_id server) cn (mx_clients st)\<rparr>"
  obtain e st1 where d: "discover_tools server tools ?st = (e, st1)" by fastforce
  from assms Some d have "e = None" and "st1 = st'"
    by (auto simp: connect_server_def split: option.splits)
  with discover_tools_clients [OF d] show ?thesis by simp
qed

text \<open>The credential bound to a contact never reaches the server.  Whatever environment and
  headers a call was prepared with, the tool is called over the server's one connection, which was
  made with the newest credential stored for the server.\<close>
theorem call_ignores_bound_credential:
  assumes "map_of (mx_tool_map st) cap = Some (ms_id server, tool)"
    and "find (\<lambda>s. ms_id s = ms_id server) (tb_servers (mx_tables st)) = Some server"
    and "ms_enabled server" and "map_of (mx_clients st) (ms_id server) = None"
    and "connection_secrets S L creds server = Some cn"
    and "connect_server S L creds rm server st = (True, st')"
  shows "execute_mcp_tool S L creds rm cap args env headers st
           = (rm_call rm (ms_id server) cn tool args, st')
    \<and> map_of (mx_clients st') (ms_id server) = Some cn
    \<and> execute_mcp_tool S L creds rm cap args env headers st'
        = execute_mcp_tool S L creds rm cap args env' headers' st'"
  using assms connect_server_client [OF assms(6,4,5)]
  by (simp add: execute_mcp_tool_def)


section \<open>Concrete runs\<close>

definition ex_discovered :: discovered_tool where
  "ex_discovered = \<lparr>dt_name = ''find'', dt_description = ''Find a note'', dt_schema = [],
     dt_annotations = PDict [(''readOnlyHint'', PBool True)]\<rparr>"

definition ex_notes :: mcp_server where
  "ex_notes = \<lparr>ms_id = ''s1'', ms_name = ''My Notes'', ms_enabled = True, ms_tool_filter = None,
     ms_env_template = Some [(''TOKEN'', VALUE_PLACEHOLDER)], ms_headers = None,
     ms_require_approval = False\<rparr>"

definition ex_other :: mcp_server where
  "ex_other = ex_notes\<lparr>ms_id := ''s2'', ms_name := ''my.notes'', ms_require_approval := True\<rparr>"

definition ex_state :: mcp_state where
  "ex_state = \<lparr>mx_tables = \<lparr>tb_tools = [], tb_servers = [ex_notes, ex_other]\<rparr>, mx_registry = [],
     mx_tool_map = [], mx_clients = []\<rparr>"

definition ex_state1 :: mcp_state where
  "ex_state1 = snd (discover_tools ex_notes [ex_discovered] ex_state)"

definition ex_state2 :: mcp_state where
  "ex_state2 = snd (discover_tools ex_other [ex_discovered] ex_state1)"

lemma ex_namespace: "namespace ''My Notes'' ''find'' = ''mcp.my_notes.find''"
    "namespace ''my.notes'' ''find'' = ''mcp.my_notes.find''"
  by code_simp+

lemma ex_discovers:
  "discover_tools ex_notes [ex_discovered] ex_state = (None, ex_state1)"
  "discover_tools ex_other [ex_discovered] ex_state1 = (None, ex_state2)"
proof -
  have "fst (discover_tools ex_notes [ex_discovered] ex_state) = None"
    "fst (discover_tools ex_other [ex_discovered] ex_state1) = None"
    by code_simp+
  then show "discover_tools ex_notes [ex_discovered] ex_state = (None, ex_state1)"
    "discover_tools ex_other [ex_discovered] ex_state1 = (None, ex_state2)"
    by (simp_all add: ex_state1_def ex_state2_def prod_eq_iff)
qed

theorem discovery_registers_tools_witness:
  "reg_get (mx_registry ex_state1) ''mcp.my_notes.find'' = Some (discovered_cap ex_notes ex_discovered)"
  using discovery_registers_tools [OF ex_discovers(1), of ex_discovered] ex_namespace(1)
  by (simp add: ex_state_def ex_notes_def ex_discovered_def reg_get_def)

theorem namespace_collision_witness:
  "map_option cap_require_approval (reg_get (mx_registry ex_state2) ''mcp.my_notes.find'') = Some False
   \<and> ms_require_approval ex_other"
proof -
  have same: "namespace (ms_name ex_notes) (dt_name ex_discovered)
                = namespace (ms_name ex_other) (dt_name ex_discovered)"
    using ex_namespace by (simp add: ex_notes_def ex_other_def ex_discovered_def)
  have fresh: "reg_get (mx_registry ex_state) (namespace (ms_name ex_notes) (dt_name ex_discovered)) = None"
    by (simp add: ex_state_def reg_get_def)
  from namespace_collision [OF same ex_discovers fresh] ex_namespace show ?thesis
    by (simp add: ex_notes_def ex_other_def ex_discovered_def)
qed

theorem disconnect_undoes_discovery_witness:
  "map_of (mx_tool_map (disconnect_server ''s1'' ex_state1)) ''mcp.my_notes.find'' = None"
  using disconnect_undoes_discovery [OF ex_discovers(1), of "''mcp.my_notes.find''"]
  by (simp add: ex_state_def ex_notes_def reg_get_def)

definition ex_secrets :: secret_lib where
  "ex_secrets = \<lparr>sl_decrypt = Some, sl_loads = (\<lambda>s. [])\<rparr>"

definition ex_remote :: mcp_remote where
  "ex_remote = \<lparr>rm_dial = (\<lambda>s c. Some [ex_discovered]),
     rm_call = (\<lambda>s c t a. ToolReturned (PStr (concat (map snd (cn_env c))))), rm_error = (\<lambda>s. [])\<rparr>"

definition ex_creds :: "credential_row list" where
  "ex_creds = [\<lparr>cr_id = ''k1'', cr_server_id = ''s1'', cr_type = ''api_key'', cr_encrypted = ''anna''\<rparr>,
     \<lparr>cr_id = ''k2'', cr_server_id = ''s1'', cr_type = ''api_key'', cr_encrypted = ''ben''\<rparr>]"

definition ex_mapped :: mcp_state where
  "ex_mapped = ex_state\<lparr>mx_tool_map := [(''mcp.my_notes.find'', (''s1'', ''find''))]\<rparr>"

theorem call_ignores_bound_credential_witness:
  "fst (execute_mcp_tool ex_secrets ex_lib ex_creds ex_remote ''mcp.my_notes.find'' []
          [(''TOKEN'', ''anna'')] [] ex_mapped) = ToolReturned (PStr ''ben'')"
proof -
  let ?st' = "snd (connect_server ex_secrets ex_lib ex_creds ex_remote ex_notes ex_mapped)"
  have secrets: "connection_secrets ex_secrets ex_lib ex_creds ex_notes
      = Some \<lparr>cn_env = [(''TOKEN'', ''ben'')], cn_headers = []\<rparr>"
    by code_simp
  have "fst (connect_server ex_secrets ex_lib ex_creds ex_remote ex_notes ex_mapped)" by code_simp
  then have connects: "connect_server ex_secrets ex_lib ex_creds ex_remote ex_notes ex_mapped = (True, ?st')"
    by (simp add: prod_eq_iff)
  show ?thesis
    using call_ignores_bound_credential [OF _ _ _ _ secrets connects, where cap = "''mcp.my_notes.find''"
        and tool = "''find''" and args = "[]" and env = "[(''TOKEN'', ''anna'')]" and headers = "[]"]
    by (simp add: ex_mapped_def ex_state_def ex_notes_def ex_remote_def)
qed

end
