(* ===== verification/Mediator.thy ===== *)
theory Mediator
  imports Mcp_Servers Approval_Flow
begin

text \<open>
  The syscall mediator (\<^verbatim>\<open>syscall/mediator.py\<close>): every tool call of a model goes through its
  gates, in this order: the capability exists, the run's restrictions name it, the parent and the
  agent hold it, its subject is bound, its approval is given; only then is it executed, and the
  outcome is audited.  One call is modelled from start to finish.  What other tasks do while it
  waits for a human is a script: the requests operators send before the deadline, and those served
  between the deadline and the moment the waiting task reads the decision.  The outside world (the
  tools, the MCP servers, decryption, JSON text) is a parameter; latencies, cost fields, database
  failures and their retries are not modelled, and a dash of the user-facing texts that is outside
  the modelled code points is written as a hyphen.
\<close>

section \<open>Calls, handler and world\<close>

record tool_call =
  tc_id :: string
  tc_name :: string
  tc_args :: pydict

text \<open>An opaque object handed to a tool (a database session, a lock, a registry) is its name.\<close>

datatype kwarg =
    KwText string
  | KwOptText "string option"
  | KwFlag bool
  | KwHandle string
  | KwAgent agent_config

record restrictions =
  re_names :: "string set"
  re_skill_edits :: kwarg
  re_history_scope :: kwarg
  re_max_concurrent :: int

record chat_session =
  se_id :: string
  se_channel :: "string option"
  se_contact :: string

record handler =
  sh_workspace :: string
  sh_sandbox_mode :: string
  sh_restrictions :: "restrictions option"
  sh_supports_vision :: bool
  sh_channel_policy :: "string option"
  sh_auto_approve :: "string set"
  sh_test_run :: bool
  sh_parent_run :: "string option"

record app_settings =
  st_yolo :: bool
  st_hitl_timeout :: int

record channel_config =
  ch_platform :: string
  ch_agent :: string
  ch_policy :: "string option"

record audit_record =
  au_id :: string
  au_run :: string
  au_agent :: string
  au_sub_agent :: "string option"
  au_call :: string
  au_capability :: string
  au_subject :: "string option"
  au_allowed :: bool
  au_outcome :: string
  au_denied_reason :: "string option"
  au_args :: string
  au_result :: "string option"
  au_effects :: "string list option"

record syscall_result =
  sr_output :: pyval
  sr_allowed :: bool
  sr_denied_reason :: "string option"
  sr_audit :: "string option"
  sr_status :: string
  sr_model_content :: pyval

text \<open>A tool execution, as the trace records it: builtin tools and MCP tools.\<close>

datatype execution =
    RanTool string pydict "(string \<times> kwarg) list"
  | RanMcp string pydict template template

record world =
  wo_mcp :: mcp_state
  wo_approvals :: approval_registry
  wo_elicit :: elicitation_registry
  wo_approval_rows :: approval_table
  wo_elicit_rows :: elicitation_table
  wo_audit :: "audit_record list"
  wo_events :: "(string \<times> pydict) list"
  wo_notes :: "(string \<times> pydict) list"
  wo_arrivals :: "(string \<times> bool) list"
  wo_executed :: "execution list"
  wo_uuids :: nat

record med_env =
  en_lib :: py_lib
  en_secrets :: secret_lib
  en_remote :: mcp_remote
  en_exec :: "string \<Rightarrow> pydict \<Rightarrow> (string \<times> kwarg) list \<Rightarrow> tool_outcome"
  en_settings :: app_settings
  en_contacts :: "string list"
  en_channels :: "channel_config list"
  en_bindings :: "binding_row list"
  en_credentials :: "credential_row list"

text \<open>The arguments of \<open>mediate\<close>; a batch is its identifier and size.\<close>

record med_ctx =
  cx_session :: chat_session
  cx_agent :: agent_config
  cx_run :: string
  cx_is_sub :: bool
  cx_sub_id :: "string option"
  cx_emits :: bool
  cx_parent :: "agent_config option"
  cx_batch :: "(string \<times> nat) option"
  cx_trigger :: string

text \<open>What happens while the call waits for a human.\<close>

record wait_script =
  ws_calls :: "approval_call list"
  ws_late_calls :: "approval_call list"
  ws_answers :: "(string \<times> string \<times> string) list"
  ws_late_answers :: "(string \<times> string \<times> string) list"
  ws_now :: int

datatype mediation = MedResult syscall_result | MedCancelled | MedRaised string | MedBlocked

definition draw_uuid :: "med_env \<Rightarrow> world \<Rightarrow> string \<times> world" where
  "draw_uuid E w = (lib_uuid (en_lib E) (wo_uuids w), w\<lparr>wo_uuids := Suc (wo_uuids w)\<rparr>)"

definition emit :: "med_ctx \<Rightarrow> string \<Rightarrow> pydict \<Rightarrow> world \<Rightarrow> world" where
  "emit cx kind payload w =
     (if cx_emits cx then w\<lparr>wo_events := wo_events w @ [(kind, payload)]\<rparr> else w)"

definition arrive_at_batch :: "med_ctx \<Rightarrow> tool_call \<Rightarrow> bool \<Rightarrow> world \<Rightarrow> world" where
  "arrive_at_batch cx call approved w =
     (if cx_batch cx \<noteq> None then w\<lparr>wo_arrivals := wo_arrivals w @ [(tc_id call, approved)]\<rparr> else w)"

text \<open>\<open>if s:\<close> for an optional string.\<close>

definition given :: "string option \<Rightarrow> bool" where
  "given s \<longleftrightarrow> (case s of None \<Rightarrow> False | Some t \<Rightarrow> t \<noteq> [])"


section \<open>Audit\<close>

text \<open>\<open>_write_audit\<close>: the effects of the capability are snapshotted when the row is written.\<close>

definition effects_snapshot :: "registry \<Rightarrow> string \<Rightarrow> string list option" where
  "effects_snapshot reg name =
     (case reg_get reg name of
        None \<Rightarrow> None
      | Some c \<Rightarrow> if cap_effects c = {} then None else Some (sorted_list_of_set (cap_effects c)))"

definition write_audit :: "audit_record \<Rightarrow> world \<Rightarrow> world" where
  "write_audit a w =
     (let a' = (if au_effects a = None
                then a\<lparr>au_effects := effects_snapshot (mx_registry (wo_mcp w)) (au_capability a)\<rparr>
                else a)
      in w\<lparr>wo_audit := wo_audit w @ [a']\<rparr>)"

text \<open>The constructor call all audit rows share.\<close>

definition audit_row ::
    "med_env \<Rightarrow> med_ctx \<Rightarrow> tool_call \<Rightarrow> string \<Rightarrow> string option \<Rightarrow> bool \<Rightarrow> string \<Rightarrow> string option
     \<Rightarrow> string option \<Rightarrow> audit_record" where
  "audit_row E cx call i subject allowed outcome reason result =
     \<lparr>au_id = i, au_run = cx_run cx, au_agent = ac_id (cx_agent cx), au_sub_agent = cx_sub_id cx,
      au_call = tc_id call, au_capability = tc_name call, au_subject = subject,
      au_allowed = allowed, au_outcome = outcome, au_denied_reason = reason,
      au_args = lib_dumps (en_lib E) (PDict (tc_args call)), au_result = result,
      au_effects = None\<rparr>"

definition failed_result :: "pyval \<Rightarrow> string \<Rightarrow> string \<Rightarrow> syscall_result" where
  "failed_result out reason status = \<lparr>sr_output = out, sr_allowed = False,
     sr_denied_reason = Some reason, sr_audit = None, sr_status = status,
     sr_model_content = PNone\<rparr>"

definition deny ::
    "med_env \<Rightarrow> med_ctx \<Rightarrow> tool_call \<Rightarrow> string \<Rightarrow> world \<Rightarrow> mediation \<times> world" where
  "deny E cx call reason w =
     (case draw_uuid E w of (i, w) \<Rightarrow>
        (MedResult (failed_result PNone reason ''denied''),
         write_audit (audit_row E cx call i None False ''denied'' (Some reason) None) w))"

definition refuse ::
    "med_env \<Rightarrow> med_ctx \<Rightarrow> tool_call \<Rightarrow> string \<Rightarrow> world \<Rightarrow> mediation \<times> world" where
  "refuse E cx call reason w = deny E cx call reason (arrive_at_batch cx call False w)"

definition record_outcome ::
    "med_env \<Rightarrow> med_ctx \<Rightarrow> tool_call \<Rightarrow> string option \<Rightarrow> string \<Rightarrow> world \<Rightarrow> world" where
  "record_outcome E cx call subject outcome w =
     (case draw_uuid E w of (i, w) \<Rightarrow>
        write_audit (audit_row E cx call i subject False outcome None None) w)"


section \<open>The gates\<close>

text \<open>Steps 1 to 3: the capability, the server of an MCP tool, the bound subject.\<close>

definition resolve_gates ::
    "med_env \<Rightarrow> handler \<Rightarrow> med_ctx \<Rightarrow> tool_call \<Rightarrow> mcp_state
     \<Rightarrow> string + (capability \<times> string option \<times> string option)" where
  "resolve_gates E H cx call m =
     (let reg = mx_registry m in
      case reg_get reg (tc_name call) of
        None \<Rightarrow> Inl ''capability not found''
      | Some c \<Rightarrow>
          if (case sh_restrictions H of None \<Rightarrow> False | Some r \<Rightarrow> tc_name call \<notin> re_names r)
          then Inl ''not permitted in this execution''
          else
            let sid = (if cap_kind c = KMcpTool then map_option fst (map_of (mx_tool_map m) (tc_name call))
                       else None) in
            if cx_is_sub cx \<and> (case cx_parent cx of None \<Rightarrow> False
                               | Some p \<Rightarrow> \<not> is_capability_granted reg p (tc_name call) sid)
            then Inl ''not granted by parent agent''
            else if \<not> is_capability_granted reg (cx_agent cx) (tc_name call) sid
            then Inl ''not granted''
            else if cap_subject_scoped c
            then if se_contact (cx_session cx) \<in> set (en_contacts E)
                 then Inr (c, sid, Some (se_contact (cx_session cx)))
                 else Inl ''no subject binding''
            else Inr (c, sid, None))"

text \<open>
  \<open>_resolve_channel_policy\<close>; a query that finds several rows raises and is caught, so it denies.
\<close>

definition resolve_channel_policy :: "med_env \<Rightarrow> med_ctx \<Rightarrow> string" where
  "resolve_channel_policy E cx =
     (if \<not> given (se_channel (cx_session cx)) then ''operator''
      else case filter (\<lambda>c. Some (ch_platform c) = se_channel (cx_session cx)
                              \<and> ch_agent c = ac_id (cx_agent cx)) (en_channels E) of
             [c] \<Rightarrow> if given (ch_policy c) then the (ch_policy c) else ''deny''
           | _ \<Rightarrow> ''deny'')"

text \<open>Step 5: does the call run at once, is it refused, or must a human decide?\<close>

datatype route = RouteOpen | RouteRefused string | RouteAsk

definition needs_approval :: "registry \<Rightarrow> agent_config \<Rightarrow> capability \<Rightarrow> string \<Rightarrow> string option \<Rightarrow> bool" where
  "needs_approval reg config c name sid =
     (case grant_for reg config name sid of
        Some a \<Rightarrow> auth_require_approval a | None \<Rightarrow> cap_require_approval c)"

definition approval_route ::
    "med_env \<Rightarrow> handler \<Rightarrow> med_ctx \<Rightarrow> tool_call \<Rightarrow> world \<Rightarrow> capability \<Rightarrow> string option \<Rightarrow> route" where
  "approval_route E H cx call w c sid =
     (if \<not> needs_approval (mx_registry (wo_mcp w)) (cx_agent cx) c (tc_name call) sid then RouteOpen
      else if sh_restrictions H \<noteq> None
      then RouteRefused ''restricted execution cannot approve actions''
      else if st_yolo (en_settings E) \<or> ac_yolo_mode (cx_agent cx) then RouteOpen
      else if given (se_channel (cx_session cx))
      then
        let policy = (case sh_channel_policy H of Some p \<Rightarrow> p | None \<Rightarrow> resolve_channel_policy E cx) in
        if policy = ''auto_approve'' then RouteOpen
        else if policy = ''deny'' then RouteRefused ''denied by channel approval policy (deny)''
        else if policy = ''operator'' then RouteAsk
        else RouteRefused ''denied by channel approval policy (default: deny)''
      else if is_session_approved (en_lib E) (se_id (cx_session cx)) (tc_name call) (tc_args call)
                (wo_approvals w) then RouteOpen
      else if tc_name call \<in> sh_auto_approve H then RouteOpen
      else if sh_test_run H then RouteOpen
      else RouteAsk)"


section \<open>Waiting for an approval\<close>

definition opt_text :: "string option \<Rightarrow> pyval" where
  "opt_text o1 = (case o1 of None \<Rightarrow> PNone | Some s \<Rightarrow> PStr s)"

definition pending_event :: "med_ctx \<Rightarrow> tool_call \<Rightarrow> string \<Rightarrow> pydict" where
  "pending_event cx call i =
     [(''id'', PStr (tc_id call)), (''capability'', PStr (tc_name call)),
      (''args'', PDict (tc_args call)), (''status'', PStr ''pending_approval''),
      (''approval_id'', PStr i),
      (''approval_batch_id'', opt_text (map_option fst (cx_batch cx))),
      (''approval_batch_size'', PInt (case cx_batch cx of None \<Rightarrow> 1 | Some b \<Rightarrow> int (snd b)))]"

definition timeout_event :: "tool_call \<Rightarrow> pydict" where
  "timeout_event call =
     [(''id'', PStr (tc_id call)), (''capability'', PStr (tc_name call)),
      (''args'', PDict (tc_args call)), (''status'', PStr ''denied''),
      (''result'', PDict [(''error'', PStr ''Approval timed out - auto-rejected'')])]"

definition timeout_note :: "med_ctx \<Rightarrow> tool_call \<Rightarrow> string \<times> pydict" where
  "timeout_note cx call = (''approval_timeout'',
     [(''severity'', PStr ''warning''), (''title'', PStr ''Approval timed out''),
      (''message'', PStr (''Approval for `'' @ tc_name call
          @ ''` timed out - the run continued without it.'')),
      (''action_path'', PStr (''/agents/'' @ ac_id (cx_agent cx) @ ''/chat?session=''
          @ se_id (cx_session cx))),
      (''entity_id'', PStr (cx_run cx))])"

text \<open>Persist the request, register the waiter, tell the frontend.\<close>

definition open_approval ::
    "med_env \<Rightarrow> med_ctx \<Rightarrow> tool_call \<Rightarrow> world \<Rightarrow> string \<times> world" where
  "open_approval E cx call w =
     (case draw_uuid E w of (i, w) \<Rightarrow>
        let row = \<lparr>ap_run = cx_run cx, ap_call = Some (tc_id call), ap_sub_agent = cx_sub_id cx,
                   ap_capability = tc_name call,
                   ap_args = lib_dumps (en_lib E) (PDict (tc_args call)),
                   ap_status = ''pending'', ap_decided_by = None, ap_decided_at = None\<rparr>;
            w = w\<lparr>wo_approval_rows := AList.update i row (wo_approval_rows w),
                  wo_approvals := register_approval i (wo_approvals w)\<rparr>
        in (i, emit cx ''tool_call'' (pending_event cx call i) w))"

definition operators :: "approval_call list \<Rightarrow> world \<Rightarrow> world" where
  "operators calls w =
     (case serve_approvals calls (wo_approval_rows w) (wo_approvals w) of
        (rows, reg) \<Rightarrow> w\<lparr>wo_approval_rows := rows, wo_approvals := reg\<rparr>)"

text \<open>The auto-reject of a timeout; its event and notification are sent before the decision is read.\<close>

definition approval_timeout :: "med_ctx \<Rightarrow> tool_call \<Rightarrow> string \<Rightarrow> wait_script \<Rightarrow> world \<Rightarrow> world" where
  "approval_timeout cx call i ws w =
     (let w = w\<lparr>wo_approvals :=
                 snd (resolve_approval i (plain_resolution ''rejected'' ''system_timeout'')
                        (wo_approvals w))\<rparr>;
          w = emit cx ''tool_call'' (timeout_event call) w;
          w = w\<lparr>wo_notes := wo_notes w @ [timeout_note cx call]\<rparr>
      in operators (ws_late_calls ws) w)"

text \<open>After the wait: read the decision, remove the entry, remember, write an undecided row.\<close>

definition settle_approval ::
    "med_env \<Rightarrow> med_ctx \<Rightarrow> tool_call \<Rightarrow> string \<Rightarrow> int \<Rightarrow> world \<Rightarrow> bool \<times> world" where
  "settle_approval E cx call i now w =
     (let pending = (case get_approval i (wo_approvals w) of Some pa \<Rightarrow> pa | None \<Rightarrow> fresh_pending);
          decision = (if given (pa_decision pending) then the (pa_decision pending) else ''rejected'');
          w = w\<lparr>wo_approvals := cleanup_approval i (wo_approvals w)\<rparr>;
          w = (if decision = ''approved'' \<and> pa_remember pending
               then w\<lparr>wo_approvals := remember_approval (en_lib E) (se_id (cx_session cx))
                        (tc_name call) (tc_args call) (pa_scope pending) (pa_pattern pending)
                        (wo_approvals w)\<rparr>
               else w);
          w = (case map_of (wo_approval_rows w) i of
                 None \<Rightarrow> w
               | Some row \<Rightarrow>
                   if ap_status row = ''pending''
                   then w\<lparr>wo_approval_rows := AList.update i
                            (row\<lparr>ap_status := decision, ap_decided_by := pa_decided_by pending,
                                 ap_decided_at := Some now\<rparr>) (wo_approval_rows w)\<rparr>
                   else w)
      in (decision = ''approved'', w))"

text \<open>\<open>None\<close>: the call never returns, because there is no deadline and nobody decides.\<close>

definition await_approval ::
    "med_env \<Rightarrow> med_ctx \<Rightarrow> tool_call \<Rightarrow> wait_script \<Rightarrow> world \<Rightarrow> bool option \<times> world" where
  "await_approval E cx call ws w =
     (case open_approval E cx call w of (i, w) \<Rightarrow>
        let w = operators (ws_calls ws) w;
            woken = (case get_approval i (wo_approvals w) of None \<Rightarrow> False | Some pa \<Rightarrow> pa_event pa)
        in if woken
           then (case settle_approval E cx call i (ws_now ws) w of (ok, w) \<Rightarrow> (Some ok, w))
           else if st_hitl_timeout (en_settings E) > 0
           then (case settle_approval E cx call i (ws_now ws) (approval_timeout cx call i ws w) of
                   (ok, w) \<Rightarrow> (Some ok, w))
           else (None, w))"


section \<open>Asking the user\<close>

text \<open>Iterating over the raw options; \<open>None\<close> when the value is not iterable.\<close>

fun raw_options :: "pyval \<Rightarrow> pyval list option" where
  "raw_options (PList xs) = Some xs"
| "raw_options (PStr s) = Some (map (\<lambda>c. PStr [c]) s)"
| "raw_options (PDict d) = Some (map (\<lambda>p. PStr (fst p)) d)"
| "raw_options _ = None"

fun normalize_option :: "pyval \<Rightarrow> pydict option" where
  "normalize_option (PStr s) = Some [(''label'', PStr s), (''description'', PStr [])]"
| "normalize_option (PDict d) = Some [(''label'', dget d ''label'' (PStr [])),
     (''description'', dget d ''description'' (PStr []))]"
| "normalize_option _ = None"

definition normalize_options :: "pyval \<Rightarrow> string + pydict list option" where
  "normalize_options raw =
     (if \<not> truthy raw then Inr None
      else case raw_options raw of
             None \<Rightarrow> Inl ''object is not iterable''
           | Some xs \<Rightarrow> Inr (Some (List.map_filter normalize_option xs)))"

definition options_val :: "pydict list option \<Rightarrow> pyval" where
  "options_val opts = (case opts of None \<Rightarrow> PNone | Some xs \<Rightarrow> PList (map PDict xs))"

definition question_note :: "med_ctx \<Rightarrow> pyval \<Rightarrow> string \<times> pydict" where
  "question_note cx q = (''elicitation_required'',
     [(''severity'', PStr ''warning''), (''title'', PStr ''Agent needs your input''),
      (''message'', q),
      (''action_path'', PStr (''/agents/'' @ ac_id (cx_agent cx) @ ''/chat?session=''
          @ se_id (cx_session cx))),
      (''entity_id'', PStr (cx_run cx)), (''entity_type'', PStr ''run''),
      (''agent_id'', PStr (ac_id (cx_agent cx)))])"

fun answer_all ::
    "(string \<times> string \<times> string) list \<Rightarrow> int \<Rightarrow> elicitation_table \<Rightarrow> elicitation_registry
     \<Rightarrow> elicitation_table \<times> elicitation_registry" where
  "answer_all [] now tab reg = (tab, reg)"
| "answer_all ((i, response, operator) # rest) now tab reg =
     (case respond_to_elicitation i response operator now tab reg of
        (e, tab', reg') \<Rightarrow> answer_all rest now tab' reg')"

definition users :: "(string \<times> string \<times> string) list \<Rightarrow> int \<Rightarrow> world \<Rightarrow> world" where
  "users answers now w =
     (case answer_all answers now (wo_elicit_rows w) (wo_elicit w) of
        (rows, reg) \<Rightarrow> w\<lparr>wo_elicit_rows := rows, wo_elicit := reg\<rparr>)"

definition call_event :: "tool_call \<Rightarrow> pydict \<Rightarrow> pydict" where
  "call_event call rest = [(''id'', PStr (tc_id call)), (''capability'', PStr (tc_name call)),
     (''args'', PDict (tc_args call))] @ rest"

definition open_elicitation ::
    "med_env \<Rightarrow> handler \<Rightarrow> med_ctx \<Rightarrow> tool_call \<Rightarrow> pydict list option \<Rightarrow> world \<Rightarrow> string \<times> world" where
  "open_elicitation E H cx call options w =
     (case draw_uuid E w of (i, w) \<Rightarrow>
        let q = dget (tc_args call) ''question'' (PStr []);
            row = \<lparr>eq_run = cx_run cx, eq_call = Some (tc_id call), eq_sub_agent = cx_sub_id cx,
                   eq_question = q,
                   eq_options = (if truthy (options_val options)
                                 then Some (lib_dumps (en_lib E) (options_val options)) else None),
                   eq_status = ''pending'', eq_response = None, eq_responded_by = None,
                   eq_responded_at = None\<rparr>;
            w = w\<lparr>wo_elicit_rows := AList.update i row (wo_elicit_rows w),
                  wo_notes := wo_notes w @ [question_note cx q],
                  wo_elicit := register_elicitation i (wo_elicit w)\<rparr>;
            w = (if sh_test_run H
                 then w\<lparr>wo_elicit := snd (resolve_elicitation i
                          (case options of Some (d # ds) \<Rightarrow> dget d ''label'' (PStr []) | _ \<Rightarrow> PStr [],
                           ''test'') (wo_elicit w))\<rparr>
                 else w);
            w = emit cx ''clarifying_question''
                  [(''id'', PStr i), (''tool_call_id'', PStr (tc_id call)), (''question'', q),
                   (''options'', options_val options),
                   (''multi_select'', dget (tc_args call) ''multi_select'' (PBool False))] w
        in (i, emit cx ''tool_call''
                 (call_event call [(''status'', PStr ''pending_input''), (''elicitation_id'', PStr i)]) w))"

definition elicitation_timeout :: "med_ctx \<Rightarrow> tool_call \<Rightarrow> string \<Rightarrow> wait_script \<Rightarrow> world \<Rightarrow> world" where
  "elicitation_timeout cx call i ws w =
     (let w = w\<lparr>wo_elicit := snd (resolve_elicitation i (PStr [], ''system_timeout'') (wo_elicit w))\<rparr>;
          w = emit cx ''tool_call''
                (call_event call [(''status'', PStr ''complete''),
                   (''result'', PDict [(''response'', PStr []),
                                        (''error'', PStr ''Elicitation timed out'')])]) w
      in users (ws_late_answers ws) (ws_now ws) w)"

definition settle_elicitation ::
    "med_env \<Rightarrow> med_ctx \<Rightarrow> tool_call \<Rightarrow> string \<Rightarrow> int \<Rightarrow> world \<Rightarrow> mediation \<times> world" where
  "settle_elicitation E cx call i now w =
     (let pending = (case get_elicitation i (wo_elicit w) of Some pe \<Rightarrow> pe | None \<Rightarrow> fresh_elicitation);
          response = (case pe_response pending of
                        Some v \<Rightarrow> if truthy v then v else PStr [] | None \<Rightarrow> PStr []);
          w = w\<lparr>wo_elicit := cleanup_elicitation i (wo_elicit w)\<rparr>;
          w = (case map_of (wo_elicit_rows w) i of
                 None \<Rightarrow> w
               | Some row \<Rightarrow> w\<lparr>wo_elicit_rows := AList.update i
                    (row\<lparr>eq_status := ''answered'', eq_response := Some response,
                         eq_responded_by := pe_responded_by pending,
                         eq_responded_at := Some now\<rparr>) (wo_elicit_rows w)\<rparr>);
          w = emit cx ''tool_call''
                (call_event call [(''status'', PStr ''complete''),
                   (''result'', PDict [(''response'', response)])]) w
      in case draw_uuid E w of (a, w) \<Rightarrow>
           (MedResult \<lparr>sr_output = PDict [(''response'', response)], sr_allowed = True,
              sr_denied_reason = None, sr_audit = None, sr_status = ''ok'', sr_model_content = PNone\<rparr>,
            write_audit (audit_row E cx call a None True ''ok'' None
              (Some (lib_dumps (en_lib E) (PDict [(''response'', response)])))) w))"

definition handle_elicitation ::
    "med_env \<Rightarrow> handler \<Rightarrow> med_ctx \<Rightarrow> tool_call \<Rightarrow> wait_script \<Rightarrow> world \<Rightarrow> mediation \<times> world" where
  "handle_elicitation E H cx call ws w =
     (case normalize_options (dget (tc_args call) ''options'' PNone) of
        Inl e \<Rightarrow> (MedRaised e, w)
      | Inr options \<Rightarrow>
          (case open_elicitation E H cx call options w of (i, w) \<Rightarrow>
             let w = users (ws_answers ws) (ws_now ws) w;
                 woken = (case get_elicitation i (wo_elicit w) of None \<Rightarrow> False | Some pe \<Rightarrow> pe_event pe)
             in if woken then settle_elicitation E cx call i (ws_now ws) w
                else if st_hitl_timeout (en_settings E) > 0
                then settle_elicitation E cx call i (ws_now ws) (elicitation_timeout cx call i ws w)
                else (MedBlocked, w)))"


section \<open>Executing a builtin tool\<close>

text \<open>\<open>extra_kwargs\<close>: each group of injected arguments, in the order of the code.\<close>

type_synonym kwargs = "(string \<times> kwarg) list"

definition add_kwargs :: "bool \<Rightarrow> kwargs \<Rightarrow> kwargs \<Rightarrow> kwargs" where
  "add_kwargs cond new kw = (if cond then AList.updates (map fst new) (map snd new) kw else kw)"

definition MEMORY_LIKE :: "string list" where
  "MEMORY_LIKE = [''doc_list'', ''doc_search'', ''doc_inspect'', ''web_search'', ''web_fetch'']"

definition SKILL_CALLS :: "string list" where
  "SKILL_CALLS = [''skills_list'', ''skills_load'', ''skills_read_resource'', ''skills_usage'']"

definition restriction_kwargs :: "handler \<Rightarrow> tool_call \<Rightarrow> kwargs \<Rightarrow> kwargs" where
  "restriction_kwargs H call kw =
     (case sh_restrictions H of
        None \<Rightarrow> kw
      | Some r \<Rightarrow>
          add_kwargs (tc_name call = ''search_history'') [(''history_scope'', re_history_scope r)]
            (add_kwargs (tc_name call \<in> set [''read_file'', ''write_file'', ''skills_load'',
                           ''skills_read_resource''])
               [(''skill_edits'', re_skill_edits r)] kw))"

definition scope_kwargs :: "med_ctx \<Rightarrow> kwargs" where
  "scope_kwargs cx = [(''agent_id'', KwText (ac_id (cx_agent cx))), (''run_id'', KwText (cx_run cx)),
     (''session_id'', KwText (se_id (cx_session cx)))]"

definition memory_kwargs :: "med_ctx \<Rightarrow> kwargs" where
  "memory_kwargs cx = [(''db'', KwHandle ''db''), (''agent_id'', KwText (ac_id (cx_agent cx))),
     (''run_id'', KwText (cx_run cx)), (''session_id'', KwText (se_id (cx_session cx))),
     (''agent_config'', KwAgent (cx_agent cx)), (''db_lock'', KwHandle ''db_lock'')]"

definition skill_kwargs :: "handler \<Rightarrow> med_ctx \<Rightarrow> string option \<Rightarrow> kwargs" where
  "skill_kwargs H cx subject = [(''agent_id'', KwText (ac_id (cx_agent cx))), (''db'', KwHandle ''db''),
     (''run_id'', KwText (if given (sh_parent_run H) then the (sh_parent_run H) else cx_run cx)),
     (''db_lock'', KwHandle ''db_lock''), (''session_id'', KwText (se_id (cx_session cx))),
     (''contact_id'', KwOptText subject)]"

definition extra_kwargs ::
    "handler \<Rightarrow> med_ctx \<Rightarrow> tool_call \<Rightarrow> capability \<Rightarrow> string option \<Rightarrow> kwargs" where
  "extra_kwargs H cx call c subject =
     (let n = tc_name call;
          kw = [(''call_id'', KwText (tc_id call)), (''sub_agent_id'', KwOptText (cx_sub_id cx))];
          kw = restriction_kwargs H call kw;
          kw = add_kwargs (n = ''run_subagent'') [(''parent_config'', KwAgent (cx_agent cx)),
                 (''_spawn_context'', KwHandle ''spawn_context'')] kw;
          memory = (cap_kind c = KMemory \<or> n \<in> set MEMORY_LIKE);
          kw = add_kwargs memory (memory_kwargs cx) kw;
          kw = add_kwargs (memory \<and> cap_subject_scoped c) [(''contact_id'', KwOptText subject)] kw;
          kw = add_kwargs (n \<in> set SKILL_CALLS) (skill_kwargs H cx subject) kw;
          kw = add_kwargs (starts_with ''browser_'' n)
                 (scope_kwargs cx @ [(''db'', KwHandle ''db''), (''trigger'', KwText (cx_trigger cx))]) kw;
          kw = add_kwargs (n \<in> set [''terminal'', ''read_terminal'', ''close_terminal''])
                 ([(''terminal_registry'', KwHandle ''terminal_registry''), (''db'', KwHandle ''db''),
                   (''db_lock'', KwHandle ''db_lock'')] @ scope_kwargs cx) kw;
          kw = add_kwargs (starts_with ''artifact_'' n)
                 [(''db'', KwHandle ''db''), (''agent_id'', KwText (ac_id (cx_agent cx))),
                  (''run_id'', KwText (cx_run cx)), (''call_id'', KwText (tc_id call))] kw;
          kw = add_kwargs (n \<in> set [''capabilities_search'', ''capabilities_load''])
                 [(''capability_catalog'', KwHandle ''capability_catalog'')] kw
      in add_kwargs (n \<in> set [''read_file'', ''doc_search'', ''doc_inspect'', ''browser_observe''])
           [(''supports_vision'', KwFlag (sh_supports_vision H))] kw)"

text \<open>\<open>result.pop("_model_content", None)\<close>\<close>

fun pop_model_content :: "pyval \<Rightarrow> pyval \<times> pyval" where
  "pop_model_content (PDict d) =
     (PDict (AList.delete ''_model_content'' d), dget d ''_model_content'' PNone)"
| "pop_model_content v = (v, PNone)"

definition failure_status :: "bool \<Rightarrow> string" where
  "failure_status timed_out = (if timed_out then ''timeout'' else ''error'')"

definition json_or_none :: "med_env \<Rightarrow> pyval \<Rightarrow> string option" where
  "json_or_none E v = (if truthy v then Some (lib_dumps (en_lib E) v) else None)"

definition run_builtin ::
    "med_env \<Rightarrow> handler \<Rightarrow> med_ctx \<Rightarrow> tool_call \<Rightarrow> capability \<Rightarrow> string option \<Rightarrow> world
     \<Rightarrow> mediation \<times> world" where
  "run_builtin E H cx call c subject w =
     (let kw = [(''workspace_path'', KwText (sh_workspace H)),
                (''sandbox_mode'', KwText (sh_sandbox_mode H))] @ extra_kwargs H cx call c subject;
          w = w\<lparr>wo_executed := wo_executed w @ [RanTool (tc_name call) (tc_args call) kw]\<rparr>
      in case en_exec E (tc_name call) (tc_args call) kw of
           ToolCancelled \<Rightarrow> (MedCancelled, record_outcome E cx call subject ''interrupted'' w)
         | ToolRaised timed_out text \<Rightarrow>
             (case draw_uuid E w of (i, w) \<Rightarrow>
                let reason = ''execution error: '' @ text; status = failure_status timed_out in
                (MedResult (failed_result PNone reason status),
                 write_audit (audit_row E cx call i subject False status (Some reason) None) w))
         | ToolReturned v \<Rightarrow>
             (case pop_model_content v of (out, model_content) \<Rightarrow>
                case draw_uuid E w of (i, w) \<Rightarrow>
                (MedResult \<lparr>sr_output = out, sr_allowed = True, sr_denied_reason = None,
                   sr_audit = Some i, sr_status = ''ok'', sr_model_content = model_content\<rparr>,
                 write_audit (audit_row E cx call i subject True ''ok'' None (json_or_none E out)) w)))"


section \<open>Executing an MCP tool\<close>

text \<open>The checks before the call, and the environment and headers prepared for it.\<close>

datatype mcp_ready = McpDeny string | McpRaise string | McpReady template template

definition prepare_mcp ::
    "med_env \<Rightarrow> tool_call \<Rightarrow> string option \<Rightarrow> mcp_state \<Rightarrow> mcp_ready" where
  "prepare_mcp E call subject m =
     (case map_of (mx_tool_map m) (tc_name call) of
        None \<Rightarrow> McpDeny ''MCP tool not registered''
      | Some (sid, tool) \<Rightarrow>
          (case find (\<lambda>s. ms_id s = sid) (tb_servers (mx_tables m)) of
             None \<Rightarrow> McpDeny ''MCP server config not found''
           | Some server \<Rightarrow>
               if \<not> ms_enabled server then McpDeny ''MCP server is disabled''
               else if (case ms_tool_filter server of None \<Rightarrow> False | Some f \<Rightarrow> tool \<notin> set f)
               then McpDeny ''MCP tool is filtered''
               else if ms_env_template server = None \<and> ms_headers server = None
               then McpReady [] []
               else
                 (case subject of
                    None \<Rightarrow> McpDeny ''no subject binding (MCP tools require a Contact)''
                  | Some contact \<Rightarrow>
                      (case resolve_binding (en_bindings E) (tb_servers (mx_tables m))
                              (en_credentials E) contact sid of
                         Inl e \<Rightarrow> McpRaise e
                       | Inr None \<Rightarrow> McpDeny ''no MCP server binding for this Contact''
                       | Inr (Some cred) \<Rightarrow>
                           (case decrypt_credential (en_secrets E) cred of
                              None \<Rightarrow> McpRaise ''InvalidToken''
                            | Some v \<Rightarrow>
                                (case inject_credential (en_lib E) (or_nil (ms_env_template server))
                                        (or_nil (ms_headers server)) v of
                                   (env, headers) \<Rightarrow> McpReady env headers))))))"

definition run_mcp ::
    "med_env \<Rightarrow> med_ctx \<Rightarrow> tool_call \<Rightarrow> string option \<Rightarrow> world \<Rightarrow> mediation \<times> world" where
  "run_mcp E cx call subject w =
     (case prepare_mcp E call subject (wo_mcp w) of
        McpDeny reason \<Rightarrow> deny E cx call reason w
      | McpRaise e \<Rightarrow> (MedRaised e, w)
      | McpReady env headers \<Rightarrow>
          (case execute_mcp_tool (en_secrets E) (en_lib E) (en_credentials E) (en_remote E)
                  (tc_name call) (tc_args call) env headers (wo_mcp w) of
             (outcome, m) \<Rightarrow>
               let w = w\<lparr>wo_mcp := m,
                         wo_executed := wo_executed w @ [RanMcp (tc_name call) (tc_args call) env headers]\<rparr>
               in case outcome of
                    ToolCancelled \<Rightarrow> (MedCancelled, record_outcome E cx call subject ''interrupted'' w)
                  | ToolRaised timed_out text \<Rightarrow>
                      (case draw_uuid E w of (i, w) \<Rightarrow>
                         let reason = ''MCP tool error: '' @ text; status = failure_status timed_out in
                         (MedResult (failed_result (PDict [(''error'', PStr reason)]) reason status),
                          write_audit (audit_row E cx call i subject False status (Some reason)
                            (Some (lib_dumps (en_lib E) (PDict [(''error'', PStr text)])))) w))
                  | ToolReturned v \<Rightarrow>
                      (case draw_uuid E w of (i, w) \<Rightarrow>
                         (MedResult \<lparr>sr_output = v, sr_allowed = True, sr_denied_reason = None,
                            sr_audit = Some i, sr_status = ''ok'', sr_model_content = PNone\<rparr>,
                          write_audit (audit_row E cx call i subject True ''ok'' None
                            (json_or_none E v)) w))))"


section \<open>The mediator\<close>

text \<open>After the gates: the call arrives at its batch as approved and runs.\<close>

definition run_call ::
    "med_env \<Rightarrow> handler \<Rightarrow> med_ctx \<Rightarrow> tool_call \<Rightarrow> wait_script \<Rightarrow> capability \<Rightarrow> string option \<Rightarrow> world
     \<Rightarrow> mediation \<times> world" where
  "run_call E H cx call ws c subject w =
     (let w = arrive_at_batch cx call True w in
      if tc_name call = ''agent_ask_user'' then handle_elicitation E H cx call ws w
      else if cap_kind c = KMcpTool then run_mcp E cx call subject w
      else run_builtin E H cx call c subject w)"

definition mediate ::
    "med_env \<Rightarrow> handler \<Rightarrow> med_ctx \<Rightarrow> tool_call \<Rightarrow> wait_script \<Rightarrow> world \<Rightarrow> mediation \<times> world" where
  "mediate E H cx call ws w =
     (case resolve_gates E H cx call (wo_mcp w) of
        Inl reason \<Rightarrow> refuse E cx call reason w
      | Inr (c, sid, subject) \<Rightarrow>
          (case approval_route E H cx call w c sid of
             RouteRefused reason \<Rightarrow> refuse E cx call reason w
           | RouteOpen \<Rightarrow> run_call E H cx call ws c subject w
           | RouteAsk \<Rightarrow>
               (case await_approval E cx call ws w of
                  (None, w) \<Rightarrow> (MedBlocked, w)
                | (Some True, w) \<Rightarrow> run_call E H cx call ws c subject w
                | (Some False, w) \<Rightarrow> refuse E cx call ''approval denied by operator'' w)))"

end
