(* ===== verification/Mediator_Safety.thy ===== *)
theory Mediator_Safety
  imports Mediator
begin

text \<open>
  What the mediator of theory \<open>Mediator\<close> guarantees: authority, approval, audit, subject and
  credential handling, and how long a call can wait.
\<close>

section \<open>What each step leaves alone\<close>

named_theorems med_frame \<open>components of the world a step does not change\<close>

lemma frame_draw [med_frame]:
  "wo_executed (snd (draw_uuid E w)) = wo_executed w"
  "wo_audit (snd (draw_uuid E w)) = wo_audit w"
  "wo_mcp (snd (draw_uuid E w)) = wo_mcp w"
  by (simp_all add: draw_uuid_def)

lemma frame_emit [med_frame]:
  "wo_executed (emit cx k p w) = wo_executed w"
  "wo_audit (emit cx k p w) = wo_audit w"
  "wo_mcp (emit cx k p w) = wo_mcp w"
  "wo_approvals (emit cx k p w) = wo_approvals w"
  "wo_approval_rows (emit cx k p w) = wo_approval_rows w"
  "wo_elicit (emit cx k p w) = wo_elicit w"
  "wo_elicit_rows (emit cx k p w) = wo_elicit_rows w"
  by (simp_all add: emit_def)

lemma frame_arrive [med_frame]:
  "wo_executed (arrive_at_batch cx call b w) = wo_executed w"
  "wo_audit (arrive_at_batch cx call b w) = wo_audit w"
  "wo_mcp (arrive_at_batch cx call b w) = wo_mcp w"
  by (simp_all add: arrive_at_batch_def)

lemma frame_operators [med_frame]:
  "wo_executed (operators calls w) = wo_executed w"
  "wo_audit (operators calls w) = wo_audit w"
  "wo_mcp (operators calls w) = wo_mcp w"
  by (simp_all add: operators_def split: prod.split)

lemma frame_users [med_frame]:
  "wo_executed (users a now w) = wo_executed w"
  "wo_audit (users a now w) = wo_audit w"
  "wo_mcp (users a now w) = wo_mcp w"
  by (simp_all add: users_def split: prod.split)

lemma frame_write_audit [med_frame]:
  "wo_executed (write_audit a w) = wo_executed w"
  "wo_mcp (write_audit a w) = wo_mcp w"
  by (simp_all add: write_audit_def Let_def)

lemma frame_open_approval [med_frame]:
  "wo_executed (snd (open_approval E cx call w)) = wo_executed w"
  "wo_audit (snd (open_approval E cx call w)) = wo_audit w"
  "wo_mcp (snd (open_approval E cx call w)) = wo_mcp w"
  by (simp_all add: open_approval_def Let_def med_frame draw_uuid_def)

lemma frame_approval_timeout [med_frame]:
  "wo_executed (approval_timeout cx call i ws w) = wo_executed w"
  "wo_audit (approval_timeout cx call i ws w) = wo_audit w"
  "wo_mcp (approval_timeout cx call i ws w) = wo_mcp w"
  by (simp_all add: approval_timeout_def Let_def med_frame)

lemma frame_settle_approval [med_frame]:
  "wo_executed (snd (settle_approval E cx call i now w)) = wo_executed w"
  "wo_audit (snd (settle_approval E cx call i now w)) = wo_audit w"
  "wo_mcp (snd (settle_approval E cx call i now w)) = wo_mcp w"
  by (simp_all add: settle_approval_def Let_def split: option.split)

lemma frame_await_approval:
  assumes "await_approval E cx call ws w = (d, w')"
  shows "wo_executed w' = wo_executed w \<and> wo_audit w' = wo_audit w \<and> wo_mcp w' = wo_mcp w"
proof -
  obtain i w1 where o: "open_approval E cx call w = (i, w1)" by (cases "open_approval E cx call w")
  from frame_open_approval [where E = E and cx = cx and call = call and w = w] o
  have "wo_executed w1 = wo_executed w" "wo_audit w1 = wo_audit w" "wo_mcp w1 = wo_mcp w" by simp_all
  with assms o show ?thesis
    by (auto simp: await_approval_def Let_def med_frame split: if_splits prod.splits
        dest!: arg_cong [of _ _ snd, simplified])
qed


section \<open>One audit row per call\<close>

text \<open>
  The audit of one mediation: a call that ends with a result, or is cancelled while it runs, adds
  one row that names the call and repeats the outcome; one that is still waiting, or whose
  preparation raises, adds none.
\<close>

definition row_of :: "med_ctx \<Rightarrow> tool_call \<Rightarrow> audit_record \<Rightarrow> bool" where
  "row_of cx call a \<longleftrightarrow> au_run a = cx_run cx \<and> au_agent a = ac_id (cx_agent cx)
     \<and> au_sub_agent a = cx_sub_id cx \<and> au_call a = tc_id call \<and> au_capability a = tc_name call"

definition audited :: "med_ctx \<Rightarrow> tool_call \<Rightarrow> mediation \<Rightarrow> world \<Rightarrow> world \<Rightarrow> bool" where
  "audited cx call r w w' \<longleftrightarrow>
     (case r of
        MedResult s \<Rightarrow> (\<exists>a. wo_audit w' = wo_audit w @ [a] \<and> row_of cx call a
          \<and> au_outcome a = sr_status s \<and> au_allowed a = sr_allowed s
          \<and> au_denied_reason a = sr_denied_reason s)
      | MedCancelled \<Rightarrow> (\<exists>a. wo_audit w' = wo_audit w @ [a] \<and> row_of cx call a
          \<and> au_outcome a = ''interrupted'' \<and> \<not> au_allowed a)
      | _ \<Rightarrow> wo_audit w' = wo_audit w)"

lemma audited_trans_left:
  "wo_audit w1 = wo_audit w \<Longrightarrow> audited cx call r w1 w' = audited cx call r w w'"
  by (simp add: audited_def cong: mediation.case_cong)

lemma audited_write:
  "row_of cx call a \<Longrightarrow> wo_audit w1 = wo_audit w \<Longrightarrow>
   au_outcome a = sr_status s \<Longrightarrow> au_allowed a = sr_allowed s \<Longrightarrow>
   au_denied_reason a = sr_denied_reason s \<Longrightarrow>
   audited cx call (MedResult s) w (write_audit a w1)"
  by (auto simp: audited_def write_audit_def Let_def row_of_def)

lemma audited_cancel:
  "row_of cx call a \<Longrightarrow> wo_audit w1 = wo_audit w \<Longrightarrow> au_outcome a = ''interrupted'' \<Longrightarrow>
   \<not> au_allowed a \<Longrightarrow> audited cx call MedCancelled w (write_audit a w1)"
  by (auto simp: audited_def write_audit_def Let_def row_of_def)

lemma row_of_audit_row [simp]: "row_of cx call (audit_row E cx call i sub al out reason result)"
  by (simp add: row_of_def audit_row_def)

lemma audit_row_simps [simp]:
  "au_outcome (audit_row E cx call i sub al out reason result) = out"
  "au_allowed (audit_row E cx call i sub al out reason result) = al"
  "au_denied_reason (audit_row E cx call i sub al out reason result) = reason"
  "au_subject (audit_row E cx call i sub al out reason result) = sub"
  by (simp_all add: audit_row_def)

lemma failed_result_simps [simp]:
  "sr_status (failed_result out reason status) = status"
  "sr_allowed (failed_result out reason status) = False"
  "sr_denied_reason (failed_result out reason status) = Some reason"
  by (simp_all add: failed_result_def)

lemma draw_uuid_world: "draw_uuid E w = (i, w') \<Longrightarrow>
    wo_audit w' = wo_audit w \<and> wo_executed w' = wo_executed w \<and> wo_mcp w' = wo_mcp w"
  by (auto simp: draw_uuid_def)

definition audits :: "med_ctx \<Rightarrow> tool_call \<Rightarrow> world \<Rightarrow> mediation \<times> world \<Rightarrow> bool" where
  "audits cx call w res \<longleftrightarrow> audited cx call (fst res) w (snd res)"

lemma audits_pair: "audits cx call w (r, w') = audited cx call r w w'"
  by (simp add: audits_def)

lemma deny_audits: "wo_audit w1 = wo_audit w \<Longrightarrow> audits cx call w (deny E cx call reason w1)"
  by (simp add: deny_def draw_uuid_def audits_pair audited_write)

lemma refuse_audits: "wo_audit w1 = wo_audit w \<Longrightarrow> audits cx call w (refuse E cx call reason w1)"
  by (simp add: refuse_def deny_audits med_frame)

lemma run_builtin_audits:
  assumes "wo_audit w1 = wo_audit w"
  shows "audits cx call w (run_builtin E H cx call c subject w1)"
proof -
  let ?kw = "[(''workspace_path'', KwText (sh_workspace H)),
     (''sandbox_mode'', KwText (sh_sandbox_mode H))] @ extra_kwargs H cx call c subject"
  show ?thesis
    by (cases "en_exec E (tc_name call) (tc_args call) ?kw";
        cases "pop_model_content (case en_exec E (tc_name call) (tc_args call) ?kw of
                 ToolReturned v \<Rightarrow> v | _ \<Rightarrow> PNone)")
      (simp_all add: run_builtin_def Let_def record_outcome_def draw_uuid_def audits_pair
         audited_write audited_cancel assms)
qed

lemma run_mcp_audits:
  assumes "wo_audit w1 = wo_audit w"
  shows "audits cx call w (run_mcp E cx call subject w1)"
proof (cases "prepare_mcp E call subject (wo_mcp w1)")
  case (McpDeny reason)
  with assms show ?thesis by (simp add: run_mcp_def deny_audits)
next
  case (McpRaise e)
  with assms show ?thesis by (simp add: run_mcp_def audits_pair audited_def)
next
  case (McpReady env headers)
  obtain out m where x: "execute_mcp_tool (en_secrets E) (en_lib E) (en_credentials E) (en_remote E)
      (tc_name call) (tc_args call) env headers (wo_mcp w1) = (out, m)"
    by fastforce
  show ?thesis
    by (cases out) (simp_all add: run_mcp_def McpReady x Let_def record_outcome_def draw_uuid_def
        audits_pair audited_write audited_cancel assms)
qed

lemma frame_open_elicitation [med_frame]:
  "wo_executed (snd (open_elicitation E H cx call opts w)) = wo_executed w"
  "wo_audit (snd (open_elicitation E H cx call opts w)) = wo_audit w"
  "wo_mcp (snd (open_elicitation E H cx call opts w)) = wo_mcp w"
  by (simp_all add: open_elicitation_def Let_def med_frame draw_uuid_def)

lemma frame_elicitation_timeout [med_frame]:
  "wo_executed (elicitation_timeout cx call i ws w) = wo_executed w"
  "wo_audit (elicitation_timeout cx call i ws w) = wo_audit w"
  "wo_mcp (elicitation_timeout cx call i ws w) = wo_mcp w"
  by (simp_all add: elicitation_timeout_def Let_def med_frame)

lemma settle_elicitation_audits:
  assumes "wo_audit w1 = wo_audit w"
  shows "audits cx call w (settle_elicitation E cx call i now w1)"
  by (simp add: settle_elicitation_def Let_def draw_uuid_def audits_pair audited_write assms med_frame
      split: option.split)

lemma handle_elicitation_audits:
  assumes "wo_audit w1 = wo_audit w"
  shows "audits cx call w (handle_elicitation E H cx call ws w1)"
proof (cases "normalize_options (dget (tc_args call) ''options'' PNone)")
  case (Inl e)
  with assms show ?thesis by (simp add: handle_elicitation_def audits_pair audited_def)
next
  case (Inr options)
  obtain i w2 where o: "open_elicitation E H cx call options w1 = (i, w2)" by fastforce
  have "wo_audit w2 = wo_audit w"
    using frame_open_elicitation(2) [of E H cx call options w1] o assms by simp
  then show ?thesis
    by (simp add: handle_elicitation_def Inr o Let_def settle_elicitation_audits med_frame
        audits_pair audited_def)
qed

lemma run_call_audits:
  "wo_audit w1 = wo_audit w \<Longrightarrow> audits cx call w (run_call E H cx call ws c subject w1)"
  by (simp add: run_call_def Let_def handle_elicitation_audits run_mcp_audits run_builtin_audits
      med_frame)

text \<open>C3. Every mediated call is audited exactly once.  A call that returns a result, whether it
  ran, failed, timed out or was refused at any gate, adds one audit row that names the call and
  carries the outcome, the permission and the reason of the result; a call cancelled while its tool
  runs adds one row with the outcome \<open>interrupted\<close>; a call still waiting for a human, or whose
  preparation raised, adds none.\<close>
theorem every_call_audited:
  "case mediate E H cx call ws w of (r, w') \<Rightarrow> audited cx call r w w'"
proof -
  have "audits cx call w (mediate E H cx call ws w)"
  proof (cases "resolve_gates E H cx call (wo_mcp w)")
    case (Inl reason)
    then show ?thesis by (simp add: mediate_def refuse_audits)
  next
    case (Inr g)
    obtain c sid subject where g: "g = (c, sid, subject)" by (cases g)
    show ?thesis
    proof (cases "approval_route E H cx call w c sid")
      case RouteAsk
      obtain d w1 where aw: "await_approval E cx call ws w = (d, w1)" by fastforce
      from frame_await_approval [OF aw] have w1: "wo_audit w1 = wo_audit w" by simp
      then show ?thesis
        by (auto simp: mediate_def Inr g RouteAsk aw audits_pair audited_def [of _ _ MedBlocked]
            run_call_audits refuse_audits split: option.split bool.split)
    qed (simp_all add: mediate_def Inr g run_call_audits refuse_audits)
  qed
  then show ?thesis by (simp add: audits_def split_def)
qed


section \<open>Authority\<close>

fun runs_call :: "tool_call \<Rightarrow> execution \<Rightarrow> bool" where
  "runs_call call (RanTool n a kw) = (n = tc_name call \<and> a = tc_args call)"
| "runs_call call (RanMcp n a env headers) = (n = tc_name call \<and> a = tc_args call)"

definition ran_once :: "tool_call \<Rightarrow> world \<Rightarrow> world \<Rightarrow> bool" where
  "ran_once call w w' \<longleftrightarrow> wo_executed w' = wo_executed w
     \<or> (\<exists>x. wo_executed w' = wo_executed w @ [x] \<and> runs_call call x)"

lemma deny_executed [med_frame]: "wo_executed (snd (deny E cx call reason w)) = wo_executed w"
  by (simp add: deny_def draw_uuid_def med_frame)

lemma refuse_executed [med_frame]: "wo_executed (snd (refuse E cx call reason w)) = wo_executed w"
  by (simp add: refuse_def med_frame)

lemma handle_elicitation_executed [med_frame]:
  "wo_executed (snd (handle_elicitation E H cx call ws w)) = wo_executed w"
proof (cases "normalize_options (dget (tc_args call) ''options'' PNone)")
  case (Inr options)
  obtain i w2 where o: "open_elicitation E H cx call options w = (i, w2)" by fastforce
  have "wo_executed w2 = wo_executed w"
    using frame_open_elicitation(1) [of E H cx call options w] o by simp
  then show ?thesis
    by (simp add: handle_elicitation_def Inr o Let_def settle_elicitation_def draw_uuid_def med_frame
        split: option.split)
qed (simp add: handle_elicitation_def)

lemma run_builtin_executed:
  "\<exists>kw. wo_executed (snd (run_builtin E H cx call c subject w))
           = wo_executed w @ [RanTool (tc_name call) (tc_args call) kw]
     \<and> kw = [(''workspace_path'', KwText (sh_workspace H)),
         (''sandbox_mode'', KwText (sh_sandbox_mode H))] @ extra_kwargs H cx call c subject"
  by (simp add: run_builtin_def Let_def record_outcome_def draw_uuid_def med_frame
      split: tool_outcome.split prod.split)

lemma run_mcp_executed:
  "wo_executed (snd (run_mcp E cx call subject w)) = wo_executed w
   \<or> (\<exists>env headers. prepare_mcp E call subject (wo_mcp w) = McpReady env headers
        \<and> wo_executed (snd (run_mcp E cx call subject w))
            = wo_executed w @ [RanMcp (tc_name call) (tc_args call) env headers])"
proof (cases "prepare_mcp E call subject (wo_mcp w)")
  case (McpReady env headers)
  obtain out m where x: "execute_mcp_tool (en_secrets E) (en_lib E) (en_credentials E) (en_remote E)
      (tc_name call) (tc_args call) env headers (wo_mcp w) = (out, m)"
    by fastforce
  show ?thesis
    by (cases out) (simp_all add: run_mcp_def McpReady x Let_def record_outcome_def draw_uuid_def
        med_frame)
qed (simp_all add: run_mcp_def med_frame)

lemma run_call_ran_once:
  assumes "wo_executed w1 = wo_executed w"
  shows "ran_once call w (snd (run_call E H cx call ws c subject w1))"
proof -
  let ?w = "arrive_at_batch cx call True w1"
  have w: "wo_executed ?w = wo_executed w" using assms by (simp add: med_frame)
  from run_builtin_executed [of E H cx call c subject ?w] run_mcp_executed [of E cx call subject ?w] w
  show ?thesis
    by (auto simp: run_call_def Let_def ran_once_def med_frame)
qed

text \<open>Did a call get past its gates?\<close>

lemma mediate_cases:
  obtains (refused) reason where "mediate E H cx call ws w = refuse E cx call reason w"
  | (denied) w1 where "await_approval E cx call ws w = (Some False, w1)"
      and "mediate E H cx call ws w = refuse E cx call ''approval denied by operator'' w1"
  | (blocked) w1 where "await_approval E cx call ws w = (None, w1)"
      and "mediate E H cx call ws w = (MedBlocked, w1)"
  | (direct) c sid subject where "resolve_gates E H cx call (wo_mcp w) = Inr (c, sid, subject)"
      and "approval_route E H cx call w c sid = RouteOpen"
      and "mediate E H cx call ws w = run_call E H cx call ws c subject w"
  | (approved) c sid subject w1 where "resolve_gates E H cx call (wo_mcp w) = Inr (c, sid, subject)"
      and "approval_route E H cx call w c sid = RouteAsk"
      and "await_approval E cx call ws w = (Some True, w1)"
      and "mediate E H cx call ws w = run_call E H cx call ws c subject w1"
proof (cases "resolve_gates E H cx call (wo_mcp w)")
  case (Inl reason)
  then show ?thesis by (intro refused) (simp add: mediate_def)
next
  case (Inr g)
  obtain c sid subject where g: "g = (c, sid, subject)" by (cases g)
  show ?thesis
  proof (cases "approval_route E H cx call w c sid")
    case RouteOpen
    then show ?thesis by (intro direct) (simp_all add: mediate_def Inr g)
  next
    case (RouteRefused reason)
    then show ?thesis by (intro refused) (simp add: mediate_def Inr g)
  next
    case RouteAsk
    obtain d w1 where aw: "await_approval E cx call ws w = (d, w1)" by fastforce
    show ?thesis
    proof (cases d)
      case None
      with aw RouteAsk show ?thesis by (intro blocked [of w1]) (simp_all add: mediate_def Inr g)
    next
      case (Some b)
      then show ?thesis
      proof (cases b)
        case True
        with Some aw RouteAsk Inr g show ?thesis
          by (intro approved [of c sid subject w1]) (simp_all add: mediate_def)
      next
        case False
        with Some aw RouteAsk Inr g show ?thesis
          by (intro denied [of w1]) (simp_all add: mediate_def)
      qed
    qed
  qed
qed

text \<open>What passing the first gates means.\<close>

definition call_server :: "mcp_state \<Rightarrow> tool_call \<Rightarrow> capability \<Rightarrow> string option" where
  "call_server m call c =
     (if cap_kind c = KMcpTool then map_option fst (map_of (mx_tool_map m) (tc_name call)) else None)"

lemma resolve_gates_ok:
  assumes "resolve_gates E H cx call m = Inr (c, sid, subject)"
  shows "reg_get (mx_registry m) (tc_name call) = Some c" and "sid = call_server m call c"
    and "is_capability_granted (mx_registry m) (cx_agent cx) (tc_name call) sid"
    and "\<And>p. cx_is_sub cx \<Longrightarrow> cx_parent cx = Some p \<Longrightarrow>
           is_capability_granted (mx_registry m) p (tc_name call) sid"
    and "\<And>r. sh_restrictions H = Some r \<Longrightarrow> tc_name call \<in> re_names r"
    and "subject = (if cap_subject_scoped c then Some (se_contact (cx_session cx)) else None)"
    and "cap_subject_scoped c \<Longrightarrow> se_contact (cx_session cx) \<in> set (en_contacts E)"
  using assms
  by (auto simp: resolve_gates_def call_server_def Let_def split: option.splits if_splits)

text \<open>C1. Nothing runs without authority.  If a mediated call executes anything, it executes the
  tool that was called, with the arguments that were given, once; and then the capability is
  registered and granted to the agent, in a sub-agent run granted to the parent as well, named by
  the restrictions of the run if there are any, and a subject-scoped capability has a known contact
  as its subject.\<close>
theorem execution_needs_authority:
  assumes "mediate E H cx call ws w = (r, w')" and "wo_executed w' \<noteq> wo_executed w"
  shows "\<exists>x c. wo_executed w' = wo_executed w @ [x] \<and> runs_call call x
    \<and> reg_get (mx_registry (wo_mcp w)) (tc_name call) = Some c
    \<and> is_capability_granted (mx_registry (wo_mcp w)) (cx_agent cx) (tc_name call)
        (call_server (wo_mcp w) call c)
    \<and> (\<forall>p. cx_is_sub cx \<and> cx_parent cx = Some p \<longrightarrow>
         is_capability_granted (mx_registry (wo_mcp w)) p (tc_name call) (call_server (wo_mcp w) call c))
    \<and> (\<forall>res. sh_restrictions H = Some res \<longrightarrow> tc_name call \<in> re_names res)
    \<and> (cap_subject_scoped c \<longrightarrow> se_contact (cx_session cx) \<in> set (en_contacts E))"
proof -
  have gates: "\<exists>c sid subject. resolve_gates E H cx call (wo_mcp w) = Inr (c, sid, subject)
      \<and> ran_once call w w'"
  proof (cases rule: mediate_cases [of E H cx call ws w])
    case (refused reason)
    with assms show ?thesis by (metis refuse_executed snd_conv)
  next
    case (denied w1)
    with assms frame_await_approval [OF denied(1)] show ?thesis by (metis refuse_executed snd_conv)
  next
    case (blocked w1)
    with assms frame_await_approval [OF blocked(1)] show ?thesis by simp
  next
    case (direct c sid subject)
    with assms(1) run_call_ran_once [OF refl, of call w E H cx ws c subject] show ?thesis by auto
  next
    case (approved c sid subject w1)
    from frame_await_approval [OF approved(3)] have "wo_executed w1 = wo_executed w" by simp
    from run_call_ran_once [OF this, of call E H cx ws c subject] approved(4) assms(1)
    have "ran_once call w w'" by (metis snd_conv)
    with approved(1) show ?thesis by blast
  qed
  then obtain c sid subject where g: "resolve_gates E H cx call (wo_mcp w) = Inr (c, sid, subject)"
    and "ran_once call w w'" by blast
  with assms(2) obtain x where "wo_executed w' = wo_executed w @ [x]" and "runs_call call x"
    by (auto simp: ran_once_def)
  with resolve_gates_ok [OF g] show ?thesis by blast
qed


section \<open>Approval\<close>

text \<open>An operator's approve request for this very request is among those served while it waits.\<close>

definition operator_approved :: "string \<Rightarrow> wait_script \<Rightarrow> bool" where
  "operator_approved i ws \<longleftrightarrow>
     (\<exists>body operator now. CallApprove i body operator now \<in> set (ws_calls ws @ ws_late_calls ws))"

definition not_approved :: "string \<Rightarrow> approval_registry \<Rightarrow> bool" where
  "not_approved i reg \<longleftrightarrow>
     (\<forall>pa. get_approval i reg = Some pa \<longrightarrow> pa_decision pa \<noteq> Some ''approved'')"

lemma serve_approvals_not_approved:
  assumes "\<And>body operator now. CallApprove i body operator now \<notin> set calls"
    and "not_approved i reg" and "serve_approvals calls tab reg = (tab', reg')"
  shows "not_approved i reg'"
  using assms
proof (induction calls tab reg rule: serve_approvals.induct)
  case (2 c calls tab reg)
  show ?case
  proof (cases "serve_approval c tab reg")
    case (Inl e)
    with 2 show ?thesis by simp
  next
    case (Inr t)
    obtain t1 r1 where t: "t = (t1, r1)" by (cases t)
    have "not_approved i r1"
    proof (cases c)
      case (CallApprove j body operator now)
      with "2.prems"(1) have "j \<noteq> i" by fastforce
      with CallApprove Inr t "2.prems"(2) show ?thesis
        by (auto simp: api_approve_def Let_def not_approved_def ap.get_resolve
            simp del: parse_scope.simps)
    next
      case (CallReject j operator now)
      with Inr t "2.prems"(2) show ?thesis
        by (auto simp: api_reject_def not_approved_def ap.get_resolve apply_resolution_def
            plain_resolution_def split: if_splits)
    qed
    with "2.IH"(2) [OF Inr t [symmetric]] 2(3,5) Inr t show ?thesis by simp
  qed
qed simp

lemma operators_not_approved:
  assumes "\<And>body operator now. CallApprove i body operator now \<notin> set calls"
    and "not_approved i (wo_approvals w)"
  shows "not_approved i (wo_approvals (operators calls w))"
proof -
  obtain tab reg where r: "serve_approvals calls (wo_approval_rows w) (wo_approvals w) = (tab, reg)"
    by fastforce
  from serve_approvals_not_approved [OF assms r] r show ?thesis by (simp add: operators_def)
qed

lemma timeout_not_approved:
  assumes "\<And>body operator now. CallApprove i body operator now \<notin> set (ws_late_calls ws)"
  shows "not_approved i (wo_approvals (approval_timeout cx call i ws w))"
  unfolding approval_timeout_def Let_def
  by (rule operators_not_approved [OF assms])
    (auto simp: med_frame not_approved_def ap.get_resolve apply_resolution_def plain_resolution_def
       split: if_splits)

lemma settle_rejects:
  "not_approved i (wo_approvals w) \<Longrightarrow> \<not> fst (settle_approval E cx call i now w)"
  by (auto simp: settle_approval_def Let_def not_approved_def given_def fresh_pending_def
      split: option.splits)

lemma open_approval_uuid:
  "open_approval E cx call w = (i, w1) \<Longrightarrow>
   i = lib_uuid (en_lib E) (wo_uuids w) \<and> get_approval i (wo_approvals w1) = Some fresh_pending"
  by (auto simp: open_approval_def draw_uuid_def Let_def med_frame ap.get_reg)

lemma await_needs_operator:
  assumes "await_approval E cx call ws w = (Some True, w')"
  shows "operator_approved (lib_uuid (en_lib E) (wo_uuids w)) ws"
proof (rule ccontr)
  assume no: "\<not> operator_approved (lib_uuid (en_lib E) (wo_uuids w)) ws"
  obtain i w1 where o: "open_approval E cx call w = (i, w1)" by fastforce
  from open_approval_uuid [OF o] no
  have i: "\<And>b p n. CallApprove i b p n \<notin> set (ws_calls ws)"
      "\<And>b p n. CallApprove i b p n \<notin> set (ws_late_calls ws)"
    and "not_approved i (wo_approvals w1)"
    by (auto simp: operator_approved_def not_approved_def fresh_pending_def)
  then have "not_approved i (wo_approvals (operators (ws_calls ws) w1))"
    by (intro operators_not_approved)
  then have "\<not> fst (settle_approval E cx call i (ws_now ws) (operators (ws_calls ws) w1))"
    by (rule settle_rejects)
  moreover have "\<not> fst (settle_approval E cx call i (ws_now ws)
      (approval_timeout cx call i ws (operators (ws_calls ws) w1)))"
    by (intro settle_rejects timeout_not_approved i(2))
  ultimately show False
    using assms o by (auto simp: await_approval_def Let_def split: if_splits prod.splits)
qed

text \<open>C2. A call that needs approval and runs was let through by someone entitled to: outside
  restricted executions, either the yolo switch is on, or the channel's policy says
  \<open>auto_approve\<close>, or the operator's session allowlist, the schedule's pre-approval or the test-run
  switch covers it, or an operator approved exactly this request while the call was waiting.\<close>
theorem execution_needs_approval:
  assumes "mediate E H cx call ws w = (r, w')" and "wo_executed w' \<noteq> wo_executed w"
    and "reg_get (mx_registry (wo_mcp w)) (tc_name call) = Some c"
    and "needs_approval (mx_registry (wo_mcp w)) (cx_agent cx) c (tc_name call)
           (call_server (wo_mcp w) call c)"
  shows "sh_restrictions H = None
    \<and> (st_yolo (en_settings E) \<or> ac_yolo_mode (cx_agent cx)
     \<or> (given (se_channel (cx_session cx))
         \<and> (case sh_channel_policy H of Some p \<Rightarrow> p | None \<Rightarrow> resolve_channel_policy E cx)
             = ''auto_approve'')
     \<or> (\<not> given (se_channel (cx_session cx))
         \<and> (is_session_approved (en_lib E) (se_id (cx_session cx)) (tc_name call) (tc_args call)
               (wo_approvals w)
            \<or> tc_name call \<in> sh_auto_approve H \<or> sh_test_run H))
     \<or> operator_approved (lib_uuid (en_lib E) (wo_uuids w)) ws)"
proof (cases rule: mediate_cases [of E H cx call ws w])
  case (refused reason)
  with assms show ?thesis by (metis refuse_executed snd_conv)
next
  case (denied w1)
  with assms frame_await_approval [OF denied(1)] show ?thesis by (metis refuse_executed snd_conv)
next
  case (blocked w1)
  with assms frame_await_approval [OF blocked(1)] show ?thesis by simp
next
  case (direct c' sid subject)
  from resolve_gates_ok(1,2) [OF direct(1)] assms(3) have "c' = c" "sid = call_server (wo_mcp w) call c"
    by auto
  with direct(2) assms(4) show ?thesis
    by (auto simp: approval_route_def Let_def split: if_splits)
next
  case (approved c' sid subject w1)
  from approved(2) have "sh_restrictions H = None"
    by (auto simp: approval_route_def split: if_splits)
  with await_needs_operator [OF approved(3)] show ?thesis by simp
qed


section \<open>How long a call waits, and what the row says afterwards\<close>

definition request_ok :: "string \<Rightarrow> approval_table \<Rightarrow> approval_registry \<Rightarrow> bool" where
  "request_ok i rows reg \<longleftrightarrow>
     (\<exists>row pa. map_of rows i = Some row \<and> get_approval i reg = Some pa
        \<and> (if ap_status row = ''pending''
           then pa_decision pa = None \<or> pa_decision pa = Some ''rejected''
           else ap_status row \<in> {''approved'', ''rejected''}
                \<and> pa_decision pa = Some (ap_status row)))"

lemma serve_approval_request_ok:
  assumes "serve_approval c rows reg = Inr (rows', reg')" and "request_ok i rows reg"
  shows "request_ok i rows' reg'"
proof (cases c)
  case (CallApprove j body operator now)
  with assms show ?thesis
    by (cases "j = i")
      (auto simp: request_ok_def api_approve_def Let_def persist_decision_def ap.get_resolve
         apply_resolution_def split: option.splits if_splits simp del: parse_scope.simps)
next
  case (CallReject j operator now)
  with assms show ?thesis
    by (cases "j = i")
      (auto simp: request_ok_def api_reject_def persist_decision_def ap.get_resolve
         apply_resolution_def plain_resolution_def split: option.splits if_splits)
qed

lemma serve_approvals_request_ok:
  "serve_approvals calls rows reg = (rows', reg') \<Longrightarrow> request_ok i rows reg \<Longrightarrow> request_ok i rows' reg'"
proof (induction calls rows reg rule: serve_approvals.induct)
  case (2 c calls rows reg)
  then show ?case
    by (auto split: sum.splits prod.splits dest: serve_approval_request_ok)
qed simp

lemma operators_request_ok:
  "request_ok i (wo_approval_rows w) (wo_approvals w) \<Longrightarrow>
   request_ok i (wo_approval_rows (operators calls w)) (wo_approvals (operators calls w))"
  by (auto simp: operators_def split: prod.split dest: serve_approvals_request_ok)

lemma timeout_request_ok:
  assumes "request_ok i (wo_approval_rows w) (wo_approvals w)"
    and "\<And>row. map_of (wo_approval_rows w) i = Some row \<Longrightarrow> ap_status row = ''pending''"
  shows "request_ok i (wo_approval_rows (approval_timeout cx call i ws w))
           (wo_approvals (approval_timeout cx call i ws w))"
  unfolding approval_timeout_def Let_def
  by (rule operators_request_ok)
    (use assms in \<open>auto simp: med_frame request_ok_def ap.get_resolve apply_resolution_def
       plain_resolution_def split: if_splits\<close>)

lemma remember_keeps_pending [simp]:
  "get_approval i (remember_approval L sid cap args scope pattern reg) = get_approval i reg"
  by (simp add: get_approval_def remember_approval_def Let_def)

lemma settle_outcome:
  assumes "request_ok i (wo_approval_rows w) (wo_approvals w)"
    and "settle_approval E cx call i now w = (ok, w')"
  shows "get_approval i (wo_approvals w') = None
    \<and> (\<exists>row. map_of (wo_approval_rows w') i = Some row
         \<and> ap_status row = (if ok then ''approved'' else ''rejected''))"
proof -
  from assms(1) obtain row pa where rp: "map_of (wo_approval_rows w) i = Some row"
    "get_approval i (wo_approvals w) = Some pa"
    and st: "if ap_status row = ''pending''
           then pa_decision pa = None \<or> pa_decision pa = Some ''rejected''
           else ap_status row \<in> {''approved'', ''rejected''} \<and> pa_decision pa = Some (ap_status row)"
    by (auto simp: request_ok_def)
  from assms(2) rp st show ?thesis
    by (cases "ap_status row = ''pending''"; cases "pa_remember pa"; cases "pa_decision pa")
      (auto simp: settle_approval_def Let_def given_def ap.get_cleanup)
qed

lemma open_approval_ok:
  "open_approval E cx call w = (i, w1) \<Longrightarrow> request_ok i (wo_approval_rows w1) (wo_approvals w1)"
  by (auto simp: open_approval_def draw_uuid_def Let_def med_frame request_ok_def ap.get_reg
      fresh_pending_def)

text \<open>A waiter that has not been woken has a row that is still undecided.\<close>

definition woken_iff_decided :: "string \<Rightarrow> approval_table \<Rightarrow> approval_registry \<Rightarrow> bool" where
  "woken_iff_decided i rows reg \<longleftrightarrow>
     (\<exists>row pa. map_of rows i = Some row \<and> get_approval i reg = Some pa
        \<and> (pa_event pa \<longleftrightarrow> ap_status row \<noteq> ''pending''))"

lemma serve_approval_woken:
  assumes "serve_approval c rows reg = Inr (rows', reg')" and "woken_iff_decided i rows reg"
  shows "woken_iff_decided i rows' reg'"
proof (cases c)
  case (CallApprove j body operator now)
  with assms show ?thesis
    by (cases "j = i")
      (auto simp: woken_iff_decided_def api_approve_def Let_def persist_decision_def ap.get_resolve
         apply_resolution_def split: option.splits if_splits simp del: parse_scope.simps)
next
  case (CallReject j operator now)
  with assms show ?thesis
    by (cases "j = i")
      (auto simp: woken_iff_decided_def api_reject_def persist_decision_def ap.get_resolve
         apply_resolution_def plain_resolution_def split: option.splits if_splits)
qed

lemma operators_woken:
  "woken_iff_decided i (wo_approval_rows w) (wo_approvals w) \<Longrightarrow>
   woken_iff_decided i (wo_approval_rows (operators calls w)) (wo_approvals (operators calls w))"
proof -
  have "serve_approvals calls rows reg = (rows', reg') \<Longrightarrow> woken_iff_decided i rows reg \<Longrightarrow>
        woken_iff_decided i rows' reg'" for rows reg rows' reg'
    by (induction calls rows reg rule: serve_approvals.induct)
      (auto split: sum.splits prod.splits dest: serve_approval_woken)
  then show "woken_iff_decided i (wo_approval_rows w) (wo_approvals w) \<Longrightarrow> ?thesis"
    by (auto simp: operators_def split: prod.split)
qed

lemma open_approval_woken:
  "open_approval E cx call w = (i, w1) \<Longrightarrow> woken_iff_decided i (wo_approval_rows w1) (wo_approvals w1)"
  by (auto simp: open_approval_def draw_uuid_def Let_def med_frame woken_iff_decided_def ap.get_reg
      fresh_pending_def)

lemma await_outcome:
  assumes "await_approval E cx call ws w = (Some ok, w')"
  shows "\<exists>row. map_of (wo_approval_rows w') (lib_uuid (en_lib E) (wo_uuids w)) = Some row
           \<and> ap_status row = (if ok then ''approved'' else ''rejected'')"
    and "get_approval (lib_uuid (en_lib E) (wo_uuids w)) (wo_approvals w') = None"
proof -
  obtain i w1 where o: "open_approval E cx call w = (i, w1)" by fastforce
  let ?w = "operators (ws_calls ws) w1"
  have i: "i = lib_uuid (en_lib E) (wo_uuids w)" using open_approval_uuid [OF o] by simp
  have ok: "request_ok i (wo_approval_rows ?w) (wo_approvals ?w)"
    by (intro operators_request_ok open_approval_ok [OF o])
  have wk: "woken_iff_decided i (wo_approval_rows ?w) (wo_approvals ?w)"
    by (intro operators_woken open_approval_woken [OF o])
  have "\<exists>w2. request_ok i (wo_approval_rows w2) (wo_approvals w2)
      \<and> settle_approval E cx call i (ws_now ws) w2 = (ok, w')"
  proof (cases "case get_approval i (wo_approvals ?w) of None \<Rightarrow> False | Some pa \<Rightarrow> pa_event pa")
    case True
    with assms o ok show ?thesis
      by (intro exI [of _ ?w]) (auto simp: await_approval_def Let_def split: prod.splits)
  next
    case False
    with wk have "\<And>row. map_of (wo_approval_rows ?w) i = Some row \<Longrightarrow> ap_status row = ''pending''"
      by (auto simp: woken_iff_decided_def)
    from timeout_request_ok [OF ok this] False assms o show ?thesis
      by (intro exI [of _ "approval_timeout cx call i ws ?w"])
        (auto simp: await_approval_def Let_def split: prod.splits if_splits)
  qed
  with settle_outcome i
  show "\<exists>row. map_of (wo_approval_rows w') (lib_uuid (en_lib E) (wo_uuids w)) = Some row
           \<and> ap_status row = (if ok then ''approved'' else ''rejected'')"
    and "get_approval (lib_uuid (en_lib E) (wo_uuids w)) (wo_approvals w') = None"
    by blast+
qed



section \<open>Whose data a tool sees\<close>

lemma map_of_add_kwargs:
  "map_of (add_kwargs b new kw) k =
     (if b then map_upds (map_of kw) (map fst new) (map snd new) k else map_of kw k)"
  by (simp add: add_kwargs_def updates_conv')

lemma extra_kwargs_contact:
  "map_of (extra_kwargs H cx call c subject) ''contact_id'' =
     (if tc_name call \<in> set SKILL_CALLS
         \<or> ((cap_kind c = KMemory \<or> tc_name call \<in> set MEMORY_LIKE) \<and> cap_subject_scoped c)
      then Some (KwOptText subject) else None)"
  by (simp add: extra_kwargs_def Let_def map_of_add_kwargs restriction_kwargs_def scope_kwargs_def
      memory_kwargs_def skill_kwargs_def del: list.set split: option.split)

lemma extra_kwargs_session:
  "map_of (extra_kwargs H cx call c subject) ''session_id'' \<in> {None, Some (KwText (se_id (cx_session cx)))}"
  by (simp add: extra_kwargs_def Let_def map_of_add_kwargs restriction_kwargs_def scope_kwargs_def
      memory_kwargs_def skill_kwargs_def del: list.set split: option.split)

lemma extra_kwargs_agent:
  "map_of (extra_kwargs H cx call c subject) ''agent_id'' \<in> {None, Some (KwText (ac_id (cx_agent cx)))}"
  by (simp add: extra_kwargs_def Let_def map_of_add_kwargs restriction_kwargs_def scope_kwargs_def
      memory_kwargs_def skill_kwargs_def del: list.set split: option.split)

lemma run_call_cases:
  assumes "wo_executed (snd (run_call E H cx call ws c subject w)) = xs @ [x]"
    and "wo_executed w = xs"
  shows "(\<exists>kw. x = RanTool (tc_name call) (tc_args call) kw
            \<and> kw = [(''workspace_path'', KwText (sh_workspace H)),
                 (''sandbox_mode'', KwText (sh_sandbox_mode H))] @ extra_kwargs H cx call c subject)
    \<or> (\<exists>env headers. x = RanMcp (tc_name call) (tc_args call) env headers
         \<and> prepare_mcp E call subject (wo_mcp w) = McpReady env headers)"
proof -
  let ?w = "arrive_at_batch cx call True w"
  have w: "wo_executed ?w = xs" "wo_mcp ?w = wo_mcp w" using assms(2) by (simp_all add: med_frame)
  from run_builtin_executed [of E H cx call c subject ?w] run_mcp_executed [of E cx call subject ?w] w
    assms(1)
  show ?thesis
    by (auto simp: run_call_def Let_def med_frame split: if_splits)
qed

lemma mediate_executed_cases:
  assumes "mediate E H cx call ws w = (r, w')" and "wo_executed w' = wo_executed w @ [x]"
  obtains c sid subject where "resolve_gates E H cx call (wo_mcp w) = Inr (c, sid, subject)"
    and "(\<exists>kw. x = RanTool (tc_name call) (tc_args call) kw
            \<and> kw = [(''workspace_path'', KwText (sh_workspace H)),
                 (''sandbox_mode'', KwText (sh_sandbox_mode H))] @ extra_kwargs H cx call c subject)
      \<or> (\<exists>env headers. x = RanMcp (tc_name call) (tc_args call) env headers
           \<and> prepare_mcp E call subject (wo_mcp w) = McpReady env headers)"
proof (cases rule: mediate_cases [of E H cx call ws w])
  case (refused reason)
  with assms have False by (metis refuse_executed snd_conv not_Cons_self2 self_append_conv)
  then show ?thesis ..
next
  case (denied w1)
  with assms frame_await_approval [OF denied(1)] have False
    by (metis refuse_executed snd_conv not_Cons_self2 self_append_conv)
  then show ?thesis ..
next
  case (blocked w1)
  with assms frame_await_approval [OF blocked(1)] have False by simp
  then show ?thesis ..
next
  case (direct c sid subject)
  from direct(3) assms have "wo_executed (snd (run_call E H cx call ws c subject w)) = wo_executed w @ [x]"
    by (metis snd_conv)
  from that [OF direct(1) run_call_cases [OF this refl]] show ?thesis .
next
  case (approved c sid subject w1)
  from frame_await_approval [OF approved(3)] have w1: "wo_executed w1 = wo_executed w" "wo_mcp w1 = wo_mcp w"
    by simp_all
  from approved(4) assms have "wo_executed (snd (run_call E H cx call ws c subject w1)) = wo_executed w @ [x]"
    by (metis snd_conv)
  from that [OF approved(1) run_call_cases [OF this w1(1), unfolded w1(2)]] show ?thesis .
qed

text \<open>C4. The subject is never what the model passed.  The contact a builtin tool receives is the
  contact of the session the call came from, only for a capability that is subject scoped (or
  none, for the skill tools), and the session and the agent it receives are those of the call.\<close>
theorem subject_from_session:
  assumes "mediate E H cx call ws w = (r, w')" and "wo_executed w' = wo_executed w @ [RanTool n a kw]"
  shows "map_of kw ''contact_id''
           \<in> {None, Some (KwOptText None), Some (KwOptText (Some (se_contact (cx_session cx))))}
    \<and> (\<forall>s. map_of kw ''contact_id'' = Some (KwOptText (Some s)) \<longrightarrow>
         s \<in> set (en_contacts E)
         \<and> (\<exists>c. reg_get (mx_registry (wo_mcp w)) (tc_name call) = Some c \<and> cap_subject_scoped c))
    \<and> map_of kw ''session_id'' \<in> {None, Some (KwText (se_id (cx_session cx)))}
    \<and> map_of kw ''agent_id'' \<in> {None, Some (KwText (ac_id (cx_agent cx)))}"
  using assms
proof (rule mediate_executed_cases)
  fix c sid subject
  assume g: "resolve_gates E H cx call (wo_mcp w) = Inr (c, sid, subject)"
    and x: "(\<exists>kw'. RanTool n a kw = RanTool (tc_name call) (tc_args call) kw'
            \<and> kw' = [(''workspace_path'', KwText (sh_workspace H)),
                 (''sandbox_mode'', KwText (sh_sandbox_mode H))] @ extra_kwargs H cx call c subject)
      \<or> (\<exists>env headers. RanTool n a kw = RanMcp (tc_name call) (tc_args call) env headers
           \<and> prepare_mcp E call subject (wo_mcp w) = McpReady env headers)"
  from x have kw: "map_of kw k = map_of (extra_kwargs H cx call c subject) k"
    if "k \<in> {''contact_id'', ''session_id'', ''agent_id''}" for k
    using that by auto
  from resolve_gates_ok(6,7) [OF g] resolve_gates_ok(1) [OF g]
    extra_kwargs_session [of H cx call c subject] extra_kwargs_agent [of H cx call c subject]
  show ?thesis
    by (simp add: kw extra_kwargs_contact split: if_splits)
qed

lemma one_or_none_Some: "one_or_none xs = Inr (Some y) \<Longrightarrow> xs = [y]"
  by (simp add: one_or_none_def split: list.splits)

lemma resolve_binding_ok:
  assumes "resolve_binding binds servers creds contact sid = Inr (Some cred)"
  obtains b where "filter (\<lambda>b. bi_contact_id b = contact \<and> bi_server_id b = sid) binds = [b]"
    and "cr_id cred = bi_credential_id b" and "cred \<in> set creds"
proof -
  from assms obtain o1 where o1: "get_binding binds contact sid = Inr o1"
    by (cases "get_binding binds contact sid") (simp_all add: resolve_binding_def)
  with assms obtain b where b: "get_binding binds contact sid = Inr (Some b)"
    by (cases o1) (simp_all add: resolve_binding_def)
  with assms have "find (\<lambda>c. cr_id c = bi_credential_id b) creds = Some cred"
    by (cases "find (\<lambda>s. ms_id s = sid) servers") (simp_all add: resolve_binding_def)
  moreover from b have "filter (\<lambda>b. bi_contact_id b = contact \<and> bi_server_id b = sid) binds = [b]"
    unfolding get_binding_def by (rule one_or_none_Some)
  ultimately show ?thesis
    using find_in_set [of "\<lambda>c. cr_id c = bi_credential_id b" creds cred]
    by (intro that [of b]) simp_all
qed

text \<open>C5. A call to an MCP server that wants credentials fails closed: if it is sent at all, the
  server is enabled and its filter admits the tool, the capability is subject scoped, the session's
  contact has exactly one binding to this server, and the environment and headers are the server's
  templates rendered with the decrypted credential of that binding.\<close>
theorem mcp_fails_closed:
  assumes "mediate E H cx call ws w = (r, w')" and "wo_executed w' = wo_executed w @ [RanMcp n a env headers]"
    and "map_of (mx_tool_map (wo_mcp w)) (tc_name call) = Some (sid, tool)"
    and "find (\<lambda>s. ms_id s = sid) (tb_servers (mx_tables (wo_mcp w))) = Some server"
    and "ms_env_template server \<noteq> None \<or> ms_headers server \<noteq> None"
  shows "ms_enabled server \<and> (\<forall>f. ms_tool_filter server = Some f \<longrightarrow> tool \<in> set f)
    \<and> (\<exists>c b cred v. reg_get (mx_registry (wo_mcp w)) (tc_name call) = Some c \<and> cap_subject_scoped c
        \<and> filter (\<lambda>b. bi_contact_id b = se_contact (cx_session cx) \<and> bi_server_id b = sid)
            (en_bindings E) = [b]
        \<and> cr_id cred = bi_credential_id b \<and> cred \<in> set (en_credentials E)
        \<and> decrypt_credential (en_secrets E) cred = Some v
        \<and> (env, headers) = inject_credential (en_lib E) (or_nil (ms_env_template server))
            (or_nil (ms_headers server)) v)"
  using assms(1,2)
proof (rule mediate_executed_cases)
  fix c sid' subject
  assume g: "resolve_gates E H cx call (wo_mcp w) = Inr (c, sid', subject)"
    and x: "(\<exists>kw'. RanMcp n a env headers = RanTool (tc_name call) (tc_args call) kw'
            \<and> kw' = [(''workspace_path'', KwText (sh_workspace H)),
                 (''sandbox_mode'', KwText (sh_sandbox_mode H))] @ extra_kwargs H cx call c subject)
      \<or> (\<exists>env' headers'. RanMcp n a env headers = RanMcp (tc_name call) (tc_args call) env' headers'
           \<and> prepare_mcp E call subject (wo_mcp w) = McpReady env' headers')"
  from x have "prepare_mcp E call subject (wo_mcp w) = McpReady env headers" by auto
  with assms(3-5) obtain contact cred v where
    en: "ms_enabled server" "\<forall>f. ms_tool_filter server = Some f \<longrightarrow> tool \<in> set f"
    and subj: "subject = Some contact"
    and rb: "resolve_binding (en_bindings E) (tb_servers (mx_tables (wo_mcp w))) (en_credentials E)
               contact sid = Inr (Some cred)"
    and v: "decrypt_credential (en_secrets E) cred = Some v"
    and inj: "(env, headers) = inject_credential (en_lib E) (or_nil (ms_env_template server))
            (or_nil (ms_headers server)) v"
    by (auto simp: prepare_mcp_def split: option.splits if_splits sum.splits prod.splits)
  from rb obtain b where "filter (\<lambda>b. bi_contact_id b = contact \<and> bi_server_id b = sid) (en_bindings E) = [b]"
    and "cr_id cred = bi_credential_id b" and "cred \<in> set (en_credentials E)"
    by (rule resolve_binding_ok)
  moreover from resolve_gates_ok(6) [OF g] subj have "contact = se_contact (cx_session cx)"
    "cap_subject_scoped c" by (auto split: if_splits)
  ultimately show ?thesis using en v inj resolve_gates_ok(1) [OF g] by blast
qed

text \<open>The deadline is not final.  When an approval times out the frontend is told that the call
  was denied, yet an operator whose approve request is served before the waiting task reads the
  decision overrides the auto-reject, and the call is let through.\<close>
theorem late_approval_overrides_timeout:
  assumes "st_hitl_timeout (en_settings E) > 0" and "cx_emits cx" and "ws_calls ws = []"
    and "ws_late_calls ws
           = [CallApprove (lib_uuid (en_lib E) (wo_uuids w)) body operator now]"
  shows "\<exists>w'. await_approval E cx call ws w = (Some True, w')
    \<and> (''tool_call'', timeout_event call) \<in> set (wo_events w')
    \<and> timeout_note cx call \<in> set (wo_notes w')"
  using assms
  by (simp add: await_approval_def open_approval_def draw_uuid_def Let_def emit_def operators_def
      ap.get_reg fresh_pending_def approval_timeout_def api_approve_def persist_decision_def
      settle_approval_def ap.get_resolve apply_resolution_def given_def split: option.split
      del: parse_scope.simps)


section \<open>Concrete calls\<close>

definition ex_memory_cap :: capability where
  "ex_memory_cap = \<lparr>cap_name = ''note'', cap_kind = KMemory, cap_description = ''Note'',
     cap_parameters_schema = [], cap_egress = False, cap_require_approval = True,
     cap_subject_scoped = True, cap_silent = False, cap_effects = {''read''}\<rparr>"

definition ex_caller :: agent_config where
  "ex_caller = (default_agent ''a1'' ''Ada'' default_model_config)
     \<lparr>ac_capabilities := Some [(default_grant ''note'')\<lparr>g_require_approval := True\<rparr>,
        default_grant ''mcp_server:s1'']\<rparr>"

definition ex_handler :: handler where
  "ex_handler = \<lparr>sh_workspace = ''/w'', sh_sandbox_mode = ''strict'', sh_restrictions = None,
     sh_supports_vision = False, sh_channel_policy = None, sh_auto_approve = {},
     sh_test_run = False, sh_parent_run = None\<rparr>"

definition ex_ctx :: med_ctx where
  "ex_ctx = \<lparr>cx_session = \<lparr>se_id = ''s'', se_channel = None, se_contact = ''c1''\<rparr>,
     cx_agent = ex_caller, cx_run = ''r1'', cx_is_sub = False, cx_sub_id = None, cx_emits = True,
     cx_parent = None, cx_batch = None, cx_trigger = ''user_message''\<rparr>"

definition ex_env :: med_env where
  "ex_env = \<lparr>en_lib = ex_lib, en_secrets = ex_secrets, en_remote = ex_remote,
     en_exec = (\<lambda>n a kw. ToolReturned (PStr ''done'')),
     en_settings = \<lparr>st_yolo = False, st_hitl_timeout = 600\<rparr>, en_contacts = [''c1''],
     en_channels = [],
     en_bindings = [\<lparr>bi_id = ''b1'', bi_contact_id = ''c1'', bi_server_id = ''s1'', bi_credential_id = ''k1''\<rparr>],
     en_credentials = ex_creds\<rparr>"

definition ex_world :: world where
  "ex_world = \<lparr>wo_mcp = ex_state1\<lparr>mx_registry := (''note'', ex_memory_cap) # mx_registry ex_state1\<rparr>,
     wo_approvals = new_approval_registry, wo_elicit = [], wo_approval_rows = [],
     wo_elicit_rows = [], wo_audit = [], wo_events = [], wo_notes = [], wo_arrivals = [],
     wo_executed = [], wo_uuids = 0\<rparr>"

definition ex_call :: tool_call where
  "ex_call = \<lparr>tc_id = ''t1'', tc_name = ''note'', tc_args = [(''contact_id'', PStr ''c9'')]\<rparr>"

definition ex_script :: wait_script where
  "ex_script = \<lparr>ws_calls = [CallApprove ''id-0'' default_approve ''op'' 5], ws_late_calls = [],
     ws_answers = [], ws_late_answers = [], ws_now = 9\<rparr>"

definition ex_result :: "mediation \<times> world" where
  "ex_result = mediate ex_env ex_handler ex_ctx ex_call ex_script ex_world"

lemma ex_uuid: "lib_uuid (en_lib ex_env) (wo_uuids ex_world) = ''id-0''"
  by code_simp

definition ex_kwargs :: kwargs where
  "ex_kwargs = [(''workspace_path'', KwText ''/w''), (''sandbox_mode'', KwText ''strict'')]
     @ extra_kwargs ex_handler ex_ctx ex_call ex_memory_cap (Some ''c1'')"

lemma ex_runs: "wo_executed (snd ex_result) = [RanTool ''note'' (tc_args ex_call) ex_kwargs]"
  by code_simp

lemma ex_result_pair: "mediate ex_env ex_handler ex_ctx ex_call ex_script ex_world
    = (fst ex_result, snd ex_result)"
  by (simp add: ex_result_def)

lemma ex_world_fresh: "wo_executed ex_world = []"
  by (simp add: ex_world_def)

theorem execution_needs_authority_witness:
  "is_capability_granted (mx_registry (wo_mcp ex_world)) ex_caller ''note'' None"
proof -
  have "wo_executed (snd ex_result) \<noteq> wo_executed ex_world" by (simp add: ex_runs ex_world_fresh)
  from execution_needs_authority [OF ex_result_pair this] obtain c where
    "reg_get (mx_registry (wo_mcp ex_world)) (tc_name ex_call) = Some c"
    "is_capability_granted (mx_registry (wo_mcp ex_world)) (cx_agent ex_ctx) (tc_name ex_call)
       (call_server (wo_mcp ex_world) ex_call c)" by blast
  moreover have "reg_get (mx_registry (wo_mcp ex_world)) (tc_name ex_call) = Some ex_memory_cap"
    by (simp add: ex_call_def ex_world_def reg_get_def)
  moreover have "cap_kind ex_memory_cap = KMemory" by (simp add: ex_memory_cap_def)
  moreover have "cx_agent ex_ctx = ex_caller" "tc_name ex_call = ''note''"
    by (simp_all add: ex_ctx_def ex_call_def)
  ultimately show ?thesis by (simp add: call_server_def)
qed

theorem execution_needs_approval_witness:
  "operator_approved ''id-0'' ex_script
   \<or> is_session_approved ex_lib ''s'' ''note'' (tc_args ex_call) new_approval_registry"
proof -
  have ran: "wo_executed (snd ex_result) \<noteq> wo_executed ex_world" by (simp add: ex_runs ex_world_fresh)
  have cap: "reg_get (mx_registry (wo_mcp ex_world)) (tc_name ex_call) = Some ex_memory_cap"
    by (simp add: ex_call_def ex_world_def reg_get_def)
  have "needs_approval (mx_registry (wo_mcp ex_world)) (cx_agent ex_ctx) ex_memory_cap (tc_name ex_call)
          (call_server (wo_mcp ex_world) ex_call ex_memory_cap)"
    by code_simp
  from execution_needs_approval [OF ex_result_pair ran cap this]
  have "operator_approved ''id-0'' ex_script
     \<or> is_session_approved (en_lib ex_env) (se_id (cx_session ex_ctx)) (tc_name ex_call) (tc_args ex_call)
         (wo_approvals ex_world)"
    unfolding ex_uuid by (elim conjE disjE) (simp_all add: ex_env_def ex_ctx_def ex_caller_def
        default_agent_def ex_handler_def given_def)
  moreover have "en_lib ex_env = ex_lib" "se_id (cx_session ex_ctx) = ''s''"
    "tc_name ex_call = ''note''" "wo_approvals ex_world = new_approval_registry"
    by (simp_all add: ex_env_def ex_ctx_def ex_call_def ex_world_def)
  ultimately show ?thesis by simp
qed


theorem subject_from_session_witness:
  "map_of ex_kwargs ''contact_id'' \<in> {None, Some (KwOptText None), Some (KwOptText (Some ''c1''))}"
  using subject_from_session [OF ex_result_pair, of "''note''" "tc_args ex_call" ex_kwargs]
  by (simp add: ex_runs ex_world_fresh ex_ctx_def)

definition ex_late :: wait_script where
  "ex_late = ex_script\<lparr>ws_calls := [], ws_late_calls := [CallApprove ''id-0'' default_approve ''op'' 700]\<rparr>"

theorem late_approval_overrides_timeout_witness:
  "\<exists>w'. await_approval ex_env ex_ctx ex_call ex_late ex_world = (Some True, w')
     \<and> (''tool_call'', timeout_event ex_call) \<in> set (wo_events w')"
proof -
  have "st_hitl_timeout (en_settings ex_env) > 0" by (simp add: ex_env_def)
  moreover have "cx_emits ex_ctx" by (simp add: ex_ctx_def)
  ultimately show ?thesis
    using late_approval_overrides_timeout [of ex_env ex_ctx ex_late ex_world default_approve "''op''" 700 ex_call]
    by (auto simp: ex_late_def ex_uuid)
qed

definition ex_mcp_call :: tool_call where
  "ex_mcp_call = \<lparr>tc_id = ''t2'', tc_name = ''mcp.my_notes.find'', tc_args = []\<rparr>"

definition ex_mcp_result :: "mediation \<times> world" where
  "ex_mcp_result = mediate ex_env ex_handler ex_ctx ex_mcp_call ex_script ex_world"

lemma ex_mcp_runs: "wo_executed (snd ex_mcp_result)
    = [RanMcp ''mcp.my_notes.find'' [] [(''TOKEN'', ''anna'')] []]"
  by code_simp

theorem mcp_fails_closed_witness:
  "\<exists>b. filter (\<lambda>b. bi_contact_id b = ''c1'' \<and> bi_server_id b = ''s1'') (en_bindings ex_env) = [b]"
proof -
  have run: "mediate ex_env ex_handler ex_ctx ex_mcp_call ex_script ex_world
      = (fst ex_mcp_result, snd ex_mcp_result)"
    by (simp add: ex_mcp_result_def)
  have mapped: "map_of (mx_tool_map (wo_mcp ex_world)) (tc_name ex_mcp_call) = Some (''s1'', ''find'')"
    by code_simp
  have "mx_tables ex_state1 = \<lparr>tb_tools = [discovered_row ex_notes ex_discovered],
      tb_servers = [ex_notes, ex_other]\<rparr>"
    by code_simp
  then have server: "find (\<lambda>s. ms_id s = ''s1'') (tb_servers (mx_tables (wo_mcp ex_world))) = Some ex_notes"
    by (simp add: ex_world_def ex_notes_def)
  have "wo_executed (snd ex_mcp_result) = wo_executed ex_world @
      [RanMcp ''mcp.my_notes.find'' [] [(''TOKEN'', ''anna'')] []]"
    by (simp add: ex_mcp_runs ex_world_fresh)
  from mcp_fails_closed [OF run this mapped server] show ?thesis
    by (auto simp: ex_notes_def ex_ctx_def)
qed

end
