(* ===== verification/Compaction.thy ===== *)
theory Compaction
  imports Config Approvals
begin

text \<open>
  Context compaction (\<^verbatim>\<open>harness/compaction.py\<close>): the head, middle and tail of a conversation,
  the pruning of old tool results, the summary of the middle, and the reassembled context with its
  tool calls and results paired up.  Messages are dictionaries as the harness builds them.  The
  tokenizer, the summarising model (\<open>None\<close> when the request fails) and the two prompt templates
  are parameters; the call ledger and the request capture are not modelled.  The two protected
  counts of the configuration are taken as naturals.
\<close>

section \<open>Messages\<close>

type_synonym message = pydict

text \<open>\<open>int(x)\<close> of a float.\<close>

definition py_int :: "rat \<Rightarrow> int" where
  "py_int q = (if q < 0 then \<lceil>q\<rceil> else \<lfloor>q\<rfloor>)"

definition has_role :: "string \<Rightarrow> message \<Rightarrow> bool" where
  "has_role r msg \<longleftrightarrow> dget msg ''role'' PNone = PStr r"

definition is_tool_result :: "message \<Rightarrow> bool" where
  "is_tool_result msg \<longleftrightarrow> has_role ''tool'' msg"

definition has_calls :: "message \<Rightarrow> bool" where
  "has_calls msg \<longleftrightarrow> has_role ''assistant'' msg \<and> truthy (dget msg ''tool_calls'' PNone)"

text \<open>The calls of a message; an entry that is no dictionary, which raises in the code, has no fields.\<close>

definition calls_of :: "message \<Rightarrow> pydict list" where
  "calls_of msg =
     (case dget msg ''tool_calls'' PNone of
        PList tcs \<Rightarrow> map (\<lambda>tc. case tc of PDict d \<Rightarrow> d | _ \<Rightarrow> []) tcs
      | _ \<Rightarrow> [])"

definition call_id :: "pydict \<Rightarrow> pyval" where
  "call_id tc = dget tc ''id'' (PStr [])"

definition result_id :: "message \<Rightarrow> pyval" where
  "result_id msg = dget msg ''tool_call_id'' (PStr [])"


section \<open>Phase 1: pruning\<close>

definition PRUNED_STUB :: string where
  "PRUNED_STUB = ''[Old tool output cleared to save context space]''"

definition prune_message :: "int \<Rightarrow> message \<Rightarrow> message" where
  "prune_message over msg =
     (if is_tool_result msg
      then (case dget msg ''content'' (PStr []) of
              PStr s \<Rightarrow> if int (length s) > over
                        then AList.update ''content'' (PStr PRUNED_STUB) msg else msg
            | _ \<Rightarrow> msg)
      else msg)"

definition prune_tool_results :: "message list \<Rightarrow> nat \<Rightarrow> int \<Rightarrow> message list" where
  "prune_tool_results msgs tail_start over =
     map (\<lambda>(i, msg). if i < tail_start then prune_message over msg else msg)
       (enumerate 0 msgs)"


section \<open>Phase 2: boundaries\<close>

fun walk_back :: "message list \<Rightarrow> nat \<Rightarrow> nat" where
  "walk_back msgs 0 = 0"
| "walk_back msgs (Suc k) =
     (if is_tool_result (msgs ! Suc k) then walk_back msgs k
      else if has_calls (msgs ! Suc k) then walk_back msgs k
      else Suc k)"

definition align_boundary_backward :: "message list \<Rightarrow> nat \<Rightarrow> nat" where
  "align_boundary_backward msgs boundary =
     (if boundary = 0 \<or> boundary \<ge> length msgs then boundary else walk_back msgs boundary)"

function align_boundary_forward :: "message list \<Rightarrow> nat \<Rightarrow> nat" where
  "align_boundary_forward msgs boundary =
     (if boundary < length msgs \<and> is_tool_result (msgs ! boundary)
      then align_boundary_forward msgs (Suc boundary) else boundary)"
  by pat_completeness auto
termination
  by (relation "measure (\<lambda>(msgs, b). length msgs - b)") auto

declare align_boundary_forward.simps [simp del]

text \<open>
  The loop over \<open>range(n - 1, head_end - 1, -1)\<close>: \<open>k\<close> is one above the next index, \<open>start\<close> the
  tail start reached so far.
\<close>

fun tail_walk ::
    "(message list \<Rightarrow> nat) \<Rightarrow> message list \<Rightarrow> nat \<Rightarrow> int \<Rightarrow> nat \<Rightarrow> int \<Rightarrow> nat \<Rightarrow> nat" where
  "tail_walk ct msgs head_end budget 0 tokens start = start"
| "tail_walk ct msgs head_end budget (Suc i) tokens start =
     (if i < head_end then start
      else let t = int (ct [msgs ! i]) in
           if tokens + t > budget then start
           else tail_walk ct msgs head_end budget i (tokens + t) i)"

definition determine_boundaries ::
    "(message list \<Rightarrow> nat) \<Rightarrow> message list \<Rightarrow> compaction_config \<Rightarrow> int \<Rightarrow> int option \<Rightarrow> nat \<times> nat" where
  "determine_boundaries ct msgs config threshold_tokens tail_token_budget =
     (let n = length msgs;
          first = nat (cc_protect_first_n config);
          last = nat (cc_protect_last_n config);
          head_end = min first n
      in if n \<le> head_end + last then (head_end, head_end)
         else
           let tail_budget = (case tail_token_budget of
                                Some b \<Rightarrow> b
                              | None \<Rightarrow> py_int (of_int threshold_tokens * cc_tail_budget_fraction config));
               tail_start = tail_walk ct msgs head_end tail_budget n 0 n;
               min_tail_start = n - last;
               tail_start = (if tail_start > min_tail_start then min_tail_start else tail_start);
               tail_start = (if tail_start < head_end then head_end else tail_start);
               tail_start = align_boundary_backward msgs tail_start;
               tail_start = (if tail_start \<le> head_end then head_end else tail_start)
           in (head_end, tail_start))"


section \<open>Phase 3: the summary\<close>

definition upper_char :: "char \<Rightarrow> char" where
  "upper_char c = (let n = of_char c :: nat in
     if (97 \<le> n \<and> n \<le> 122) \<or> (224 \<le> n \<and> n \<le> 254 \<and> n \<noteq> 247) then char_of (n - 32) else c)"

fun py_capitalize :: "string \<Rightarrow> string" where
  "py_capitalize [] = []"
| "py_capitalize (c # s) = upper_char c # py_lower s"

record compaction_env =
  ce_lib :: py_lib
  ce_tokens :: "message list \<Rightarrow> nat"
  ce_summary_template :: string
  ce_update_template :: "string \<Rightarrow> string \<Rightarrow> string"
  ce_model :: "string \<Rightarrow> string option"

text \<open>The text of a message: the text parts of a multimodal one, joined by line breaks.\<close>

definition text_part :: "py_lib \<Rightarrow> pyval \<Rightarrow> string option" where
  "text_part L p =
     (case p of
        PDict d \<Rightarrow> (case map_of d ''text'' of None \<Rightarrow> None | Some v \<Rightarrow> Some (py_str L v))
      | _ \<Rightarrow> None)"

definition message_content :: "py_lib \<Rightarrow> message \<Rightarrow> pyval" where
  "message_content L msg =
     (case dget msg ''content'' (PStr []) of
        PList parts \<Rightarrow> PStr (py_join [nl] (List.map_filter (text_part L) parts))
      | v \<Rightarrow> v)"

definition tool_name_of :: "py_lib \<Rightarrow> pydict \<Rightarrow> string" where
  "tool_name_of L tc =
     (case dget tc ''function'' (PDict []) of
        PDict f \<Rightarrow> py_str L (dget f ''name'' (PStr ''?''))
      | _ \<Rightarrow> ''?'')"

definition transcript_of :: "py_lib \<Rightarrow> message \<Rightarrow> string list" where
  "transcript_of L msg =
     (let content = message_content L msg; text = py_str L content in
      if is_tool_result msg then [''[Tool result]: '' @ text]
      else if has_calls msg
      then [''Assistant: [called '' @ py_join '', '' (map (tool_name_of L) (calls_of msg)) @ '']'']
           @ (if truthy content then [''  '' @ text] else [])
      else [py_capitalize (py_str L (dget msg ''role'' (PStr ''unknown''))) @ '': '' @ text])"

definition summary_prompt :: "compaction_env \<Rightarrow> message list \<Rightarrow> string option \<Rightarrow> string" where
  "summary_prompt C middle previous =
     (let transcript = py_join [nl, nl] (concat (map (transcript_of (ce_lib C)) middle)) in
      case previous of
        Some p \<Rightarrow> if p \<noteq> [] then ce_update_template C p transcript
                  else ce_summary_template C @ [nl, nl] @ ''### Conversation to Summarize'' @ [nl] @ transcript
      | None \<Rightarrow> ce_summary_template C @ [nl, nl] @ ''### Conversation to Summarize'' @ [nl] @ transcript)"

text \<open>\<open>None\<close>: the prompt does not fit the budget, or the request to the model failed.\<close>

definition generate_summary ::
    "compaction_env \<Rightarrow> message list \<Rightarrow> string option \<Rightarrow> int option \<Rightarrow> string option" where
  "generate_summary C middle previous input_budget =
     (if middle = [] then Some (case previous of None \<Rightarrow> [] | Some p \<Rightarrow> p)
      else
        let prompt = summary_prompt C middle previous;
            messages = [[(''role'', PStr ''user''), (''content'', PStr prompt)]]
        in if (case input_budget of None \<Rightarrow> False | Some b \<Rightarrow> int (ce_tokens C messages) > b) then None
           else ce_model C prompt)"


section \<open>Phase 4: reassembly\<close>

definition nonempty_id :: "pyval \<Rightarrow> bool" where
  "nonempty_id v \<longleftrightarrow> truthy v"

definition all_call_ids :: "message list \<Rightarrow> pyval set" where
  "all_call_ids msgs =
     set [call_id tc. msg \<leftarrow> msgs, has_calls msg, tc \<leftarrow> calls_of msg, nonempty_id (call_id tc)]"

definition all_result_ids :: "message list \<Rightarrow> pyval set" where
  "all_result_ids msgs =
     set [result_id msg. msg \<leftarrow> msgs, is_tool_result msg, nonempty_id (result_id msg)]"

definition stub_result :: "pyval \<Rightarrow> message" where
  "stub_result i = [(''role'', PStr ''tool''), (''tool_call_id'', i),
     (''content'', PStr ''[Tool result not available after compaction]'')]"

definition sanitize_one :: "pyval set \<Rightarrow> pyval set \<Rightarrow> message \<Rightarrow> message list" where
  "sanitize_one call_ids result_ids msg =
     (if is_tool_result msg
      then (if nonempty_id (result_id msg) \<and> result_id msg \<notin> call_ids then [] else [msg])
      else if has_calls msg
      then msg # [stub_result (call_id tc). tc \<leftarrow> calls_of msg,
                    nonempty_id (call_id tc) \<and> call_id tc \<notin> result_ids]
      else [msg])"

definition sanitize_tool_pairs :: "message list \<Rightarrow> message list" where
  "sanitize_tool_pairs msgs =
     concat (map (sanitize_one (all_call_ids msgs) (all_result_ids msgs)) msgs)"

definition choose_summary_role :: "message list \<Rightarrow> string" where
  "choose_summary_role head =
     (if head = [] then ''system''
      else if dget (last head) ''role'' (PStr ''system'') = PStr ''assistant'' then ''user''
      else if dget (last head) ''role'' (PStr ''system'') = PStr ''user'' then ''assistant''
      else ''system'')"

definition summary_message :: "string \<Rightarrow> message list \<Rightarrow> message" where
  "summary_message summary head = [(''role'', PStr (choose_summary_role head)),
     (''content'', PStr (''[Previous conversation summary]'' @ [nl] @ summary))]"

definition reassemble :: "message list \<Rightarrow> string \<Rightarrow> message list \<Rightarrow> message list" where
  "reassemble head summary tail =
     sanitize_tool_pairs (head @ (if summary \<noteq> [] then [summary_message summary head] else []) @ tail)"


section \<open>The pipeline\<close>

record compaction_result =
  co_messages :: "message list"
  co_summary :: "string option"
  co_compacted :: bool
  co_original_tokens :: int
  co_compacted_tokens :: int
  co_head_count :: nat
  co_middle_count :: nat
  co_tail_count :: nat
  co_error :: "string option"
  co_retained :: "message list"
  co_covered :: "string set"

record compaction_args =
  cp_agent :: agent_config
  cp_previous :: "string option"
  cp_force :: bool
  cp_input_budget :: "int option"
  cp_resolved_model :: "pydict option"
  cp_reserved :: int
  cp_source_ids :: "string set option list option"
  cp_protected :: "nat option"

definition get_model_max_tokens ::
    "compaction_args \<Rightarrow> int option \<Rightarrow> budget_error + int" where
  "get_model_max_tokens A output_tokens =
     sbind (resolve_input_budget (cp_resolved_model A)
              (mc_max_context_tokens (ac_model (cp_agent A)))
              (lim_max_context_tokens (ac_limits (cp_agent A))) output_tokens)
       (\<lambda>b. Inr (ib_tokens b))"

text \<open>\<open>if previous_summary:\<close>\<close>

definition has_previous :: "compaction_args \<Rightarrow> bool" where
  "has_previous A \<longleftrightarrow> (case cp_previous A of None \<Rightarrow> False | Some p \<Rightarrow> p \<noteq> [])"

definition rendered_context :: "compaction_args \<Rightarrow> message list \<Rightarrow> message list" where
  "rendered_context A msgs =
     (if has_previous A then summary_message (the (cp_previous A)) [] # msgs else msgs)"

text \<open>The result of every path that leaves the history as it was.\<close>

definition unchanged_result ::
    "compaction_args \<Rightarrow> message list \<Rightarrow> int \<Rightarrow> int \<Rightarrow> string option \<Rightarrow> compaction_result" where
  "unchanged_result A msgs original compacted err =
     \<lparr>co_messages = rendered_context A msgs, co_summary = cp_previous A, co_compacted = False,
      co_original_tokens = original, co_compacted_tokens = compacted, co_head_count = 0,
      co_middle_count = 0, co_tail_count = length msgs, co_error = err, co_retained = msgs,
      co_covered = {}\<rparr>"

text \<open>The boundaries after clamping to the protected rows and completing the head's last batch.\<close>

definition final_boundaries ::
    "compaction_env \<Rightarrow> compaction_args \<Rightarrow> message list \<Rightarrow> int \<Rightarrow> nat \<times> nat" where
  "final_boundaries C A msgs threshold_tokens =
     (let prior = (if has_previous A then int (ce_tokens C [summary_message (the (cp_previous A)) []]) else 0);
          allowance = max 0 (threshold_tokens - cp_reserved A - prior);
          (head_end, tail_start) = determine_boundaries (ce_tokens C) msgs
             (ac_compaction (cp_agent A)) threshold_tokens (Some allowance);
          tail_start = (case cp_protected A of
                          None \<Rightarrow> tail_start
                        | Some p \<Rightarrow>
                            if tail_start > p
                            then (let t = align_boundary_backward msgs p in
                                  if t < head_end then head_end else t)
                            else tail_start);
          head_end = align_boundary_forward msgs head_end;
          tail_start = (if tail_start < head_end then head_end else tail_start)
      in (head_end, tail_start))"

definition summary_ceiling :: "compaction_args \<Rightarrow> int" where
  "summary_ceiling A =
     (let c = (case get_model_max_tokens A (Some 2000) of Inl e \<Rightarrow> 0 | Inr t \<Rightarrow> t) in
      case cp_input_budget A of None \<Rightarrow> c | Some b \<Rightarrow> min c b)"

definition covered_ids :: "compaction_args \<Rightarrow> nat \<Rightarrow> nat \<Rightarrow> string set" where
  "covered_ids A head_end tail_start =
     (case cp_source_ids A of
        None \<Rightarrow> {}
      | Some groups \<Rightarrow>
          \<Union> (set (map (\<lambda>g. case g of None \<Rightarrow> {} | Some s \<Rightarrow> s)
                    (take (tail_start - head_end) (drop head_end groups)))))"

definition compact_context ::
    "compaction_env \<Rightarrow> compaction_args \<Rightarrow> message list \<Rightarrow> budget_error + compaction_result" where
  "compact_context C A msgs =
     (let config = ac_compaction (cp_agent A); model = ac_model (cp_agent A) in
      sbind (case cp_input_budget A of
               Some b \<Rightarrow> Inr b
             | None \<Rightarrow> get_model_max_tokens A (mc_max_tokens model)) (\<lambda>max_tokens.
      let threshold_tokens = py_int (of_int max_tokens * cc_threshold config);
          rendered = rendered_context A msgs;
          original = cp_reserved A + int (ce_tokens C rendered)
      in
      if \<not> cp_force A \<and> (\<not> cc_auto_compaction config \<or> original \<le> threshold_tokens)
      then Inr (unchanged_result A msgs original original None)
      else
        let (head_end, tail_start) = final_boundaries C A msgs threshold_tokens;
            head = take head_end msgs;
            middle = take (tail_start - head_end) (drop head_end msgs);
            tail = drop tail_start msgs
        in
        if middle = []
        then Inr (unchanged_result A msgs original original None
               \<lparr>co_head_count := length head, co_tail_count := length tail, co_retained := head @ tail\<rparr>)
        else
          let over = cc_prune_tool_results_over config;
              pruned_head = prune_tool_results head (length head) over;
              pruned_middle = prune_tool_results middle (length middle) over;
              ceiling = summary_ceiling A
          in
          if ceiling \<le> 0
          then Inr (unchanged_result A msgs original original
                      (Some ''Summary input budget could not be reserved''))
          else
            let summary = (case generate_summary C pruned_middle (cp_previous A) (Some ceiling) of
                             None \<Rightarrow> [] | Some s \<Rightarrow> s)
            in
            if py_strip summary = []
            then Inr (unchanged_result A msgs original original
                        (Some ''Conversation summary could not be generated''))
            else
              let compacted = reassemble pruned_head summary tail;
                  compacted_tokens = cp_reserved A + int (ce_tokens C compacted)
              in
              if compacted_tokens \<ge> original
              then Inr (unchanged_result A msgs original compacted_tokens
                          (Some ''Summary did not reduce token usage''))
              else Inr \<lparr>co_messages = compacted, co_summary = Some summary, co_compacted = True,
                         co_original_tokens = original, co_compacted_tokens = compacted_tokens,
                         co_head_count = length head, co_middle_count = length middle,
                         co_tail_count = length tail, co_error = None,
                         co_retained = pruned_head @ tail,
                         co_covered = covered_ids A head_end tail_start\<rparr>))"


section \<open>Boundaries\<close>

text \<open>A message that may start the tail: no result whose call would be left behind, no call.\<close>

definition clean_start :: "message \<Rightarrow> bool" where
  "clean_start msg \<longleftrightarrow> \<not> is_tool_result msg \<and> \<not> has_calls msg"

lemma walk_back_le: "walk_back msgs k \<le> k"
  by (induction msgs k rule: walk_back.induct) (auto simp: le_Suc_eq)

lemma walk_back_clean: "walk_back msgs k = r \<Longrightarrow> 0 < r \<Longrightarrow> clean_start (msgs ! r)"
  by (induction msgs k rule: walk_back.induct) (auto simp: clean_start_def split: if_splits)

lemma walk_back_chain:
  "(\<And>i. h < i \<Longrightarrow> i \<le> k \<Longrightarrow> is_tool_result (msgs ! i) \<or> has_calls (msgs ! i)) \<Longrightarrow> walk_back msgs k \<le> h"
proof (induction msgs k rule: walk_back.induct)
  case (2 msgs k)
  show ?case
  proof (cases "h < Suc k")
    case True
    with "2.prems" [of "Suc k"] 2 show ?thesis by auto
  next
    case False
    with walk_back_le [of msgs "Suc k"] show ?thesis by simp
  qed
qed simp

lemma align_backward_le: "align_boundary_backward msgs b \<le> b"
  by (simp add: align_boundary_backward_def walk_back_le)

lemma align_backward_clean:
  "align_boundary_backward msgs b = r \<Longrightarrow> 0 < r \<Longrightarrow> r < length msgs \<Longrightarrow> clean_start (msgs ! r)"
  by (auto simp: align_boundary_backward_def walk_back_clean split: if_splits)

lemma align_forward_ge: "b \<le> align_boundary_forward msgs b"
  by (induction msgs b rule: align_boundary_forward.induct)
    (subst align_boundary_forward.simps, auto)

lemma align_forward_le: "b \<le> length msgs \<Longrightarrow> align_boundary_forward msgs b \<le> length msgs"
  by (induction msgs b rule: align_boundary_forward.induct)
    (subst align_boundary_forward.simps, auto)

lemma align_forward_stop:
  "align_boundary_forward msgs b < length msgs \<Longrightarrow>
   \<not> is_tool_result (msgs ! align_boundary_forward msgs b)"
proof (induction msgs b rule: align_boundary_forward.induct)
  case (1 msgs b)
  show ?case
  proof (cases "b < length msgs \<and> is_tool_result (msgs ! b)")
    case True
    then have "align_boundary_forward msgs b = align_boundary_forward msgs (Suc b)"
      by (subst align_boundary_forward.simps) simp
    with 1 True show ?thesis by simp
  next
    case False
    then have "align_boundary_forward msgs b = b" by (subst align_boundary_forward.simps) auto
    with False "1.prems" show ?thesis by simp
  qed
qed

lemma tail_walk_le: "k \<le> start \<Longrightarrow> tail_walk ct msgs h budget k tokens start \<le> start"
  by (induction ct msgs h budget k tokens start rule: tail_walk.induct)
    (fastforce simp: Let_def)+

lemma determine_boundaries_bounds:
  assumes "determine_boundaries ct msgs config threshold budget = (h, t)"
  shows "h = min (nat (cc_protect_first_n config)) (length msgs)" and "h \<le> t" and "t \<le> length msgs"
    and "h < t \<Longrightarrow> nat (cc_protect_last_n config) \<le> length msgs - t"
    and "h < t \<Longrightarrow> t < length msgs \<Longrightarrow> clean_start (msgs ! t)"
proof -
  let ?n = "length msgs"
  let ?first = "nat (cc_protect_first_n config)" and ?last = "nat (cc_protect_last_n config)"
  let ?h = "min ?first ?n"
  let ?b = "case budget of Some b \<Rightarrow> b
     | None \<Rightarrow> py_int (of_int threshold * cc_tail_budget_fraction config)"
  define t1 where "t1 = tail_walk ct msgs ?h ?b ?n 0 ?n"
  define t2 where "t2 = (if t1 > ?n - ?last then ?n - ?last else t1)"
  define t3 where "t3 = (if t2 < ?h then ?h else t2)"
  define t4 where "t4 = align_boundary_backward msgs t3"
  define t5 where "t5 = (if t4 \<le> ?h then ?h else t4)"
  have res: "(h, t) = (if ?n \<le> ?h + ?last then (?h, ?h) else (?h, t5))"
    using assms by (simp only: determine_boundaries_def Let_def t1_def t2_def t3_def t4_def t5_def)
  then show "h = ?h" by (auto split: if_splits)
  have t4: "t4 \<le> t3" by (simp add: t4_def align_backward_le)
  have t2: "t2 \<le> ?n - ?last" by (simp add: t2_def)
  have t5: "t5 \<le> max ?h t2"
    using t4 by (auto simp: t5_def t3_def split: if_splits)
  from res t5 t2 show "h \<le> t" and "t \<le> ?n" by (auto simp: t5_def split: if_splits)
  from res t5 t2 show "h < t \<Longrightarrow> ?last \<le> ?n - t" by (auto simp: max_def split: if_splits)
  show "clean_start (msgs ! t)" if "h < t" "t < ?n"
  proof -
    from that res have "t = t4" by (auto simp: t5_def split: if_splits)
    with that show ?thesis using align_backward_clean [of msgs t3 t] by (simp add: t4_def)
  qed
qed

lemma final_boundaries_props:
  assumes "final_boundaries C A msgs threshold = (h, t)"
  shows "h \<le> t" and "t \<le> length msgs"
    and "min (nat (cc_protect_first_n (ac_compaction (cp_agent A)))) (length msgs) \<le> h"
    and "h < t \<Longrightarrow> nat (cc_protect_last_n (ac_compaction (cp_agent A))) \<le> length msgs - t"
    and "h < t \<Longrightarrow> t < length msgs \<Longrightarrow> clean_start (msgs ! t)"
    and "h < t \<Longrightarrow> \<not> is_tool_result (msgs ! h)"
    and "h < t \<Longrightarrow> cp_protected A = Some p \<Longrightarrow> t \<le> p"
proof -
  let ?c = "ac_compaction (cp_agent A)"
  let ?prior = "if has_previous A then int (ce_tokens C [summary_message (the (cp_previous A)) []]) else 0"
  obtain h0 t0 where d: "determine_boundaries (ce_tokens C) msgs ?c threshold
      (Some (max 0 (threshold - cp_reserved A - ?prior))) = (h0, t0)"
    by fastforce
  note db = determine_boundaries_bounds [OF d]
  define t1 where "t1 = (case cp_protected A of None \<Rightarrow> t0
     | Some p \<Rightarrow> if t0 > p then (let t = align_boundary_backward msgs p in if t < h0 then h0 else t) else t0)"
  define h1 where "h1 = align_boundary_forward msgs h0"
  have ht: "h = h1" "t = (if t1 < h1 then h1 else t1)"
    using assms d by (auto simp: final_boundaries_def Let_def t1_def h1_def)
  have h0: "h0 \<le> length msgs" using db(1) by simp
  have h1: "h0 \<le> h1" "h1 \<le> length msgs"
    by (simp_all add: h1_def align_forward_ge align_forward_le h0)
  have t1: "t1 \<le> t0"
  proof (cases "cp_protected A")
    case (Some p)
    with align_backward_le [of msgs p] db(2) show ?thesis by (auto simp: t1_def Let_def)
  qed (simp add: t1_def)
  show "h \<le> t" by (simp add: ht)
  show "t \<le> length msgs" using ht h1 t1 db(3) by simp
  show "min (nat (cc_protect_first_n ?c)) (length msgs) \<le> h" using db(1) h1 ht by simp
  show "nat (cc_protect_last_n ?c) \<le> length msgs - t" if "h < t"
    using that ht t1 h1 db(4) by (auto split: if_splits)
  show "clean_start (msgs ! t)" if lt: "h < t" "t < length msgs"
  proof -
    from lt ht have t: "t = t1" by (auto split: if_splits)
    show ?thesis
    proof (cases "t1 = t0")
      case True
      with t lt db(5) h1 ht show ?thesis by auto
    next
      case False
      then obtain p where p: "cp_protected A = Some p" "t0 > p"
        by (auto simp: t1_def split: option.splits if_splits)
      with t lt ht h1 have "t = align_boundary_backward msgs p"
        by (auto simp: t1_def Let_def split: if_splits)
      with align_backward_clean [of msgs p t] lt show ?thesis by simp
    qed
  qed
  show "\<not> is_tool_result (msgs ! h)" if "h < t"
    using that align_forward_stop [of msgs h0] \<open>t \<le> length msgs\<close> by (simp add: ht h1_def [symmetric])
  show "t \<le> p" if "h < t" "cp_protected A = Some p"
    using that align_backward_le [of msgs p] h1 ht by (auto simp: t1_def Let_def split: if_splits)
qed


section \<open>Tool pairs\<close>

lemma stub_result_simps [simp]:
  "is_tool_result (stub_result i)" "result_id (stub_result i) = i" "\<not> has_calls (stub_result i)"
  by (simp_all add: stub_result_def is_tool_result_def has_role_def result_id_def dget_def has_calls_def)

lemma tool_not_calls: "is_tool_result msg \<Longrightarrow> \<not> has_calls msg"
  by (auto simp: is_tool_result_def has_calls_def has_role_def)

text \<open>The identifiers one message contributes.\<close>

definition own_calls :: "message \<Rightarrow> pyval set" where
  "own_calls msg = (if has_calls msg then {i \<in> set (map call_id (calls_of msg)). nonempty_id i} else {})"

definition own_result :: "message \<Rightarrow> pyval set" where
  "own_result msg = (if is_tool_result msg \<and> nonempty_id (result_id msg) then {result_id msg} else {})"

lemma all_call_ids_own: "all_call_ids msgs = (\<Union>msg\<in>set msgs. own_calls msg)"
  by (auto simp: all_call_ids_def own_calls_def)

lemma all_result_ids_own: "all_result_ids msgs = (\<Union>msg\<in>set msgs. own_result msg)"
  by (auto simp: all_result_ids_def own_result_def)

lemma sanitize_one_calls:
  "(\<Union>m\<in>set (sanitize_one C R msg). own_calls m) = own_calls msg"
  by (auto simp: sanitize_one_def own_calls_def tool_not_calls)

lemma sanitize_one_results:
  "own_calls msg \<subseteq> C \<Longrightarrow>
   (\<Union>m\<in>set (sanitize_one C R msg). own_result m) = (own_result msg \<inter> C) \<union> (own_calls msg - R)"
  by (auto simp: sanitize_one_def own_calls_def own_result_def tool_not_calls split: if_splits)

lemma set_sanitize: "set (sanitize_tool_pairs msgs) =
    (\<Union>msg\<in>set msgs. set (sanitize_one (all_call_ids msgs) (all_result_ids msgs) msg))"
  by (auto simp: sanitize_tool_pairs_def)

lemma sanitize_call_ids: "all_call_ids (sanitize_tool_pairs msgs) = all_call_ids msgs"
proof -
  have "all_call_ids (sanitize_tool_pairs msgs)
      = (\<Union>msg\<in>set msgs. \<Union>m\<in>set (sanitize_one (all_call_ids msgs) (all_result_ids msgs) msg). own_calls m)"
    by (simp add: all_call_ids_own [of "sanitize_tool_pairs msgs"] set_sanitize)
  then show ?thesis by (simp only: sanitize_one_calls all_call_ids_own [of msgs, symmetric])
qed

lemma sanitize_result_ids: "all_result_ids (sanitize_tool_pairs msgs) = all_call_ids msgs"
proof -
  let ?C = "all_call_ids msgs" and ?R = "all_result_ids msgs"
  have "all_result_ids (sanitize_tool_pairs msgs)
      = (\<Union>msg\<in>set msgs. \<Union>m\<in>set (sanitize_one ?C ?R msg). own_result m)"
    by (simp add: all_result_ids_own [of "sanitize_tool_pairs msgs"] set_sanitize)
  also have "\<dots> = (\<Union>msg\<in>set msgs. (own_result msg \<inter> ?C) \<union> (own_calls msg - ?R))"
    by (intro SUP_cong refl sanitize_one_results) (auto simp: all_call_ids_own)
  also have "\<dots> = (?R \<inter> ?C) \<union> (?C - ?R)"
    by (auto simp: all_call_ids_own all_result_ids_own)
  finally show ?thesis by auto
qed

lemma concat_map_single: "(\<And>x. x \<in> set xs \<Longrightarrow> f x = [x]) \<Longrightarrow> concat (map f xs) = xs"
  by (induction xs) auto

lemma sanitize_idem: "sanitize_tool_pairs (sanitize_tool_pairs msgs) = sanitize_tool_pairs msgs"
proof -
  let ?out = "sanitize_tool_pairs msgs" and ?C = "all_call_ids msgs"
  have keep: "sanitize_one ?C ?C m = [m]" if m: "m \<in> set ?out" for m
  proof (cases "is_tool_result m")
    case True
    with m have "own_result m \<subseteq> ?C"
      using sanitize_result_ids [of msgs] by (auto simp: all_result_ids_own [of ?out])
    with True show ?thesis by (auto simp: sanitize_one_def own_result_def)
  next
    case False
    from m have "own_calls m \<subseteq> ?C"
      using sanitize_call_ids [of msgs] by (auto simp: all_call_ids_own [of ?out])
    then have "\<forall>tc\<in>set (calls_of m). has_calls m \<longrightarrow> nonempty_id (call_id tc) \<longrightarrow> call_id tc \<in> ?C"
      by (auto simp: own_calls_def)
    with False show ?thesis by (auto simp: sanitize_one_def)
  qed
  have "sanitize_tool_pairs ?out = concat (map (sanitize_one ?C ?C) ?out)"
    by (simp add: sanitize_tool_pairs_def [of ?out] sanitize_call_ids sanitize_result_ids)
  with concat_map_single [OF keep] show ?thesis by simp
qed

text \<open>The context sent to the model after a reassembly has its tool calls and results paired:
  the identifiers of its results are exactly those of its calls, whatever was cut away, no call is
  lost, and sanitising again changes nothing.\<close>
theorem reassembled_pairs_match:
  "all_result_ids (reassemble head summary tail) = all_call_ids (reassemble head summary tail)
   \<and> all_call_ids (reassemble head summary tail)
       = all_call_ids (head @ (if summary \<noteq> [] then [summary_message summary head] else []) @ tail)
   \<and> sanitize_tool_pairs (reassemble head summary tail) = reassemble head summary tail"
  by (simp add: reassemble_def sanitize_call_ids sanitize_result_ids sanitize_idem)


section \<open>The pipeline\<close>

lemma compact_context_cases:
  assumes "compact_context C A msgs = Inr r" and "co_compacted r"
  obtains threshold h t summary where
    "final_boundaries C A msgs threshold = (h, t)" and "h < t"
    and "generate_summary C
           (prune_tool_results (take (t - h) (drop h msgs)) (length (take (t - h) (drop h msgs)))
              (cc_prune_tool_results_over (ac_compaction (cp_agent A)))) (cp_previous A)
           (Some (summary_ceiling A)) = Some summary"
    and "py_strip summary \<noteq> []"
    and "co_messages r = reassemble (prune_tool_results (take h msgs) (length (take h msgs))
           (cc_prune_tool_results_over (ac_compaction (cp_agent A)))) summary (drop t msgs)"
    and "co_summary r = Some summary" and "co_covered r = covered_ids A h t"
    and "co_compacted_tokens r = cp_reserved A + int (ce_tokens C (co_messages r))"
    and "co_original_tokens r = cp_reserved A + int (ce_tokens C (rendered_context A msgs))"
    and "co_compacted_tokens r < co_original_tokens r"
    and "co_retained r = prune_tool_results (take h msgs) (length (take h msgs))
           (cc_prune_tool_results_over (ac_compaction (cp_agent A))) @ drop t msgs"
proof -
  from assms(1) obtain mx where mx: "(case cp_input_budget A of Some b \<Rightarrow> Inr b
      | None \<Rightarrow> get_model_max_tokens A (mc_max_tokens (ac_model (cp_agent A)))) = Inr mx"
    by (auto simp: compact_context_def Let_def)
  define threshold where "threshold = py_int (of_int mx * cc_threshold (ac_compaction (cp_agent A)))"
  obtain h t where ht: "final_boundaries C A msgs threshold = (h, t)" by fastforce
  let ?over = "cc_prune_tool_results_over (ac_compaction (cp_agent A))"
  let ?mid = "take (t - h) (drop h msgs)"
  let ?gen = "generate_summary C (prune_tool_results ?mid (length ?mid) ?over) (cp_previous A)
                (Some (summary_ceiling A))"
  have strip0: "py_strip [] = []" by (simp add: py_strip_def py_lstrip_def py_rstrip_def)
  from assms mx ht have "?mid \<noteq> []"
    by (auto simp: compact_context_def Let_def threshold_def unchanged_result_def split: if_splits)
  then have lt: "h < t" by auto
  from assms mx ht strip0 obtain summary where g: "?gen = Some summary"
    by (cases ?gen) (auto simp: compact_context_def Let_def threshold_def unchanged_result_def split: if_splits)
  from assms mx ht lt g show ?thesis
    by (intro that [OF ht lt g])
      (auto simp: compact_context_def Let_def threshold_def unchanged_result_def split: if_splits)
qed


lemma compact_unchanged:
  assumes "compact_context C A msgs = Inr r" and "\<not> co_compacted r"
  shows "co_messages r = rendered_context A msgs \<and> co_retained r = msgs
    \<and> co_summary r = cp_previous A \<and> co_covered r = {}"
proof -
  from assms(1) obtain mx where mx: "(case cp_input_budget A of Some b \<Rightarrow> Inr b
      | None \<Rightarrow> get_model_max_tokens A (mc_max_tokens (ac_model (cp_agent A)))) = Inr mx"
    by (auto simp: compact_context_def Let_def)
  define threshold where "threshold = py_int (of_int mx * cc_threshold (ac_compaction (cp_agent A)))"
  obtain h t where ht: "final_boundaries C A msgs threshold = (h, t)" by fastforce
  have rejoin: "take (t - h) (drop h msgs) = [] \<Longrightarrow> take h msgs @ drop t msgs = msgs"
    using final_boundaries_props(1,2) [OF ht] by (cases "h = t") auto
  from assms mx ht rejoin show ?thesis
    by (auto simp: compact_context_def Let_def threshold_def unchanged_result_def split: if_splits)
qed

text \<open>A compaction that does not happen changes nothing: the model gets the original messages
  with the earlier summary in front of them once, the retained rows are the original ones, the
  stored summary stays, and no row is marked as covered.\<close>
theorem no_compaction_keeps_history:
  assumes "compact_context C A msgs = Inr r" and "\<not> co_compacted r"
  shows "co_messages r = rendered_context A msgs \<and> co_retained r = msgs
    \<and> co_summary r = cp_previous A \<and> co_covered r = {}"
  using assms by (rule compact_unchanged)

text \<open>An unbroken chain of tool calls cannot be compacted.  When every message after the head is
  a tool result or an assistant message with calls, as in a long run of one turn, there is no place
  for the tail to start, so even a forced compaction of any such history summarises nothing and
  reports no error.\<close>
theorem tool_chain_never_compacts:
  assumes "compact_context C A msgs = Inr r"
    and "0 < nat (cc_protect_last_n (ac_compaction (cp_agent A)))"
    and "\<forall>i. min (nat (cc_protect_first_n (ac_compaction (cp_agent A)))) (length msgs) \<le> i \<longrightarrow>
           i < length msgs \<longrightarrow> is_tool_result (msgs ! i) \<or> has_calls (msgs ! i)"
  shows "\<not> co_compacted r \<and> co_error r = None"
proof -
  from assms(1) obtain mx where mx: "(case cp_input_budget A of Some b \<Rightarrow> Inr b
      | None \<Rightarrow> get_model_max_tokens A (mc_max_tokens (ac_model (cp_agent A)))) = Inr mx"
    by (auto simp: compact_context_def Let_def)
  define threshold where "threshold = py_int (of_int mx * cc_threshold (ac_compaction (cp_agent A)))"
  obtain h t where ht: "final_boundaries C A msgs threshold = (h, t)" by fastforce
  note p = final_boundaries_props [OF ht]
  have "\<not> h < t"
  proof
    assume "h < t"
    with p(4) assms(2) have "t < length msgs" by linarith
    with p(5) \<open>h < t\<close> have "clean_start (msgs ! t)" by blast
    moreover from assms(3) p(3) \<open>h < t\<close> \<open>t < length msgs\<close>
    have "is_tool_result (msgs ! t) \<or> has_calls (msgs ! t)" by (meson le_trans less_imp_le)
    ultimately show False by (simp add: clean_start_def)
  qed
  with assms(1) mx ht show ?thesis
    by (auto simp: compact_context_def Let_def threshold_def unchanged_result_def split: if_splits)
qed


section \<open>Concrete runs\<close>

definition ex_msg :: "string \<Rightarrow> string \<Rightarrow> message" where
  "ex_msg role text = [(''role'', PStr role), (''content'', PStr text)]"

definition ex_calls :: message where
  "ex_calls = [(''role'', PStr ''assistant''), (''content'', PStr []),
     (''tool_calls'', PList [PDict [(''id'', PStr ''t1'')]])]"

definition ex_tool :: message where
  "ex_tool = [(''role'', PStr ''tool''), (''tool_call_id'', PStr ''t1''), (''content'', PStr ''ok'')]"

definition ex_compact_agent :: agent_config where
  "ex_compact_agent = (default_agent ''a1'' ''Ada'' default_model_config)
     \<lparr>ac_compaction := default_compaction\<lparr>cc_protect_first_n := 1, cc_protect_last_n := 1\<rparr>\<rparr>"

definition ex_compact_args :: compaction_args where
  "ex_compact_args = \<lparr>cp_agent = ex_compact_agent, cp_previous = None, cp_force = True,
     cp_input_budget = Some 10, cp_resolved_model = None, cp_reserved = 0,
     cp_source_ids = Some [Some {''m0''}, Some {''m1''}, Some {''m2''}, None], cp_protected = Some 3\<rparr>"

definition ex_compact_env :: compaction_env where
  "ex_compact_env = \<lparr>ce_lib = ex_lib, ce_tokens = (\<lambda>ms. 5 * length ms), ce_summary_template = ''S'',
     ce_update_template = (\<lambda>p t. t), ce_model = (\<lambda>p. Some ''sum'')\<rparr>"

definition ex_history_msgs :: "message list" where
  "ex_history_msgs = [ex_msg ''user'' ''hi'', ex_calls, ex_tool, ex_msg ''user'' ''and?'']"

definition ex_compaction :: "budget_error + compaction_result" where
  "ex_compaction = compact_context ex_compact_env ex_compact_args ex_history_msgs"

definition ex_compacted :: compaction_result where
  "ex_compacted = (case ex_compaction of Inr r \<Rightarrow> r | Inl e \<Rightarrow> undefined)"

lemma ex_compact_fields:
  "cp_input_budget ex_compact_args = Some 10" "cp_force ex_compact_args" "cp_reserved ex_compact_args = 0"
  "cp_previous ex_compact_args = None"
  "ce_tokens ex_compact_env = (\<lambda>ms. 5 * length ms)"
  "cc_prune_tool_results_over (ac_compaction (cp_agent ex_compact_args)) = 200"
  by (simp_all add: ex_compact_args_def ex_compact_env_def ex_compact_agent_def default_compaction_def)

lemma ex_compact_steps:
  "py_int (10 * cc_threshold (ac_compaction (cp_agent ex_compact_args))) = 7"
  "final_boundaries ex_compact_env ex_compact_args ex_history_msgs 7 = (1, 3)"
  "summary_ceiling ex_compact_args = 10"
  "prune_tool_results [ex_calls, ex_tool] (Suc (Suc 0)) 200 = [ex_calls, ex_tool]"
  "prune_tool_results [ex_msg ''user'' ''hi''] (Suc 0) 200 = [ex_msg ''user'' ''hi'']"
  "generate_summary ex_compact_env [ex_calls, ex_tool] None (Some 10) = Some ''sum''"
  "py_strip ''sum'' = ''sum''"
  "length (reassemble [ex_msg ''user'' ''hi''] ''sum'' [ex_msg ''user'' ''and?'']) = 3"
  "covered_ids ex_compact_args 1 3 = {''m1'', ''m2''}"
  by code_simp+

lemma ex_history_parts:
  "length ex_history_msgs = 4" "take 1 ex_history_msgs = [ex_msg ''user'' ''hi'']"
  "take (3 - 1) (drop 1 ex_history_msgs) = [ex_calls, ex_tool]"
  "drop 3 ex_history_msgs = [ex_msg ''user'' ''and?'']"
  by (simp_all add: ex_history_msgs_def)

lemma ex_compaction_runs:
  "ex_compaction = Inr ex_compacted" "co_compacted ex_compacted"
proof -
  have "\<exists>r. ex_compaction = Inr r \<and> co_compacted r"
    unfolding ex_compaction_def compact_context_def Let_def sbind_simps option.case of_int_numeral
      ex_compact_fields ex_compact_steps prod.case ex_history_parts list.size
    by (simp add: rendered_context_def has_previous_def ex_compact_fields ex_history_parts
        ex_compact_steps del: One_nat_def)
  then obtain r where r: "ex_compaction = Inr r" "co_compacted r" by blast
  have "ex_compacted = r" unfolding ex_compacted_def r(1) by (rule sum.case(2))
  with r show "ex_compaction = Inr ex_compacted" "co_compacted ex_compacted" by simp_all
qed


definition ex_chain :: "message list" where
  "ex_chain = [ex_msg ''user'' ''hi'', ex_calls, ex_tool]"

definition ex_unchanged :: compaction_result where
  "ex_unchanged = (case compact_context ex_compact_env ex_compact_args ex_chain of
     Inr r \<Rightarrow> r | Inl e \<Rightarrow> undefined)"

lemma ex_chain_runs: "compact_context ex_compact_env ex_compact_args ex_chain = Inr ex_unchanged"
proof -
  have "\<not> isl (compact_context ex_compact_env ex_compact_args ex_chain)" by code_simp
  then show ?thesis by (auto simp: ex_unchanged_def split: sum.splits)
qed

lemma ex_unchanged_flag: "\<not> co_compacted ex_unchanged"
  by code_simp

theorem no_compaction_keeps_history_witness:
  "co_messages ex_unchanged = ex_chain"
  using no_compaction_keeps_history [OF ex_chain_runs ex_unchanged_flag]
  by (simp add: rendered_context_def has_previous_def ex_compact_args_def)

theorem tool_chain_never_compacts_witness:
  "co_error ex_unchanged = None"
proof -
  have "is_tool_result ex_tool" and "has_calls ex_calls" by code_simp+
  then have "\<forall>i. 1 \<le> i \<longrightarrow> i < 3 \<longrightarrow> is_tool_result (ex_chain ! i) \<or> has_calls (ex_chain ! i)"
    by (auto simp: ex_chain_def less_Suc_eq numeral_3_eq_3)
  then show ?thesis
    using tool_chain_never_compacts [OF ex_chain_runs]
    by (auto simp: ex_compact_args_def ex_compact_agent_def default_compaction_def ex_chain_def)
qed

end
