(* ===== verification/Scheduler.thy ===== *)
theory Scheduler
  imports Config Approvals
begin

text \<open>
  The persistent scheduler (\<^verbatim>\<open>scheduler.py\<close>, rows of \<^verbatim>\<open>models/schedule.py\<close>): trigger arithmetic,
  revisions, the tick that drains queued occurrences and fires due schedules, the outcome of a run
  with its retry and alert, the missed-run sweep and the manual and heartbeat entry points.

  Instants are integers, in microseconds UTC.  The cron library, ISO parsing, time zones and number
  parsing are parameters, as is what a run of the agent ends with.  The tables are lists of rows in
  insertion order; a revision's JSON document is its decoded value, and a section of it that is not
  of the type the code expects, which raises there, counts as empty.  A transaction that raises is
  rolled back, so it returns an error and no tables.
\<close>

section \<open>Rows\<close>

datatype occ_status = Queued | Running | Completed | Failed | SkippedMissed | SkippedOverlap | Cancelled

fun status_text :: "occ_status \<Rightarrow> string" where
  "status_text Queued = ''queued''"
| "status_text Running = ''running''"
| "status_text Completed = ''completed''"
| "status_text Failed = ''failed''"
| "status_text SkippedMissed = ''skipped_missed''"
| "status_text SkippedOverlap = ''skipped_overlap''"
| "status_text Cancelled = ''cancelled''"

lemma status_text_inject [simp]: "status_text a = status_text b \<longleftrightarrow> a = b"
  by (cases a; cases b) simp_all

text \<open>Rows are ordered by the text of their status, as the database orders them.\<close>

instantiation occ_status :: linorder
begin

definition less_eq_occ_status :: "occ_status \<Rightarrow> occ_status \<Rightarrow> bool" where
  "less_eq_occ_status a b = (status_text a \<le> status_text b)"

definition less_occ_status :: "occ_status \<Rightarrow> occ_status \<Rightarrow> bool" where
  "less_occ_status a b = (status_text a < status_text b)"

instance
  by standard (auto simp: less_eq_occ_status_def less_occ_status_def less_le)

end

lemma queued_less_running [simp]: "Queued < Running"
  by (simp add: less_occ_status_def)

record sched_row =
  sc_id :: string
  sc_agent :: string
  sc_name :: string
  sc_enabled :: bool
  sc_managed :: "string option"
  sc_current_rev :: "string option"
  sc_archived :: bool
  sc_next :: "int option"
  sc_last_fired :: "int option"
  sc_last_status :: "occ_status option"
  sc_last_error :: "string option"
  sc_failures :: int

record rev_row =
  rv_id :: string
  rv_schedule :: string
  rv_number :: nat
  rv_hash :: string
  rv_summary :: "string option"
  rv_config :: pydict

record occ_row =
  oc_id :: string
  oc_schedule :: string
  oc_revision :: string
  oc_run :: "string option"
  oc_for :: int
  oc_status :: occ_status
  oc_attempt :: int
  oc_retry_of :: "string option"
  oc_started :: "int option"
  oc_finished :: "int option"
  oc_error :: "string option"

record sched_db =
  sd_scheds :: "sched_row list"
  sd_revs :: "rev_row list"
  sd_occs :: "occ_row list"
  sd_agents :: "(string \<times> agent_config) list"
  sd_notes :: "(string \<times> string) list"
  sd_uuids :: nat

record sched_lib =
  sk_py :: py_lib
  sk_iso :: "string \<Rightarrow> int option"
  sk_float :: "string \<Rightarrow> rat option"
  sk_int :: "string \<Rightarrow> int option"
  sk_cron_ok :: "string \<Rightarrow> bool"
  sk_cron :: "string \<Rightarrow> string \<Rightarrow> int \<Rightarrow> nat \<Rightarrow> int"
  sk_zone_ok :: "string \<Rightarrow> bool"
  sk_wall :: "string \<Rightarrow> int \<Rightarrow> int"
  sk_day :: "string \<Rightarrow> int \<Rightarrow> string"

abbreviation seconds :: "int \<Rightarrow> int" where
  "seconds n \<equiv> n * 1000000"

definition CATCH_UP_MAX :: nat where
  "CATCH_UP_MAX = 25"

definition as_dict :: "pyval \<Rightarrow> pydict" where
  "as_dict v = (case v of PDict d \<Rightarrow> d | _ \<Rightarrow> [])"

text \<open>\<open>int(v)\<close> and \<open>float(v)\<close>; \<open>None\<close> when they raise.\<close>

fun int_of :: "sched_lib \<Rightarrow> pyval \<Rightarrow> int option" where
  "int_of K (PInt i) = Some i"
| "int_of K (PBool b) = Some (if b then 1 else 0)"
| "int_of K (PFloat q) = Some (if q < 0 then \<lceil>q\<rceil> else \<lfloor>q\<rfloor>)"
| "int_of K (PStr s) = sk_int K s"
| "int_of K _ = None"

fun float_of :: "sched_lib \<Rightarrow> pyval \<Rightarrow> rat option" where
  "float_of K (PInt i) = Some (of_int i)"
| "float_of K (PBool b) = Some (if b then 1 else 0)"
| "float_of K (PFloat q) = Some q"
| "float_of K (PStr s) = sk_float K s"
| "float_of K _ = None"

text \<open>\<open>x or dflt\<close>\<close>

definition or_else :: "pyval \<Rightarrow> pyval \<Rightarrow> pyval" where
  "or_else v dflt = (if truthy v then v else dflt)"


section \<open>Trigger arithmetic\<close>

text \<open>\<open>timedelta(seconds=q)\<close> in microseconds, rounded half to even.\<close>

definition round_half_even :: "rat \<Rightarrow> int" where
  "round_half_even q =
     (let f = \<lfloor>q\<rfloor>; d = q - of_int f in
      if d < 1 / 2 then f else if d > 1 / 2 then f + 1 else if even f then f else f + 1)"

definition timedelta :: "rat \<Rightarrow> int" where
  "timedelta q = round_half_even (q * 1000000)"

definition interval_delta :: "sched_lib \<Rightarrow> pydict \<Rightarrow> string + int" where
  "interval_delta K trigger =
     (case map_of trigger ''every_seconds'' of
        None \<Rightarrow> Inl ''every_seconds''
      | Some v \<Rightarrow> (case float_of K v of
                     None \<Rightarrow> Inl ''could not convert to float'' | Some q \<Rightarrow> Inr (timedelta q)))"

definition parse_at :: "sched_lib \<Rightarrow> pyval \<Rightarrow> int option" where
  "parse_at K v = sk_iso K (replace_all ''Z'' ''+00:00'' (py_str (sk_py K) v))"

definition next_fire :: "sched_lib \<Rightarrow> pydict \<Rightarrow> int \<Rightarrow> string + int option" where
  "next_fire K trigger after =
     (let kind = dget trigger ''kind'' PNone in
      if kind = PStr ''once''
      then (case map_of trigger ''at'' of
              None \<Rightarrow> Inl ''at''
            | Some v \<Rightarrow> (case parse_at K v of
                           None \<Rightarrow> Inl ''Invalid isoformat string''
                         | Some t \<Rightarrow> Inr (if t > after then Some t else None)))
      else if kind = PStr ''interval''
      then sbind (interval_delta K trigger) (\<lambda>d. Inr (Some (after + d)))
      else if kind = PStr ''cron''
      then
        let tz = py_str (sk_py K) (or_else (dget trigger ''timezone'' PNone) (PStr ''UTC'')) in
        if \<not> sk_zone_ok K tz then Inl ''No time zone found''
        else (case map_of trigger ''cron'' of
                None \<Rightarrow> Inl ''cron''
              | Some v \<Rightarrow>
                  let expr = py_str (sk_py K) v in
                  if \<not> sk_cron_ok K expr then Inl ''CroniterBadCronError''
                  else
                    let nxt = sk_cron K expr tz after 0 in
                    Inr (Some (if sk_wall K tz nxt = sk_wall K tz after then sk_cron K expr tz after 1
                               else nxt)))
      else Inr None)"

fun preview_occurrences :: "sched_lib \<Rightarrow> pydict \<Rightarrow> nat \<Rightarrow> int \<Rightarrow> string + int list" where
  "preview_occurrences K trigger 0 cursor = Inr []"
| "preview_occurrences K trigger (Suc n) cursor =
     sbind (next_fire K trigger cursor) (\<lambda>nxt.
       case nxt of
         None \<Rightarrow> Inr []
       | Some t \<Rightarrow> sbind (preview_occurrences K trigger n t) (\<lambda>ts. Inr (t # ts)))"


section \<open>Validation\<close>

text \<open>A \<open>max_attempts\<close> that is no number, on which \<open>int\<close> raises, is refused like one below 1.\<close>

datatype config_error =
    BadAt | BadInterval | BadCron | BadKind | BadZone | BadMissed | BadOverlap | BadFailureMode
  | BadAttempts | NoPrompt

definition trigger_errors :: "sched_lib \<Rightarrow> pydict \<Rightarrow> config_error list" where
  "trigger_errors K trigger =
     (let kind = dget trigger ''kind'' PNone in
      if kind = PStr ''once''
      then (if parse_at K (dget trigger ''at'' (PStr [])) = None then [BadAt] else [])
      else if kind = PStr ''interval''
      then (case dget trigger ''every_seconds'' PNone of
              PInt i \<Rightarrow> if i < 60 then [BadInterval] else []
            | PFloat q \<Rightarrow> if q < 60 then [BadInterval] else []
            | _ \<Rightarrow> [BadInterval])
      else if kind = PStr ''cron''
      then (if sk_cron_ok K (py_str (sk_py K) (or_else (dget trigger ''cron'' PNone) (PStr [])))
            then [] else [BadCron])
      else [BadKind])"

definition one_of :: "pyval \<Rightarrow> string list \<Rightarrow> bool" where
  "one_of v texts \<longleftrightarrow> v = PNone \<or> v \<in> PStr ` set texts"

definition validate_config :: "sched_lib \<Rightarrow> pydict \<Rightarrow> config_error list" where
  "validate_config K cfg =
     (let trigger = as_dict (or_else (dget cfg ''trigger'' PNone) (PDict []));
          tz = or_else (dget trigger ''timezone'' PNone) (PStr ''UTC'');
          policies = as_dict (or_else (dget cfg ''policies'' PNone) (PDict []));
          failure = as_dict (or_else (dget policies ''failure'' PNone) (PDict []))
      in trigger_errors K trigger
       @ (if sk_zone_ok K (py_str (sk_py K) tz) then [] else [BadZone])
       @ (if one_of (dget policies ''missed'' PNone) [''skip'', ''run_once'', ''catch_up''] then []
          else [BadMissed])
       @ (if one_of (dget policies ''overlap'' PNone)
               [''skip'', ''queue'', ''cancel_previous'', ''allow_parallel''] then []
          else [BadOverlap])
       @ (if one_of (dget failure ''mode'' PNone) [''no_retry'', ''bounded_retry''] then []
          else [BadFailureMode])
       @ (if dget failure ''mode'' PNone = PStr ''bounded_retry''
             \<and> (case int_of K (or_else (dget failure ''max_attempts'' PNone) (PInt 0)) of
                   None \<Rightarrow> True | Some i \<Rightarrow> i < 1)
          then [BadAttempts] else [])
       @ (if py_strip (py_str (sk_py K) (or_else (dget cfg ''task_prompt'' PNone) (PStr []))) = []
          then [NoPrompt] else []))"


section \<open>Revisions\<close>

definition find_sched :: "sched_db \<Rightarrow> string \<Rightarrow> sched_row option" where
  "find_sched db i = find (\<lambda>s. sc_id s = i) (sd_scheds db)"

definition find_rev :: "sched_db \<Rightarrow> string \<Rightarrow> rev_row option" where
  "find_rev db i = find (\<lambda>r. rv_id r = i) (sd_revs db)"

definition find_occ :: "sched_db \<Rightarrow> string \<Rightarrow> occ_row option" where
  "find_occ db i = find (\<lambda>x. oc_id x = i) (sd_occs db)"

definition set_sched :: "string \<Rightarrow> (sched_row \<Rightarrow> sched_row) \<Rightarrow> sched_db \<Rightarrow> sched_db" where
  "set_sched i f db = db\<lparr>sd_scheds := map (\<lambda>s. if sc_id s = i then f s else s) (sd_scheds db)\<rparr>"

definition set_occ :: "string \<Rightarrow> (occ_row \<Rightarrow> occ_row) \<Rightarrow> sched_db \<Rightarrow> sched_db" where
  "set_occ i f db = db\<lparr>sd_occs := map (\<lambda>x. if oc_id x = i then f x else x) (sd_occs db)\<rparr>"

definition new_id :: "sched_lib \<Rightarrow> sched_db \<Rightarrow> string" where
  "new_id K db = lib_uuid (sk_py K) (sd_uuids db)"

definition content_hash :: "sched_lib \<Rightarrow> pydict \<Rightarrow> string" where
  "content_hash K cfg = lib_sha256 (sk_py K) (lib_dumps (sk_py K) (PDict cfg))"

definition revision_numbers :: "sched_db \<Rightarrow> string \<Rightarrow> nat list" where
  "revision_numbers db sid = map rv_number (filter (\<lambda>r. rv_schedule r = sid) (sd_revs db))"

definition write_revision ::
    "sched_lib \<Rightarrow> string \<Rightarrow> pydict \<Rightarrow> string option \<Rightarrow> sched_db \<Rightarrow> rev_row \<times> sched_db" where
  "write_revision K sid cfg summary db =
     (let rev = \<lparr>rv_id = new_id K db, rv_schedule = sid,
                 rv_number = Max (set (0 # revision_numbers db sid)) + 1,
                 rv_hash = content_hash K cfg, rv_summary = summary, rv_config = cfg\<rparr>;
          db = db\<lparr>sd_revs := sd_revs db @ [rev], sd_uuids := Suc (sd_uuids db)\<rparr>
      in (rev, set_sched sid (\<lambda>s. s\<lparr>sc_current_rev := Some (rv_id rev)\<rparr>) db))"

definition current_revision :: "sched_db \<Rightarrow> sched_row \<Rightarrow> rev_row option" where
  "current_revision db s =
     (case sc_current_rev s of
        None \<Rightarrow> None | Some i \<Rightarrow> if i = [] then None else find_rev db i)"

definition default_policies :: pydict where
  "default_policies = [(''missed'', PStr ''run_once''), (''overlap'', PStr ''skip''),
     (''failure'', PDict [(''mode'', PStr ''no_retry''), (''max_attempts'', PInt 0),
        (''backoff_seconds'', PInt 60)])]"

text \<open>\<open>{**default_policies(), **(cfg.get("policies") or {})}\<close>\<close>

definition merged_policies :: "pydict \<Rightarrow> pydict" where
  "merged_policies cfg =
     (let own = as_dict (or_else (dget cfg ''policies'' PNone) (PDict []))
      in AList.updates (map fst own) (map snd own) default_policies)"

definition trigger_of :: "pydict \<Rightarrow> pydict" where
  "trigger_of cfg = as_dict (dget cfg ''trigger'' PNone)"


section \<open>Occurrences\<close>

definition record_occurrence ::
    "sched_lib \<Rightarrow> string \<Rightarrow> string \<Rightarrow> int \<Rightarrow> occ_status \<Rightarrow> int \<Rightarrow> string option \<Rightarrow> string option
     \<Rightarrow> sched_db \<Rightarrow> occ_row \<times> sched_db" where
  "record_occurrence K sid rev_id scheduled_for status attempt retry_of err db =
     (let x = \<lparr>oc_id = new_id K db, oc_schedule = sid, oc_revision = rev_id, oc_run = None,
               oc_for = scheduled_for, oc_status = status, oc_attempt = attempt,
               oc_retry_of = retry_of, oc_started = None, oc_finished = None, oc_error = err\<rparr>
      in (x, db\<lparr>sd_occs := sd_occs db @ [x], sd_uuids := Suc (sd_uuids db)\<rparr>))"

definition running_occurrence :: "sched_db \<Rightarrow> string \<Rightarrow> occ_row option" where
  "running_occurrence db sid = find (\<lambda>x. oc_schedule x = sid \<and> oc_status x = Running) (sd_occs db)"

text \<open>The first of the open rows, ordered by descending status.\<close>

definition first_row :: "'a list \<Rightarrow> 'a option" where
  "first_row xs = (case xs of [] \<Rightarrow> None | x # _ \<Rightarrow> Some x)"

definition open_rows :: "sched_db \<Rightarrow> string \<Rightarrow> occ_row list" where
  "open_rows db sid = filter (\<lambda>x. oc_schedule x = sid \<and> oc_status x \<in> {Queued, Running}) (sd_occs db)"

definition open_occurrence :: "sched_db \<Rightarrow> string \<Rightarrow> occ_row option" where
  "open_occurrence db sid = first_row (rev (sort_key oc_status (rev (open_rows db sid))))"

text \<open>
  \<open>_cancel_occurrence\<close>: the row is marked; the run's own task, if it is still ours, is cancelled
  and writes its outcome later, through \<open>finish_occurrence\<close>.
\<close>

definition cancel_occurrence :: "string \<Rightarrow> int \<Rightarrow> sched_db \<Rightarrow> sched_db" where
  "cancel_occurrence i now db =
     set_occ i (\<lambda>x. x\<lparr>oc_status := Cancelled, oc_finished := Some now,
       oc_error := (case oc_error x of
                      Some e \<Rightarrow> if e \<noteq> [] then Some e else Some ''cancelled by overlap policy''
                    | None \<Rightarrow> Some ''cancelled by overlap policy'')\<rparr>) db"


section \<open>The tick\<close>

definition start_occurrence :: "string \<Rightarrow> int \<Rightarrow> sched_db \<Rightarrow> sched_db" where
  "start_occurrence i now db = set_occ i (\<lambda>x. x\<lparr>oc_status := Running, oc_started := Some now\<rparr>) db"

text \<open>Phase 1: the due queued rows in the order of their instants.\<close>

definition due_queued :: "sched_db \<Rightarrow> int \<Rightarrow> occ_row list" where
  "due_queued db now =
     sort_key oc_for (filter (\<lambda>x. oc_status x = Queued \<and> oc_for x \<le> now) (sd_occs db))"

fun drain :: "occ_row list \<Rightarrow> int \<Rightarrow> sched_db \<Rightarrow> string list \<Rightarrow> string list \<times> sched_db" where
  "drain [] now db launched = (launched, db)"
| "drain (x # xs) now db launched =
     (if running_occurrence db (oc_schedule x) \<noteq> None then drain xs now db launched
      else drain xs now (start_occurrence (oc_id x) now db) (launched @ [oc_id x]))"

text \<open>Moving the anchor of a schedule on after its due instant.\<close>

definition advance :: "sched_lib \<Rightarrow> pydict \<Rightarrow> string \<Rightarrow> int \<Rightarrow> sched_db \<Rightarrow> string + sched_db" where
  "advance K trigger sid due db =
     sbind (next_fire K trigger due) (\<lambda>t. Inr (set_sched sid (\<lambda>s. s\<lparr>sc_next := t\<rparr>) db))"

definition fire_occurrence ::
    "sched_lib \<Rightarrow> string \<Rightarrow> rev_row \<Rightarrow> int \<Rightarrow> int \<Rightarrow> sched_db \<Rightarrow> string + (string option \<times> sched_db)" where
  "fire_occurrence K sid rv due now db =
     (case record_occurrence K sid (rv_id rv) due Running 1 None None db of
        (x, db) \<Rightarrow>
          sbind (advance K (trigger_of (rv_config rv)) sid due
                   (set_sched sid (\<lambda>s. s\<lparr>sc_last_fired := Some now\<rparr>)
                     (set_occ (oc_id x) (\<lambda>x. x\<lparr>oc_started := Some now\<rparr>) db)))
            (\<lambda>db. Inr (Some (oc_id x), db)))"

definition park_occurrence ::
    "sched_lib \<Rightarrow> string \<Rightarrow> rev_row \<Rightarrow> int \<Rightarrow> occ_status \<Rightarrow> sched_db
     \<Rightarrow> string + (string option \<times> sched_db)" where
  "park_occurrence K sid rv due status db =
     sbind (advance K (trigger_of (rv_config rv)) sid due
              (snd (record_occurrence K sid (rv_id rv) due status 1 None None db)))
       (\<lambda>db. Inr (None, db))"

definition fire_due ::
    "sched_lib \<Rightarrow> sched_row \<Rightarrow> int \<Rightarrow> sched_db \<Rightarrow> string + (string option \<times> sched_db)" where
  "fire_due K s now db =
     (case current_revision db s of
        None \<Rightarrow> Inr (None, set_sched (sc_id s) (\<lambda>s. s\<lparr>sc_next := None\<rparr>) db)
      | Some rv \<Rightarrow>
          let mode = dget (merged_policies (rv_config rv)) ''overlap'' PNone;
              due = the (sc_next s)
          in case open_occurrence db (sc_id s) of
               None \<Rightarrow> fire_occurrence K (sc_id s) rv due now db
             | Some prev \<Rightarrow>
                 if mode = PStr ''skip'' then park_occurrence K (sc_id s) rv due SkippedOverlap db
                 else if mode = PStr ''queue'' then park_occurrence K (sc_id s) rv due Queued db
                 else if mode = PStr ''cancel_previous''
                 then fire_occurrence K (sc_id s) rv due now (cancel_occurrence (oc_id prev) now db)
                 else fire_occurrence K (sc_id s) rv due now db)"

definition due_schedules :: "sched_db \<Rightarrow> int \<Rightarrow> sched_row list" where
  "due_schedules db now =
     filter (\<lambda>s. sc_enabled s \<and> (case sc_next s of None \<Rightarrow> False | Some t \<Rightarrow> t \<le> now)) (sd_scheds db)"

fun fire_all ::
    "sched_lib \<Rightarrow> sched_row list \<Rightarrow> int \<Rightarrow> sched_db \<Rightarrow> string list
     \<Rightarrow> string + (string list \<times> sched_db)" where
  "fire_all K [] now db launched = Inr (launched, db)"
| "fire_all K (s # ss) now db launched =
     sbind (fire_due K s now db) (\<lambda>(occ, db).
       fire_all K ss now db (launched @ (case occ of None \<Rightarrow> [] | Some i \<Rightarrow> [i])))"

text \<open>The tick: the tables after the commit, and the occurrences to launch.\<close>

definition tick :: "sched_lib \<Rightarrow> int \<Rightarrow> sched_db \<Rightarrow> string + (string list \<times> sched_db)" where
  "tick K now db =
     (case drain (due_queued db now) now db [] of
        (launched, db) \<Rightarrow> fire_all K (due_schedules db now) now db launched)"


section \<open>The outcome of a run\<close>

text \<open>What \<open>run_agent\<close> ends with: a status, a run identifier and an error; a cancellation; a raise.\<close>

datatype run_outcome =
    RunEnded string "string option" "string option"
  | RunCancelled
  | RunRaised string

fun outcome_status :: "run_outcome \<Rightarrow> occ_status" where
  "outcome_status (RunEnded status i e) = (if status = ''completed'' then Completed else Failed)"
| "outcome_status RunCancelled = Cancelled"
| "outcome_status (RunRaised e) = Failed"

fun outcome_error :: "run_outcome \<Rightarrow> string option" where
  "outcome_error (RunEnded status i e) = e"
| "outcome_error RunCancelled = Some ''cancelled''"
| "outcome_error (RunRaised e) = Some e"

fun outcome_run :: "run_outcome \<Rightarrow> string option" where
  "outcome_run (RunEnded status i e) = (case i of Some r \<Rightarrow> if r = [] then None else Some r | None \<Rightarrow> None)"
| "outcome_run _ = None"

text \<open>\<open>x or y\<close> on optional strings.\<close>

definition or_text :: "string option \<Rightarrow> string option \<Rightarrow> string option" where
  "or_text x y = (case x of None \<Rightarrow> y | Some t \<Rightarrow> if t = [] then y else x)"

text \<open>Notifications are inserted unless their event identifier is already there.\<close>

definition add_note :: "string \<Rightarrow> string \<Rightarrow> sched_db \<Rightarrow> sched_db" where
  "add_note kind event db =
     (if event \<in> set (map snd (sd_notes db)) then db
      else db\<lparr>sd_notes := sd_notes db @ [(kind, event)]\<rparr>)"

definition failure_policy :: "pydict \<Rightarrow> pydict" where
  "failure_policy cfg =
     as_dict (or_else (dget (as_dict (or_else (dget cfg ''policies'' PNone) (PDict []))) ''failure'' PNone)
                (PDict []))"

definition maybe_retry :: "sched_lib \<Rightarrow> occ_row \<Rightarrow> pydict \<Rightarrow> int \<Rightarrow> sched_db \<Rightarrow> string + sched_db" where
  "maybe_retry K x cfg now db =
     (let failure = failure_policy cfg in
      if dget failure ''mode'' PNone \<noteq> PStr ''bounded_retry'' then Inr db
      else case int_of K (or_else (dget failure ''max_attempts'' PNone) (PInt 0)) of
             None \<Rightarrow> Inl ''invalid literal for int()''
           | Some max_attempts \<Rightarrow>
               if oc_attempt x \<ge> max_attempts then Inr db
               else case float_of K (or_else (dget failure ''backoff_seconds'' PNone) (PInt 60)) of
                      None \<Rightarrow> Inl ''could not convert string to float''
                    | Some b \<Rightarrow>
                        Inr (snd (record_occurrence K (oc_schedule x) (oc_revision x)
                                    (now + timedelta (b * of_int (oc_attempt x))) Queued
                                    (oc_attempt x + 1) (Some (oc_id x)) None db)))"

definition failure_threshold :: "sched_db \<Rightarrow> sched_row \<Rightarrow> int" where
  "failure_threshold db s =
     (if sc_managed s = Some ''heartbeat''
      then (case map_of (sd_agents db) (sc_agent s) of
              Some config \<Rightarrow> hb_consecutive_failure_threshold (ac_heartbeat config) | None \<Rightarrow> 1)
      else 1)"

definition notify_failure :: "sched_lib \<Rightarrow> string \<Rightarrow> int \<Rightarrow> sched_db \<Rightarrow> sched_db" where
  "notify_failure K sid now db =
     (case find_sched db sid of
        None \<Rightarrow> db
      | Some s \<Rightarrow>
          if sc_failures s < failure_threshold db s then db
          else
            let zone = (case current_revision db s of
                          None \<Rightarrow> PNone
                        | Some rv \<Rightarrow> dget (trigger_of (rv_config rv)) ''timezone'' PNone);
                tz = (if truthy zone \<and> sk_zone_ok K (py_str (sk_py K) zone)
                      then py_str (sk_py K) zone else ''UTC'')
            in add_note ''schedule_failed'' (''schedule_failed:'' @ sid @ '':'' @ sk_day K tz now) db)"

text \<open>Phase 1 of \<open>_execute\<close>: the occurrence is still running and its rows are there.\<close>

definition executable :: "sched_db \<Rightarrow> string \<Rightarrow> (occ_row \<times> sched_row \<times> rev_row) option" where
  "executable db i =
     (case find_occ db i of
        None \<Rightarrow> None
      | Some x \<Rightarrow>
          if oc_status x \<noteq> Running then None
          else (case (find_sched db (oc_schedule x), find_rev db (oc_revision x)) of
                  (Some s, Some rv) \<Rightarrow> Some (x, s, rv) | _ \<Rightarrow> None))"

text \<open>
  Phase 2: the outcome, the counters, the retry and the notification.  The occurrence is written
  whatever its row says by then.
\<close>

definition write_outcome :: "string \<Rightarrow> run_outcome \<Rightarrow> int \<Rightarrow> sched_db \<Rightarrow> sched_db" where
  "write_outcome i out now db =
     set_occ i (\<lambda>x. x\<lparr>oc_run := outcome_run out, oc_status := outcome_status out,
       oc_error := or_text (outcome_error out) (oc_error x), oc_finished := Some now\<rparr>) db"

definition finish_occurrence ::
    "sched_lib \<Rightarrow> string \<Rightarrow> string \<Rightarrow> pydict \<Rightarrow> run_outcome \<Rightarrow> bool \<Rightarrow> int \<Rightarrow> sched_db
     \<Rightarrow> string + sched_db" where
  "finish_occurrence K i sid cfg out is_test now db =
     (let db = write_outcome i out now db; occ = find_occ db i in
      case find_sched db sid of
        None \<Rightarrow> Inr db
      | Some s \<Rightarrow>
          let db = set_sched sid (\<lambda>s. s\<lparr>sc_last_status := Some (outcome_status out),
                     sc_last_error := or_text (outcome_error out)
                       (case occ of None \<Rightarrow> None | Some x \<Rightarrow> oc_error x)\<rparr>) db
          in if outcome_status out = Completed
             then
               let db = set_sched sid (\<lambda>s. s\<lparr>sc_failures := 0\<rparr>) db in
               Inr (if sc_managed s \<noteq> Some ''heartbeat'' \<and> \<not> is_test \<and> occ \<noteq> None
                    then add_note ''schedule_completed'' (''schedule_completed:'' @ i) db else db)
             else
               let db = set_sched sid (\<lambda>s. s\<lparr>sc_failures := sc_failures s + 1\<rparr>) db in
               sbind (case occ of None \<Rightarrow> Inr db | Some x \<Rightarrow> maybe_retry K x cfg now db) (\<lambda>db.
                 Inr (if is_test then db else notify_failure K sid now db)))"

text \<open>Both phases around a run that ends with \<open>out\<close>; \<open>between\<close> is what other tasks commit meanwhile.\<close>

definition execute ::
    "sched_lib \<Rightarrow> string \<Rightarrow> run_outcome \<Rightarrow> bool \<Rightarrow> int \<Rightarrow> (sched_db \<Rightarrow> sched_db) \<Rightarrow> sched_db
     \<Rightarrow> string + sched_db" where
  "execute K i out is_test now between db =
     (case executable db i of
        None \<Rightarrow> Inr db
      | Some (x, s, rv) \<Rightarrow>
          finish_occurrence K i (sc_id s) (rv_config rv) out is_test now (between db))"


section \<open>Startup: stale rows and missed instants\<close>

definition reconcile_stale :: "int \<Rightarrow> sched_db \<Rightarrow> sched_db" where
  "reconcile_stale now db =
     db\<lparr>sd_occs := map (\<lambda>x. if oc_status x = Running
          then x\<lparr>oc_status := Cancelled, oc_finished := Some now,
                 oc_error := Some (case oc_error x of
                     Some e \<Rightarrow> if e \<noteq> [] then e @ ''; Gateway restarted during execution''
                               else ''Gateway restarted during execution''
                   | None \<Rightarrow> ''Gateway restarted during execution'')\<rparr>
          else x) (sd_occs db)\<rparr>"

text \<open>
  The loop over missed instants: \<open>room\<close> is what is left of \<open>CATCH_UP_MAX\<close>; the result is the
  instants and the cursor.
\<close>

fun missed_instants ::
    "sched_lib \<Rightarrow> pydict \<Rightarrow> int \<Rightarrow> nat \<Rightarrow> int \<Rightarrow> string + (int list \<times> int)" where
  "missed_instants K trigger now 0 cursor = Inr ([], cursor)"
| "missed_instants K trigger now (Suc room) cursor =
     (if cursor < now
      then sbind (next_fire K trigger cursor) (\<lambda>nxt.
             sbind (missed_instants K trigger now room (case nxt of Some t \<Rightarrow> t | None \<Rightarrow> now))
               (\<lambda>(ts, c). Inr (cursor # ts, c)))
      else Inr ([], cursor))"

definition record_all ::
    "sched_lib \<Rightarrow> string \<Rightarrow> rev_row \<Rightarrow> int list \<Rightarrow> sched_db \<Rightarrow> sched_db" where
  "record_all K sid rv ts db =
     fold (\<lambda>t db. snd (record_occurrence K sid (rv_id rv) t Queued 1 None None db)) ts db"

definition record_missed ::
    "sched_lib \<Rightarrow> string \<Rightarrow> rev_row \<Rightarrow> pyval \<Rightarrow> int list \<Rightarrow> sched_db \<Rightarrow> sched_db" where
  "record_missed K sid rv missed instants db =
     (if missed = PStr ''skip''
      then snd (record_occurrence K sid (rv_id rv) (last instants) SkippedMissed 1 None
                  (Some (show_int (int (length instants)) @ '' occurrence(s) missed while inactive'')) db)
      else if missed = PStr ''run_once''
      then snd (record_occurrence K sid (rv_id rv) (last instants) Queued 1 None
                  (if length instants > 1
                   then Some (show_int (int (length instants) - 1) @ '' earlier occurrence(s) skipped'')
                   else None) db)
      else if missed = PStr ''catch_up'' then record_all K sid rv instants db
      else db)"

definition sweep_schedule :: "sched_lib \<Rightarrow> sched_row \<Rightarrow> int \<Rightarrow> sched_db \<Rightarrow> string + sched_db" where
  "sweep_schedule K s now db =
     (case current_revision db s of
        None \<Rightarrow> Inr db
      | Some rv \<Rightarrow>
          let cfg = rv_config rv; trigger = trigger_of cfg in
          case sc_next s of
            None \<Rightarrow> advance K trigger (sc_id s) now db
          | Some anchor \<Rightarrow>
              sbind (missed_instants K trigger now CATCH_UP_MAX anchor) (\<lambda>(ts, cursor).
                let instants = (if dget trigger ''kind'' PNone = PStr ''once'' \<and> ts \<noteq> []
                                then take 1 ts else ts)
                in if instants = [] then Inr db
                   else
                     let db = record_missed K (sc_id s) rv (dget (merged_policies cfg) ''missed'' PNone)
                                instants db
                     in if cursor > now
                        then Inr (set_sched (sc_id s) (\<lambda>s. s\<lparr>sc_next := Some cursor\<rparr>) db)
                        else advance K trigger (sc_id s) now db))"

fun sweep_all :: "sched_lib \<Rightarrow> sched_row list \<Rightarrow> int \<Rightarrow> sched_db \<Rightarrow> string + sched_db" where
  "sweep_all K [] now db = Inr db"
| "sweep_all K (s # ss) now db = sbind (sweep_schedule K s now db) (sweep_all K ss now)"

definition sweep_missed :: "sched_lib \<Rightarrow> int \<Rightarrow> sched_db \<Rightarrow> string + sched_db" where
  "sweep_missed K now db =
     sweep_all K (filter (\<lambda>s. sc_enabled s \<and> (case sc_next s of None \<Rightarrow> False | Some t \<Rightarrow> t < now))
                    (sd_scheds db)) now db"


section \<open>Manual and heartbeat entry points\<close>

definition run_now :: "sched_lib \<Rightarrow> string \<Rightarrow> int \<Rightarrow> sched_db \<Rightarrow> string + (string \<times> sched_db)" where
  "run_now K sid now db =
     (case find_sched db sid of
        None \<Rightarrow> Inl ''Schedule not found''
      | Some s \<Rightarrow>
          if sc_archived s then Inl ''Schedule not found''
          else (case current_revision db s of
                  None \<Rightarrow> Inl ''Schedule has no revision''
                | Some rv \<Rightarrow>
                    if py_strip (py_str (sk_py K)
                         (or_else (dget (rv_config rv) ''task_prompt'' PNone) (PStr []))) = []
                    then Inl ''Schedule has no task prompt''
                    else (case record_occurrence K sid (rv_id rv) now Running 1 None None db of
                            (x, db) \<Rightarrow>
                              Inr (oc_id x, set_occ (oc_id x) (\<lambda>x. x\<lparr>oc_started := Some now\<rparr>) db))))"

definition heartbeat_cfg :: "heartbeat_config \<Rightarrow> pydict" where
  "heartbeat_cfg hb =
     [(''trigger'', PDict [(''kind'', PStr ''interval''),
         (''every_seconds'', PInt (max 60 (hb_interval_minutes hb * 60)))]),
      (''task_prompt'', PStr (hb_task_prompt hb)),
      (''policies'', PDict default_policies),
      (''auto_approve'', PList []),
      (''limits'', PDict [(''max_cost'', PFloat (hb_max_cost_per_heartbeat hb))])]"

definition managed_heartbeat :: "sched_db \<Rightarrow> string \<Rightarrow> sched_row option" where
  "managed_heartbeat db agent =
     find (\<lambda>s. sc_agent s = agent \<and> sc_managed s = Some ''heartbeat'') (sd_scheds db)"

definition new_heartbeat :: "sched_lib \<Rightarrow> string \<Rightarrow> bool \<Rightarrow> sched_db \<Rightarrow> sched_row \<times> sched_db" where
  "new_heartbeat K agent enabled db =
     (let s = \<lparr>sc_id = new_id K db, sc_agent = agent, sc_name = ''Heartbeat'', sc_enabled = enabled,
               sc_managed = Some ''heartbeat'', sc_current_rev = None, sc_archived = False,
               sc_next = None, sc_last_fired = None, sc_last_status = None, sc_last_error = None,
               sc_failures = 0\<rparr>
      in (s, db\<lparr>sd_scheds := sd_scheds db @ [s], sd_uuids := Suc (sd_uuids db)\<rparr>))"

text \<open>Writing the projected configuration: the tables, and whether the trigger changed.\<close>

definition project_heartbeat ::
    "sched_lib \<Rightarrow> string \<Rightarrow> heartbeat_config \<Rightarrow> sched_db \<Rightarrow> string \<times> bool \<times> sched_db" where
  "project_heartbeat K agent hb db =
     (let cfg = heartbeat_cfg hb in
      case managed_heartbeat db agent of
        None \<Rightarrow>
          (case new_heartbeat K agent (hb_enabled hb) db of
             (s, db) \<Rightarrow>
               (sc_id s, True, snd (write_revision K (sc_id s) cfg (Some ''heartbeat config'') db)))
      | Some s \<Rightarrow>
          let enable = set_sched (sc_id s) (\<lambda>s. s\<lparr>sc_enabled := hb_enabled hb\<rparr>) in
          (case current_revision db s of
             None \<Rightarrow>
               (sc_id s, False,
                enable (snd (write_revision K (sc_id s) cfg (Some ''heartbeat config'') db)))
           | Some rv \<Rightarrow>
               if content_hash K (rv_config rv) \<noteq> content_hash K cfg
               then (sc_id s, dget (rv_config rv) ''trigger'' PNone \<noteq> dget cfg ''trigger'' PNone,
                     enable (snd (write_revision K (sc_id s) cfg (Some ''heartbeat config'') db)))
               else (sc_id s, False, enable db)))"

definition sync_heartbeat :: "sched_lib \<Rightarrow> string \<Rightarrow> int \<Rightarrow> sched_db \<Rightarrow> string + sched_db" where
  "sync_heartbeat K agent now db =
     (case map_of (sd_agents db) agent of
        None \<Rightarrow> Inl (''Agent not found: '' @ agent)
      | Some config \<Rightarrow>
          let hb = ac_heartbeat config in
          (case project_heartbeat K agent hb db of
             (sid, changed, db) \<Rightarrow>
               if \<not> hb_enabled hb then Inr (set_sched sid (\<lambda>s. s\<lparr>sc_next := None\<rparr>) db)
               else if changed \<or> (case find_sched db sid of None \<Rightarrow> False | Some s \<Rightarrow> sc_next s = None)
               then advance K (as_dict (dget (heartbeat_cfg hb) ''trigger'' PNone)) sid now db
               else Inr db))"

record heartbeat_state =
  hs_agent :: string
  hs_last_fired :: "int option"
  hs_last_status :: "occ_status option"
  hs_last_error :: "string option"
  hs_failures :: int
  hs_next :: "int option"

definition heartbeat_states :: "sched_db \<Rightarrow> string list \<Rightarrow> (string \<times> heartbeat_state) list" where
  "heartbeat_states db agents =
     fold (\<lambda>s acc. AList.update (sc_agent s)
              \<lparr>hs_agent = sc_agent s, hs_last_fired = sc_last_fired s, hs_last_status = sc_last_status s,
               hs_last_error = sc_last_error s, hs_failures = sc_failures s, hs_next = sc_next s\<rparr> acc)
       (filter (\<lambda>s. sc_agent s \<in> set agents \<and> sc_managed s = Some ''heartbeat'') (sd_scheds db)) []"

definition alerting :: "sched_db \<Rightarrow> sched_row list" where
  "alerting db = filter (\<lambda>s. sc_failures s > 0 \<and> \<not> sc_failures s < failure_threshold db s) (sd_scheds db)"

definition clear_alert :: "string \<Rightarrow> sched_db \<Rightarrow> sched_db" where
  "clear_alert agent db =
     db\<lparr>sd_scheds := map (\<lambda>s. if sc_agent s = agent then s\<lparr>sc_failures := 0\<rparr> else s) (sd_scheds db)\<rparr>"

text \<open>\<open>fire_now\<close>: the heartbeat is projected and committed, then run by hand.\<close>

definition fire_now :: "sched_lib \<Rightarrow> string \<Rightarrow> int \<Rightarrow> sched_db \<Rightarrow> string + (string \<times> sched_db)" where
  "fire_now K agent now db =
     (case map_of (sd_agents db) agent of
        None \<Rightarrow> Inl (''Agent not found: '' @ agent)
      | Some config \<Rightarrow>
          if py_strip (hb_task_prompt (ac_heartbeat config)) = []
          then Inl ''No task prompt configured for heartbeat''
          else sbind (sync_heartbeat K agent now db) (\<lambda>db.
            case managed_heartbeat db agent of
              None \<Rightarrow> Inl ''Schedule not found'' | Some s \<Rightarrow> run_now K (sc_id s) now db))"

text \<open>The failure mark of a run whose preamble raised.\<close>

definition mark_occurrence_failed :: "string \<Rightarrow> string \<Rightarrow> int \<Rightarrow> sched_db \<Rightarrow> sched_db" where
  "mark_occurrence_failed i err now db =
     (case find_occ db i of
        None \<Rightarrow> db
      | Some x \<Rightarrow>
          if oc_status x \<noteq> Running then db
          else set_occ i (\<lambda>x. x\<lparr>oc_status := Failed, oc_error := Some err, oc_finished := Some now\<rparr>) db)"

text \<open>Startup: the enabled agents' heartbeats, the stale rows, the sweep.  A step that raises is logged.\<close>

fun migrate_heartbeats :: "sched_lib \<Rightarrow> string list \<Rightarrow> int \<Rightarrow> sched_db \<Rightarrow> string + sched_db" where
  "migrate_heartbeats K [] now db = Inr db"
| "migrate_heartbeats K (a # as) now db =
     (if map_of (sd_agents db) a = None then migrate_heartbeats K as now db
      else sbind (sync_heartbeat K a now db) (migrate_heartbeats K as now))"

definition or_rollback :: "(sched_db \<Rightarrow> string + sched_db) \<Rightarrow> sched_db \<Rightarrow> sched_db" where
  "or_rollback step db = (case step db of Inl e \<Rightarrow> db | Inr db' \<Rightarrow> db')"

definition start_scheduler :: "sched_lib \<Rightarrow> string list \<Rightarrow> int \<Rightarrow> sched_db \<Rightarrow> sched_db" where
  "start_scheduler K enabled now db =
     or_rollback (sweep_missed K now)
       (reconcile_stale now (or_rollback (migrate_heartbeats K enabled now) db))"

end
