(* ===== verification/Scheduler_Safety.thy ===== *)
theory Scheduler_Safety
  imports Scheduler
begin

text \<open>
  What the scheduler promises: triggers move strictly forward, revisions and the identity of an
  occurrence are never rewritten, retries stay below the limit of the pinned revision, an exclusive
  overlap policy keeps one run at a time, and startup leaves nothing stale.
\<close>

section \<open>History: rows are only appended\<close>

text \<open>The columns of an occurrence that no operation writes after its insertion.\<close>

type_synonym pin = "string \<times> string \<times> string \<times> int \<times> int \<times> string option"

definition pin :: "occ_row \<Rightarrow> pin" where
  "pin x = (oc_id x, oc_schedule x, oc_revision x, oc_for x, oc_attempt x, oc_retry_of x)"

abbreviation pins :: "sched_db \<Rightarrow> pin list" where
  "pins db \<equiv> map pin (sd_occs db)"

text \<open>The attempts a revision allows.\<close>

definition attempt_limit :: "sched_lib \<Rightarrow> rev_row \<Rightarrow> int option" where
  "attempt_limit K rv =
     (let failure = failure_policy (rv_config rv) in
      if dget failure ''mode'' PNone = PStr ''bounded_retry''
      then int_of K (or_else (dget failure ''max_attempts'' PNone) (PInt 0)) else None)"

text \<open>A row is a first attempt, or the next attempt of an earlier row within its revision's limit.\<close>

definition well_pinned :: "sched_lib \<Rightarrow> sched_db \<Rightarrow> pin \<Rightarrow> bool" where
  "well_pinned K db p \<longleftrightarrow>
     (case p of (i, sid, rv, t, n, retry) \<Rightarrow>
        (case retry of
           None \<Rightarrow> n = 1
         | Some j \<Rightarrow>
             (\<exists>t' r'. (j, sid, rv, t', n - 1, r') \<in> set (pins db)) \<and>
             (\<exists>r m. find_rev db rv = Some r \<and> attempt_limit K r = Some m \<and> n \<le> m)))"

text \<open>Every schedule's revisions are numbered from 1 in the order of their creation.\<close>

definition numbered :: "sched_db \<Rightarrow> bool" where
  "numbered db \<longleftrightarrow>
     (\<forall>sid. revision_numbers db sid = [1..<Suc (length (revision_numbers db sid))])"

lemma numbered_same: "sd_revs db' = sd_revs db \<Longrightarrow> numbered db' = numbered db"
  by (simp only: numbered_def revision_numbers_def)

definition grows :: "sched_lib \<Rightarrow> sched_db \<Rightarrow> sched_db \<Rightarrow> bool" where
  "grows K db db' \<longleftrightarrow>
     sd_uuids db \<le> sd_uuids db' \<and> (numbered db \<longrightarrow> numbered db') \<and> (\<exists>rs. sd_revs db' = sd_revs db @ rs) \<and>
     (\<exists>zs ns. pins db' = pins db @ zs \<and> map fst zs = map (lib_uuid (sk_py K)) ns \<and> sorted_wrt (<) ns \<and>
        set ns \<subseteq> {sd_uuids db..<sd_uuids db'} \<and> (\<forall>z \<in> set zs. well_pinned K db' z))"

text \<open>The contract of the histories: a preorder, carried through sequences of operations.\<close>

locale history =
  fixes le :: "'s \<Rightarrow> 's \<Rightarrow> bool"
  assumes refl: "le s s"
    and step_trans: "le r s \<Longrightarrow> le s t \<Longrightarrow> le r t"
begin

lemma bind: "sbind x f = Inr t \<Longrightarrow> (\<And>s. x = Inr s \<Longrightarrow> le r s) \<Longrightarrow>
    (\<And>s. x = Inr s \<Longrightarrow> f s = Inr t \<Longrightarrow> le s t) \<Longrightarrow> le r t"
  by (auto intro: step_trans)

lemma fold: "(\<And>x s. x \<in> set xs \<Longrightarrow> le s (f x s)) \<Longrightarrow> le s (fold f xs s)"
  by (induction xs arbitrary: s) (auto intro: refl step_trans)

lemma steps: "R\<^sup>*\<^sup>* s t \<Longrightarrow> (\<And>a b. R a b \<Longrightarrow> le a b) \<Longrightarrow> le s t"
  by (induction rule: rtranclp_induct) (auto intro: refl step_trans)

end

lemma well_pinned_mono:
  assumes "well_pinned K db p" "set (pins db) \<subseteq> set (pins db')" "\<exists>rs. sd_revs db' = sd_revs db @ rs"
  shows "well_pinned K db' p"
proof (cases p)
  case (fields i sid rv t n retry)
  have "find_rev db rv = Some r \<Longrightarrow> find_rev db' rv = Some r" for r
    using assms(3) unfolding find_rev_def by (auto intro: find_append_Some)
  with assms(1,2) fields show ?thesis
    unfolding well_pinned_def by (cases retry) fastforce+
qed

lemma grows_same:
  "pins db' = pins db \<Longrightarrow> sd_revs db' = sd_revs db \<Longrightarrow> sd_uuids db \<le> sd_uuids db' \<Longrightarrow> grows K db db'"
  using numbered_same[of db' db] unfolding grows_def by simp

lemma grows_trans:
  assumes ab: "grows K a b" and bc: "grows K b c"
  shows "grows K a c"
proof -
  obtain rs zs ns where b: "sd_uuids a \<le> sd_uuids b" "sd_revs b = sd_revs a @ rs" "pins b = pins a @ zs"
    "map fst zs = map (lib_uuid (sk_py K)) ns" "sorted_wrt (<) ns" "set ns \<subseteq> {sd_uuids a..<sd_uuids b}"
    "\<forall>z \<in> set zs. well_pinned K b z"
    using ab unfolding grows_def by blast
  obtain rs' zs' ns' where c: "sd_uuids b \<le> sd_uuids c" "sd_revs c = sd_revs b @ rs'"
    "pins c = pins b @ zs'" "map fst zs' = map (lib_uuid (sk_py K)) ns'" "sorted_wrt (<) ns'"
    "set ns' \<subseteq> {sd_uuids b..<sd_uuids c}" "\<forall>z \<in> set zs'. well_pinned K c z"
    using bc unfolding grows_def by blast
  have "\<forall>z \<in> set zs. well_pinned K c z"
    using b(7) c(2,3) by (metis well_pinned_mono Un_upper1 set_append)
  moreover have "sorted_wrt (<) (ns @ ns')"
    using b(5,6) c(5,6) unfolding sorted_wrt_append by fastforce
  moreover have "set (ns @ ns') \<subseteq> {sd_uuids a..<sd_uuids c}"
    using b(1,6) c(1,6) by fastforce
  moreover have "pins c = pins a @ (zs @ zs')" "map fst (zs @ zs') = map (lib_uuid (sk_py K)) (ns @ ns')"
    using b c by simp_all
  moreover have "\<forall>z \<in> set (zs @ zs'). well_pinned K c z"
    using calculation(1) c(7) by auto
  ultimately show ?thesis
    unfolding grows_def
    by (intro conjI exI[of _ "rs @ rs'"] exI[of _ "zs @ zs'"] exI[of _ "ns @ ns'"])
      (use ab bc in \<open>simp_all add: b(1,2) c(1,2) le_trans[OF b(1) c(1)] grows_def\<close>)
qed

interpretation hist: history "grows K" for K
proof
  show "grows K db db" for db
    by (rule grows_same) simp_all
qed (rule grows_trans)



section \<open>Primitive operations\<close>

named_theorems grow

lemma pins_set_occ [simp]: "(\<And>x. pin (f x) = pin x) \<Longrightarrow> pins (set_occ i f db) = pins db"
  unfolding set_occ_def by simp

lemma grows_set_occ [grow, intro]: "(\<And>x. pin (f x) = pin x) \<Longrightarrow> grows K db (set_occ i f db)"
  by (rule grows_same) (simp_all add: set_occ_def)

lemma grows_set_sched [grow, intro]: "grows K db (set_sched i f db)"
  by (rule grows_same) (simp_all add: set_sched_def)

lemma grows_add_note [grow, intro]: "grows K db (add_note k e db)"
  by (rule grows_same) (simp_all add: add_note_def)

lemma grows_record:
  assumes "record_occurrence K sid rv t st n retry err db = (x, db')"
    "well_pinned K db (i, sid, rv, t, n, retry)"
  shows "grows K db db'"
proof -
  have x: "pin x = (new_id K db, sid, rv, t, n, retry)" and db': "pins db' = pins db @ [pin x]"
    "sd_revs db' = sd_revs db" "sd_uuids db' = Suc (sd_uuids db)"
    using assms(1) unfolding record_occurrence_def Let_def by (auto simp: pin_def)
  have "well_pinned K db (pin x)"
    using assms(2) unfolding x well_pinned_def by (cases retry) simp_all
  then have "well_pinned K db' (pin x)"
    by (rule well_pinned_mono) (auto simp: db')
  then show ?thesis
    using numbered_same[OF db'(2)]
    unfolding grows_def by (intro conjI exI[of _ "[pin x]"] exI[of _ "[sd_uuids db]"])
      (simp_all add: db' x new_id_def)
qed

lemma grows_record_first [grow, intro]:
  "grows K db (snd (record_occurrence K sid rv t st 1 None err db))"
  by (rule grows_record[where i = "[]", OF prod.collapse[symmetric]]) (simp add: well_pinned_def)

lemma Max_from_1: "Max (insert 0 {1..<Suc n}) = n"
  by (rule Max_eqI) auto

lemma revision_numbers_write:
  "revision_numbers (snd (write_revision K sid cfg summary db)) i =
     revision_numbers db i @ (if i = sid then [Max (set (0 # revision_numbers db sid)) + 1] else [])"
  by (simp add: write_revision_def Let_def set_sched_def revision_numbers_def)

lemma write_revision_numbered:
  assumes "numbered db"
  shows "numbered (snd (write_revision K sid cfg summary db))"
  unfolding numbered_def revision_numbers_write
proof
  fix i
  let ?n = "length (revision_numbers db i)"
  have n: "revision_numbers db i = [1..<Suc ?n]"
    using assms unfolding numbered_def by blast
  have "set (revision_numbers db i) = {1..<Suc ?n}"
    using arg_cong[OF n, of set] by (simp only: set_upt)
  then have "Max (set (0 # revision_numbers db i)) = ?n"
    by (simp only: list.set Max_from_1)
  then show "revision_numbers db i @ (if i = sid then [Max (set (0 # revision_numbers db sid)) + 1] else [])
      = [1..<Suc (length (revision_numbers db i @
          (if i = sid then [Max (set (0 # revision_numbers db sid)) + 1] else [])))]"
    using n by (cases "i = sid") simp_all
qed

lemma grows_write_revision [grow, intro]: "grows K db (snd (write_revision K sid cfg summary db))"
  using write_revision_numbered[of db K sid cfg summary] unfolding grows_def
  by (simp add: write_revision_def Let_def set_sched_def)

lemma pin_status [simp]:
  "pin (x\<lparr>oc_status := st\<rparr>) = pin x" "pin (x\<lparr>oc_started := u\<rparr>) = pin x"
  "pin (x\<lparr>oc_finished := u\<rparr>) = pin x" "pin (x\<lparr>oc_error := e\<rparr>) = pin x" "pin (x\<lparr>oc_run := r\<rparr>) = pin x"
  by (simp_all add: pin_def)

lemma grows_cancel [grow, intro]: "grows K db (cancel_occurrence i now db)"
  unfolding cancel_occurrence_def by (rule grows_set_occ) simp

lemma grows_start [grow, intro]: "grows K db (start_occurrence i now db)"
  unfolding start_occurrence_def by (rule grows_set_occ) simp

lemma grows_write_outcome [grow, intro]: "grows K db (write_outcome i out now db)"
  unfolding write_outcome_def by (rule grows_set_occ) simp

lemma grows_reconcile [grow, intro]: "grows K db (reconcile_stale now db)"
  by (rule grows_same) (simp_all add: reconcile_stale_def)

lemma grows_advance [grow]: "advance K trigger sid due db = Inr db' \<Longrightarrow> grows K db db'"
  unfolding advance_def by (auto intro: grows_set_sched)



section \<open>The operations extend the history\<close>

lemma grows_fire:
  assumes "fire_occurrence K sid rv due now db = Inr (occ, db')"
  shows "grows K db db'"
proof -
  obtain x d where r: "record_occurrence K sid (rv_id rv) due Running 1 None None db = (x, d)"
    by (cases "record_occurrence K sid (rv_id rv) due Running 1 None None db")
  have "grows K (set_occ (oc_id x) (\<lambda>x. x\<lparr>oc_started := Some now\<rparr>) d) db'"
    using assms unfolding fire_occurrence_def r
    by (auto dest!: grows_advance[where K = K] intro: hist.step_trans[OF grows_set_sched])
  moreover have "grows K d (set_occ (oc_id x) (\<lambda>x. x\<lparr>oc_started := Some now\<rparr>) d)"
    by (rule grows_set_occ) simp
  ultimately have "grows K d db'"
    using hist.step_trans by blast
  with grows_record_first[of K db sid "rv_id rv" due Running None] r show ?thesis
    by (metis hist.step_trans snd_conv)
qed

lemma grows_park: "park_occurrence K sid rv due st db = Inr (occ, db') \<Longrightarrow> grows K db db'"
  unfolding park_occurrence_def by (auto dest!: grows_advance[where K = K]
      intro: hist.step_trans[OF grows_record_first])

lemma grows_fire_due: "fire_due K s now db = Inr (occ, db') \<Longrightarrow> grows K db db'"
  unfolding fire_due_def Let_def
  by (auto split: option.splits if_splits intro: grows_fire grows_park grows_set_sched
      hist.step_trans[OF grows_cancel grows_fire])

lemma grows_fire_all: "fire_all K ss now db launched = Inr (ids, db') \<Longrightarrow> grows K db db'"
proof (induction ss arbitrary: db launched)
  case Nil
  then show ?case by (simp add: hist.refl)
next
  case (Cons s ss)
  then obtain occ d where "fire_due K s now db = Inr (occ, d)"
    and "fire_all K ss now d (launched @ (case occ of None \<Rightarrow> [] | Some i \<Rightarrow> [i])) = Inr (ids, db')"
    by auto
  with Cons.IH grows_fire_due show ?case by (metis hist.step_trans)
qed

lemma grows_drain: "drain xs now db launched = (ids, db') \<Longrightarrow> grows K db db'"
proof (induction xs arbitrary: db launched)
  case Nil
  then show ?case by (simp add: hist.refl)
next
  case (Cons x xs)
  then show ?case
    by (simp split: if_splits) (blast intro: hist.step_trans[OF grows_start])+
qed

lemma grows_tick: "tick K now db = Inr (ids, db') \<Longrightarrow> grows K db db'"
  unfolding tick_def
  by (auto split: prod.splits dest!: grows_drain[where K = K] grows_fire_all intro: hist.step_trans)

lemma maybe_retry_cases:
  assumes "maybe_retry K x cfg now db = Inr db'"
  obtains (none) "db' = db"
      "dget (failure_policy cfg) ''mode'' PNone = PStr ''bounded_retry'' \<longrightarrow>
         (\<exists>m. int_of K (or_else (dget (failure_policy cfg) ''max_attempts'' PNone) (PInt 0)) = Some m
            \<and> m \<le> oc_attempt x)"
    | (retry) m t where "dget (failure_policy cfg) ''mode'' PNone = PStr ''bounded_retry''"
      "int_of K (or_else (dget (failure_policy cfg) ''max_attempts'' PNone) (PInt 0)) = Some m"
      "oc_attempt x < m"
      "db' = snd (record_occurrence K (oc_schedule x) (oc_revision x) t Queued
                    (oc_attempt x + 1) (Some (oc_id x)) None db)"
  using assms unfolding maybe_retry_def Let_def by (auto split: if_splits option.splits)

lemma grows_retry:
  assumes "maybe_retry K x cfg now db = Inr db'"
    and x: "pin x \<in> set (pins db)" and rv: "find_rev db (oc_revision x) = Some rv" "cfg = rv_config rv"
  shows "grows K db db'"
  using assms(1)
proof (cases rule: maybe_retry_cases)
  case none
  then show ?thesis by (simp add: hist.refl)
next
  case (retry m t)
  have "well_pinned K db ([], oc_schedule x, oc_revision x, t, oc_attempt x + 1, Some (oc_id x))"
    using x retry rv unfolding well_pinned_def pin_def attempt_limit_def by force
  then show ?thesis
    unfolding retry(4) by (rule grows_record[OF prod.collapse[symmetric]])
qed

lemma find_rev_set [simp]: "find_rev (set_occ i f db) r = find_rev db r"
    "find_rev (set_sched j g db) r = find_rev db r"
  by (simp_all add: find_rev_def set_occ_def set_sched_def)

lemma find_map_id:
  "(\<And>x. k (f x) = k x) \<Longrightarrow> find (\<lambda>x. k x = i) (map f xs) = map_option f (find (\<lambda>x. k x = i) xs)"
  by (induction xs) simp_all

lemma find_occ_set_occ:
  assumes "\<And>x. oc_id (f x) = oc_id x"
  shows "find_occ (set_occ i f db) j = map_option (\<lambda>x. if oc_id x = i then f x else x) (find_occ db j)"
  unfolding find_occ_def set_occ_def by (simp add: assms find_map_id)

lemma find_occ_id: "find_occ db i = Some x \<Longrightarrow> oc_id x = i \<and> x \<in> set (sd_occs db)"
  unfolding find_occ_def by (auto simp: find_Some_iff)

lemma find_sched_id: "find_sched db i = Some s \<Longrightarrow> sc_id s = i \<and> s \<in> set (sd_scheds db)"
  unfolding find_sched_def by (auto simp: find_Some_iff)

definition written :: "run_outcome \<Rightarrow> int \<Rightarrow> occ_row \<Rightarrow> occ_row" where
  "written out now x = x\<lparr>oc_run := outcome_run out, oc_status := outcome_status out,
     oc_error := or_text (outcome_error out) (oc_error x), oc_finished := Some now\<rparr>"

lemma pin_written [simp]: "pin (written out now x) = pin x"
  by (simp add: written_def pin_def)

lemma write_outcome_alt: "write_outcome i out now db = set_occ i (written out now) db"
  by (simp add: write_outcome_def written_def[abs_def])

lemma find_occ_write_outcome:
  "find_occ db i = Some x \<Longrightarrow> find_occ (write_outcome i out now db) i = Some (written out now x)"
  using find_occ_id[of db i x]
  by (simp add: write_outcome_alt find_occ_set_occ[of "written out now"] written_def)

lemma grows_notify_failure [grow, intro]: "grows K db (notify_failure K sid now db)"
  unfolding notify_failure_def Let_def
  by (auto split: option.splits intro: hist.refl grows_add_note)

text \<open>What follows the write of an outcome, as one chain of operations.\<close>

lemma grows_finish:
  assumes "finish_occurrence K i sid cfg out is_test now db = Inr db'"
    and x: "find_occ db i = Some x" and rv: "find_rev db (oc_revision x) = Some rv" "cfg = rv_config rv"
  shows "grows K db db'"
proof -
  let ?w = "write_outcome i out now db"
  have w: "grows K db ?w" by (rule grows_write_outcome)
  have occ: "find_occ ?w i = Some (written out now x)"
    using x by (rule find_occ_write_outcome)
  have retry: "grows K d d'" if "maybe_retry K (written out now x) cfg now d = Inr d'"
    and "sd_occs d = sd_occs ?w" "sd_revs d = sd_revs ?w" for d d'
  proof (rule grows_retry[OF that(1)])
    show "pin (written out now x) \<in> set (pins d)"
      using find_occ_id[OF occ] that(2) by (metis imageI list.set_map)
    show "find_rev d (oc_revision (written out now x)) = Some rv"
      using rv(1) that(3) by (simp add: written_def find_rev_def write_outcome_def set_occ_def)
    show "cfg = rv_config rv" by fact
  qed
  show ?thesis
  proof (cases "find_sched ?w sid")
    case None
    then show ?thesis using assms(1) w by (simp add: finish_occurrence_def)
  next
    case (Some s)
    let ?d = "set_sched sid (\<lambda>s. s\<lparr>sc_last_status := Some (outcome_status out),
                sc_last_error := or_text (outcome_error out) (oc_error (written out now x))\<rparr>) ?w"
    have d: "grows K db ?d"
      using w grows_set_sched hist.step_trans by blast
    show ?thesis
    proof (cases "outcome_status out = Completed")
      case True
      let ?e = "set_sched sid (\<lambda>s. s\<lparr>sc_failures := 0\<rparr>) ?d"
      have e: "grows K db ?e"
        using d grows_set_sched hist.step_trans by blast
      have "db' = (if sc_managed s \<noteq> Some ''heartbeat'' \<and> \<not> is_test
                   then add_note ''schedule_completed'' (''schedule_completed:'' @ i) ?e else ?e)"
        using assms(1) Some occ True by (auto simp: finish_occurrence_def Let_def split: if_splits)
      then show ?thesis
        using e hist.step_trans[OF e grows_add_note] by metis
    next
      case False
      let ?e = "set_sched sid (\<lambda>s. s\<lparr>sc_failures := sc_failures s + 1\<rparr>) ?d"
      have e: "grows K db ?e"
        using d grows_set_sched hist.step_trans by blast
      obtain r where r: "maybe_retry K (written out now x) cfg now ?e = Inr r"
        and db': "db' = (if is_test then r else notify_failure K sid now r)"
        using assms(1) Some occ False by (auto simp: finish_occurrence_def Let_def)
      have "grows K db r"
        using retry[OF r] e by (auto simp: set_sched_def intro: hist.step_trans)
      then show ?thesis
        unfolding db' using hist.step_trans grows_notify_failure by (metis (full_types))
    qed
  qed
qed



lemma grows_record_missed: "grows K db (record_missed K sid rv missed ts db)"
  unfolding record_missed_def record_all_def
  by (auto intro: hist.refl hist.fold grows_record_first)

lemma sweep_schedule_cases:
  assumes "sweep_schedule K s now db = Inr db'" "current_revision db s = Some rv" "sc_next s = Some anchor"
  obtains (nothing) ts c where
      "missed_instants K (trigger_of (rv_config rv)) now CATCH_UP_MAX anchor = Inr (ts, c)"
      "ts = []" "db' = db"
    | (swept) ts c swept_db where
      "missed_instants K (trigger_of (rv_config rv)) now CATCH_UP_MAX anchor = Inr (ts, c)" "ts \<noteq> []"
      "swept_db = record_missed K (sc_id s) rv (dget (merged_policies (rv_config rv)) ''missed'' PNone)
         (if dget (trigger_of (rv_config rv)) ''kind'' PNone = PStr ''once'' then take 1 ts else ts) db"
      "(if c > now then Inr (set_sched (sc_id s) (\<lambda>s. s\<lparr>sc_next := Some c\<rparr>) swept_db)
        else advance K (trigger_of (rv_config rv)) (sc_id s) now swept_db) = Inr db'"
proof -
  obtain ts c where tc: "missed_instants K (trigger_of (rv_config rv)) now CATCH_UP_MAX anchor = Inr (ts, c)"
    using assms by (auto simp: sweep_schedule_def Let_def)
  show thesis
  proof (cases "ts = []")
    case True
    then have "db' = db"
      using assms tc by (simp add: sweep_schedule_def Let_def)
    with tc True show ?thesis by (rule nothing)
  next
    case False
    then show ?thesis
      using swept[OF tc False refl] assms tc by (simp add: sweep_schedule_def Let_def split: if_splits)
  qed
qed

lemma grows_sweep_schedule:
  assumes "sweep_schedule K s now db = Inr db'"
  shows "grows K db db'"
proof (cases "current_revision db s")
  case None
  then show ?thesis using assms by (simp add: sweep_schedule_def hist.refl)
next
  case (Some rv)
  show ?thesis
  proof (cases "sc_next s")
    case None
    then show ?thesis
      using assms Some by (auto simp: sweep_schedule_def Let_def intro: grows_advance)
  next
    case (Some anchor)
    from assms \<open>current_revision db s = Some rv\<close> Some show ?thesis
    proof (cases rule: sweep_schedule_cases)
      case nothing
      then show ?thesis by (simp add: hist.refl)
    next
      case (swept ts c swept_db)
      have "grows K db swept_db"
        unfolding swept(3) by (rule grows_record_missed)
      moreover have "grows K swept_db db'"
        using swept(4) by (auto split: if_splits intro: grows_advance grows_set_sched)
      ultimately show ?thesis by (rule hist.step_trans)
    qed
  qed
qed

lemma grows_sweep_all: "sweep_all K ss now db = Inr db' \<Longrightarrow> grows K db db'"
proof (induction ss arbitrary: db)
  case Nil
  then show ?case by (simp add: hist.refl)
next
  case (Cons s ss)
  then obtain d where "sweep_schedule K s now db = Inr d" "sweep_all K ss now d = Inr db'"
    by auto
  with Cons.IH grows_sweep_schedule show ?case by (metis hist.step_trans)
qed

lemma run_now_cases:
  assumes "run_now K sid now db = Inr (i, db')"
  obtains s rv x d where "find_sched db sid = Some s" "current_revision db s = Some rv"
    "record_occurrence K sid (rv_id rv) now Running 1 None None db = (x, d)" "i = oc_id x"
    "db' = set_occ i (\<lambda>x. x\<lparr>oc_started := Some now\<rparr>) d"
  using assms unfolding run_now_def by (auto split: option.splits if_splits prod.splits)

lemma grows_run_now:
  assumes "run_now K sid now db = Inr (i, db')"
  shows "grows K db db'"
  using assms
proof (cases rule: run_now_cases)
  case (1 s rv x d)
  have "grows K db d"
    using grows_record_first[of K db sid "rv_id rv" now Running None] by (simp add: 1)
  moreover have "grows K d db'"
    unfolding 1 by (rule grows_set_occ) simp
  ultimately show ?thesis by (rule hist.step_trans)
qed

lemma grows_new_heartbeat: "grows K db (snd (new_heartbeat K agent on db))"
  by (rule grows_same) (simp_all add: new_heartbeat_def Let_def)

lemma grows_project: "grows K db (snd (snd (project_heartbeat K agent hb db)))"
proof (cases "managed_heartbeat db agent")
  case None
  obtain s d where n: "new_heartbeat K agent (hb_enabled hb) db = (s, d)"
    by fastforce
  then have "grows K db d"
    using grows_new_heartbeat[of K db agent "hb_enabled hb"] by simp
  then show ?thesis
    using None n grows_write_revision hist.step_trans
    by (simp add: project_heartbeat_def Let_def)
next
  case (Some s)
  have on: "grows K d (set_sched i f (snd (write_revision K j cfg m d)))" for d i f j cfg m
    using grows_write_revision grows_set_sched by (rule hist.step_trans)
  show ?thesis
    using Some on grows_set_sched
    by (simp add: project_heartbeat_def Let_def split: option.split)
qed

lemma project_grows: "project_heartbeat K agent hb db = (sid, changed, db') \<Longrightarrow> grows K db db'"
  using grows_project[of K db agent hb] by simp

lemma grows_sync: "sync_heartbeat K agent now db = Inr db' \<Longrightarrow> grows K db db'"
  unfolding sync_heartbeat_def Let_def
  by (auto split: option.splits prod.splits if_splits dest!: grows_advance
      dest: project_grows[where K = K] intro: hist.step_trans[OF _ grows_set_sched] hist.step_trans)

lemma grows_fire_now: "fire_now K agent now db = Inr (i, db') \<Longrightarrow> grows K db db'"
  unfolding fire_now_def
  by (auto split: option.splits if_splits dest!: grows_sync grows_run_now intro: hist.step_trans)

lemma grows_migrate: "migrate_heartbeats K as now db = Inr db' \<Longrightarrow> grows K db db'"
proof (induction as arbitrary: db)
  case Nil
  then show ?case by (simp add: hist.refl)
next
  case (Cons a as)
  then show ?case
    by (auto split: if_splits dest!: grows_sync intro: hist.step_trans)
qed

lemma grows_start_scheduler: "grows K db (start_scheduler K enabled now db)"
proof -
  have roll: "grows K d (or_rollback step d)" if "\<And>d'. step d = Inr d' \<Longrightarrow> grows K d d'" for step d
    using that by (auto simp: or_rollback_def hist.refl split: sum.splits)
  show ?thesis
    unfolding start_scheduler_def
    by (rule hist.step_trans[OF hist.step_trans[OF roll grows_reconcile] roll])
       (auto simp: sweep_missed_def intro: grows_migrate grows_sweep_all)
qed

lemma grows_mark_failed: "grows K db (mark_occurrence_failed i err now db)"
  unfolding mark_occurrence_failed_def
  by (auto split: option.splits intro: hist.refl grows_set_occ)



section \<open>Histories of the scheduler\<close>

text \<open>
  The operations that commit, in any order.  A run finishes with the configuration of the revision its
  occurrence is pinned to, whatever has happened to the row since it was launched.
\<close>

datatype sched_action =
    Start "string list" int
  | Tick int
  | Finish string run_outcome bool int
  | PreambleFailed string string int
  | RunNow string int
  | FireNow string int
  | SyncHeartbeat string int
  | Edit string pydict
  | ClearAlert string

inductive sched_step :: "sched_lib \<Rightarrow> sched_action \<Rightarrow> sched_db \<Rightarrow> sched_db \<Rightarrow> bool" for K where
  start: "sched_step K (Start enabled now) db (start_scheduler K enabled now db)"
| tick: "tick K now db = Inr (ids, db') \<Longrightarrow> sched_step K (Tick now) db db'"
| finish: "find_occ db i = Some x \<Longrightarrow> find_rev db (oc_revision x) = Some rv \<Longrightarrow>
    finish_occurrence K i (oc_schedule x) (rv_config rv) out is_test now db = Inr db' \<Longrightarrow>
    sched_step K (Finish i out is_test now) db db'"
| preamble_failed: "sched_step K (PreambleFailed i err now) db (mark_occurrence_failed i err now db)"
| run_now: "run_now K sid now db = Inr (i, db') \<Longrightarrow> sched_step K (RunNow sid now) db db'"
| fire_now: "fire_now K agent now db = Inr (i, db') \<Longrightarrow> sched_step K (FireNow agent now) db db'"
| sync: "sync_heartbeat K agent now db = Inr db' \<Longrightarrow> sched_step K (SyncHeartbeat agent now) db db'"
| edit: "sched_step K (Edit sid cfg) db (snd (write_revision K sid cfg summary db))"
| clear: "sched_step K (ClearAlert agent) db (clear_alert agent db)"

inductive_cases sched_stepE: "sched_step K a db db'"

inductive sched_run :: "sched_lib \<Rightarrow> sched_action list \<Rightarrow> sched_db \<Rightarrow> sched_db \<Rightarrow> bool" for K where
  stop: "sched_run K [] db db"
| step: "sched_step K a db d \<Longrightarrow> sched_run K as d db' \<Longrightarrow> sched_run K (a # as) db db'"

inductive_cases sched_run_NilE: "sched_run K [] db db'"
inductive_cases sched_run_ConsE: "sched_run K (a # as) db db'"

lemma grows_step: "sched_step K a db db' \<Longrightarrow> grows K db db'"
proof (induction rule: sched_step.induct)
  case (clear agent db)
  then show ?case by (rule grows_same) (simp_all add: clear_alert_def)
qed (auto intro: grows_start_scheduler grows_tick grows_finish grows_mark_failed grows_run_now
    grows_fire_now grows_sync)

lemma grows_run: "sched_run K as db db' \<Longrightarrow> grows K db db'"
  by (induction rule: sched_run.induct) (auto intro: hist.refl hist.step_trans grows_step)

text \<open>Whatever the scheduler does, rows are only appended: the identity, schedule, pinned revision,
  instant, attempt number and parent of an occurrence never change, stored revisions never change, and
  the revisions of a schedule stay numbered 1, 2, 3 and so on.  An edit cannot touch active work.\<close>
theorem history_is_append_only:
  assumes "sched_run K as db db'"
  shows "(\<exists>new. map pin (sd_occs db') = map pin (sd_occs db) @ new) \<and>
         (\<exists>new. sd_revs db' = sd_revs db @ new) \<and> (numbered db \<longrightarrow> numbered db')"
  using grows_run[OF assms] unfolding grows_def by blast

text \<open>In every state reached from an empty occurrence table the identifiers are distinct, an occurrence
  that is no retry is attempt 1, and a retry is the next attempt of an occurrence of the same schedule
  and revision, at most the \<open>max_attempts\<close> of that pinned revision.\<close>
theorem retries_bounded:
  assumes run: "sched_run K as db db'" and new: "sd_occs db = []" and inj: "inj (lib_uuid (sk_py K))"
    and x: "x \<in> set (sd_occs db')"
  shows "distinct (map oc_id (sd_occs db')) \<and>
    (case oc_retry_of x of
       None \<Rightarrow> oc_attempt x = 1
     | Some j \<Rightarrow>
         (\<exists>y \<in> set (sd_occs db'). oc_id y = j \<and> oc_schedule y = oc_schedule x \<and>
            oc_revision y = oc_revision x \<and> oc_attempt x = oc_attempt y + 1) \<and>
         (\<exists>rv m. find_rev db' (oc_revision x) = Some rv \<and> attempt_limit K rv = Some m \<and> oc_attempt x \<le> m))"
proof -
  obtain ns where ids: "map fst (pins db') = map (lib_uuid (sk_py K)) ns" "sorted_wrt (<) ns"
    and ok: "\<forall>z \<in> set (pins db'). well_pinned K db' z"
    using grows_run[OF run] new unfolding grows_def by auto
  have "distinct ns"
    using ids(2) strict_sorted_iff by blast
  then have "distinct (map fst (pins db'))"
    unfolding ids(1) using inj by (simp add: distinct_map inj_on_subset[of _ UNIV])
  then have d: "distinct (map oc_id (sd_occs db'))"
    by (simp add: pin_def comp_def)
  have "well_pinned K db' (pin x)"
    using ok x by simp
  then have "case oc_retry_of x of None \<Rightarrow> oc_attempt x = 1
     | Some j \<Rightarrow> (\<exists>t r. (j, oc_schedule x, oc_revision x, t, oc_attempt x - 1, r) \<in> set (pins db')) \<and>
         (\<exists>rv m. find_rev db' (oc_revision x) = Some rv \<and> attempt_limit K rv = Some m \<and> oc_attempt x \<le> m)"
    unfolding well_pinned_def pin_def[of x] by (cases "oc_retry_of x") simp_all
  with d show ?thesis
    by (cases "oc_retry_of x") (fastforce simp: pin_def)+
qed



section \<open>Overlap: at most one run at a time\<close>

definition overlap_mode :: "rev_row \<Rightarrow> pyval" where
  "overlap_mode rv = dget (merged_policies (rv_config rv)) ''overlap'' PNone"

text \<open>The schedule's current revision, if any, has a policy that forbids parallel runs.\<close>

definition exclusive :: "sched_db \<Rightarrow> string \<Rightarrow> bool" where
  "exclusive db sid \<longleftrightarrow>
     (\<forall>s \<in> set (sd_scheds db). sc_id s = sid \<longrightarrow>
        (case current_revision db s of
           None \<Rightarrow> True
         | Some rv \<Rightarrow> overlap_mode rv \<in> {PStr ''skip'', PStr ''queue'', PStr ''cancel_previous''}))"

definition runs_for :: "string \<Rightarrow> occ_row \<Rightarrow> bool" where
  "runs_for sid x \<longleftrightarrow> oc_schedule x = sid \<and> oc_status x = Running"

definition single :: "sched_db \<Rightarrow> string \<Rightarrow> bool" where
  "single db sid \<longleftrightarrow>
     (\<forall>x \<in> set (sd_occs db). \<forall>y \<in> set (sd_occs db). runs_for sid x \<and> runs_for sid y \<longrightarrow> oc_id x = oc_id y)"

lemma singleI:
  "(\<And>x y. x \<in> set (sd_occs db) \<Longrightarrow> y \<in> set (sd_occs db) \<Longrightarrow> runs_for sid x \<Longrightarrow> runs_for sid y \<Longrightarrow>
     oc_id x = oc_id y) \<Longrightarrow> single db sid"
  unfolding single_def by blast

lemma singleD: "single db sid \<Longrightarrow> x \<in> set (sd_occs db) \<Longrightarrow> y \<in> set (sd_occs db) \<Longrightarrow>
    runs_for sid x \<Longrightarrow> runs_for sid y \<Longrightarrow> oc_id x = oc_id y"
  unfolding single_def by blast

text \<open>Every run of \<open>db'\<close> was one of \<open>db\<close>.\<close>

lemma single_less:
  assumes "single db sid"
    and "\<And>x'. x' \<in> set (sd_occs db') \<Longrightarrow> runs_for sid x' \<Longrightarrow>
      \<exists>x \<in> set (sd_occs db). runs_for sid x \<and> oc_id x = oc_id x'"
  shows "single db' sid"
proof (rule singleI)
  fix x y
  assume "x \<in> set (sd_occs db')" "y \<in> set (sd_occs db')" "runs_for sid x" "runs_for sid y"
  then obtain x' y' where "x' \<in> set (sd_occs db)" "runs_for sid x'" "oc_id x' = oc_id x"
    "y' \<in> set (sd_occs db)" "runs_for sid y'" "oc_id y' = oc_id y"
    using assms(2) by blast
  then show "oc_id x = oc_id y"
    using singleD[OF assms(1), of x' y'] by simp
qed

lemma running_occurrence_None:
  "running_occurrence db sid = None \<longleftrightarrow> (\<forall>x \<in> set (sd_occs db). \<not> runs_for sid x)"
  by (auto simp: running_occurrence_def find_None_iff runs_for_def)

lemma set_occ_mem: "y \<in> set (sd_occs (set_occ i f db)) \<longleftrightarrow>
    (\<exists>x \<in> set (sd_occs db). y = (if oc_id x = i then f x else x))"
  by (simp add: set_occ_def image_iff del: if_image_distrib)

lemma single_set_sched [simp]: "single (set_sched i f db) sid = single db sid"
  by (simp add: single_def set_sched_def)

lemma single_set_occ:
  assumes "single db sid" "\<And>x. oc_id (f x) = oc_id x" "\<And>x. runs_for sid (f x) \<Longrightarrow> runs_for sid x"
  shows "single (set_occ i f db) sid"
proof (rule single_less[OF assms(1)])
  fix y
  assume "y \<in> set (sd_occs (set_occ i f db))" "runs_for sid y"
  then obtain x where "x \<in> set (sd_occs db)" "y = (if oc_id x = i then f x else x)"
    unfolding set_occ_mem by blast
  with \<open>runs_for sid y\<close> show "\<exists>x \<in> set (sd_occs db). runs_for sid x \<and> oc_id x = oc_id y"
    using assms(2,3) by (cases "oc_id x = i") auto
qed

lemma record_occs:
  "sd_occs (snd (record_occurrence K sid rv t st n retry err db)) =
     sd_occs db @ [fst (record_occurrence K sid rv t st n retry err db)]"
  "oc_schedule (fst (record_occurrence K sid rv t st n retry err db)) = sid"
  "oc_status (fst (record_occurrence K sid rv t st n retry err db)) = st"
  by (simp_all add: record_occurrence_def Let_def)

lemma single_record:
  assumes "single db sid"
    and "st = Running \<Longrightarrow> j = sid \<Longrightarrow> \<forall>x \<in> set (sd_occs db). \<not> runs_for sid x"
  shows "single (snd (record_occurrence K j rv t st n retry err db)) sid"
  using assms by (intro singleI) (auto simp: record_occs runs_for_def dest: singleD)

lemma single_record_other [simp]:
  "single db sid \<Longrightarrow> st \<noteq> Running \<Longrightarrow>
     single (snd (record_occurrence K j rv t st n retry err db)) sid"
  by (rule single_record) simp_all

lemma single_start:
  assumes "\<forall>y \<in> set (sd_occs db). \<not> runs_for (oc_schedule x) y" "single db sid"
    and "pin x \<in> set (pins db)" "distinct (map oc_id (sd_occs db))"
  shows "single (start_occurrence (oc_id x) now db) sid"
proof (cases "sid = oc_schedule x")
  case True
  have "oc_id y' = oc_id x" if "y' \<in> set (sd_occs (start_occurrence (oc_id x) now db))"
    "runs_for sid y'" for y'
    using that assms(1) True unfolding start_occurrence_def set_occ_mem by (auto split: if_splits)
  then show ?thesis by (intro singleI) simp
next
  case False
  have "\<exists>y \<in> set (sd_occs db). runs_for sid y \<and> oc_id y = oc_id y'"
    if "y' \<in> set (sd_occs (start_occurrence (oc_id x) now db))" "runs_for sid y'" for y'
  proof -
    have "\<exists>y \<in> set (sd_occs db).
        y' = (if oc_id y = oc_id x then y\<lparr>oc_status := Running, oc_started := Some now\<rparr> else y)"
      using that(1) unfolding start_occurrence_def set_occ_mem by simp
    then obtain y where y: "y \<in> set (sd_occs db)"
      "y' = (if oc_id y = oc_id x then y\<lparr>oc_status := Running, oc_started := Some now\<rparr> else y)" ..
    have "oc_id y \<noteq> oc_id x"
    proof
      assume "oc_id y = oc_id x"
      with y(1) assms(3,4) have "pin y = pin x" by (auto simp: distinct_map inj_on_def pin_def)
      then have "oc_schedule y = oc_schedule x" by (simp add: pin_def)
      with y(2) that(2) False show False by (simp add: runs_for_def split: if_splits)
    qed
    with y that(2) show ?thesis by auto
  qed
  with assms(2) show ?thesis by (rule single_less)
qed



text \<open>The running row comes first among the open ones, so \<open>cancel_previous\<close> cancels it.\<close>

lemma sorted_last: "sorted (map k xs) \<Longrightarrow> x \<in> set xs \<Longrightarrow> k x \<le> (k (last xs) :: 'b :: linorder)"
  by (induction xs) auto

lemma last_sorted_max:
  assumes "x \<in> set xs" "\<forall>y \<in> set xs. k y \<le> k x"
  shows "xs \<noteq> [] \<and> k (last (sort_key k xs)) = (k x :: 'b :: linorder)"
proof -
  have ne: "xs \<noteq> []" using assms(1) by auto
  then have ne': "sort_key k xs \<noteq> []" by (metis length_sort length_0_conv)
  have "k x \<le> k (last (sort_key k xs))"
    by (rule sorted_last) (simp_all add: assms(1))
  moreover have "last (sort_key k xs) \<in> set xs"
    using ne' by (metis last_in_set set_sort)
  ultimately show ?thesis using ne assms(2) by (metis order_antisym)
qed

lemma first_row_mem: "first_row xs = Some x \<Longrightarrow> x \<in> set xs"
  by (auto simp: first_row_def split: list.splits)

lemma open_occurrence_mem:
  "open_occurrence db sid = Some x \<Longrightarrow> x \<in> set (sd_occs db) \<and> oc_schedule x = sid \<and> oc_status x \<in> {Queued, Running}"
  unfolding open_occurrence_def by (drule first_row_mem) (simp add: open_rows_def)

lemma open_occurrence_running:
  assumes "x \<in> set (sd_occs db)" "runs_for sid x"
  obtains y where "open_occurrence db sid = Some y" "y \<in> set (sd_occs db)" "runs_for sid y"
proof -
  have x: "x \<in> set (open_rows db sid)"
    using assms by (simp add: open_rows_def runs_for_def)
  have "\<forall>y \<in> set (open_rows db sid). oc_status y \<le> oc_status x"
    using assms(2) less_imp_le[OF queued_less_running] by (auto simp: open_rows_def runs_for_def)
  then have m: "open_rows db sid \<noteq> []"
      "oc_status (last (sort_key oc_status (rev (open_rows db sid)))) = Running"
    using last_sorted_max[of x "rev (open_rows db sid)" oc_status] x assms(2)
    by (auto simp: runs_for_def)
  let ?y = "last (sort_key oc_status (rev (open_rows db sid)))"
  have ne: "sort_key oc_status (rev (open_rows db sid)) \<noteq> []"
    using m(1) by (metis length_0_conv length_sort rev_is_Nil_conv)
  then have "open_occurrence db sid = Some ?y"
    unfolding open_occurrence_def first_row_def by (metis hd_rev list.case_eq_if rev_is_Nil_conv)
  moreover from open_occurrence_mem[OF this] m(2)
  have "?y \<in> set (sd_occs db)" "runs_for sid ?y" by (simp_all add: runs_for_def)
  ultimately show thesis by (rule that)
qed



lemma pins_ids: "pins db' = pins db \<Longrightarrow> map oc_id (sd_occs db') = map oc_id (sd_occs db)"
  by (drule arg_cong[where f = "map fst"]) (simp add: pin_def comp_def)

lemma pins_start [simp]: "pins (start_occurrence i now db) = pins db"
  unfolding start_occurrence_def by (rule pins_set_occ) simp

lemma single_drain:
  assumes "drain xs now db launched = (ids, db')" "single db sid" "set (map pin xs) \<subseteq> set (pins db)"
    and "distinct (map oc_id (sd_occs db))"
  shows "single db' sid"
  using assms
proof (induction xs arbitrary: db launched)
  case Nil
  then show ?case by simp
next
  case (Cons x xs)
  show ?case
  proof (cases "running_occurrence db (oc_schedule x) = None")
    case False
    with Cons show ?thesis by (auto split: if_splits)
  next
    case True
    let ?d = "start_occurrence (oc_id x) now db"
    have "single ?d sid"
      using True Cons.prems by (intro single_start) (simp_all add: running_occurrence_None)
    moreover have "distinct (map oc_id (sd_occs ?d))"
      using Cons.prems(4) pins_ids[OF pins_start[of "oc_id x" now db]] by simp
    ultimately show ?thesis
      using Cons.IH[of ?d "launched @ [oc_id x]"] Cons.prems(1,3) True by simp
  qed
qed

lemma single_advance: "advance K trigger j due db = Inr db' \<Longrightarrow> single db' sid = single db sid"
  by (auto simp: advance_def)

lemma single_fire:
  assumes "fire_occurrence K j rv due now db = Inr (occ, db')" "single db sid"
    and "j = sid \<Longrightarrow> \<forall>x \<in> set (sd_occs db). \<not> runs_for sid x"
  shows "single db' sid"
proof -
  obtain x d where r: "record_occurrence K j (rv_id rv) due Running 1 None None db = (x, d)"
    by fastforce
  have "single d sid"
    using single_record[OF assms(2), of Running j K "rv_id rv" due 1 None None] assms(3) r by simp
  then have "single (set_occ (oc_id x) (\<lambda>x. x\<lparr>oc_started := Some now\<rparr>) d) sid"
    by (rule single_set_occ) (simp_all add: runs_for_def)
  moreover have "advance K (trigger_of (rv_config rv)) j due (set_sched j (\<lambda>s. s\<lparr>sc_last_fired := Some now\<rparr>)
      (set_occ (oc_id x) (\<lambda>x. x\<lparr>oc_started := Some now\<rparr>) d)) = Inr db'"
    using assms(1) by (auto simp: fire_occurrence_def r)
  ultimately show ?thesis
    by (simp add: single_advance)
qed

lemma single_park:
  "park_occurrence K j rv due st db = Inr (occ, db') \<Longrightarrow> single db sid \<Longrightarrow> st \<noteq> Running \<Longrightarrow> single db' sid"
  by (auto simp: park_occurrence_def dest: single_advance intro: single_record)

lemma single_cancel: "single db sid \<Longrightarrow> single (cancel_occurrence i now db) sid"
  unfolding cancel_occurrence_def by (rule single_set_occ) (simp_all add: runs_for_def)

text \<open>Cancelling the open occurrence of a schedule with one run leaves none.\<close>

lemma cancel_open_none:
  assumes "open_occurrence db sid = Some prev" "single db sid"
  shows "\<forall>x \<in> set (sd_occs (cancel_occurrence (oc_id prev) now db)). \<not> runs_for sid x"
proof
  fix x'
  assume "x' \<in> set (sd_occs (cancel_occurrence (oc_id prev) now db))"
  then obtain x f where x: "x \<in> set (sd_occs db)" "x' = (if oc_id x = oc_id prev then f x else x)"
    "oc_status (f x) = Cancelled"
    unfolding cancel_occurrence_def set_occ_mem by fastforce
  show "\<not> runs_for sid x'"
  proof
    assume r: "runs_for sid x'"
    with x have ne: "oc_id x \<noteq> oc_id prev" "runs_for sid x"
      by (auto simp: runs_for_def split: if_splits)
    then show False
      using open_occurrence_running[OF x(1) ne(2)] assms x(1) singleD by (metis option.inject)
  qed
qed

lemma single_fire_due:
  assumes "fire_due K s now db = Inr (occ, db')" "single db sid"
    and "sc_id s = sid \<Longrightarrow> (case current_revision db s of None \<Rightarrow> True
           | Some rv \<Rightarrow> overlap_mode rv \<in> {PStr ''skip'', PStr ''queue'', PStr ''cancel_previous''})"
  shows "single db' sid"
proof (cases "current_revision db s")
  case None
  then show ?thesis using assms(1,2) by (auto simp: fire_due_def)
next
  case (Some rv)
  show ?thesis
  proof (cases "open_occurrence db (sc_id s)")
    case None
    then have "\<forall>x \<in> set (sd_occs db). \<not> runs_for (sc_id s) x"
      by (metis open_occurrence_running option.distinct(1))
    then show ?thesis
      using assms(1,2) Some None by (auto simp: fire_due_def Let_def intro: single_fire)
  next
    case (Some prev)
    let ?m = "overlap_mode rv"
    have fd: "fire_due K s now db =
      (if ?m = PStr ''skip'' then park_occurrence K (sc_id s) rv (the (sc_next s)) SkippedOverlap db
       else if ?m = PStr ''queue'' then park_occurrence K (sc_id s) rv (the (sc_next s)) Queued db
       else if ?m = PStr ''cancel_previous''
       then fire_occurrence K (sc_id s) rv (the (sc_next s)) now (cancel_occurrence (oc_id prev) now db)
       else fire_occurrence K (sc_id s) rv (the (sc_next s)) now db)"
      using \<open>current_revision db s = Some rv\<close> Some by (simp add: fire_due_def overlap_mode_def)
    have m: "sc_id s = sid \<Longrightarrow> ?m \<in> {PStr ''skip'', PStr ''queue'', PStr ''cancel_previous''}"
      using assms(3) \<open>current_revision db s = Some rv\<close> by simp
    consider "?m \<in> {PStr ''skip'', PStr ''queue''}" | "?m = PStr ''cancel_previous''"
      | "?m \<notin> {PStr ''skip'', PStr ''queue'', PStr ''cancel_previous''}" by blast
    then show ?thesis
    proof cases
      case 1
      then show ?thesis
        using assms(1,2) unfolding fd by (auto split: if_splits intro: single_park)
    next
      case 2
      with assms(1) have f: "fire_occurrence K (sc_id s) rv (the (sc_next s)) now
          (cancel_occurrence (oc_id prev) now db) = Inr (occ, db')"
        unfolding fd by simp
      show ?thesis
        by (rule single_fire[OF f single_cancel[OF assms(2)]])
          (rule cancel_open_none[OF _ assms(2)], use Some in simp)
    next
      case 3
      with m have "sc_id s \<noteq> sid" by blast
      with 3 show ?thesis
        using assms(1,2) unfolding fd by (auto intro: single_fire)
    qed
  qed
qed



lemma set_sched_fields [simp]:
  "sd_occs (set_sched i f db) = sd_occs db" "sd_revs (set_sched i f db) = sd_revs db"
  "sd_revs (set_occ i g db) = sd_revs db" "sd_scheds (set_occ i g db) = sd_scheds db"
  by (simp_all add: set_sched_def set_occ_def)

lemma record_fields [simp]:
  "sd_revs (snd (record_occurrence K sid rv t st n retry err db)) = sd_revs db"
  "sd_scheds (snd (record_occurrence K sid rv t st n retry err db)) = sd_scheds db"
  by (simp_all add: record_occurrence_def Let_def)

lemma advance_fields: "advance K trigger sid due db = Inr db' \<Longrightarrow>
    sd_occs db' = sd_occs db \<and> sd_revs db' = sd_revs db"
  by (auto simp: advance_def)

lemma fire_occurrence_revs:
  assumes "fire_occurrence K sid rv due now db = Inr (occ, db')"
  shows "sd_revs db' = sd_revs db"
proof -
  obtain x d where r: "record_occurrence K sid (rv_id rv) due Running 1 None None db = (x, d)"
    by fastforce
  then have "sd_revs d = sd_revs db"
    by (metis record_fields(1) snd_conv)
  then show ?thesis
    using assms by (auto simp: fire_occurrence_def r dest!: advance_fields)
qed

lemma park_occurrence_revs: "park_occurrence K sid rv due st db = Inr (occ, db') \<Longrightarrow> sd_revs db' = sd_revs db"
  by (auto simp: park_occurrence_def dest: advance_fields)

lemma fire_due_revs: "fire_due K s now db = Inr (occ, db') \<Longrightarrow> sd_revs db' = sd_revs db"
  unfolding fire_due_def Let_def
  by (auto split: option.splits if_splits dest!: fire_occurrence_revs park_occurrence_revs
      simp: cancel_occurrence_def)

lemma current_revision_cong: "sd_revs db' = sd_revs db \<Longrightarrow> current_revision db' s = current_revision db s"
  by (simp add: current_revision_def find_rev_def split: option.split)

lemma drain_fields: "drain xs now db launched = (ids, db') \<Longrightarrow>
    sd_revs db' = sd_revs db \<and> sd_scheds db' = sd_scheds db"
  by (induction xs arbitrary: db launched) (auto simp: start_occurrence_def split: if_splits)

definition exclusive_row :: "sched_db \<Rightarrow> sched_row \<Rightarrow> bool" where
  "exclusive_row db s \<longleftrightarrow>
     (case current_revision db s of
        None \<Rightarrow> True
      | Some rv \<Rightarrow> overlap_mode rv \<in> {PStr ''skip'', PStr ''queue'', PStr ''cancel_previous''})"

lemma exclusive_alt:
  "exclusive db sid \<longleftrightarrow> (\<forall>s \<in> set (sd_scheds db). sc_id s = sid \<longrightarrow> exclusive_row db s)"
  unfolding exclusive_def exclusive_row_def ..

lemma single_fire_all:
  assumes "fire_all K ss now db launched = Inr (ids, db')" "single db sid"
    and "\<forall>s \<in> set ss. sc_id s = sid \<longrightarrow> exclusive_row db s"
  shows "single db' sid"
  using assms
proof (induction ss arbitrary: db launched)
  case Nil
  then show ?case by simp
next
  case (Cons s ss)
  obtain occ d where f: "fire_due K s now db = Inr (occ, d)"
    and rest: "fire_all K ss now d (launched @ (case occ of None \<Rightarrow> [] | Some i \<Rightarrow> [i])) = Inr (ids, db')"
    using Cons.prems(1) by auto
  have "single d sid"
    using f Cons.prems(2,3) by (rule_tac single_fire_due) (auto simp: exclusive_row_def)
  moreover have "\<forall>s \<in> set ss. sc_id s = sid \<longrightarrow> exclusive_row d s"
    using Cons.prems(3) current_revision_cong[OF fire_due_revs[OF f]] by (simp add: exclusive_row_def)
  ultimately show ?case
    using Cons.IH[OF rest] by blast
qed

lemma single_tick:
  assumes "tick K now db = Inr (ids, db')" "single db sid" "exclusive db sid"
    and "distinct (map oc_id (sd_occs db))"
  shows "single db' sid"
proof -
  obtain launched d where d: "drain (due_queued db now) now db [] = (launched, d)"
    and f: "fire_all K (due_schedules d now) now d launched = Inr (ids, db')"
    using assms(1) by (auto simp: tick_def split: prod.splits)
  have "single d sid"
    using d assms(2,4) by (rule_tac single_drain) (auto simp: due_queued_def)
  moreover have "\<forall>s \<in> set (due_schedules d now). sc_id s = sid \<longrightarrow> exclusive_row d s"
    using assms(3) drain_fields[OF d] current_revision_cong[of d db]
    by (auto simp: due_schedules_def exclusive_alt exclusive_row_def)
  ultimately show ?thesis
    using f single_fire_all by blast
qed

lemma single_cong: "sd_occs db' = sd_occs db \<Longrightarrow> single db' sid = single db sid"
  by (simp only: single_def)

lemma outcome_not_running [simp]: "outcome_status out \<noteq> Running"
  by (cases out) simp_all

lemma single_write_outcome: "single db sid \<Longrightarrow> single (write_outcome i out now db) sid"
  unfolding write_outcome_def by (rule single_set_occ) (simp_all add: runs_for_def)

lemma single_retry:
  assumes "maybe_retry K x cfg now db = Inr db'" "single db sid"
  shows "single db' sid"
  using assms(1)
proof (cases rule: maybe_retry_cases)
  case none
  then show ?thesis using assms(2) by simp
next
  case (retry m t)
  show ?thesis unfolding retry(4) by (rule single_record[OF assms(2)]) simp
qed

lemma notify_occs [simp]: "sd_occs (add_note k e db) = sd_occs db"
    "sd_occs (notify_failure K sid now db) = sd_occs db"
  by (simp_all add: add_note_def notify_failure_def Let_def split: option.split)



lemma finish_shape:
  assumes "finish_occurrence K i j cfg out is_test now db = Inr db'"
  shows "sd_occs db' = sd_occs (write_outcome i out now db) \<or>
    (\<exists>d x r. sd_occs d = sd_occs (write_outcome i out now db) \<and> maybe_retry K x cfg now d = Inr r \<and>
       sd_occs db' = sd_occs r)"
proof (cases "find_sched (write_outcome i out now db) j")
  case None
  then show ?thesis using assms by (simp add: finish_occurrence_def)
next
  case (Some s)
  show ?thesis
  proof (cases "outcome_status out = Completed")
    case True
    with Some assms show ?thesis
      by (auto simp: finish_occurrence_def Let_def split: if_splits)
  next
    case False
    show ?thesis
    proof (cases "find_occ (write_outcome i out now db) i")
      case None
      with Some False assms show ?thesis
        by (auto simp: finish_occurrence_def Let_def split: if_splits)
    next
      case (Some x)
      let ?d = "set_sched j (\<lambda>s. s\<lparr>sc_failures := sc_failures s + 1\<rparr>) (set_sched j
          (\<lambda>s. s\<lparr>sc_last_status := Some (outcome_status out),
                 sc_last_error := or_text (outcome_error out) (oc_error x)\<rparr>) (write_outcome i out now db))"
      obtain r where "maybe_retry K x cfg now ?d = Inr r" "sd_occs db' = sd_occs r"
        using Some False assms \<open>find_sched (write_outcome i out now db) j = Some s\<close>
        by (auto simp: finish_occurrence_def Let_def split: if_splits)
      moreover have "sd_occs ?d = sd_occs (write_outcome i out now db)" by simp
      ultimately show ?thesis by blast
    qed
  qed
qed

lemma single_finish:
  assumes "finish_occurrence K i j cfg out is_test now db = Inr db'" "single db sid"
  shows "single db' sid"
  using finish_shape[OF assms(1)]
proof (elim disjE exE conjE)
  assume "sd_occs db' = sd_occs (write_outcome i out now db)"
  then show ?thesis
    using single_write_outcome[OF assms(2)] single_cong by blast
next
  fix d x r
  assume d: "sd_occs d = sd_occs (write_outcome i out now db)" "maybe_retry K x cfg now d = Inr r"
    "sd_occs db' = sd_occs r"
  have "single d sid"
    using single_write_outcome[OF assms(2)] single_cong[OF d(1)] by blast
  with d(2) have "single r sid" by (rule single_retry)
  with single_cong[OF d(3)] show ?thesis by blast
qed

lemma write_revision_occs [simp]: "sd_occs (snd (write_revision K sid cfg summary db)) = sd_occs db"
  by (simp add: write_revision_def Let_def)

lemma project_occs: "project_heartbeat K agent hb db = (sid, changed, db') \<Longrightarrow> sd_occs db' = sd_occs db"
  unfolding project_heartbeat_def new_heartbeat_def Let_def by (auto split: option.splits if_splits)

lemma sync_occs: "sync_heartbeat K agent now db = Inr db' \<Longrightarrow> sd_occs db' = sd_occs db"
  unfolding sync_heartbeat_def Let_def
  by (auto split: option.splits prod.splits if_splits dest!: project_occs advance_fields)

lemma single_record_missed: "single db sid \<Longrightarrow> single (record_missed K j rv missed ts db) sid"
proof -
  have "single (record_all K j rv ts d) sid" if "single d sid" for d
    using that unfolding record_all_def by (induction ts arbitrary: d) (simp_all add: single_record)
  then show "single db sid \<Longrightarrow> single (record_missed K j rv missed ts db) sid"
    by (simp add: record_missed_def single_record)
qed

lemma single_sweep_schedule:
  assumes "sweep_schedule K s now db = Inr db'" "single db sid"
  shows "single db' sid"
proof (cases "current_revision db s")
  case None
  then show ?thesis using assms by (simp add: sweep_schedule_def)
next
  case (Some rv)
  show ?thesis
  proof (cases "sc_next s")
    case None
    with assms(1) Some have "advance K (trigger_of (rv_config rv)) (sc_id s) now db = Inr db'"
      by (simp add: sweep_schedule_def)
    then show ?thesis
      using assms(2) single_advance by blast
  next
    case (Some anchor)
    from assms(1) \<open>current_revision db s = Some rv\<close> Some show ?thesis
    proof (cases rule: sweep_schedule_cases)
      case nothing
      then show ?thesis using assms(2) by simp
    next
      case (swept ts c d)
      then have "single d sid"
        using assms(2) single_record_missed by blast
      moreover have "sd_occs db' = sd_occs d"
        using swept(4) by (auto split: if_splits dest: advance_fields)
      ultimately show ?thesis using single_cong by blast
    qed
  qed
qed

lemma single_sweep_all: "sweep_all K ss now db = Inr db' \<Longrightarrow> single db sid \<Longrightarrow> single db' sid"
  by (induction ss arbitrary: db) (auto intro: single_sweep_schedule)

lemma single_reconcile: "single (reconcile_stale now db) sid"
  by (rule singleI) (auto simp: reconcile_stale_def runs_for_def)

lemma single_start_scheduler: "single (start_scheduler K enabled now db) sid"
  using single_reconcile single_sweep_all
  by (auto simp: start_scheduler_def or_rollback_def sweep_missed_def split: sum.splits)

lemma single_run_now:
  assumes "run_now K j now db = Inr (i, db')" "j \<noteq> sid" "single db sid"
  shows "single db' sid"
  using assms(1)
proof (cases rule: run_now_cases)
  case (1 s rv x d)
  then have "single d sid"
    using single_record[OF assms(3), of Running j K "rv_id rv" now 1 None None] assms(2) by simp
  then show ?thesis
    unfolding 1 by (rule single_set_occ) (simp_all add: runs_for_def)
qed



text \<open>Running a schedule by hand does not consult its overlap policy.\<close>

fun by_hand :: "string \<Rightarrow> sched_action \<Rightarrow> bool" where
  "by_hand sid (RunNow j now) = (j = sid)"
| "by_hand sid (FireNow agent now) = True"
| "by_hand sid _ = False"

lemma single_step:
  assumes "sched_step K a db db'" "single db sid" "exclusive db sid" "\<not> by_hand sid a"
    and "distinct (map oc_id (sd_occs db))"
  shows "single db' sid"
  using assms
proof (cases rule: sched_step.cases)
  case (start enabled now)
  then show ?thesis by (simp add: single_start_scheduler)
next
  case (tick now ids)
  then show ?thesis using assms single_tick by blast
next
  case (finish i x rv out is_test now)
  then show ?thesis using assms(2) single_finish by blast
next
  case (preamble_failed i err now)
  show ?thesis
    unfolding preamble_failed mark_occurrence_failed_def using assms(2)
    by (auto split: option.split intro!: single_set_occ simp: runs_for_def)
next
  case (run_now j now i)
  then show ?thesis using assms(2,4) single_run_now by fastforce
next
  case (fire_now agent now i)
  then show ?thesis using assms(4) by simp
next
  case (sync agent now)
  then show ?thesis using assms(2) single_cong sync_occs by blast
next
  case (edit j cfg summary)
  show ?thesis unfolding edit using assms(2) single_cong write_revision_occs by blast
next
  case (clear agent)
  have "sd_occs db' = sd_occs db" unfolding clear by (simp add: clear_alert_def)
  then show ?thesis using assms(2) single_cong by blast
qed

definition distinct_ids :: "sched_lib \<Rightarrow> sched_db \<Rightarrow> bool" where
  "distinct_ids K db \<longleftrightarrow> distinct (map oc_id (sd_occs db)) \<and>
     (\<forall>x \<in> set (sd_occs db). oc_id x \<in> lib_uuid (sk_py K) ` {..<sd_uuids db})"

lemma distinct_ids_grows:
  assumes "grows K db db'" "distinct_ids K db" "inj (lib_uuid (sk_py K))"
  shows "distinct_ids K db'"
proof -
  obtain zs ns where g: "sd_uuids db \<le> sd_uuids db'" "pins db' = pins db @ zs"
    "map fst zs = map (lib_uuid (sk_py K)) ns" "sorted_wrt (<) ns" "set ns \<subseteq> {sd_uuids db..<sd_uuids db'}"
    using assms(1) unfolding grows_def by blast
  have ids: "map oc_id (sd_occs db') = map oc_id (sd_occs db) @ map (lib_uuid (sk_py K)) ns"
    using arg_cong[OF g(2), of "map fst"] g(3) by (simp add: pin_def comp_def)
  have "distinct ns" using g(4) strict_sorted_iff by blast
  then have "distinct (map (lib_uuid (sk_py K)) ns)"
    using assms(3) by (simp add: distinct_map inj_on_subset[of _ UNIV])
  moreover have "set (map oc_id (sd_occs db)) \<inter> set (map (lib_uuid (sk_py K)) ns) = {}"
    using assms(2,3) g(5) unfolding distinct_ids_def by (fastforce dest: injD)
  ultimately have "distinct (map oc_id (sd_occs db'))"
    unfolding ids using assms(2) by (simp add: distinct_ids_def)
  moreover have "oc_id x \<in> lib_uuid (sk_py K) ` {..<sd_uuids db'}" if "x \<in> set (sd_occs db')" for x
  proof -
    have "oc_id x \<in> set (map oc_id (sd_occs db) @ map (lib_uuid (sk_py K)) ns)"
      using that unfolding ids[symmetric] by simp
    then show ?thesis
      using assms(2) g(1,5) unfolding distinct_ids_def by fastforce
  qed
  ultimately show ?thesis by (simp add: distinct_ids_def)
qed

lemma single_run_induct:
  assumes "sched_run K as db db'" "inj (lib_uuid (sk_py K))"
    and "distinct_ids K db" "single db sid" "\<forall>a \<in> set as. \<not> by_hand sid a"
    and "\<And>bs cs d. as = bs @ cs \<Longrightarrow> cs \<noteq> [] \<Longrightarrow> sched_run K bs db d \<Longrightarrow> exclusive d sid"
  shows "single db' sid \<and> distinct_ids K db'"
  using assms
proof (induction rule: sched_run.induct)
  case (stop db)
  then show ?case by simp
next
  case (step a db d as db')
  have "exclusive db sid"
    by (rule step.prems(5)[of "[]" "a # as"]) (simp_all add: sched_run.stop)
  then have "single d sid"
    using step by (auto intro!: single_step[OF step.hyps(1)] simp: distinct_ids_def)
  moreover have "distinct_ids K d"
    using grows_step[OF step.hyps(1)] step.prems(1,2) distinct_ids_grows by blast
  moreover have "exclusive d' sid" if "as = bs @ cs" "cs \<noteq> []" "sched_run K bs d d'" for bs cs d'
    by (rule step.prems(5)[of "a # bs" cs]) (use that step.hyps(1) sched_run.step in auto)
  ultimately show ?case
    using step by simp
qed

lemma single_at_most_one:
  assumes "single db sid" "distinct (map oc_id (sd_occs db))"
  shows "length (filter (runs_for sid) (sd_occs db)) \<le> 1"
proof (rule ccontr)
  assume "\<not> ?thesis"
  then obtain x y zs where xy: "filter (runs_for sid) (sd_occs db) = x # y # zs"
    by (cases "filter (runs_for sid) (sd_occs db)"; cases "tl (filter (runs_for sid) (sd_occs db))") auto
  have "distinct (map oc_id (filter (runs_for sid) (sd_occs db)))"
    using assms(2) by (simp add: distinct_map_filter)
  then have "oc_id x \<noteq> oc_id y" by (simp add: xy)
  moreover have "{x, y} \<subseteq> set (filter (runs_for sid) (sd_occs db))" by (simp add: xy)
  ultimately show False using singleD[OF assms(1), of x y] by auto
qed

text \<open>C40. As long as the current policy of a schedule is skip, queue or cancel_previous whenever the
  scheduler acts, and nobody runs it by hand, at most one of its occurrences is running, in every
  interleaving of ticks, ends of runs, restarts, edits and heartbeat projections.\<close>
theorem one_run_at_a_time:
  assumes "sched_run K as db db'" "inj (lib_uuid (sk_py K))" "sd_occs db = []"
    and "\<forall>bs cs d. as = bs @ cs \<and> cs \<noteq> [] \<and> sched_run K bs db d \<longrightarrow> exclusive d sid"
    and "\<forall>a \<in> set as. \<not> by_hand sid a"
  shows "length (filter (runs_for sid) (sd_occs db')) \<le> 1"
proof -
  have "single db' sid \<and> distinct_ids K db'"
    by (rule single_run_induct[OF assms(1,2)]) (use assms(3-5) in \<open>auto simp: distinct_ids_def single_def\<close>)
  then show ?thesis
    unfolding distinct_ids_def using single_at_most_one by blast
qed


section \<open>Triggers move forward\<close>

text \<open>What is relied on of the cron library: its instants lie after the one it is started from.\<close>

definition cron_advances :: "sched_lib \<Rightarrow> bool" where
  "cron_advances K \<longleftrightarrow> (\<forall>expr tz t. t < sk_cron K expr tz t 0 \<and> t < sk_cron K expr tz t 1)"

text \<open>And of the parsers: an empty text is neither a date nor a cron expression.\<close>

definition rejects_empty :: "sched_lib \<Rightarrow> bool" where
  "rejects_empty K \<longleftrightarrow> sk_iso K [] = None \<and> \<not> sk_cron_ok K []"

lemma round_half_even_ge: "of_int n \<le> q \<Longrightarrow> n \<le> round_half_even q"
  using le_floor_iff[of n q] unfolding round_half_even_def Let_def by auto

lemma timedelta_pos: "60 \<le> q \<Longrightarrow> 0 < timedelta q"
proof -
  assume "60 \<le> q"
  then have "of_int 60000000 \<le> q * 1000000" by simp
  then have "60000000 \<le> timedelta q" unfolding timedelta_def by (rule round_half_even_ge)
  then show "0 < timedelta q" by simp
qed

lemma as_dict_or_else: "as_dict (or_else v (PDict [])) = as_dict v"
  by (cases v) (auto simp: as_dict_def or_else_def)

lemma interval_advances:
  assumes "trigger_errors K trigger = []" "dget trigger ''kind'' PNone = PStr ''interval''"
  shows "\<exists>d. interval_delta K trigger = Inr d \<and> 0 < d"
proof (cases "map_of trigger ''every_seconds''")
  case None
  then show ?thesis using assms by (simp add: trigger_errors_def dget_def)
next
  case (Some v)
  then show ?thesis
    using assms by (cases v)
      (auto simp: trigger_errors_def dget_def interval_delta_def split: if_splits intro!: timedelta_pos)
qed

text \<open>A configuration that passes validation has a trigger whose next instant can always be computed,
  and is strictly later than the instant it is computed from, so the schedule's anchor always advances.\<close>
theorem validated_trigger_fires_later:
  assumes "validate_config K cfg = []" "cron_advances K" "rejects_empty K"
  shows "\<exists>r. next_fire K (trigger_of cfg) t = Inr r \<and> (case r of None \<Rightarrow> True | Some u \<Rightarrow> t < u)"
proof -
  let ?t = "trigger_of cfg"
  have ok: "trigger_errors K ?t = []"
    and zone: "sk_zone_ok K (py_str (sk_py K) (or_else (dget ?t ''timezone'' PNone) (PStr ''UTC'')))"
    using assms(1) unfolding validate_config_def Let_def as_dict_or_else trigger_of_def
    by (simp_all split: if_splits)
  consider "dget ?t ''kind'' PNone = PStr ''once''" | "dget ?t ''kind'' PNone = PStr ''interval''"
    | "dget ?t ''kind'' PNone = PStr ''cron''"
    using ok by (auto simp: trigger_errors_def Let_def split: if_splits)
  then show ?thesis
  proof cases
    case 1
    then obtain u where "parse_at K (dget ?t ''at'' (PStr [])) = Some u"
      using ok by (auto simp: trigger_errors_def split: if_splits)
    moreover have "map_of ?t ''at'' \<noteq> None"
      using calculation assms(3)
      by (cases "map_of ?t ''at''") (simp_all add: dget_def parse_at_def rejects_empty_def)
    ultimately show ?thesis
      using 1 by (auto simp: next_fire_def dget_def)
  next
    case 2
    then show ?thesis
      using interval_advances[OF ok 2] by (auto simp: next_fire_def)
  next
    case 3
    then have "sk_cron_ok K (py_str (sk_py K) (or_else (dget ?t ''cron'' PNone) (PStr [])))"
      using ok by (simp add: trigger_errors_def split: if_splits)
    moreover from this obtain v where "map_of ?t ''cron'' = Some v" "truthy v"
      using assms(3) by (cases "map_of ?t ''cron''")
        (auto simp: dget_def or_else_def rejects_empty_def split: if_splits)
    ultimately show ?thesis
      using 3 zone assms(2) by (auto simp: next_fire_def dget_def or_else_def cron_advances_def Let_def)
  qed
qed



section \<open>The missed-run sweep\<close>

text \<open>The collected instants: a chain of the trigger from the anchor, all before \<open>now\<close>.\<close>

lemma missed_instants_before:
  "missed_instants K trigger now room cursor = Inr (ts, c) \<Longrightarrow>
     length ts \<le> room \<and> (\<forall>t \<in> set ts. t < now) \<and> (ts \<noteq> [] \<longrightarrow> hd ts = cursor)"
proof (induction room arbitrary: cursor ts)
  case 0
  then show ?case by simp
next
  case (Suc room)
  show ?case
  proof (cases "cursor < now")
    case True
    with Suc.prems obtain nxt ts' where
      "missed_instants K trigger now room (case nxt of Some t \<Rightarrow> t | None \<Rightarrow> now) = Inr (ts', c)"
      and "ts = cursor # ts'"
      by auto
    with Suc.IH True show ?thesis by fastforce
  next
    case False
    with Suc.prems show ?thesis by simp
  qed
qed

lemma missed_instants_chain:
  assumes "missed_instants K trigger now room cursor = Inr (ts, c)" "Suc i < length ts"
  shows "next_fire K trigger (ts ! i) = Inr (Some (ts ! Suc i))"
  using assms
proof (induction room arbitrary: cursor ts i)
  case 0
  then show ?case by simp
next
  case (Suc room)
  show ?case
  proof (cases "cursor < now")
    case True
    with Suc.prems obtain nxt ts' where n: "next_fire K trigger cursor = Inr nxt" and
      m: "missed_instants K trigger now room (case nxt of Some t \<Rightarrow> t | None \<Rightarrow> now) = Inr (ts', c)"
      and ts: "ts = cursor # ts'"
      by auto
    show ?thesis
    proof (cases i)
      case 0
      then have ne: "ts' \<noteq> []" using Suc.prems(2) ts by auto
      have b: "hd ts' = (case nxt of Some t \<Rightarrow> t | None \<Rightarrow> now)"
        using missed_instants_before[OF m] ne by simp
      have "hd ts' < now"
        using missed_instants_before[OF m] hd_in_set[OF ne] by blast
      with b have "nxt \<noteq> None" by (cases nxt) simp_all
      then obtain t where "nxt = Some t" by blast
      then show ?thesis using n b ne ts 0 by (simp add: hd_conv_nth)
    next
      case (Suc j)
      then show ?thesis using Suc.IH[OF m, of j] Suc.prems(2) ts by simp
    qed
  next
    case False
    with Suc.prems show ?thesis by simp
  qed
qed

text \<open>The rows a missed policy records for the instants, as (instant, status).\<close>

definition missed_rows :: "pyval \<Rightarrow> int list \<Rightarrow> (int \<times> occ_status) list" where
  "missed_rows policy ts =
     (if policy = PStr ''skip'' then [(last ts, SkippedMissed)]
      else if policy = PStr ''run_once'' then [(last ts, Queued)]
      else if policy = PStr ''catch_up'' then map (\<lambda>t. (t, Queued)) ts else [])"

abbreviation due_rows :: "occ_row list \<Rightarrow> (int \<times> occ_status) list" where
  "due_rows xs \<equiv> map (\<lambda>x. (oc_for x, oc_status x)) xs"

lemma record_due: "oc_for (fst (record_occurrence K sid rv t st n retry err db)) = t"
  by (simp add: record_occurrence_def Let_def)

lemma record_all_rows:
  "\<exists>zs. sd_occs (record_all K sid rv ts db) = sd_occs db @ zs \<and> due_rows zs = map (\<lambda>t. (t, Queued)) ts
     \<and> (\<forall>z \<in> set zs. oc_schedule z = sid)"
  unfolding record_all_def
proof (induction ts arbitrary: db)
  case Nil
  then show ?case by simp
next
  case (Cons t ts)
  obtain x d where r: "record_occurrence K sid (rv_id rv) t Queued 1 None None db = (x, d)"
    by fastforce
  have x: "sd_occs d = sd_occs db @ [x]" "oc_for x = t" "oc_status x = Queued" "oc_schedule x = sid"
    using r unfolding record_occurrence_def Let_def by auto
  obtain zs where "sd_occs (fold (\<lambda>t db. snd (record_occurrence K sid (rv_id rv) t Queued 1 None None db)) ts d)
      = sd_occs d @ zs" "due_rows zs = map (\<lambda>t. (t, Queued)) ts" "\<forall>z \<in> set zs. oc_schedule z = sid"
    using Cons.IH by blast
  with x r show ?case
    by (intro exI[of _ "x # zs"]) simp
qed

lemma record_missed_rows:
  "\<exists>zs. sd_occs (record_missed K sid rv policy ts db) = sd_occs db @ zs \<and> due_rows zs = missed_rows policy ts
     \<and> (\<forall>z \<in> set zs. oc_schedule z = sid)"
  using record_all_rows[of K sid rv ts db]
  by (simp add: record_missed_def missed_rows_def record_occs record_due)

lemma record_missed_scheds [simp]: "sd_scheds (record_missed K sid rv policy ts db) = sd_scheds db"
proof -
  have "sd_scheds (record_all K sid rv us d) = sd_scheds d" for us d
    unfolding record_all_def by (induction us arbitrary: d) simp_all
  then show ?thesis by (simp add: record_missed_def)
qed

lemma find_sched_set:
  "(\<And>s. sc_id (f s) = sc_id s) \<Longrightarrow>
     find_sched (set_sched i f db) j = map_option (\<lambda>s. if sc_id s = i then f s else s) (find_sched db j)"
  unfolding find_sched_def set_sched_def by (simp add: find_map_id)



lemma sweep_schedule_rows:
  assumes sweep: "sweep_schedule K s now db = Inr db'"
    and rv: "current_revision db s = Some rv" and anchor: "sc_next s = Some anchor" "anchor < now"
    and s: "find_sched db (sc_id s) = Some s"
  obtains ts us c zs s' where
    "missed_instants K (trigger_of (rv_config rv)) now CATCH_UP_MAX anchor = Inr (us, c)"
    "ts = us \<or> ts = take 1 us" "ts \<noteq> []" "hd ts = anchor" "sd_occs db' = sd_occs db @ zs"
    "due_rows zs = missed_rows (dget (merged_policies (rv_config rv)) ''missed'' PNone) ts"
    "find_sched db' (sc_id s) = Some s'"
    "if c > now then sc_next s' = Some c else next_fire K (trigger_of (rv_config rv)) now = Inr (sc_next s')"
  using sweep rv anchor(1)
proof (cases rule: sweep_schedule_cases)
  case (nothing us c)
  then have False using anchor(2) by (auto simp: CATCH_UP_MAX_def eval_nat_numeral)
  then show ?thesis ..
next
  case (swept us c d)
  let ?ts = "if dget (trigger_of (rv_config rv)) ''kind'' PNone = PStr ''once'' then take 1 us else us"
  obtain zs where zs: "sd_occs d = sd_occs db @ zs"
    "due_rows zs = missed_rows (dget (merged_policies (rv_config rv)) ''missed'' PNone) ?ts"
    using record_missed_rows[of K "sc_id s" rv] swept(3) by blast
  have "hd us = anchor" using missed_instants_before[OF swept(1)] swept(2) by simp
  then have hd: "?ts \<noteq> []" "hd ?ts = anchor" using swept(2) by (cases us; simp)+
  have f: "find_sched d (sc_id s) = Some s"
    using s unfolding swept(3) find_sched_def by simp
  obtain t where t: "db' = set_sched (sc_id s) (\<lambda>s. s\<lparr>sc_next := t\<rparr>) d"
    "if c > now then t = Some c else next_fire K (trigger_of (rv_config rv)) now = Inr t"
    using swept(4) by (auto simp: advance_def split: if_splits)
  then have "find_sched db' (sc_id s) = Some (s\<lparr>sc_next := t\<rparr>)" "sd_occs db' = sd_occs d"
    using f by (simp_all add: find_sched_set)
  then show ?thesis
    by (intro that[OF swept(1) _ hd, of zs "s\<lparr>sc_next := t\<rparr>"]) (use zs t(2) in auto)
qed

text \<open>The missed-run sweep of a schedule whose anchor has passed collects a chain of consecutive trigger
  instants from the anchor, at most \<open>CATCH_UP_MAX\<close> of them and all before \<open>now\<close>, records exactly the
  rows its missed-run policy asks for, and leaves no anchor or one after \<open>now\<close>.\<close>
theorem sweep_catches_up:
  assumes "sweep_schedule K s now db = Inr db'"
    and "current_revision db s = Some rv" "sc_next s = Some anchor" "anchor < now"
    and "find_sched db (sc_id s) = Some s"
    and "\<forall>t u. next_fire K (trigger_of (rv_config rv)) t = Inr (Some u) \<longrightarrow> t < u"
  shows "\<exists>ts zs s'. hd ts = anchor \<and> 0 < length ts \<and> length ts \<le> CATCH_UP_MAX \<and> (\<forall>t \<in> set ts. t < now)
    \<and> (\<forall>i. Suc i < length ts \<longrightarrow> next_fire K (trigger_of (rv_config rv)) (ts ! i) = Inr (Some (ts ! Suc i)))
    \<and> sd_occs db' = sd_occs db @ zs
    \<and> due_rows zs = missed_rows (dget (merged_policies (rv_config rv)) ''missed'' PNone) ts
    \<and> find_sched db' (sc_id s) = Some s' \<and> (case sc_next s' of None \<Rightarrow> True | Some t \<Rightarrow> now < t)"
proof -
  obtain ts us c zs s' where m:
    "missed_instants K (trigger_of (rv_config rv)) now CATCH_UP_MAX anchor = Inr (us, c)"
    and ts: "ts = us \<or> ts = take 1 us" "ts \<noteq> []" "hd ts = anchor" and rows: "sd_occs db' = sd_occs db @ zs"
    "due_rows zs = missed_rows (dget (merged_policies (rv_config rv)) ''missed'' PNone) ts"
    and s': "find_sched db' (sc_id s) = Some s'"
    "if c > now then sc_next s' = Some c else next_fire K (trigger_of (rv_config rv)) now = Inr (sc_next s')"
    by (rule sweep_schedule_rows[OF assms(1-5)])
  have sub: "set ts \<subseteq> set us" "length ts \<le> length us"
    using ts(1) set_take_subset[of 1 us] by auto
  then have "length ts \<le> CATCH_UP_MAX" "\<forall>t \<in> set ts. t < now"
    using missed_instants_before[OF m] by auto
  moreover have "next_fire K (trigger_of (rv_config rv)) (ts ! i) = Inr (Some (ts ! Suc i))"
    if "Suc i < length ts" for i
    using that ts(1) missed_instants_chain[OF m, of i] by auto
  moreover have "case sc_next s' of None \<Rightarrow> True | Some t \<Rightarrow> now < t"
    using s'(2) assms(6) by (auto split: option.split if_splits)
  moreover have "0 < length ts" using ts(2) by simp
  ultimately show ?thesis
    using ts(3) rows s'(1) by blast
qed

text \<open>An interval anchored a whole number of periods before \<open>now\<close> ends the loop exactly at \<open>now\<close>.\<close>

lemma missed_interval:
  assumes "dget trigger ''kind'' PNone = PStr ''interval''" "interval_delta K trigger = Inr d" "0 < d"
  shows "k \<le> room \<Longrightarrow> \<exists>ts. missed_instants K trigger now room (now - int k * d) = Inr (ts, now)"
proof (induction k arbitrary: room)
  case 0
  then show ?case by (cases room) simp_all
next
  case (Suc k)
  then obtain room' where r: "room = Suc room'" "k \<le> room'" by (cases room) auto
  have "next_fire K trigger (now - int (Suc k) * d) = Inr (Some (now - int k * d))"
    using assms(1,2) by (simp add: next_fire_def algebra_simps)
  moreover have "now - int (Suc k) * d < now" using assms(3) by simp
  ultimately show ?case
    using Suc.IH[OF r(2)] r(1) by auto
qed

text \<open>An interval schedule whose instant falls exactly on the time of the sweep loses it: the instant is
  neither recorded nor left as the anchor, although the code's comment promises the first instant
  at or after \<open>now\<close>.\<close>
theorem sweep_loses_current_instant:
  assumes "sweep_schedule K s now db = Inr db'"
    and "current_revision db s = Some rv" "find_sched db (sc_id s) = Some s"
    and "dget (trigger_of (rv_config rv)) ''kind'' PNone = PStr ''interval''"
    and "interval_delta K (trigger_of (rv_config rv)) = Inr d" "0 < d"
    and "sc_next s = Some (now - int k * d)" "0 < k" "k \<le> CATCH_UP_MAX"
  shows "\<exists>zs s'. sd_occs db' = sd_occs db @ zs \<and> (\<forall>z \<in> set zs. oc_for z < now)
    \<and> find_sched db' (sc_id s) = Some s' \<and> sc_next s' = Some (now + d)"
proof -
  have "now - int k * d < now" using assms(6,8) by simp
  note rows_of = sweep_schedule_rows[OF assms(1,2,7) this assms(3)]
  obtain ts us c zs s' where m:
    "missed_instants K (trigger_of (rv_config rv)) now CATCH_UP_MAX (now - int k * d) = Inr (us, c)"
    and ts: "ts = us \<or> ts = take 1 us" "ts \<noteq> []" and rows: "sd_occs db' = sd_occs db @ zs"
    "due_rows zs = missed_rows (dget (merged_policies (rv_config rv)) ''missed'' PNone) ts"
    and s': "find_sched db' (sc_id s) = Some s'"
    "if c > now then sc_next s' = Some c else next_fire K (trigger_of (rv_config rv)) now = Inr (sc_next s')"
    by (rule rows_of)
  have c: "c = now" using missed_interval[OF assms(4-6,9), of now] m by auto
  have before: "\<forall>t \<in> set ts. t < now"
    using missed_instants_before[OF m] ts(1) set_take_subset[of 1 us] by auto
  have "\<forall>r \<in> set (due_rows zs). fst r < now"
    unfolding rows(2) missed_rows_def using before ts(2) by auto
  then have "\<forall>z \<in> set zs. oc_for z < now" by simp
  moreover have "sc_next s' = Some (now + d)"
    using s'(2) c assms(4,5) by (simp add: next_fire_def)
  ultimately show ?thesis using rows(1) s'(1) by blast
qed



section \<open>Startup\<close>

lemma sweep_schedule_adds:
  assumes "sweep_schedule K s now db = Inr db'"
  shows "\<exists>zs. sd_occs db' = sd_occs db @ zs \<and> (\<forall>z \<in> set zs. oc_status z \<noteq> Running)"
proof (cases "current_revision db s")
  case None
  then show ?thesis using assms by (simp add: sweep_schedule_def)
next
  case (Some rv)
  show ?thesis
  proof (cases "sc_next s")
    case None
    with assms Some show ?thesis by (auto simp: sweep_schedule_def dest: advance_fields)
  next
    case (Some anchor)
    from assms \<open>current_revision db s = Some rv\<close> Some show ?thesis
    proof (cases rule: sweep_schedule_cases)
      case nothing
      then show ?thesis by simp
    next
      case (swept us c d)
      obtain ts zs where zs: "sd_occs d = sd_occs db @ zs"
        "due_rows zs = missed_rows (dget (merged_policies (rv_config rv)) ''missed'' PNone) ts"
        using record_missed_rows[of K "sc_id s" rv] swept(3) by blast
      have "\<forall>r \<in> set (due_rows zs). snd r \<noteq> Running"
        unfolding zs(2) missed_rows_def by auto
      moreover have "sd_occs db' = sd_occs d"
        using swept(4) by (auto split: if_splits dest: advance_fields)
      ultimately show ?thesis using zs(1) by auto
    qed
  qed
qed

lemma sweep_all_adds: "sweep_all K ss now db = Inr db' \<Longrightarrow>
    \<exists>zs. sd_occs db' = sd_occs db @ zs \<and> (\<forall>z \<in> set zs. oc_status z \<noteq> Running)"
proof (induction ss arbitrary: db)
  case Nil
  then show ?case by simp
next
  case (Cons s ss)
  then obtain d where "sweep_schedule K s now db = Inr d" "sweep_all K ss now d = Inr db'" by auto
  with Cons.IH[of d] sweep_schedule_adds[of K s now db d] show ?case
    by (metis (no_types, lifting) append.assoc set_append Un_iff)
qed

lemma migrate_occs: "migrate_heartbeats K as now db = Inr db' \<Longrightarrow> sd_occs db' = sd_occs db"
  by (induction as arbitrary: db) (auto split: if_splits dest: sync_occs)

definition restarted :: "int \<Rightarrow> occ_row \<Rightarrow> occ_row" where
  "restarted now x =
     (if oc_status x = Running
      then x\<lparr>oc_status := Cancelled, oc_finished := Some now,
             oc_error := Some (case oc_error x of
                 Some e \<Rightarrow> if e \<noteq> [] then e @ ''; Gateway restarted during execution''
                           else ''Gateway restarted during execution''
               | None \<Rightarrow> ''Gateway restarted during execution'')\<rparr>
      else x)"

lemma reconcile_alt: "sd_occs (reconcile_stale now db) = map (restarted now) (sd_occs db)"
  by (simp add: reconcile_stale_def restarted_def[abs_def])

text \<open>After startup no occurrence is running: every row left running by the dead process is cancelled
  with the restart noted after its own error, the other rows are as they were, and the sweep only adds
  rows that do not run.  A step that fails leaves the tables as they were before it.\<close>
theorem startup_closes_orphans:
  "\<exists>zs. sd_occs (start_scheduler K enabled now db) = map (restarted now) (sd_occs db) @ zs
     \<and> (\<forall>x \<in> set (sd_occs (start_scheduler K enabled now db)). oc_status x \<noteq> Running)"
proof -
  let ?m = "or_rollback (migrate_heartbeats K enabled now) db"
  have "sd_occs ?m = sd_occs db"
    by (auto simp: or_rollback_def dest: migrate_occs split: sum.split)
  then have r: "sd_occs (reconcile_stale now ?m) = map (restarted now) (sd_occs db)"
    by (simp add: reconcile_alt)
  have "\<exists>zs. sd_occs (start_scheduler K enabled now db) = sd_occs (reconcile_stale now ?m) @ zs
      \<and> (\<forall>z \<in> set zs. oc_status z \<noteq> Running)"
    unfolding start_scheduler_def or_rollback_def[of "sweep_missed K now"] sweep_missed_def
    by (auto dest: sweep_all_adds split: sum.split)
  then show ?thesis
    unfolding r by (auto simp: restarted_def)
qed


section \<open>A run cancelled by its overlap policy\<close>

lemma finish_failed:
  assumes "outcome_status out \<noteq> Completed" "find_sched db sid = Some s" "find_occ db i = Some x"
  shows "finish_occurrence K i sid cfg out is_test now db =
    sbind (maybe_retry K (written out now x) cfg now
      (set_sched sid (\<lambda>s. s\<lparr>sc_failures := sc_failures s + 1\<rparr>)
        (set_sched sid (\<lambda>s. s\<lparr>sc_last_status := Some (outcome_status out),
            sc_last_error := or_text (outcome_error out) (oc_error (written out now x))\<rparr>)
          (write_outcome i out now db))))
      (\<lambda>db. Inr (if is_test then db else notify_failure K sid now db))"
proof -
  have "find_sched (write_outcome i out now db) sid = Some s"
    using assms(2) by (simp add: write_outcome_def find_sched_def)
  with assms show ?thesis
    by (simp add: finish_occurrence_def find_occ_write_outcome)
qed

lemma notify_scheds [simp]: "sd_scheds (notify_failure K sid now db) = sd_scheds db"
  by (simp add: notify_failure_def add_note_def Let_def split: option.split)

lemma find_cong: "sd_occs db' = sd_occs db \<Longrightarrow> find_occ db' i = find_occ db i"
    "sd_scheds db' = sd_scheds db \<Longrightarrow> find_sched db' j = find_sched db j"
  by (simp_all add: find_occ_def find_sched_def)

text \<open>A run that the overlap policy cancelled writes its outcome over the mark: the error says only
  \<open>cancelled\<close>, the schedule's failure streak grows, and under bounded retry the cancelled occurrence is
  queued again, beside the run that replaced it.\<close>
theorem overlap_cancel_is_retried:
  assumes "find_occ db i = Some x" "find_sched db (oc_schedule x) = Some s"
    and "attempt_limit K rv = Some m" "oc_attempt x < m"
    and "finish_occurrence K i (oc_schedule x) (rv_config rv) RunCancelled False now
           (cancel_occurrence i t db) = Inr db'"
  shows "(\<exists>y \<in> set (sd_occs db'). oc_retry_of y = Some i \<and> oc_status y = Queued \<and> oc_attempt y = oc_attempt x + 1)
    \<and> (\<exists>x'. find_occ db' i = Some x' \<and> oc_status x' = Cancelled \<and> oc_error x' = Some ''cancelled'')
    \<and> (\<exists>s'. find_sched db' (oc_schedule x) = Some s' \<and> sc_failures s' = sc_failures s + 1)"
proof -
  define f :: "occ_row \<Rightarrow> occ_row" where "f x = x\<lparr>oc_status := Cancelled, oc_finished := Some t,
       oc_error := (case oc_error x of
                      Some e \<Rightarrow> if e \<noteq> [] then Some e else Some ''cancelled by overlap policy''
                    | None \<Rightarrow> Some ''cancelled by overlap policy'')\<rparr>" for x
  let ?c = "cancel_occurrence i t db" and ?w = "written RunCancelled now (f x)"
  have i: "oc_id x = i" using find_occ_id[OF assms(1)] by blast
  have c: "find_occ ?c i = Some (f x)"
    using assms(1) i unfolding cancel_occurrence_def f_def[symmetric]
    by (simp add: find_occ_set_occ f_def)
  have cs: "find_sched ?c (oc_schedule x) = Some s"
    using assms(2) by (simp add: cancel_occurrence_def find_sched_def)
  let ?d = "set_sched (oc_schedule x) (\<lambda>s. s\<lparr>sc_failures := sc_failures s + 1\<rparr>)
      (set_sched (oc_schedule x) (\<lambda>s. s\<lparr>sc_last_status := Some Cancelled,
          sc_last_error := or_text (Some ''cancelled'') (oc_error ?w)\<rparr>)
        (write_outcome i RunCancelled now ?c))"
  obtain r where r: "maybe_retry K ?w (rv_config rv) now ?d = Inr r"
    and db': "db' = notify_failure K (oc_schedule x) now r"
    using assms(5) finish_failed[OF _ cs c, of RunCancelled K "rv_config rv" False now] by auto
  have w: "oc_attempt ?w = oc_attempt x" "oc_id ?w = i"
    by (simp_all add: written_def f_def i)
  from r obtain y where occs: "sd_occs r = sd_occs ?d @ [y]" "sd_scheds r = sd_scheds ?d"
    "oc_retry_of y = Some i" "oc_status y = Queued" "oc_attempt y = oc_attempt x + 1"
  proof (cases rule: maybe_retry_cases)
    case none
    then have False
      using assms(3,4) unfolding attempt_limit_def Let_def w by (auto split: if_splits)
    then show ?thesis ..
  next
    case (retry n u)
    then show ?thesis
      by (intro that) (simp_all add: record_occs w, simp_all add: record_occurrence_def Let_def w)
  qed
  have "find_occ ?d i = Some ?w"
    using find_occ_write_outcome[OF c, of RunCancelled now] by (simp add: find_occ_def)
  then have "find_occ r i = Some ?w"
    using occs(1) by (simp only: find_occ_def find_append_Some)
  then have "find_occ db' i = Some ?w"
    unfolding db' find_occ_def by simp
  moreover have "find_sched db' (oc_schedule x) = find_sched ?d (oc_schedule x)"
    unfolding db' by (rule find_cong(2)) (simp add: occs(2))
  moreover have "find_sched (write_outcome i RunCancelled now ?c) (oc_schedule x) = Some s"
    using cs by (simp add: write_outcome_def find_sched_def)
  moreover have "oc_status ?w = Cancelled" "oc_error ?w = Some ''cancelled''"
    by (simp_all add: written_def or_text_def)
  ultimately show ?thesis
    using occs find_sched_id[OF assms(2)] by (auto simp: find_sched_set db')
qed



section \<open>A schedule\<close>

text \<open>A one-minute interval schedule with two attempts, anchored at instant 0.\<close>

definition ex_sk :: sched_lib where
  "ex_sk = \<lparr>sk_py = ex_lib\<lparr>lib_uuid := \<lambda>n. replicate (Suc n) (CHR ''u'')\<rparr>, sk_iso = \<lambda>s. None,
     sk_float = \<lambda>s. None, sk_int = \<lambda>s. None, sk_cron_ok = \<lambda>s. False, sk_cron = \<lambda>e z t n. t + 1 + int n,
     sk_zone_ok = \<lambda>z. z = ''UTC'', sk_wall = \<lambda>z t. t, sk_day = \<lambda>z t. ''day''\<rparr>"

definition ex_cfg :: pydict where
  "ex_cfg = [(''trigger'', PDict [(''kind'', PStr ''interval''), (''every_seconds'', PInt 60)]),
     (''task_prompt'', PStr ''report''),
     (''policies'', PDict [(''missed'', PStr ''catch_up''), (''failure'', PDict [(''mode'', PStr ''bounded_retry''),
        (''max_attempts'', PInt 2), (''backoff_seconds'', PInt 10)])])]"

definition ex_sched :: sched_row where
  "ex_sched = \<lparr>sc_id = ''s1'', sc_agent = ''a1'', sc_name = ''Report'', sc_enabled = True, sc_managed = None,
     sc_current_rev = Some ''r1'', sc_archived = False, sc_next = Some 0, sc_last_fired = None,
     sc_last_status = None, sc_last_error = None, sc_failures = 0\<rparr>"

definition ex_rev :: rev_row where
  "ex_rev = \<lparr>rv_id = ''r1'', rv_schedule = ''s1'', rv_number = 1, rv_hash = [], rv_summary = None,
     rv_config = ex_cfg\<rparr>"

definition ex_db :: sched_db where
  "ex_db = \<lparr>sd_scheds = [ex_sched], sd_revs = [ex_rev], sd_occs = [], sd_agents = [], sd_notes = [],
     sd_uuids = 0\<rparr>"

definition ex_occ :: occ_row where
  "ex_occ = \<lparr>oc_id = ''u'', oc_schedule = ''s1'', oc_revision = ''r1'', oc_run = None, oc_for = 0,
     oc_status = Running, oc_attempt = 1, oc_retry_of = None, oc_started = Some 0, oc_finished = None,
     oc_error = None\<rparr>"

definition ex_db1 :: sched_db where
  "ex_db1 = ex_db\<lparr>sd_scheds := [ex_sched\<lparr>sc_last_fired := Some 0, sc_next := Some 60000000\<rparr>],
     sd_occs := [ex_occ], sd_uuids := 1\<rparr>"

definition ex_skipped :: occ_row where
  "ex_skipped = \<lparr>oc_id = ''uu'', oc_schedule = ''s1'', oc_revision = ''r1'', oc_run = None, oc_for = 60000000,
     oc_status = SkippedOverlap, oc_attempt = 1, oc_retry_of = None, oc_started = None, oc_finished = None,
     oc_error = None\<rparr>"

definition ex_db2 :: sched_db where
  "ex_db2 = ex_db1\<lparr>sd_scheds := [ex_sched\<lparr>sc_last_fired := Some 0, sc_next := Some 120000000\<rparr>],
     sd_occs := [ex_occ, ex_skipped], sd_uuids := 2\<rparr>"

lemma ex_inj: "inj (lib_uuid (sk_py ex_sk))"
proof (rule injI)
  fix m n
  assume "lib_uuid (sk_py ex_sk) m = lib_uuid (sk_py ex_sk) n"
  then have "length (lib_uuid (sk_py ex_sk) m) = length (lib_uuid (sk_py ex_sk) n)" by simp
  then show "m = n" by (simp add: ex_sk_def)
qed

lemma ex_tick1: "tick ex_sk 0 ex_db = Inr ([''u''], ex_db1)"
  by code_simp

lemma ex_tick2: "tick ex_sk 60000000 ex_db1 = Inr ([], ex_db2)"
  by code_simp


definition ex_retry :: occ_row where
  "ex_retry = \<lparr>oc_id = ''uu'', oc_schedule = ''s1'', oc_revision = ''r1'', oc_run = None, oc_for = 10000005,
     oc_status = Queued, oc_attempt = 2, oc_retry_of = Some ''u'', oc_started = None, oc_finished = None,
     oc_error = None\<rparr>"

definition ex_db3 :: sched_db where
  "ex_db3 = ex_db1\<lparr>sd_scheds := [ex_sched\<lparr>sc_last_fired := Some 0, sc_next := Some 60000000,
       sc_last_status := Some Failed, sc_last_error := Some ''boom'', sc_failures := 1\<rparr>],
     sd_occs := [ex_occ\<lparr>oc_status := Failed, oc_error := Some ''boom'', oc_finished := Some 5\<rparr>, ex_retry],
     sd_notes := [(''schedule_failed'', ''schedule_failed:s1:day'')], sd_uuids := 2\<rparr>"

lemma ex_finish: "finish_occurrence ex_sk ''u'' ''s1'' ex_cfg (RunRaised ''boom'') False 5 ex_db1 = Inr ex_db3"
  by code_simp

lemma ex_run_ticks: "sched_run ex_sk [Tick 0, Tick 60000000] ex_db ex_db2"
  by (rule sched_run.step[OF sched_step.tick[OF ex_tick1]])
     (rule sched_run.step[OF sched_step.tick[OF ex_tick2] sched_run.stop])

lemma ex_run_fails:
  "sched_run ex_sk [Tick 0, Finish ''u'' (RunRaised ''boom'') False 5] ex_db ex_db3"
proof -
  have "find_occ ex_db1 ''u'' = Some ex_occ" "find_rev ex_db1 (oc_revision ex_occ) = Some ex_rev"
    by code_simp+
  moreover have "finish_occurrence ex_sk ''u'' (oc_schedule ex_occ) (rv_config ex_rev)
      (RunRaised ''boom'') False 5 ex_db1 = Inr ex_db3"
    using ex_finish by (simp add: ex_occ_def ex_rev_def)
  ultimately have "sched_step ex_sk (Finish ''u'' (RunRaised ''boom'') False 5) ex_db1 ex_db3"
    by (rule sched_step.finish)
  then show ?thesis
    by (meson sched_run.step sched_run.stop sched_step.tick ex_tick1)
qed

theorem history_is_append_only_witness:
  "\<exists>new. map pin (sd_occs ex_db3) = map pin (sd_occs ex_db) @ new"
  using history_is_append_only[OF ex_run_fails] by blast

theorem retries_bounded_witness:
  "distinct (map oc_id (sd_occs ex_db3)) \<and> oc_attempt ex_retry = 2 \<and>
   (\<exists>rv m. find_rev ex_db3 ''r1'' = Some rv \<and> attempt_limit ex_sk rv = Some m \<and> oc_attempt ex_retry \<le> m)"
proof -
  have "sd_occs ex_db = []" by (simp add: ex_db_def)
  moreover have "ex_retry \<in> set (sd_occs ex_db3)" by (simp add: ex_db3_def)
  moreover have "oc_retry_of ex_retry = Some ''u''" "oc_revision ex_retry = ''r1''" "oc_attempt ex_retry = 2"
    by (simp_all add: ex_retry_def)
  ultimately show ?thesis
    using retries_bounded[OF ex_run_fails _ ex_inj, of ex_retry] by auto
qed

lemma ex_exclusive: "exclusive ex_db ''s1''" "exclusive ex_db1 ''s1''"
  by code_simp+

theorem one_run_at_a_time_witness: "length (filter (runs_for ''s1'') (sd_occs ex_db2)) \<le> 1"
proof (rule one_run_at_a_time[OF ex_run_ticks ex_inj])
  show "sd_occs ex_db = []" by (simp add: ex_db_def)
  have d: "d = ex_db1" if "sched_run ex_sk [Tick 0] ex_db d" for d
    using that ex_tick1 by (auto elim!: sched_run_ConsE sched_run_NilE elim: sched_stepE)
  show "\<forall>bs cs d. [Tick 0, Tick 60000000] = bs @ cs \<and> cs \<noteq> [] \<and> sched_run ex_sk bs ex_db d
      \<longrightarrow> exclusive d ''s1''"
    using ex_exclusive d by (auto simp: Cons_eq_append_conv elim!: sched_run_NilE)
  show "\<forall>a \<in> set [Tick 0, Tick 60000000]. \<not> by_hand ''s1'' a" by simp
qed

theorem validated_trigger_fires_later_witness:
  "\<exists>r. next_fire ex_sk (trigger_of ex_cfg) 7 = Inr r \<and> (case r of None \<Rightarrow> True | Some u \<Rightarrow> 7 < u)"
proof (rule validated_trigger_fires_later)
  show "validate_config ex_sk ex_cfg = []" by code_simp
  show "cron_advances ex_sk" "rejects_empty ex_sk"
    by (simp_all add: cron_advances_def rejects_empty_def ex_sk_def)
qed

lemma ex_interval: "dget (trigger_of ex_cfg) ''kind'' PNone = PStr ''interval''"
    "interval_delta ex_sk (trigger_of ex_cfg) = Inr 60000000"
  by code_simp+

text \<open>A sweep three periods after the anchor.\<close>

definition ex_swept :: sched_db where
  "ex_swept = (case sweep_schedule ex_sk ex_sched 180000000 ex_db of Inr db \<Rightarrow> db | Inl e \<Rightarrow> ex_db)"

lemma ex_sweep: "sweep_schedule ex_sk ex_sched 180000000 ex_db = Inr ex_swept"
proof -
  have "\<not> isl (sweep_schedule ex_sk ex_sched 180000000 ex_db)" by code_simp
  then show ?thesis unfolding ex_swept_def by (auto split: sum.split)
qed

lemma ex_sweep_rows:
  "current_revision ex_db ex_sched = Some ex_rev" "find_sched ex_db (sc_id ex_sched) = Some ex_sched"
  "sc_next ex_sched = Some 0" "rv_config ex_rev = ex_cfg"
  by code_simp+

theorem sweep_catches_up_witness:
  "\<exists>zs s'. sd_occs ex_swept = sd_occs ex_db @ zs \<and> find_sched ex_swept ''s1'' = Some s'"
proof -
  have "\<forall>t u. next_fire ex_sk (trigger_of (rv_config ex_rev)) t = Inr (Some u) \<longrightarrow> t < u"
    using ex_interval by (simp add: ex_sweep_rows next_fire_def)
  from sweep_catches_up[OF ex_sweep ex_sweep_rows(1,3) _ ex_sweep_rows(2) this]
  show ?thesis by (auto simp: ex_sched_def)
qed

theorem sweep_loses_current_instant_witness:
  "\<exists>zs s'. sd_occs ex_swept = sd_occs ex_db @ zs \<and> (\<forall>z \<in> set zs. oc_for z < 180000000)
    \<and> find_sched ex_swept ''s1'' = Some s' \<and> sc_next s' = Some 240000000"
proof -
  have "sc_next ex_sched = Some (180000000 - int 3 * 60000000)" by (simp add: ex_sched_def)
  from sweep_loses_current_instant[OF ex_sweep ex_sweep_rows(1,2), unfolded ex_sweep_rows(4),
      OF ex_interval _ this]
  show ?thesis by (simp add: ex_sched_def CATCH_UP_MAX_def)
qed

theorem overlap_cancel_is_retried_witness:
  "\<exists>db'. finish_occurrence ex_sk ''u'' ''s1'' ex_cfg RunCancelled False 5 (cancel_occurrence ''u'' 4 ex_db1) = Inr db'
     \<and> (\<exists>y \<in> set (sd_occs db'). oc_retry_of y = Some ''u'' \<and> oc_status y = Queued)"
proof -
  have "\<not> isl (finish_occurrence ex_sk ''u'' ''s1'' ex_cfg RunCancelled False 5
      (cancel_occurrence ''u'' 4 ex_db1))"
    by code_simp
  then obtain db' where db': "finish_occurrence ex_sk ''u'' ''s1'' ex_cfg RunCancelled False 5
      (cancel_occurrence ''u'' 4 ex_db1) = Inr db'"
    by (auto simp: isl_def split: sum.splits) (meson sum.exhaust)
  have o: "find_occ ex_db1 ''u'' = Some ex_occ" "oc_schedule ex_occ = ''s1''" "oc_attempt ex_occ < 2"
    "attempt_limit ex_sk ex_rev = Some 2" by code_simp+
  obtain s where "find_sched ex_db1 (oc_schedule ex_occ) = Some s"
    by (auto simp: find_sched_def ex_db1_def ex_sched_def ex_occ_def)
  from overlap_cancel_is_retried[OF o(1) this o(4,3), unfolded o(2) ex_sweep_rows(4), OF db']
  show ?thesis using db' by blast
qed

theorem startup_closes_orphans_witness:
  "\<exists>zs. sd_occs (start_scheduler ex_sk [] 90000000 ex_db1) = restarted 90000000 ex_occ # zs
     \<and> oc_status (restarted 90000000 ex_occ) = Cancelled \<and> list_all (\<lambda>x. oc_status x \<noteq> Running) zs"
  using startup_closes_orphans [of ex_sk "[]" 90000000 ex_db1]
  by (auto simp: ex_db1_def ex_occ_def restarted_def list_all_iff)

end
