(* ===== verification/Context.thy ===== *)
theory Context
  imports Compaction Run_Catalog
begin

text \<open>
  Context assembly (\<^verbatim>\<open>harness/context.py\<close>): how stored rows of a session (\<^verbatim>\<open>models/run.py\<close>) and live
  attachments become messages of a model request, and which tool schemas go with it.  JSON text is a
  parameter.  The long dash of an attachment line, outside the modelled code points, is a hyphen.
  The system prompt itself is not modelled: the requests below take it as a text.
\<close>

section \<open>Stored rows\<close>

record run_row =
  rn_id :: string
  rn_session :: string
  rn_trigger :: string
  rn_started :: int

record stored_message =
  sm_id :: string
  sm_run :: string
  sm_role :: string
  sm_content :: string
  sm_seq :: int
  sm_attachments :: "string option"
  sm_subagent :: "string option"

text \<open>\<open>json.loads\<close> (\<open>None\<close> when it raises) and \<open>json.dumps\<close>.\<close>

record doc_lib =
  dl_py :: py_lib
  dl_loads :: "string \<Rightarrow> pyval option"
  dl_dumps :: "pyval \<Rightarrow> string"


section \<open>Attachments\<close>

text \<open>A stored attachment is a dictionary, a live one an object with the same metadata.\<close>

datatype attachment =
    StoredAttachment pydict
  | LiveAttachment string string string "string option"

definition attachment_line :: "py_lib \<Rightarrow> nat \<Rightarrow> attachment \<Rightarrow> string" where
  "attachment_line L index a =
     (let dflt = ''attachment_'' @ show_nat index in
      case a of
        StoredAttachment d \<Rightarrow>
          let i = dget d ''id'' (PStr dflt);
              path = dget d ''path'' PNone; url = dget d ''url'' PNone;
              reference = (if truthy path then path else if truthy url then url else PStr ''unavailable'')
          in ''- '' @ py_str L i @ '': '' @ py_str L (dget d ''filename'' i) @ '' (''
             @ py_str L (dget d ''type'' (PStr ''file'')) @ '', '' @ py_str L (dget d ''mime_type'' (PStr []))
             @ '') - '' @ py_str L reference
      | LiveAttachment kind mime filename data \<Rightarrow>
          let url = (if kind = ''url'' then data else None);
              reference = (case url of Some u \<Rightarrow> if u \<noteq> [] then u else ''unavailable'' | None \<Rightarrow> ''unavailable'')
          in ''- '' @ dflt @ '': '' @ (if filename \<noteq> [] then filename else dflt) @ '' ('' @ kind @ '', ''
             @ mime @ '') - '' @ reference)"

definition attachment_lines :: "py_lib \<Rightarrow> attachment list \<Rightarrow> string list" where
  "attachment_lines L as =
     [[], ''Attachments available through tools:'']
     @ map (\<lambda>(i, a). attachment_line L i a) (enumerate 1 as)"

text \<open>A decoded JSON list of attachments; an element that is no dictionary is read by its attributes,
  which a plain value does not have.\<close>

definition decoded_attachment :: "pyval \<Rightarrow> attachment" where
  "decoded_attachment v =
     (case v of PDict d \<Rightarrow> StoredAttachment d | _ \<Rightarrow> LiveAttachment ''file'' [] [] None)"


section \<open>Replay of one stored row\<close>

definition SUPPORTED_STORED_ROLES :: "string list" where
  "SUPPORTED_STORED_ROLES = [''user'', ''assistant'', ''tool_call'']"

definition outcome_prefix :: "string \<Rightarrow> string" where
  "outcome_prefix status =
     (if status = ''denied'' then ''Denied'' else if status = ''timeout'' then ''Timed out''
      else if status = ''interrupted'' then ''Interrupted'' else ''Error'')"

definition tool_call_entry :: "doc_lib \<Rightarrow> string \<Rightarrow> string \<Rightarrow> pydict \<Rightarrow> pyval" where
  "tool_call_entry D i name args =
     PDict [(''id'', PStr i), (''type'', PStr ''function''),
       (''function'', PDict [(''name'', PStr name), (''arguments'', PStr (dl_dumps D (PDict args)))])]"

definition text_of_value :: "doc_lib \<Rightarrow> pyval \<Rightarrow> string" where
  "text_of_value D v = (case v of PStr s \<Rightarrow> s | _ \<Rightarrow> dl_dumps D v)"

definition result_text :: "doc_lib \<Rightarrow> pydict \<Rightarrow> string" where
  "result_text D tc =
     (let result = dget tc ''result'' PNone;
          reason = (if truthy (dget tc ''denied_reason'' PNone) then dget tc ''denied_reason'' PNone
                    else dget tc ''reason'' PNone);
          reason_s = (case reason of PStr s \<Rightarrow> s | _ \<Rightarrow> [])
      in case dget tc ''status'' PNone of
           PStr status \<Rightarrow>
             if status \<in> set [''denied'', ''failed'', ''timeout'', ''interrupted'']
             then outcome_prefix status @ '': ''
               @ (if result = PNone \<or> reason_s \<noteq> [] then reason_s else text_of_value D result)
             else (if result = PNone then [] else text_of_value D result)
         | _ \<Rightarrow> (if result = PNone then [] else text_of_value D result))"

definition stored_call :: "doc_lib \<Rightarrow> pydict \<Rightarrow> message list" where
  "stored_call D tc =
     (case (dget tc ''capability'' PNone, dget tc ''id'' PNone) of
        (PStr name, PStr i) \<Rightarrow>
          if name = [] \<or> i = [] then []
          else (case (case map_of tc ''args'' of None \<Rightarrow> PDict [] | Some v \<Rightarrow> v) of
                  PDict args \<Rightarrow>
                    [[(''role'', PStr ''assistant''), (''content'', PStr []),
                      (''tool_calls'', PList [tool_call_entry D i name args])],
                     [(''role'', PStr ''tool''), (''tool_call_id'', PStr i),
                      (''content'', PStr (result_text D tc))]]
                | _ \<Rightarrow> [])
      | _ \<Rightarrow> [])"

definition format_stored_message :: "doc_lib \<Rightarrow> stored_message \<Rightarrow> message list" where
  "format_stored_message D m =
     (let role = sm_role m; content = sm_content m in
      if role = ''thinking'' then []
      else if role \<notin> set SUPPORTED_STORED_ROLES then []
      else if role = ''tool_call''
      then (case dl_loads D content of Some (PDict tc) \<Rightarrow> stored_call D tc | _ \<Rightarrow> [])
      else if role = ''assistant'' \<and> py_strip content = [] then []
      else
        let text = (case sm_attachments m of
                      None \<Rightarrow> content
                    | Some a \<Rightarrow>
                        if a = [] then content
                        else (case dl_loads D a of
                                Some (PList (x # xs)) \<Rightarrow>
                                  py_join [nl] (content # attachment_lines (dl_py D) (map decoded_attachment (x # xs)))
                              | _ \<Rightarrow> content))
        in [[(''role'', PStr role), (''content'', PStr text)]])"

definition user_text :: "py_lib \<Rightarrow> string \<Rightarrow> attachment list \<Rightarrow> string" where
  "user_text L text as = (if as = [] then text else py_join [nl] (text # attachment_lines L as))"

definition user_row :: "py_lib \<Rightarrow> string \<Rightarrow> attachment list \<Rightarrow> message" where
  "user_row L text as = [(''role'', PStr ''user''), (''content'', PStr (user_text L text as))]"

definition system_row :: "string \<Rightarrow> message" where
  "system_row prompt = [(''role'', PStr ''system''), (''content'', PStr prompt)]"

definition build_message_history ::
    "doc_lib \<Rightarrow> string \<Rightarrow> stored_message list \<Rightarrow> string \<Rightarrow> attachment list \<Rightarrow> message list" where
  "build_message_history D prompt recent text as =
     system_row prompt # concat (map (format_stored_message D) recent) @ [user_row (dl_py D) text as]"


section \<open>Tool schemas\<close>

definition get_enabled_capabilities :: "registry \<Rightarrow> agent_config \<Rightarrow> string list" where
  "get_enabled_capabilities reg agent =
     (case ac_capabilities agent of
        None \<Rightarrow> map cap_name (filter (\<lambda>c. cap_kind c \<noteq> KMcpTool) (list_all_caps reg))
      | Some grants \<Rightarrow> map g_name grants)"

definition schema_of :: "capability \<Rightarrow> pydict" where
  "schema_of c = [(''type'', PStr ''function''),
     (''function'', PDict [(''name'', PStr (cap_name c)), (''description'', PStr (cap_description c)),
        (''parameters'', PDict (cap_parameters_schema c))])]"

definition assemble_tool_schemas ::
    "registry \<Rightarrow> agent_config \<Rightarrow> string list option \<Rightarrow> pydict list" where
  "assemble_tool_schemas reg agent names =
     map schema_of (List.map_filter (reg_get reg)
       (case names of None \<Rightarrow> get_enabled_capabilities reg agent | Some ns \<Rightarrow> ns))"



section \<open>Well-paired histories\<close>

text \<open>
  What providers require of a request: the results of a batch of calls follow it at once, one per call,
  in the order of the calls, and no other result occurs.
\<close>

inductive paired :: "message list \<Rightarrow> bool" where
  paired_Nil: "paired []"
| paired_plain: "\<not> is_tool_result m \<Longrightarrow> \<not> has_calls m \<Longrightarrow> paired ms \<Longrightarrow> paired (m # ms)"
| paired_batch: "has_calls m \<Longrightarrow> \<forall>r \<in> set rs. is_tool_result r \<Longrightarrow>
    map result_id rs = map call_id (calls_of m) \<Longrightarrow> paired ms \<Longrightarrow> paired (m # rs @ ms)"

inductive_cases paired_ConsE: "paired (m # ms)"

lemmas paired_intros = paired_Nil paired_plain paired_batch

lemma paired_append: "paired xs \<Longrightarrow> paired ys \<Longrightarrow> paired (xs @ ys)"
  by (induction rule: paired.induct) (auto intro: paired_intros)

lemma paired_concat: "(\<And>xs. xs \<in> set xss \<Longrightarrow> paired xs) \<Longrightarrow> paired (concat xss)"
  by (induction xss) (auto intro: paired_Nil paired_append)

lemma paired_single: "\<not> is_tool_result m \<Longrightarrow> \<not> has_calls m \<Longrightarrow> paired [m]"
  by (rule paired_plain[OF _ _ paired_Nil])

text \<open>A cut before a row that is no result does not split a batch.\<close>

lemma append_results_cut:
  assumes "xs @ ys = rs @ ms" "\<forall>r \<in> set rs. is_tool_result r" "ys = [] \<or> \<not> is_tool_result (hd ys)"
  obtains zs where "xs = rs @ zs" "ms = zs @ ys"
proof -
  from assms(1) obtain us where us: "xs = rs @ us \<and> us @ ys = ms \<or> xs @ us = rs \<and> ys = us @ ms"
    unfolding append_eq_append_conv2 by blast
  then show thesis
  proof (elim disjE conjE)
    assume "xs = rs @ us" "us @ ys = ms"
    then show thesis using that by blast
  next
    assume u: "xs @ us = rs" "ys = us @ ms"
    show thesis
    proof (cases us)
      case Nil
      with u that[of "[]"] show thesis by simp
    next
      case (Cons u us')
      with u assms(2,3) have False by auto
      then show thesis ..
    qed
  qed
qed

lemma paired_split:
  assumes "paired ms" "ms = xs @ ys" "ys = [] \<or> \<not> is_tool_result (hd ys)"
  shows "paired xs \<and> paired ys"
  using assms
proof (induction arbitrary: xs rule: paired.induct)
  case paired_Nil
  then show ?case by (simp add: paired.paired_Nil)
next
  case (paired_plain m ms)
  show ?case
  proof (cases xs)
    case Nil
    with paired_plain show ?thesis by (auto intro: paired_intros)
  next
    case (Cons x xs')
    with paired_plain.prems have "ms = xs' @ ys" "x = m" by auto
    with paired_plain Cons show ?thesis by (auto intro: paired.paired_plain)
  qed
next
  case (paired_batch m rs ms)
  show ?case
  proof (cases xs)
    case Nil
    with paired_batch show ?thesis by (auto intro: paired_intros)
  next
    case (Cons x xs')
    with paired_batch.prems have x: "x = m" "xs' @ ys = rs @ ms" by auto
    obtain zs where zs: "xs' = rs @ zs" "ms = zs @ ys"
      using append_results_cut[OF x(2) paired_batch.hyps(2) paired_batch.prems(2)] by blast
    with paired_batch.IH[OF zs(2) paired_batch.prems(2)] Cons x(1) paired_batch.hyps show ?thesis
      by (auto intro: paired.paired_batch)
  qed
qed

text \<open>A rewriting of rows that keeps roles, calls and identifiers keeps the pairing.\<close>

definition same_shape :: "message \<Rightarrow> message \<Rightarrow> bool" where
  "same_shape m m' \<longleftrightarrow> is_tool_result m' = is_tool_result m \<and> has_calls m' = has_calls m \<and>
     calls_of m' = calls_of m \<and> result_id m' = result_id m"

lemma same_shape_results:
  "list_all2 same_shape rs rs' \<Longrightarrow> \<forall>r \<in> set rs. is_tool_result r \<Longrightarrow>
     (\<forall>r \<in> set rs'. is_tool_result r) \<and> map result_id rs' = map result_id rs"
  by (induction rule: list_all2_induct) (auto simp: same_shape_def)

lemma paired_same_shape: "paired ms \<Longrightarrow> list_all2 same_shape ms ms' \<Longrightarrow> paired ms'"
proof (induction arbitrary: ms' rule: paired.induct)
  case paired_Nil
  then show ?case by (simp add: paired.paired_Nil)
next
  case (paired_plain m ms)
  then obtain m' us where "ms' = m' # us" "same_shape m m'" "list_all2 same_shape ms us"
    by (auto simp: list_all2_Cons1)
  with paired_plain show ?case by (auto intro!: paired.paired_plain simp: same_shape_def)
next
  case (paired_batch m rs ms)
  then obtain m' us vs where m': "ms' = m' # us @ vs" "same_shape m m'" "list_all2 same_shape rs us"
    "list_all2 same_shape ms vs"
    by (auto simp: list_all2_Cons1 list_all2_append1)
  have "paired vs" using paired_batch.IH m'(4) by blast
  moreover have "has_calls m'" "calls_of m' = calls_of m"
    using m'(2) paired_batch.hyps(1) by (simp_all add: same_shape_def)
  ultimately show ?case
    using same_shape_results[OF m'(3)] paired_batch.hyps(2,3) unfolding m'(1)
    by (intro paired.paired_batch) simp_all
qed

text \<open>The replay of a stored row is paired.\<close>

lemma row_simps [simp]:
  "has_role r (system_row p) = (r = ''system'')" "has_role r (user_row L t as) = (r = ''user'')"
  "has_role r [(''role'', PStr s), (''content'', v)] = (r = s)"
  by (auto simp: has_role_def system_row_def user_row_def dget_def)

lemma plain_rows [simp]:
  "\<not> is_tool_result (user_row L t as)" "\<not> has_calls (user_row L t as)"
  "\<not> is_tool_result (system_row p)" "\<not> has_calls (system_row p)"
  by (simp_all add: is_tool_result_def has_calls_def)

lemma stored_call_paired: "paired (stored_call D tc)"
proof -
  have "paired ([(''role'', PStr ''assistant''), (''content'', PStr []),
        (''tool_calls'', PList [tool_call_entry D i name args])] #
      [[(''role'', PStr ''tool''), (''tool_call_id'', PStr i), (''content'', PStr t)]] @ [])"
    for i name args t
    by (rule paired_batch[OF _ _ _ paired_Nil])
       (simp_all add: has_calls_def has_role_def is_tool_result_def dget_def calls_of_def
         result_id_def call_id_def tool_call_entry_def)
  then show ?thesis
    unfolding stored_call_def by (auto split: pyval.split option.split intro: paired_Nil)
qed

lemma format_stored_paired: "paired (format_stored_message D m)"
proof -
  have "paired [[(''role'', PStr role), (''content'', v)]]"
    if "role = ''user'' \<or> role = ''assistant''" for role v
    using that by (intro paired_single)
      (auto simp: is_tool_result_def has_calls_def has_role_def dget_def)
  then show ?thesis
    unfolding format_stored_message_def Let_def SUPPORTED_STORED_ROLES_def
    by (auto split: option.split pyval.split intro: paired_Nil stored_call_paired)
qed



section \<open>Compaction keeps the pairing\<close>

lemma prune_message_shape: "same_shape m (prune_message over m)"
  by (auto simp: prune_message_def same_shape_def is_tool_result_def has_role_def has_calls_def
      calls_of_def result_id_def split: pyval.split)

lemma prune_tool_results_shape: "list_all2 same_shape msgs (prune_tool_results msgs n over)"
proof -
  have "list_all2 same_shape msgs
      (map (\<lambda>(i, msg). if i < n then prune_message over msg else msg) (enumerate k msgs))" for k
    by (induction msgs arbitrary: k) (auto simp: prune_message_shape same_shape_def[of x x for x])
  then show ?thesis by (simp add: prune_tool_results_def)
qed

lemma paired_prune: "paired msgs \<Longrightarrow> paired (prune_tool_results msgs n over)"
  by (rule paired_same_shape[OF _ prune_tool_results_shape])

lemma ids_Cons: "all_result_ids (m # ms) = own_result m \<union> all_result_ids ms"
    "all_call_ids (m # ms) = own_calls m \<union> all_call_ids ms"
  by (simp_all add: all_result_ids_own all_call_ids_own)

lemma ids_append: "all_result_ids (xs @ ys) = all_result_ids xs \<union> all_result_ids ys"
    "all_call_ids (xs @ ys) = all_call_ids xs \<union> all_call_ids ys"
  by (simp_all add: all_result_ids_own all_call_ids_own)

lemma results_ids:
  "\<forall>r \<in> set rs. is_tool_result r \<Longrightarrow>
     all_result_ids rs = {i \<in> set (map result_id rs). nonempty_id i} \<and> all_call_ids rs = {}"
  by (auto simp: all_result_ids_own all_call_ids_own own_result_def own_calls_def tool_not_calls)

lemma paired_ids: "paired msgs \<Longrightarrow> all_result_ids msgs = all_call_ids msgs"
proof (induction rule: paired.induct)
  case paired_Nil
  then show ?case by (simp add: all_result_ids_def all_call_ids_def)
next
  case (paired_plain m ms)
  then show ?case by (simp add: ids_Cons own_result_def own_calls_def)
next
  case (paired_batch m rs ms)
  have "own_result m = {}" using paired_batch.hyps(1) tool_not_calls by (auto simp: own_result_def)
  moreover have "own_calls m = {i \<in> set (map result_id rs). nonempty_id i}"
    using paired_batch.hyps(1) by (simp only: paired_batch.hyps(3) own_calls_def if_True)
  ultimately show ?case
    using results_ids[OF paired_batch.hyps(2)] paired_batch.IH by (simp only: ids_Cons ids_append) simp
qed

text \<open>So sanitising a paired history changes nothing.\<close>

lemma sanitize_paired:
  assumes "paired msgs"
  shows "sanitize_tool_pairs msgs = msgs"
  unfolding sanitize_tool_pairs_def
proof (rule concat_map_single)
  fix m
  assume m: "m \<in> set msgs"
  have r: "own_result m \<subseteq> all_call_ids msgs" "own_calls m \<subseteq> all_result_ids msgs"
    using m paired_ids[OF assms] by (auto simp: all_result_ids_own all_call_ids_own)
  show "sanitize_one (all_call_ids msgs) (all_result_ids msgs) m = [m]"
  proof (cases "is_tool_result m")
    case True
    with r(1) show ?thesis by (auto simp: sanitize_one_def own_result_def)
  next
    case False
    have "\<forall>tc \<in> set (calls_of m). has_calls m \<longrightarrow> nonempty_id (call_id tc) \<longrightarrow>
        call_id tc \<in> all_result_ids msgs"
      using r(2) by (auto simp: own_calls_def)
    with False show ?thesis by (auto simp: sanitize_one_def)
  qed
qed

lemma summary_message_plain [simp]:
  "\<not> is_tool_result (summary_message t h)" "\<not> has_calls (summary_message t h)"
  by (simp_all add: summary_message_def is_tool_result_def has_calls_def has_role_def dget_def
      choose_summary_role_def)

lemma paired_reassemble:
  assumes "paired head" "paired tail"
  shows "paired (reassemble head summary tail)"
proof -
  have "paired (head @ (if summary \<noteq> [] then [summary_message summary head] else []) @ tail)"
    using assms by (auto intro!: paired_append paired_plain)
  then show ?thesis by (simp add: reassemble_def sanitize_paired)
qed

lemma paired_rendered: "paired msgs \<Longrightarrow> paired (rendered_context A msgs)"
  by (simp add: rendered_context_def paired_plain)

lemma paired_cut:
  assumes "paired msgs" "t < length msgs \<Longrightarrow> \<not> is_tool_result (msgs ! t)"
  shows "paired (take t msgs) \<and> paired (drop t msgs)"
  using assms by (intro paired_split[OF assms(1)]) (auto simp: hd_drop_conv_nth not_less)

lemma compaction_paired:
  assumes "compact_context C A msgs = Inr r" "paired msgs"
  shows "paired (co_messages r) \<and> paired (co_retained r)"
proof (cases "co_compacted r")
  case False
  with compact_unchanged[OF assms(1)] assms(2) show ?thesis by (simp add: paired_rendered)
next
  case True
  from assms(1) True show ?thesis
  proof (rule compact_context_cases)
    fix threshold h t summary
    let ?head = "prune_tool_results (take h msgs) (length (take h msgs))
           (cc_prune_tool_results_over (ac_compaction (cp_agent A)))"
    assume b: "final_boundaries C A msgs threshold = (h, t)" and lt: "h < t"
      and r: "co_messages r = reassemble ?head summary (drop t msgs)"
      and ret: "co_retained r = ?head @ drop t msgs"
    have "paired (take h msgs)"
      using paired_cut[OF assms(2), of h] final_boundaries_props(6)[OF b lt] by blast
    then have head: "paired ?head" by (rule paired_prune)
    have tail: "paired (drop t msgs)"
      using paired_cut[OF assms(2), of t] final_boundaries_props(5)[OF b lt]
      by (simp add: clean_start_def)
    show ?thesis
      unfolding r ret using paired_reassemble[OF head tail] paired_append[OF head tail] by blast
  qed
qed

end
