(* ===== verification/Conversation.thy ===== *)
theory Conversation
  imports Context "HOL-Library.Product_Lexorder"
begin

text \<open>
  The durable conversation of a session (\<^verbatim>\<open>harness/conversation.py\<close>): replay of the stored rows that
  no summary covers, the coverage state of the summary with its immutable snapshots
  (\<^verbatim>\<open>models/conversation_summary.py\<close>), and the conditional write of a new summary.  The tables are
  association lists; the streaming of rows in batches and the creation time of a snapshot are left out.
\<close>

section \<open>Rows and state\<close>

record session_row =
  ss_summary :: "string option"
  ss_coverage :: "string option"
  ss_version :: nat
  ss_active :: "string option"
  ss_known :: "bool option"

record snapshot =
  sn_session :: string
  sn_version :: nat
  sn_prior :: "string option"
  sn_summary :: string
  sn_covered :: string
  sn_head :: string
  sn_tail :: string
  sn_known :: bool

record conv_db =
  cd_sessions :: "(string \<times> session_row) list"
  cd_snaps :: "(string \<times> snapshot) list"
  cd_runs :: "run_row list"
  cd_messages :: "stored_message list"
  cd_uuids :: nat

record conversation =
  cv_session :: string
  cv_messages :: "message list"
  cv_sources :: "string set list"
  cv_summary :: "string option"
  cv_summary_id :: "string option"
  cv_covered :: "string set"
  cv_version :: nat
  cv_known :: bool
  cv_dropped :: "string list"

definition new_conversation :: "string \<Rightarrow> conversation" where
  "new_conversation sid = \<lparr>cv_session = sid, cv_messages = [], cv_sources = [], cv_summary = None,
     cv_summary_id = None, cv_covered = {}, cv_version = 0, cv_known = True, cv_dropped = []\<rparr>"


section \<open>Coverage\<close>

text \<open>The stored identifiers: a JSON array of non-empty strings, or nothing.\<close>

fun nonempty_text :: "pyval \<Rightarrow> bool" where
  "nonempty_text (PStr s) = (s \<noteq> [])"
| "nonempty_text _ = False"

fun text_of :: "pyval \<Rightarrow> string" where
  "text_of (PStr s) = s"
| "text_of _ = []"

definition parse_ids :: "doc_lib \<Rightarrow> string \<Rightarrow> string set option" where
  "parse_ids D raw =
     (case dl_loads D raw of
        Some (PList xs) \<Rightarrow> if list_all nonempty_text xs then Some (set (map text_of xs)) else None
      | _ \<Rightarrow> None)"

definition dump_ids :: "doc_lib \<Rightarrow> string set \<Rightarrow> string" where
  "dump_ids D ids = dl_dumps D (PList (map PStr (sorted_list_of_set ids)))"

text \<open>An explicitly referenced snapshot counts only when it agrees with the session's own columns.\<close>

definition snapshot_valid :: "string \<Rightarrow> session_row \<Rightarrow> snapshot \<Rightarrow> bool" where
  "snapshot_valid sid s sn \<longleftrightarrow>
     sn_session sn = sid \<and> sn_version sn = ss_version s \<and> ss_summary s = Some (sn_summary sn)
     \<and> sn_covered sn = (case ss_coverage s of None \<Rightarrow> ''[]'' | Some c \<Rightarrow> if c = [] then ''[]'' else c)
     \<and> (case ss_known s of None \<Rightarrow> True | Some b \<Rightarrow> sn_known sn = b)"

record coverage =
  cg_summary :: "string option"
  cg_summary_id :: "string option"
  cg_covered :: "string set"
  cg_version :: nat
  cg_known :: bool

definition coverage_state :: "doc_lib \<Rightarrow> conv_db \<Rightarrow> string \<Rightarrow> session_row \<Rightarrow> coverage" where
  "coverage_state D db sid s =
     (let reference = (case ss_active s of None \<Rightarrow> None | Some i \<Rightarrow> if i = [] then None else Some i);
          valid = (case reference of
                     None \<Rightarrow> None
                   | Some i \<Rightarrow> (case map_of (cd_snaps db) i of
                                  None \<Rightarrow> None | Some sn \<Rightarrow> if snapshot_valid sid s sn then Some sn else None));
          raw = (if reference = None then ss_coverage s else map_option sn_covered valid);
          raw = (case raw of None \<Rightarrow> None | Some r \<Rightarrow> if r = [] then None else Some r);
          parsed = (case raw of None \<Rightarrow> None | Some r \<Rightarrow> parse_ids D r);
          covered = (case parsed of None \<Rightarrow> {} | Some ids \<Rightarrow> ids);
          blank = (case ss_summary s of None \<Rightarrow> True | Some t \<Rightarrow> py_strip t = [])
      in \<lparr>cg_summary = ss_summary s,
          cg_summary_id = (if reference \<noteq> None \<and> valid = None then None else ss_active s),
          cg_covered = (if blank then {} else covered),
          cg_version = ss_version s,
          cg_known = (if blank then True
                      else if reference \<noteq> None \<and> valid = None then False
                      else case ss_known s of
                             Some b \<Rightarrow> b
                           | None \<Rightarrow> (case raw of
                                 None \<Rightarrow> reference = None \<and> ss_coverage s = Some []
                               | Some r \<Rightarrow> parsed \<noteq> None))\<rparr>)"


section \<open>Replay\<close>

definition in_session :: "conv_db \<Rightarrow> string \<Rightarrow> string option \<Rightarrow> stored_message \<Rightarrow> run_row \<Rightarrow> bool" where
  "in_session db sid exclude m r \<longleftrightarrow>
     rn_id r = sm_run m \<and> rn_session r = sid \<and> rn_trigger r \<noteq> ''reflection''
     \<and> sm_subagent m = None \<and> sm_role m \<noteq> ''thinking''
     \<and> (case exclude of None \<Rightarrow> True | Some x \<Rightarrow> x = [] \<or> sm_run m \<noteq> x)"

definition session_rows :: "conv_db \<Rightarrow> string \<Rightarrow> string option \<Rightarrow> stored_message list" where
  "session_rows db sid exclude =
     map snd (sort_key (\<lambda>(r, m). (rn_started r, rn_id r, sm_seq m, sm_id m))
       [(r, m). m \<leftarrow> cd_messages db, r \<leftarrow> cd_runs db, in_session db sid exclude m r])"

definition replay_row :: "doc_lib \<Rightarrow> string set \<Rightarrow> stored_message \<Rightarrow> conversation \<Rightarrow> conversation" where
  "replay_row D covered m cv =
     (if sm_id m \<in> covered then cv
      else
        let rows = format_stored_message D m in
        if rows = [] then cv\<lparr>cv_dropped := cv_dropped cv @ [sm_id m]\<rparr>
        else cv\<lparr>cv_messages := cv_messages cv @ rows,
                cv_sources := cv_sources cv @ replicate (length rows) {sm_id m}\<rparr>)"

definition load_conversation ::
    "doc_lib \<Rightarrow> conv_db \<Rightarrow> string \<Rightarrow> session_row \<Rightarrow> string option \<Rightarrow> conversation" where
  "load_conversation D db sid s exclude =
     (let g = coverage_state D db sid s in
      fold (replay_row D (cg_covered g)) (session_rows db sid exclude)
        (new_conversation sid\<lparr>cv_summary := cg_summary g, cv_summary_id := cg_summary_id g,
           cv_covered := cg_covered g, cv_version := cg_version g, cv_known := cg_known g\<rparr>))"

definition render :: "conversation \<Rightarrow> message list" where
  "render cv =
     (case cv_summary cv of
        None \<Rightarrow> cv_messages cv
      | Some t \<Rightarrow> if t = [] then cv_messages cv else summary_message t [] # cv_messages cv)"

definition append_row :: "message \<Rightarrow> string set \<Rightarrow> conversation \<Rightarrow> conversation" where
  "append_row m ids cv = cv\<lparr>cv_messages := cv_messages cv @ [m], cv_sources := cv_sources cv @ [ids]\<rparr>"


section \<open>Storing a summary\<close>

text \<open>
  The update is conditional on the version the conversation was loaded with: a concurrent compactor
  that committed first makes it match no row, and then nothing is written.
\<close>

definition store_summary ::
    "doc_lib \<Rightarrow> string \<Rightarrow> string set \<Rightarrow> string set \<Rightarrow> string set \<Rightarrow> conversation \<Rightarrow> conv_db
     \<Rightarrow> bool \<times> conversation \<times> conv_db" where
  "store_summary D summary covered head tail cv db =
     (let sid = cv_session cv; snap_id = lib_uuid (dl_py D) (cd_uuids db);
          version = cv_version cv + 1; db = db\<lparr>cd_uuids := Suc (cd_uuids db)\<rparr>
      in case map_of (cd_sessions db) sid of
           None \<Rightarrow> (False, cv, db)
         | Some s \<Rightarrow>
             if ss_version s \<noteq> cv_version cv then (False, cv, db)
             else
               let s = s\<lparr>ss_summary := Some summary, ss_coverage := Some (dump_ids D covered),
                         ss_version := version, ss_active := Some snap_id, ss_known := Some (cv_known cv)\<rparr>;
                   sn = \<lparr>sn_session = sid, sn_version = version, sn_prior = cv_summary_id cv,
                         sn_summary = summary, sn_covered = dump_ids D covered, sn_head = dump_ids D head,
                         sn_tail = dump_ids D tail, sn_known = cv_known cv\<rparr>
               in (True,
                   cv\<lparr>cv_summary := Some summary, cv_summary_id := Some snap_id, cv_covered := covered,
                      cv_version := version\<rparr>,
                   db\<lparr>cd_sessions := AList.update sid s (cd_sessions db),
                      cd_snaps := cd_snaps db @ [(snap_id, sn)]\<rparr>))"



section \<open>Replay loses nothing\<close>

lemma session_rows_set:
  "set (session_rows db sid exclude) =
     {m \<in> set (cd_messages db). \<exists>r \<in> set (cd_runs db). in_session db sid exclude m r}"
  by (force simp: session_rows_def)

text \<open>What the replayed rows of a conversation account for.\<close>

definition replays :: "doc_lib \<Rightarrow> string set \<Rightarrow> stored_message list \<Rightarrow> conversation \<Rightarrow> conversation \<Rightarrow> bool" where
  "replays D covered ms cv cv' \<longleftrightarrow>
     (\<exists>rows srcs dropped. cv' = cv\<lparr>cv_messages := cv_messages cv @ rows, cv_sources := cv_sources cv @ srcs,
          cv_dropped := cv_dropped cv @ dropped\<rparr>
        \<and> length srcs = length rows \<and> paired rows
        \<and> \<Union> (set srcs) \<union> set dropped = sm_id ` set ms - covered
        \<and> rows = concat (map (format_stored_message D) (filter (\<lambda>m. sm_id m \<notin> covered) ms)))"

lemma replay_rows: "replays D covered ms cv (fold (replay_row D covered) ms cv)"
proof (induction ms arbitrary: cv)
  case Nil
  then show ?case by (auto simp: replays_def intro: paired_Nil)
next
  case (Cons m ms)
  let ?f = "format_stored_message D m"
  obtain rows srcs dropped where r: "fold (replay_row D covered) ms (replay_row D covered m cv) =
      (replay_row D covered m cv)\<lparr>cv_messages := cv_messages (replay_row D covered m cv) @ rows,
         cv_sources := cv_sources (replay_row D covered m cv) @ srcs,
         cv_dropped := cv_dropped (replay_row D covered m cv) @ dropped\<rparr>"
    "length srcs = length rows" "paired rows"
    "\<Union> (set srcs) \<union> set dropped = sm_id ` set ms - covered"
    "rows = concat (map (format_stored_message D) (filter (\<lambda>m. sm_id m \<notin> covered) ms))"
    using Cons.IH[of "replay_row D covered m cv"] unfolding replays_def by blast
  consider "sm_id m \<in> covered" | "sm_id m \<notin> covered" "?f = []" | "sm_id m \<notin> covered" "?f \<noteq> []"
    by blast
  then show ?case
  proof cases
    case 1
    with r show ?thesis unfolding replays_def
      by (intro exI[of _ rows] exI[of _ srcs] exI[of _ dropped]) (auto simp: replay_row_def)
  next
    case 2
    with r show ?thesis unfolding replays_def
      by (intro exI[of _ rows] exI[of _ srcs] exI[of _ "sm_id m # dropped"])
         (auto simp: replay_row_def Let_def)
  next
    case 3
    have p: "paired (?f @ rows)"
      using format_stored_paired r(3) by (rule paired_append)
    have u: "\<Union> (set (replicate (length ?f) {sm_id m})) = {sm_id m}"
      using 3(2) by (simp add: set_replicate_conv_if)
    show ?thesis unfolding replays_def
      by (intro exI[of _ "?f @ rows"] exI[of _ "replicate (length ?f) {sm_id m} @ srcs"] exI[of _ dropped])
         (use r 3 p u in \<open>auto simp: replay_row_def Let_def\<close>)
  qed
qed

lemma load_conversation_paired: "paired (cv_messages (load_conversation D db sid s exclude))"
proof -
  have "paired (cv_messages (fold (replay_row D covered) ms cv))"
    if "cv_messages cv = []" for covered ms and cv :: conversation
    using replay_rows[of D covered ms cv] that unfolding replays_def by auto
  then show ?thesis by (simp add: load_conversation_def Let_def new_conversation_def)
qed



section \<open>The stored summary\<close>

text \<open>What is relied on of the JSON library: a list of texts is read back as it was written.\<close>

definition json_lists :: "doc_lib \<Rightarrow> bool" where
  "json_lists D \<longleftrightarrow> (\<forall>xs. dl_dumps D (PList (map PStr xs)) \<noteq> [] \<and>
     dl_loads D (dl_dumps D (PList (map PStr xs))) = Some (PList (map PStr xs)))"

lemma parse_dump_ids:
  assumes "json_lists D" "finite ids" "[] \<notin> ids"
  shows "dump_ids D ids \<noteq> [] \<and> parse_ids D (dump_ids D ids) = Some ids"
proof -
  have "list_all nonempty_text (map PStr (sorted_list_of_set ids))"
    using assms(2,3) by (auto simp: list_all_iff)
  moreover have "set (map text_of (map PStr (sorted_list_of_set ids))) = ids"
    using assms(2) by simp
  ultimately show ?thesis
    using assms(1) unfolding json_lists_def dump_ids_def parse_ids_def by simp
qed

lemma store_summary_cases:
  assumes "store_summary D summary covered head tail cv db = (True, cv', db')"
  obtains s where "map_of (cd_sessions db) (cv_session cv) = Some s" "ss_version s = cv_version cv"
    "cv' = cv\<lparr>cv_summary := Some summary, cv_summary_id := Some (lib_uuid (dl_py D) (cd_uuids db)),
       cv_covered := covered, cv_version := cv_version cv + 1\<rparr>"
    "map_of (cd_sessions db') (cv_session cv) =
       Some (s\<lparr>ss_summary := Some summary, ss_coverage := Some (dump_ids D covered),
         ss_version := cv_version cv + 1, ss_active := Some (lib_uuid (dl_py D) (cd_uuids db)),
         ss_known := Some (cv_known cv)\<rparr>)"
    "cd_snaps db' = cd_snaps db @ [(lib_uuid (dl_py D) (cd_uuids db),
       \<lparr>sn_session = cv_session cv, sn_version = cv_version cv + 1, sn_prior = cv_summary_id cv,
        sn_summary = summary, sn_covered = dump_ids D covered, sn_head = dump_ids D head,
        sn_tail = dump_ids D tail, sn_known = cv_known cv\<rparr>)]"
  using assms unfolding store_summary_def by (auto simp: Let_def split: option.splits if_splits)

text \<open>A summary that is stored is what the next run reads back: the same text, exactly the covered
  identifiers, the next version and the coverage flag, through the snapshot that was written with it.\<close>
theorem stored_summary_is_read_back:
  assumes "store_summary D summary covered head tail cv db = (True, cv', db')"
    and "json_lists D" "finite covered" "[] \<notin> covered" "py_strip summary \<noteq> []"
    and "lib_uuid (dl_py D) (cd_uuids db) \<notin> fst ` set (cd_snaps db)" "lib_uuid (dl_py D) (cd_uuids db) \<noteq> []"
  shows "\<exists>s. map_of (cd_sessions db') (cv_session cv) = Some s \<and>
    coverage_state D db' (cv_session cv) s =
      \<lparr>cg_summary = Some summary, cg_summary_id = cv_summary_id cv', cg_covered = covered,
       cg_version = cv_version cv', cg_known = cv_known cv\<rparr>
    \<and> cv_summary cv' = Some summary \<and> cv_covered cv' = covered \<and> cv_version cv' = cv_version cv + 1"
  using assms(1)
proof (rule store_summary_cases)
  fix s :: session_row
  let ?u = "lib_uuid (dl_py D) (cd_uuids db)"
  let ?s = "s\<lparr>ss_summary := Some summary, ss_coverage := Some (dump_ids D covered),
         ss_version := cv_version cv + 1, ss_active := Some ?u, ss_known := Some (cv_known cv)\<rparr>"
  let ?sn = "\<lparr>sn_session = cv_session cv, sn_version = cv_version cv + 1, sn_prior = cv_summary_id cv,
        sn_summary = summary, sn_covered = dump_ids D covered, sn_head = dump_ids D head,
        sn_tail = dump_ids D tail, sn_known = cv_known cv\<rparr>"
  assume c: "cv' = cv\<lparr>cv_summary := Some summary, cv_summary_id := Some ?u,
       cv_covered := covered, cv_version := cv_version cv + 1\<rparr>"
    and s: "map_of (cd_sessions db') (cv_session cv) = Some ?s"
    and sn: "cd_snaps db' = cd_snaps db @ [(?u, ?sn)]"
  note ids = parse_dump_ids[OF assms(2-4)]
  have l: "map_of (cd_snaps db') ?u = Some ?sn"
    unfolding sn using assms(6) by (simp add: map_add_def map_of_eq_None_iff[THEN iffD2])
  have v: "snapshot_valid (cv_session cv) ?s ?sn"
    using ids by (simp add: snapshot_valid_def)
  have "coverage_state D db' (cv_session cv) ?s =
      \<lparr>cg_summary = Some summary, cg_summary_id = cv_summary_id cv', cg_covered = covered,
       cg_version = cv_version cv', cg_known = cv_known cv\<rparr>"
    using l v ids assms(5,7) by (simp add: coverage_state_def c)
  with s c show ?thesis by auto
qed

text \<open>Writers that loaded the same version, committing one after another.\<close>

type_synonym summary_write = "string \<times> string set \<times> string set \<times> string set \<times> conversation"

fun store_each :: "doc_lib \<Rightarrow> summary_write list \<Rightarrow> conv_db \<Rightarrow> bool list \<times> conv_db" where
  "store_each D [] db = ([], db)"
| "store_each D ((summary, covered, head, tail, cv) # ws) db =
     (case store_summary D summary covered head tail cv db of
        (ok, cv', db) \<Rightarrow> (case store_each D ws db of (oks, db) \<Rightarrow> (ok # oks, db)))"

lemma store_stale:
  assumes "map_of (cd_sessions db) (cv_session cv) = Some s" "ss_version s \<noteq> cv_version cv"
  shows "store_summary D summary covered head tail cv db = (False, cv, db\<lparr>cd_uuids := Suc (cd_uuids db)\<rparr>)"
  using assms by (simp add: store_summary_def Let_def)

lemma store_each_stale:
  assumes "map_of (cd_sessions db) sid = Some s" "ss_version s \<noteq> v"
    and "\<forall>w \<in> set ws. case w of (t, c, h, e, cv) \<Rightarrow> cv_session cv = sid \<and> cv_version cv = v"
  shows "\<exists>n. store_each D ws db = (replicate (length ws) False, db\<lparr>cd_uuids := n\<rparr>)"
  using assms(1,3)
proof (induction ws arbitrary: db)
  case Nil
  then show ?case by (intro exI[of _ "cd_uuids db"]) simp
next
  case (Cons w ws)
  obtain t c h e cv where w: "w = (t, c, h, e, cv)" by (cases w)
  with Cons.prems(2) have cv: "cv_session cv = sid" "cv_version cv = v" by auto
  let ?d = "db\<lparr>cd_uuids := Suc (cd_uuids db)\<rparr>"
  have st: "store_summary D t c h e cv db = (False, cv, ?d)"
    using Cons.prems(1) assms(2) cv by (intro store_stale) auto
  obtain n where "store_each D ws ?d = (replicate (length ws) False, ?d\<lparr>cd_uuids := n\<rparr>)"
    using Cons.IH[of ?d] Cons.prems by auto
  with st w show ?case by (intro exI[of _ n]) simp
qed




section \<open>A session\<close>

text \<open>An encoding of lists of texts that can be read back.\<close>

fun ex_encode :: "string list \<Rightarrow> string" where
  "ex_encode [] = []"
| "ex_encode ([] # xs) = CHR ''e'' # ex_encode xs"
| "ex_encode ((c # s) # xs) = CHR ''c'' # c # ex_encode (s # xs)"

fun ex_decode :: "string \<Rightarrow> string \<Rightarrow> string list" where
  "ex_decode cur [] = []"
| "ex_decode cur [c] = [cur]"
| "ex_decode cur (c # d # s) =
     (if c = CHR ''c'' then ex_decode (cur @ [d]) s else cur # ex_decode [] (d # s))"

lemma ex_decode_end [simp]: "ex_decode cur (CHR ''e'' # s) = cur # ex_decode [] s"
  by (cases s) simp_all

lemma ex_decode_encode: "ex_decode cur (ex_encode (s # xs)) = (cur @ s) # ex_decode [] (ex_encode xs)"
  by (induction "s # xs" arbitrary: cur s xs rule: ex_encode.induct) simp_all

lemma ex_decode_all: "ex_decode [] (ex_encode xs) = xs"
  by (induction xs) (simp_all add: ex_decode_encode)

definition ex_doc :: doc_lib where
  "ex_doc = \<lparr>dl_py = ex_lib, dl_loads = \<lambda>t. Some (PList (map PStr (ex_decode [] (tl t)))),
     dl_dumps = \<lambda>v. CHR ''['' # ex_encode (case v of PList xs \<Rightarrow> map text_of xs | _ \<Rightarrow> [])\<rparr>"

lemma ex_json_lists: "json_lists ex_doc"
  by (simp add: json_lists_def ex_doc_def ex_decode_all comp_def)

definition ex_session :: session_row where
  "ex_session = \<lparr>ss_summary = None, ss_coverage = None, ss_version = 0, ss_active = None, ss_known = None\<rparr>"

definition ex_conv_db :: conv_db where
  "ex_conv_db = \<lparr>cd_sessions = [(''s1'', ex_session)], cd_snaps = [], cd_runs = [], cd_messages = [],
     cd_uuids = 0\<rparr>"

theorem stored_summary_is_read_back_witness:
  "\<exists>cv' db' s. store_summary ex_doc ''so far'' {''m1''} {} {} (new_conversation ''s1'') ex_conv_db = (True, cv', db')
     \<and> map_of (cd_sessions db') ''s1'' = Some s
     \<and> cg_covered (coverage_state ex_doc db' ''s1'' s) = {''m1''}"
proof -
  obtain cv' db' where st: "store_summary ex_doc ''so far'' {''m1''} {} {} (new_conversation ''s1'') ex_conv_db
      = (True, cv', db')"
    by (simp add: store_summary_def ex_conv_db_def ex_session_def new_conversation_def Let_def)
  have "py_strip ''so far'' \<noteq> []" by code_simp
  moreover have "lib_uuid (dl_py ex_doc) (cd_uuids ex_conv_db) \<noteq> []"
    by (simp add: ex_doc_def ex_lib_def)
  moreover have "lib_uuid (dl_py ex_doc) (cd_uuids ex_conv_db) \<notin> fst ` set (cd_snaps ex_conv_db)"
    by (simp add: ex_conv_db_def)
  ultimately show ?thesis
    using stored_summary_is_read_back[OF st ex_json_lists] st by (auto simp: new_conversation_def)
qed


end
