(* ===== verification/Harness_Loop.thy ===== *)
theory Harness_Loop
  imports Conversation Mediator
begin

text \<open>
  The agent loop (\<^verbatim>\<open>harness/loop.py\<close>): the request is budgeted and compacted, the model is called,
  its tool calls go through the syscall handler, and the loop ends with a final answer, a limit or a
  failure.  Parameters are the model adapter (what it streams and how it ends, per dispatch), the
  handler (one outcome per call, of the type the mediator returns), the capability catalogue as it is
  refreshed before each turn, the tokenizer, the event receipts, the output guardrails, and what other
  tasks commit to the session before a summary is stored.  The assembly of the system prompt, request
  capture, latencies, provider names in the ledger and the release of database transactions are left
  out.
\<close>

section \<open>Interfaces\<close>

text \<open>A call as the adapter returns it.\<close>

record raw_call =
  rc_id :: pyval
  rc_name :: string
  rc_args :: "pydict option"

record response =
  rp_content :: string
  rp_thinking :: string
  rp_calls :: "raw_call list"
  rp_tokens_in :: int
  rp_tokens_out :: int
  rp_cached :: "int option"
  rp_thinking_tokens :: "int option"
  rp_cost :: rat

record model_error =
  me_type :: string
  me_text :: string
  me_timeout :: bool

text \<open>What is streamed: tokens (\<open>True\<close>) and thinking (\<open>False\<close>).  A stream may end without a response.\<close>

type_synonym deltas = "(bool \<times> string) list"

datatype reply =
    Replied deltas response
  | StreamEnded deltas
  | ModelFailed deltas model_error
  | ModelCancelled deltas

record guard_result =
  gr_content :: string
  gr_warnings :: "string list"
  gr_redactions :: "string list"

record receipt =
  rt_tool :: "string option"
  rt_assistant :: "string option"

record harness_env =
  hn_doc :: doc_lib
  hn_registry :: registry
  hn_compaction :: compaction_env
  hn_text_tokens :: "string \<Rightarrow> nat"
  hn_tool_tokens :: "pydict list \<Rightarrow> nat"
  hn_agent :: agent_config
  hn_resolved :: "pydict option"
  hn_restrictions :: "restrictions option"
  hn_session :: "string option"
  hn_has_db :: bool
  hn_streams :: bool
  hn_emits :: bool
  hn_trigger :: string
  hn_prompt :: string
  hn_names :: "nat \<Rightarrow> string list"
  hn_loaded :: "nat \<Rightarrow> string list"
  hn_model :: "nat \<Rightarrow> message list \<Rightarrow> pydict list \<Rightarrow> reply"
  hn_tool :: "nat \<Rightarrow> nat \<Rightarrow> tool_call \<Rightarrow> mediation"
  hn_receipt :: "string \<Rightarrow> receipt option"
  hn_guard :: "string \<Rightarrow> guard_result"
  hn_between :: "nat \<Rightarrow> conv_db \<Rightarrow> conv_db"
  hn_store_raises :: "nat \<Rightarrow> bool"
  hn_terminals :: "string list"


section \<open>State\<close>

record call_made =
  cm_id :: string
  cm_name :: string
  cm_args :: pydict
  cm_allowed :: bool
  cm_status :: string
  cm_result :: pyval

record run_result =
  rr_answer :: string
  rr_turns :: int
  rr_tokens_in :: int
  rr_tokens_out :: int
  rr_cached :: "int option"
  rr_thinking :: "int option"
  rr_cost :: rat
  rr_calls :: "call_made list"
  rr_status :: string
  rr_error :: "string option"
  rr_warnings :: "string list"
  rr_redactions :: "string list"
  rr_context_tokens :: int
  rr_max_context :: int
  rr_compacted :: bool
  rr_breakdown :: "(string \<times> int) list"
  rr_loaded :: "string list"
  rr_terminals :: "string list"

definition new_result :: run_result where
  "new_result = \<lparr>rr_answer = [], rr_turns = 0, rr_tokens_in = 0, rr_tokens_out = 0, rr_cached = None,
     rr_thinking = None, rr_cost = 0, rr_calls = [], rr_status = ''completed'', rr_error = None,
     rr_warnings = [], rr_redactions = [], rr_context_tokens = 0, rr_max_context = 0,
     rr_compacted = False, rr_breakdown = [], rr_loaded = [], rr_terminals = []\<rparr>"

text \<open>A ledger row of one model request.\<close>

record ledger_row =
  ml_turn :: int
  ml_status :: string
  ml_purpose :: string
  ml_tokens_in :: int
  ml_tokens_out :: int
  ml_cost :: rat
  ml_error :: "string option"

text \<open>
  The variables of the loop.  The row of the current user message is an object the code finds by
  identity: here it is its index.  \<open>lp_requests\<close> is the trace of the dispatched requests.
\<close>

record loop_state =
  lp_history :: "message list"
  lp_conv :: conversation
  lp_user :: "nat option"
  lp_schemas :: "pydict list"
  lp_result :: run_result
  lp_failures :: int
  lp_retried :: bool
  lp_bad :: "string set"
  lp_db :: conv_db
  lp_stores :: nat
  lp_uuids :: nat
  lp_events :: "(string \<times> pydict) list"
  lp_ledger :: "ledger_row list"
  lp_requests :: "(message list \<times> pydict list) list"

definition on_result :: "(run_result \<Rightarrow> run_result) \<Rightarrow> loop_state \<Rightarrow> loop_state" where
  "on_result f st = st\<lparr>lp_result := f (lp_result st)\<rparr>"

definition emit_event :: "harness_env \<Rightarrow> string \<Rightarrow> pydict \<Rightarrow> loop_state \<Rightarrow> loop_state" where
  "emit_event H kind payload st =
     (if hn_emits H then st\<lparr>lp_events := lp_events st @ [(kind, payload)]\<rparr> else st)"

definition fail :: "string \<Rightarrow> loop_state \<Rightarrow> loop_state" where
  "fail err = on_result (\<lambda>r. r\<lparr>rr_status := ''failed'', rr_error := Some err\<rparr>)"

text \<open>A row joins the history and the conversation.\<close>

definition add_row :: "message \<Rightarrow> string set \<Rightarrow> loop_state \<Rightarrow> loop_state" where
  "add_row m ids st = st\<lparr>lp_history := lp_history st @ [m], lp_conv := append_row m ids (lp_conv st)\<rparr>"


section \<open>Context overflow\<close>

definition CONTEXT_OVERFLOW_PATTERNS :: "string list" where
  "CONTEXT_OVERFLOW_PATTERNS = [''context length'', ''context_length'', ''context window'', ''maximum context'',
     ''contextwindowexceeded'', ''too many tokens'', ''request too large'', ''reduce the length'',
     ''input is too long'', ''prompt is too long'', ''exceeds the limit'', ''exceeded the token'']"

definition is_context_overflow :: "model_error \<Rightarrow> bool" where
  "is_context_overflow e \<longleftrightarrow> me_type e = ''ContextWindowExceededError''
     \<or> list_ex (\<lambda>p. contains p (py_lower (me_text e))) CONTEXT_OVERFLOW_PATTERNS"


section \<open>Compaction and the budget gate\<close>

definition fixed_tokens :: "harness_env \<Rightarrow> loop_state \<Rightarrow> int" where
  "fixed_tokens H st = int (hn_text_tokens H (hn_prompt H)) + int (hn_tool_tokens H (lp_schemas st))"

definition conv_fingerprint :: "harness_env \<Rightarrow> conversation \<Rightarrow> string" where
  "conv_fingerprint H cv =
     (let L = dl_py (hn_doc H) in
      lib_sha256 L (concat (map (\<lambda>m. py_str L (dget m ''role'' (PStr [])) @ ''|''
        @ take 200 (py_str L (dget m ''content'' (PStr [])))) (cv_messages cv))))"

definition compaction_args_of :: "harness_env \<Rightarrow> bool \<Rightarrow> int \<Rightarrow> loop_state \<Rightarrow> compaction_args" where
  "compaction_args_of H force budget st =
     \<lparr>cp_agent = hn_agent H, cp_previous = cv_summary (lp_conv st), cp_force = force,
      cp_input_budget = Some budget, cp_resolved_model = hn_resolved H, cp_reserved = fixed_tokens H st,
      cp_source_ids = Some (map Some (cv_sources (lp_conv st))), cp_protected = lp_user st\<rparr>"

text \<open>Where the user row is after the middle of a conversation is gone.\<close>

definition moved_user :: "compaction_result \<Rightarrow> nat \<Rightarrow> nat" where
  "moved_user cr p = (if p < co_head_count cr then p else p - co_middle_count cr)"

text \<open>The conversation after a compaction; the covered identifiers are added to the earlier ones.\<close>

definition compacted_conv :: "compaction_result \<Rightarrow> conversation \<Rightarrow> conversation" where
  "compacted_conv cr cv =
     (let srcs = cv_sources cv in
      cv\<lparr>cv_messages := co_retained cr,
         cv_sources := take (co_head_count cr) srcs @ drop (length srcs - co_tail_count cr) srcs,
         cv_summary := co_summary cr, cv_covered := cv_covered cv \<union> co_covered cr\<rparr>)"

text \<open>
  Storing first: the error that stops the run, or the conversation and tables to go on with.  A
  transient conversation has no session and is not stored.
\<close>

definition persist_compaction ::
    "harness_env \<Rightarrow> compaction_result \<Rightarrow> loop_state \<Rightarrow> string + loop_state" where
  "persist_compaction H cr st =
     (let cv = lp_conv st; srcs = cv_sources cv in
      if cv_session cv = [] \<or> \<not> hn_has_db H \<or> hn_session H \<noteq> Some (cv_session cv) then Inr st
      else
        let st = st\<lparr>lp_db := hn_between H (lp_stores st) (lp_db st), lp_stores := Suc (lp_stores st)\<rparr> in
        if hn_store_raises H (lp_stores st - 1)
        then Inl ''Context compaction could not be saved; the run stopped safely.''
        else
          case store_summary (hn_doc H) (case co_summary cr of None \<Rightarrow> [] | Some s \<Rightarrow> s)
                 (cv_covered cv \<union> co_covered cr) (\<Union> (set (take (co_head_count cr) srcs)))
                 (\<Union> (set (drop (length srcs - co_tail_count cr) srcs))) cv (lp_db st) of
            (stored, cv', db) \<Rightarrow>
              if stored then Inr (st\<lparr>lp_conv := cv', lp_db := db\<rparr>)
              else Inl ''Context compaction lost a concurrent write conflict; the run stopped safely.'')"

text \<open>\<open>_apply_compaction\<close>: the error, if the run must stop, and the state.\<close>

definition apply_compaction ::
    "harness_env \<Rightarrow> bool \<Rightarrow> int \<Rightarrow> loop_state \<Rightarrow> string option \<times> loop_state" where
  "apply_compaction H force budget st =
     (let fp = conv_fingerprint H (lp_conv st) in
      if \<not> force \<and> fp \<in> lp_bad st then (None, st)
      else
        case compact_context (hn_compaction H) (compaction_args_of H force budget st)
               (cv_messages (lp_conv st)) of
          Inl e \<Rightarrow> (None, st)
        | Inr cr \<Rightarrow>
            let st = st\<lparr>lp_history := take 1 (lp_history st) @ co_messages cr\<rparr> in
            if (case co_error cr of None \<Rightarrow> False | Some e \<Rightarrow> e \<noteq> [])
            then (None, if force then st else st\<lparr>lp_bad := insert fp (lp_bad st)\<rparr>)
            else if co_compacted cr
            then (case persist_compaction H cr st of
                    Inl err \<Rightarrow> (Some err, st)
                  | Inr st \<Rightarrow>
                      (None, on_result (\<lambda>r. r\<lparr>rr_compacted := True\<rparr>)
                         (st\<lparr>lp_conv := compacted_conv cr (lp_conv st),
                             lp_user := map_option (moved_user cr) (lp_user st)\<rparr>)))
            else (None, st))"

definition budget_gate :: "harness_env \<Rightarrow> int \<Rightarrow> loop_state \<Rightarrow> string option \<times> loop_state" where
  "budget_gate H budget st =
     (if fixed_tokens H st > budget
      then (Some ''Request too large: system context and tool schemas alone exceed the model input budget.'', st)
      else
        case (if cc_auto_compaction (ac_compaction (hn_agent H)) then apply_compaction H False budget st
              else (None, st)) of
          (Some err, st) \<Rightarrow> (Some err, st)
        | (None, st) \<Rightarrow>
            let convo = int (ce_tokens (hn_compaction H) (drop 1 (lp_history st)));
                st = on_result (\<lambda>r. r\<lparr>rr_breakdown :=
                        [(''system_prompt'', int (hn_text_tokens H (hn_prompt H))), (''conversation'', convo),
                         (''tools'', int (hn_tool_tokens H (lp_schemas st)))],
                      rr_context_tokens := fixed_tokens H st + convo\<rparr>) st
            in if fixed_tokens H st + convo > budget
               then (Some (''Context exceeds the model input budget and could not be compacted - ''
                           @ ''summary generation unavailable.''), st)
               else (None, st))"



section \<open>Calling the model\<close>

definition content_payload :: "string \<Rightarrow> pydict" where
  "content_payload t = [(''content'', PStr t)]"

definition stream_deltas :: "harness_env \<Rightarrow> deltas \<Rightarrow> loop_state \<Rightarrow> loop_state" where
  "stream_deltas H ds st =
     fold (\<lambda>(is_token, t). emit_event H (if is_token then ''token'' else ''thinking'') (content_payload t)) ds st"

definition purpose :: "harness_env \<Rightarrow> string" where
  "purpose H = (if hn_trigger H = ''reflection'' then ''reflection'' else ''reasoning'')"

definition record_model_call ::
    "harness_env \<Rightarrow> string \<Rightarrow> int \<Rightarrow> int \<Rightarrow> rat \<Rightarrow> string option \<Rightarrow> loop_state \<Rightarrow> loop_state" where
  "record_model_call H status t_in t_out cost err st =
     (if hn_has_db H
      then st\<lparr>lp_ledger := lp_ledger st @ [\<lparr>ml_turn = rr_turns (lp_result st), ml_status = status,
             ml_purpose = purpose H, ml_tokens_in = t_in, ml_tokens_out = t_out, ml_cost = cost,
             ml_error = (case err of None \<Rightarrow> None | Some e \<Rightarrow> if e = [] then None else Some (take 2000 e))\<rparr>]\<rparr>
      else st)"

text \<open>The answer shown for a failed model call.\<close>

definition failure_answer :: "model_error \<Rightarrow> string" where
  "failure_answer e =
     (let msg = me_text e; low = py_lower msg in
      if contains ''429'' msg \<or> contains ''RateLimit'' msg \<or> contains ''rate'' low
      then ''The model is rate-limited right now. Please try again in a moment, or select a different model.''
      else if me_timeout e
      then ''I couldn'' @ [CHR 0x27] @ ''t complete that request because the model connection timed out. Please try again.''
      else if contains ''401'' msg \<or> contains ''Authentication'' msg \<or> contains ''auth'' low
      then ''Authentication failed - check that the provider API key is valid.''
      else if contains ''tool use'' low \<or> contains ''tool_use'' low
              \<or> (contains ''function'' low \<and> contains ''not'' low)
      then ''This model doesn'' @ [CHR 0x27] @ ''t support tool use (function calling). ''
           @ ''Please select a model that supports tools, or use a different provider.''
      else if is_context_overflow e
      then ''I ran out of context - the conversation plus recent tool results exceeded the model''
           @ [CHR 0x27] @ ''s context window and could not be compacted far enough. ''
           @ ''Start a fresh session or use a model with a larger context window.''
      else ''I couldn'' @ [CHR 0x27] @ ''t complete that request. Error: '' @ take 200 msg)"

definition account :: "response \<Rightarrow> run_result \<Rightarrow> run_result" where
  "account rp r =
     r\<lparr>rr_tokens_in := rr_tokens_in r + rp_tokens_in rp, rr_tokens_out := rr_tokens_out r + rp_tokens_out rp,
       rr_cached := rp_cached rp,
       rr_thinking := (case rp_thinking_tokens rp of
                         None \<Rightarrow> rr_thinking r
                       | Some t \<Rightarrow> Some ((case rr_thinking r of None \<Rightarrow> 0 | Some u \<Rightarrow> u) + t)),
       rr_cost := rr_cost r + rp_cost rp\<rparr>"


section \<open>The calls of a turn\<close>

definition TOOL_RESULT_MAX_CHARS :: nat where
  "TOOL_RESULT_MAX_CHARS = 50000"

definition max_consecutive_failures :: int where
  "max_consecutive_failures = 5"

text \<open>Identifiers are drawn for the calls that have none.\<close>

fun name_calls :: "harness_env \<Rightarrow> raw_call list \<Rightarrow> nat \<Rightarrow> raw_call list \<times> nat" where
  "name_calls H [] n = ([], n)"
| "name_calls H (c # cs) n =
     (if truthy (rc_id c)
      then (case name_calls H cs n of (cs, m) \<Rightarrow> (c # cs, m))
      else (case name_calls H cs (Suc n) of
              (cs, m) \<Rightarrow> (c\<lparr>rc_id := PStr (lib_uuid (dl_py (hn_doc H)) n)\<rparr> # cs, m)))"

definition call_args :: "raw_call \<Rightarrow> pydict" where
  "call_args c = (case rc_args c of None \<Rightarrow> [] | Some d \<Rightarrow> d)"

definition call_entry :: "harness_env \<Rightarrow> raw_call \<Rightarrow> pyval" where
  "call_entry H c = PDict [(''id'', rc_id c), (''type'', PStr ''function''),
     (''function'', PDict [(''name'', PStr (rc_name c)),
        (''arguments'', PStr (dl_dumps (hn_doc H) (PDict (call_args c))))])]"

definition batch_row :: "harness_env \<Rightarrow> string \<Rightarrow> raw_call list \<Rightarrow> message" where
  "batch_row H content calls = [(''role'', PStr ''assistant''), (''content'', PStr content),
     (''tool_calls'', PList (map (call_entry H) calls))]"

text \<open>The identifier of a call, as the handler's object carries it.\<close>

definition to_call :: "harness_env \<Rightarrow> raw_call \<Rightarrow> tool_call" where
  "to_call H c = \<lparr>tc_id = py_str (dl_py (hn_doc H)) (rc_id c), tc_name = rc_name c, tc_args = call_args c\<rparr>"

definition tool_event_status :: "string \<Rightarrow> string" where
  "tool_event_status outcome =
     (if outcome = ''ok'' then ''complete'' else if outcome = ''denied'' then ''denied''
      else if outcome = ''error'' then ''failed'' else if outcome = ''timeout'' then ''timeout''
      else if outcome = ''interrupted'' then ''interrupted'' else ''failed'')"

definition announce :: "harness_env \<Rightarrow> string \<Rightarrow> raw_call \<Rightarrow> loop_state \<Rightarrow> loop_state" where
  "announce H status c = emit_event H ''tool_call''
     [(''id'', rc_id c), (''capability'', PStr (rc_name c)), (''args'', PDict (call_args c)),
      (''status'', PStr status)]"

definition outcome_event ::
    "harness_env \<Rightarrow> (string \<times> nat) option \<Rightarrow> raw_call \<Rightarrow> syscall_result \<Rightarrow> loop_state \<Rightarrow> loop_state" where
  "outcome_event H batch c r = emit_event H ''tool_call''
     [(''id'', rc_id c), (''capability'', PStr (rc_name c)), (''args'', PDict (call_args c)),
      (''status'', PStr (tool_event_status (sr_status r))), (''result'', sr_output r),
      (''reason'', opt_text (sr_denied_reason r)),
      (''approval_batch_id'', case batch of None \<Rightarrow> PNone | Some (i, n) \<Rightarrow> PStr i),
      (''approval_batch_size'', case batch of None \<Rightarrow> PNone | Some (i, n) \<Rightarrow> PInt (int n))]"

definition empty_output :: "pyval \<Rightarrow> bool" where
  "empty_output v \<longleftrightarrow> v = PNone \<or> v = PStr []
     \<or> (case v of PDict d \<Rightarrow> dget d ''results'' PNone = PList [] | _ \<Rightarrow> False)"

definition truncate_result :: "string \<Rightarrow> string" where
  "truncate_result t =
     (if length t > TOOL_RESULT_MAX_CHARS
      then take TOOL_RESULT_MAX_CHARS t @ [nl, nl] @ ''[truncated - result was ''
           @ show_int (int (length t)) @ '' chars; the '' @ show_int (int TOOL_RESULT_MAX_CHARS)
           @ ''-char limit applies. Narrow the call or page through the data.]''
      else t)"

definition allowed_content :: "harness_env \<Rightarrow> syscall_result \<Rightarrow> pyval" where
  "allowed_content H r =
     (let content = (if sr_model_content r \<noteq> PNone then sr_model_content r
                     else PStr (if truthy (sr_output r) then dl_dumps (hn_doc H) (sr_output r) else []))
      in case content of PStr t \<Rightarrow> PStr (truncate_result t) | v \<Rightarrow> v)"

definition result_row :: "harness_env \<Rightarrow> raw_call \<Rightarrow> syscall_result \<Rightarrow> message" where
  "result_row H c r =
     [(''role'', PStr ''tool''),
      (''content'',
         if sr_allowed r then allowed_content H r
         else PStr (outcome_prefix (sr_status r) @ '': ''
                    @ (case sr_denied_reason r of None \<Rightarrow> ''None'' | Some t \<Rightarrow> t))),
      (''tool_call_id'', rc_id c), (''name'', PStr (rc_name c))]"

definition next_failures :: "syscall_result \<Rightarrow> int \<Rightarrow> int" where
  "next_failures r n = (if sr_allowed r \<and> \<not> empty_output (sr_output r) then 0 else n + 1)"

definition some_text :: "string option \<Rightarrow> string set" where
  "some_text t = (case t of None \<Rightarrow> {} | Some i \<Rightarrow> if i = [] then {} else {i})"

definition receipt_of :: "harness_env \<Rightarrow> raw_call \<Rightarrow> receipt option" where
  "receipt_of H c = (if hn_emits H then hn_receipt H (py_str (dl_py (hn_doc H)) (rc_id c)) else None)"

definition tool_ids :: "harness_env \<Rightarrow> raw_call \<Rightarrow> string set" where
  "tool_ids H c = (case receipt_of H c of None \<Rightarrow> {} | Some r \<Rightarrow> some_text (rt_tool r))"

definition batch_ids :: "harness_env \<Rightarrow> raw_call list \<Rightarrow> string set" where
  "batch_ids H calls =
     \<Union> (set (map (\<lambda>c. case receipt_of H c of None \<Rightarrow> {}
                        | Some r \<Rightarrow> some_text (rt_tool r) \<union> some_text (rt_assistant r)) calls))"

definition process_result ::
    "harness_env \<Rightarrow> (string \<times> nat) option \<Rightarrow> raw_call \<times> syscall_result \<Rightarrow> loop_state \<Rightarrow> loop_state" where
  "process_result H batch cr st =
     (case cr of (c, r) \<Rightarrow>
        let st = outcome_event H batch c r st;
            st = on_result (\<lambda>rr. rr\<lparr>rr_calls := rr_calls rr @ [\<lparr>cm_id = tc_id (to_call H c), cm_name = rc_name c,
                   cm_args = call_args c, cm_allowed = sr_allowed r, cm_status = sr_status r,
                   cm_result = sr_output r\<rparr>]\<rparr>) st;
            st = st\<lparr>lp_failures := next_failures r (lp_failures st)\<rparr>
        in add_row (result_row H c r) (tool_ids H c) st)"

definition note_row :: "int \<Rightarrow> message" where
  "note_row n = [(''role'', PStr ''user''), (''content'', PStr (''Note: '' @ show_int n
     @ '' consecutive tool calls returned empty or failed results. Stop calling tools and respond with what you know.''))]"

definition turn_complete :: "harness_env \<Rightarrow> response \<Rightarrow> loop_state \<Rightarrow> loop_state" where
  "turn_complete H rp st =
     (let r = lp_result st in
      emit_event H ''turn_complete''
        [(''turn_number'', PInt (rr_turns r)), (''tokens_in'', PInt (rp_tokens_in rp)),
         (''tokens_out'', PInt (rp_tokens_out rp)),
         (''cached_tokens'', case rp_cached rp of None \<Rightarrow> PNone | Some i \<Rightarrow> PInt i),
         (''cost'', PFloat (rp_cost rp)), (''loaded_capabilities'', PList (map PStr (rr_loaded r))),
         (''context_breakdown'', PDict (map (\<lambda>(k, v). (k, PInt v)) (rr_breakdown r)))] st)"

text \<open>The outcomes of the concurrent calls; the first that raises or is cancelled ends the run.\<close>

fun all_results :: "mediation list \<Rightarrow> mediation + syscall_result list" where
  "all_results [] = Inr []"
| "all_results (MedResult r # ms) = sbind (all_results ms) (\<lambda>rs. Inr (r # rs))"
| "all_results (m # ms) = Inl m"

datatype turn_end =
    NextTurn loop_state
  | LeaveLoop loop_state
  | ReturnNow loop_state
  | Escapes mediation loop_state

text \<open>The batch row, with the calls that were announced; the index of its source set.\<close>

definition open_batch :: "harness_env \<Rightarrow> response \<Rightarrow> raw_call list \<Rightarrow> loop_state \<Rightarrow> loop_state" where
  "open_batch H rp calls st =
     fold (announce H ''running'') calls
       (fold (announce H ''pending'') calls (add_row (batch_row H (rp_content rp) calls) {} st))"

definition draw_batch :: "harness_env \<Rightarrow> raw_call list \<Rightarrow> loop_state \<Rightarrow> (string \<times> nat) option \<times> loop_state" where
  "draw_batch H calls st =
     (if hn_restrictions H = None \<and> approval_batch_for (map (\<lambda>c. tc_id (to_call H c)) calls) \<noteq> None
      then (Some (lib_uuid (dl_py (hn_doc H)) (lp_uuids st), length calls), st\<lparr>lp_uuids := Suc (lp_uuids st)\<rparr>)
      else (None, st))"

definition close_batch :: "harness_env \<Rightarrow> nat \<Rightarrow> raw_call list \<Rightarrow> loop_state \<Rightarrow> loop_state" where
  "close_batch H idx calls st =
     (let st = (if batch_ids H calls \<noteq> {}
                then st\<lparr>lp_conv := (lp_conv st)\<lparr>cv_sources := (cv_sources (lp_conv st))[idx := batch_ids H calls]\<rparr>\<rparr>
                else st)
      in if lp_failures st \<ge> max_consecutive_failures then add_row (note_row (lp_failures st)) {} st else st)"

definition run_calls :: "harness_env \<Rightarrow> nat \<Rightarrow> response \<Rightarrow> loop_state \<Rightarrow> turn_end" where
  "run_calls H n rp st =
     (case name_calls H (rp_calls rp) (lp_uuids st) of
        (calls, uuids) \<Rightarrow>
          let st = open_batch H rp calls (st\<lparr>lp_uuids := uuids\<rparr>);
              idx = length (cv_sources (lp_conv st)) - 1
          in case draw_batch H calls st of
               (batch, st) \<Rightarrow>
                 (case all_results (map (\<lambda>(k, c). hn_tool H n k (to_call H c)) (enumerate 0 calls)) of
                    Inl m \<Rightarrow> Escapes m st
                  | Inr rs \<Rightarrow>
                      let st = close_batch H idx calls (fold (process_result H batch) (zip calls rs) st);
                          st = on_result (\<lambda>r. r\<lparr>rr_loaded := hn_loaded H (Suc n)\<rparr>) st
                      in NextTurn (turn_complete H rp st)))"


section \<open>The final answer\<close>

definition max_cost :: "harness_env \<Rightarrow> rat" where
  "max_cost H =
     (if hn_trigger H = ''heartbeat'' then hb_max_cost_per_heartbeat (ac_heartbeat (hn_agent H))
      else lim_max_cost_per_run (ac_limits (hn_agent H)))"

definition max_turns :: "harness_env \<Rightarrow> int" where
  "max_turns H = lim_max_turns_per_run (ac_limits (hn_agent H))"

definition final_answer :: "harness_env \<Rightarrow> response \<Rightarrow> loop_state \<Rightarrow> loop_state" where
  "final_answer H rp st =
     (let g = hn_guard H (rp_content rp);
          st = add_row [(''role'', PStr ''assistant''), (''content'', PStr (rp_content rp))] {} st;
          st = on_result (\<lambda>r. r\<lparr>rr_answer := gr_content g, rr_warnings := gr_warnings g,
                                rr_redactions := gr_redactions g\<rparr>) st;
          st = (if \<not> hn_streams H then emit_event H ''token'' (content_payload (gr_content g)) st
                else if gr_content g \<noteq> rp_content rp
                then emit_event H ''guardrail_correction'' (content_payload (gr_content g)) st else st);
          st = (if gr_warnings g \<noteq> []
                then emit_event H ''guardrail_warning'' [(''warnings'', PList (map PStr (gr_warnings g)))] st
                else st);
          st = turn_complete H rp st
      in if rr_cost (lp_result st) > max_cost H
         then on_result (\<lambda>r. r\<lparr>rr_status := ''limit_exceeded'',
                               rr_answer := limit_policy_text (ac_on_limit (hn_agent H))\<rparr>) st
         else st)"



section \<open>One turn\<close>

definition begin_turn :: "harness_env \<Rightarrow> nat \<Rightarrow> loop_state \<Rightarrow> loop_state" where
  "begin_turn H n st =
     on_result (\<lambda>r. r\<lparr>rr_turns := rr_turns r + 1\<rparr>)
       (st\<lparr>lp_schemas := assemble_tool_schemas (hn_registry H) (hn_agent H) (Some (hn_names H n))\<rparr>)"

text \<open>A failed call: one forced compaction and a retry of the turn, or the end of the run.\<close>

definition give_up :: "harness_env \<Rightarrow> model_error \<Rightarrow> loop_state \<Rightarrow> loop_state" where
  "give_up H e st =
     on_result (\<lambda>r. r\<lparr>rr_answer := failure_answer e\<rparr>)
       (fail (me_text e)
         (record_model_call H (if me_timeout e then ''timeout'' else ''error'') 0 0 0 (Some (me_text e)) st))"

definition model_failed :: "harness_env \<Rightarrow> int \<Rightarrow> model_error \<Rightarrow> loop_state \<Rightarrow> turn_end" where
  "model_failed H budget e st =
     (if hn_restrictions H = None \<and> \<not> lp_retried st \<and> is_context_overflow e
      then
        case apply_compaction H True budget (st\<lparr>lp_retried := True\<rparr>) of
          (Some err, st) \<Rightarrow> LeaveLoop (fail err st)
        | (None, st) \<Rightarrow>
            if rr_compacted (lp_result st)
            then NextTurn (on_result (\<lambda>r. r\<lparr>rr_turns := rr_turns r - 1\<rparr>) st)
            else ReturnNow (give_up H e st)
      else ReturnNow (give_up H e st))"

definition model_replied :: "harness_env \<Rightarrow> nat \<Rightarrow> response \<Rightarrow> loop_state \<Rightarrow> turn_end" where
  "model_replied H n rp st =
     (let st = (if \<not> hn_streams H \<and> rp_thinking rp \<noteq> []
                then emit_event H ''thinking'' (content_payload (rp_thinking rp)) st else st);
          st = record_model_call H ''ok'' (rp_tokens_in rp) (rp_tokens_out rp) (rp_cost rp) None
                 (on_result (account rp) st)
      in if rp_calls rp \<noteq> [] then run_calls H n rp st else LeaveLoop (final_answer H rp st))"

definition stream_error :: model_error where
  "stream_error = \<lparr>me_type = ''RuntimeError'',
     me_text = ''Streaming ended without a '' @ [CHR 0x27] @ ''done'' @ [CHR 0x27] @ '' event'',
     me_timeout = False\<rparr>"

definition dispatch :: "harness_env \<Rightarrow> nat \<Rightarrow> int \<Rightarrow> loop_state \<Rightarrow> turn_end" where
  "dispatch H n budget st =
     (let st = emit_event H ''typing'' [] st;
          st = st\<lparr>lp_requests := lp_requests st @ [(lp_history st, lp_schemas st)]\<rparr>;
          stream = (\<lambda>ds. if hn_streams H then stream_deltas H ds st else st)
      in case hn_model H n (lp_history st) (lp_schemas st) of
           Replied ds rp \<Rightarrow> model_replied H n rp (stream ds)
         | StreamEnded ds \<Rightarrow> model_failed H budget stream_error (stream ds)
         | ModelFailed ds e \<Rightarrow> model_failed H budget e (stream ds)
         | ModelCancelled ds \<Rightarrow>
             Escapes MedCancelled (record_model_call H ''interrupted'' 0 0 0 (Some ''CancelledError'') (stream ds)))"

definition take_turn :: "harness_env \<Rightarrow> int \<Rightarrow> loop_state \<Rightarrow> turn_end" where
  "take_turn H budget st =
     (if rr_cost (lp_result st) \<ge> max_cost H
      then LeaveLoop (on_result (\<lambda>r. r\<lparr>rr_status := ''limit_exceeded'',
             rr_error := Some ''Run cost limit reached before model dispatch''\<rparr>) st)
      else
        let n = length (lp_requests st) in
        case budget_gate H budget (begin_turn H n st) of
          (err, st) \<Rightarrow>
            let st = on_result (\<lambda>r. r\<lparr>rr_loaded := hn_loaded H n\<rparr>) st in
            (case err of Some e \<Rightarrow> LeaveLoop (fail e st) | None \<Rightarrow> dispatch H n budget st))"


section \<open>The loop\<close>

text \<open>What a turn does to the turn counter and the retry flag.\<close>

definition turns_left :: "harness_env \<Rightarrow> loop_state \<Rightarrow> nat" where
  "turns_left H st = 2 * nat (max_turns H - rr_turns (lp_result st)) + (if lp_retried st then 0 else 1)"

lemma emit_event_simps [simp]:
  "lp_result (emit_event H k p st) = lp_result st" "lp_retried (emit_event H k p st) = lp_retried st"
  "lp_history (emit_event H k p st) = lp_history st" "lp_conv (emit_event H k p st) = lp_conv st"
  "lp_requests (emit_event H k p st) = lp_requests st" "lp_user (emit_event H k p st) = lp_user st"
  "lp_schemas (emit_event H k p st) = lp_schemas st" "lp_failures (emit_event H k p st) = lp_failures st"
  "lp_uuids (emit_event H k p st) = lp_uuids st" "lp_db (emit_event H k p st) = lp_db st"
  by (simp_all add: emit_event_def)

lemma on_result_simps [simp]:
  "lp_result (on_result f st) = f (lp_result st)" "lp_retried (on_result f st) = lp_retried st"
  "lp_history (on_result f st) = lp_history st" "lp_conv (on_result f st) = lp_conv st"
  "lp_requests (on_result f st) = lp_requests st" "lp_user (on_result f st) = lp_user st"
  "lp_schemas (on_result f st) = lp_schemas st" "lp_failures (on_result f st) = lp_failures st"
  "lp_uuids (on_result f st) = lp_uuids st" "lp_db (on_result f st) = lp_db st"
  by (simp_all add: on_result_def)

lemma add_row_simps [simp]:
  "lp_result (add_row m ids st) = lp_result st" "lp_retried (add_row m ids st) = lp_retried st"
  "lp_history (add_row m ids st) = lp_history st @ [m]" "lp_requests (add_row m ids st) = lp_requests st"
  "lp_user (add_row m ids st) = lp_user st" "lp_failures (add_row m ids st) = lp_failures st"
  "cv_messages (lp_conv (add_row m ids st)) = cv_messages (lp_conv st) @ [m]"
  "cv_sources (lp_conv (add_row m ids st)) = cv_sources (lp_conv st) @ [ids]"
  "cv_summary (lp_conv (add_row m ids st)) = cv_summary (lp_conv st)"
  by (simp_all add: add_row_def append_row_def)

lemma record_model_call_simps [simp]:
  "lp_result (record_model_call H s a b c e st) = lp_result st"
  "lp_retried (record_model_call H s a b c e st) = lp_retried st"
  "lp_history (record_model_call H s a b c e st) = lp_history st"
  "lp_conv (record_model_call H s a b c e st) = lp_conv st"
  "lp_requests (record_model_call H s a b c e st) = lp_requests st"
  "lp_uuids (record_model_call H s a b c e st) = lp_uuids st"
  by (simp_all add: record_model_call_def)

lemma stream_deltas_simps [simp]:
  "lp_result (stream_deltas H ds st) = lp_result st" "lp_retried (stream_deltas H ds st) = lp_retried st"
  "lp_history (stream_deltas H ds st) = lp_history st" "lp_conv (stream_deltas H ds st) = lp_conv st"
  "lp_requests (stream_deltas H ds st) = lp_requests st" "lp_uuids (stream_deltas H ds st) = lp_uuids st"
  unfolding stream_deltas_def by (induction ds arbitrary: st) (auto split: prod.split)

lemma persist_compaction_keeps:
  "persist_compaction H cr st = Inr st' \<Longrightarrow>
     lp_result st' = lp_result st \<and> lp_retried st' = lp_retried st \<and> lp_history st' = lp_history st
     \<and> lp_requests st' = lp_requests st \<and> lp_user st' = lp_user st \<and> lp_schemas st' = lp_schemas st
     \<and> cv_sources (lp_conv st') = cv_sources (lp_conv st) \<and> cv_messages (lp_conv st') = cv_messages (lp_conv st)"
  unfolding persist_compaction_def Let_def
  by (auto split: if_splits prod.splits simp: store_summary_def Let_def split: option.splits)

lemma apply_compaction_keeps:
  assumes "apply_compaction H force budget st = (err, st')"
  shows "rr_turns (lp_result st') = rr_turns (lp_result st) \<and> lp_retried st' = lp_retried st
    \<and> lp_requests st' = lp_requests st \<and> rr_cost (lp_result st') = rr_cost (lp_result st)
    \<and> lp_schemas st' = lp_schemas st \<and> rr_answer (lp_result st') = rr_answer (lp_result st)"
  using assms unfolding apply_compaction_def Let_def
  by (auto split: if_splits sum.splits dest: persist_compaction_keeps)

lemma budget_gate_keeps:
  assumes "budget_gate H budget st = (err, st')"
  shows "rr_turns (lp_result st') = rr_turns (lp_result st) \<and> lp_retried st' = lp_retried st
    \<and> lp_requests st' = lp_requests st \<and> rr_cost (lp_result st') = rr_cost (lp_result st)
    \<and> lp_schemas st' = lp_schemas st \<and> rr_answer (lp_result st') = rr_answer (lp_result st)"
  using assms unfolding budget_gate_def Let_def
  by (auto split: if_splits option.splits prod.splits dest: apply_compaction_keeps)



lemma process_result_simps [simp]:
  "rr_turns (lp_result (process_result H b cr st)) = rr_turns (lp_result st)"
  "rr_cost (lp_result (process_result H b cr st)) = rr_cost (lp_result st)"
  "rr_answer (lp_result (process_result H b cr st)) = rr_answer (lp_result st)"
  "lp_retried (process_result H b cr st) = lp_retried st"
  "lp_requests (process_result H b cr st) = lp_requests st"
  by (simp_all add: process_result_def outcome_event_def Let_def split: prod.split)

lemma process_results_simps [simp]:
  "rr_turns (lp_result (fold (process_result H b) crs st)) = rr_turns (lp_result st)"
  "rr_cost (lp_result (fold (process_result H b) crs st)) = rr_cost (lp_result st)"
  "rr_answer (lp_result (fold (process_result H b) crs st)) = rr_answer (lp_result st)"
  "lp_retried (fold (process_result H b) crs st) = lp_retried st"
  "lp_requests (fold (process_result H b) crs st) = lp_requests st"
  by (induction crs arbitrary: st) simp_all

lemma announce_simps [simp]:
  "lp_result (fold (announce H k) cs st) = lp_result st" "lp_retried (fold (announce H k) cs st) = lp_retried st"
  "lp_requests (fold (announce H k) cs st) = lp_requests st" "lp_history (fold (announce H k) cs st) = lp_history st"
  "lp_conv (fold (announce H k) cs st) = lp_conv st" "lp_failures (fold (announce H k) cs st) = lp_failures st"
  by (induction cs arbitrary: st) (simp_all add: announce_def)

lemma close_batch_simps [simp]:
  "lp_result (close_batch H i cs st) = lp_result st" "lp_retried (close_batch H i cs st) = lp_retried st"
  "lp_requests (close_batch H i cs st) = lp_requests st"
  by (simp_all add: close_batch_def Let_def)

lemma turn_complete_simps [simp]:
  "lp_result (turn_complete H rp st) = lp_result st" "lp_retried (turn_complete H rp st) = lp_retried st"
  "lp_requests (turn_complete H rp st) = lp_requests st" "lp_history (turn_complete H rp st) = lp_history st"
  "lp_conv (turn_complete H rp st) = lp_conv st"
  by (simp_all add: turn_complete_def Let_def)

lemma draw_batch_simps:
  "draw_batch H calls st = (b, st') \<Longrightarrow> lp_result st' = lp_result st \<and> lp_retried st' = lp_retried st
     \<and> lp_requests st' = lp_requests st \<and> lp_history st' = lp_history st \<and> lp_conv st' = lp_conv st
     \<and> lp_failures st' = lp_failures st"
  by (auto simp: draw_batch_def split: if_splits)

lemma open_batch_simps [simp]:
  "lp_result (open_batch H rp calls st) = lp_result st" "lp_retried (open_batch H rp calls st) = lp_retried st"
  "lp_requests (open_batch H rp calls st) = lp_requests st"
  by (simp_all add: open_batch_def)

lemma run_calls_next:
  assumes "run_calls H n rp st = NextTurn st'"
  shows "rr_turns (lp_result st') = rr_turns (lp_result st) \<and> lp_retried st' = lp_retried st
    \<and> lp_requests st' = lp_requests st \<and> rr_cost (lp_result st') = rr_cost (lp_result st)
    \<and> rr_answer (lp_result st') = rr_answer (lp_result st)"
  using assms unfolding run_calls_def
  by (auto simp: Let_def split: prod.splits sum.splits dest: draw_batch_simps)

lemma model_replied_next:
  assumes "model_replied H n rp st = NextTurn st'"
  shows "rr_turns (lp_result st') = rr_turns (lp_result st) \<and> lp_retried st' = lp_retried st
    \<and> lp_requests st' = lp_requests st \<and> rr_cost (lp_result st') = rr_cost (lp_result st) + rp_cost rp
    \<and> rr_answer (lp_result st') = rr_answer (lp_result st)"
  using assms unfolding model_replied_def
  by (auto simp: Let_def account_def split: if_splits dest!: run_calls_next)

lemma model_failed_next:
  assumes "model_failed H budget e st = NextTurn st'"
  shows "rr_turns (lp_result st') = rr_turns (lp_result st) - 1 \<and> \<not> lp_retried st \<and> lp_retried st'
    \<and> lp_requests st' = lp_requests st \<and> rr_cost (lp_result st') = rr_cost (lp_result st)
    \<and> rr_answer (lp_result st') = rr_answer (lp_result st)"
  using assms unfolding model_failed_def
  by (auto split: if_splits prod.splits option.splits dest!: apply_compaction_keeps)

text \<open>A turn that goes on has counted one turn, or has used up the one retry.\<close>

lemma take_turn_next:
  assumes "take_turn H budget st = NextTurn st'"
  shows "(rr_turns (lp_result st') = rr_turns (lp_result st) + 1 \<and> lp_retried st' = lp_retried st
          \<or> rr_turns (lp_result st') = rr_turns (lp_result st) \<and> \<not> lp_retried st \<and> lp_retried st')
    \<and> length (lp_requests st') = Suc (length (lp_requests st))
    \<and> rr_answer (lp_result st') = rr_answer (lp_result st)"
proof -
  obtain err d where g: "budget_gate H budget (begin_turn H (length (lp_requests st)) st) = (err, d)"
    by fastforce
  note k = budget_gate_keeps[OF g]
  from assms g have err: "err = None"
    and dis: "dispatch H (length (lp_requests st)) budget
      (on_result (\<lambda>r. r\<lparr>rr_loaded := hn_loaded H (length (lp_requests st))\<rparr>) d) = NextTurn st'"
    by (auto simp: take_turn_def Let_def split: if_splits option.splits)
  from dis k show ?thesis
    unfolding dispatch_def Let_def begin_turn_def
    by (auto split: reply.splits dest!: model_replied_next model_failed_next split: if_splits)
qed

lemma take_turn_measure:
  assumes "take_turn H budget st = NextTurn st'" "rr_turns (lp_result st) < max_turns H"
  shows "turns_left H st' < turns_left H st"
  using take_turn_next[OF assms(1)] assms(2) by (auto simp: turns_left_def)

function run_loop :: "harness_env \<Rightarrow> int \<Rightarrow> loop_state \<Rightarrow> turn_end" where
  "run_loop H budget st =
     (if rr_turns (lp_result st) < max_turns H
      then (case take_turn H budget st of NextTurn st' \<Rightarrow> run_loop H budget st' | e \<Rightarrow> e)
      else LeaveLoop st)"
  by pat_completeness auto
termination
  by (relation "measure (\<lambda>(H, budget, st). turns_left H st)") (auto simp: take_turn_measure)

declare run_loop.simps [simp del]

definition end_run :: "harness_env \<Rightarrow> loop_state \<Rightarrow> loop_state" where
  "end_run H st =
     (let st = (if rr_turns (lp_result st) \<ge> max_turns H \<and> rr_answer (lp_result st) = []
                then on_result (\<lambda>r. r\<lparr>rr_status := ''limit_exceeded'',
                       rr_answer := ''I'' @ [CHR 0x27] @ ''ve reached my turn limit for this run.''\<rparr>) st
                else st)
      in if hn_terminals H \<noteq> []
         then emit_event H ''terminals_active'' [(''terminal_ids'', PList (map PStr (hn_terminals H)))]
                (on_result (\<lambda>r. r\<lparr>rr_terminals := hn_terminals H\<rparr>) st)
         else st)"

text \<open>What the caller of a run gets: its result, or the exception that left the loop.\<close>

datatype run_end = RunReturned loop_state | RunEscaped mediation loop_state

fun leave :: "harness_env \<Rightarrow> turn_end \<Rightarrow> run_end" where
  "leave H (NextTurn st) = RunReturned (end_run H st)"
| "leave H (LeaveLoop st) = RunReturned (end_run H st)"
| "leave H (ReturnNow st) = RunReturned st"
| "leave H (Escapes m st) = RunEscaped m st"

text \<open>
  The start: a loaded conversation gets the user row under its stored identifier, a transient caller's
  one is built from the recent rows.
\<close>

record run_input =
  in_message :: string
  in_attachments :: "attachment list"
  in_recent :: "stored_message list"
  in_conversation :: "conversation option"
  in_message_id :: "string option"
  in_db :: conv_db

definition start_conversation :: "harness_env \<Rightarrow> run_input \<Rightarrow> conversation" where
  "start_conversation H inp =
     (case in_conversation inp of
        Some cv \<Rightarrow> append_row (user_row (dl_py (hn_doc H)) (in_message inp) (in_attachments inp))
                     (some_text (in_message_id inp)) cv
      | None \<Rightarrow>
          let rows = tl (build_message_history (hn_doc H) (hn_prompt H) (in_recent inp) (in_message inp)
                           (in_attachments inp))
          in (new_conversation [])\<lparr>cv_messages := rows, cv_sources := map (\<lambda>m. {}) rows\<rparr>)"

definition start_state :: "harness_env \<Rightarrow> run_input \<Rightarrow> int \<Rightarrow> loop_state" where
  "start_state H inp budget =
     (let cv = start_conversation H inp in
      \<lparr>lp_history = system_row (hn_prompt H) # render cv, lp_conv = cv,
       lp_user = Some (length (cv_messages cv) - 1), lp_schemas = [],
       lp_result = new_result\<lparr>rr_max_context := budget\<rparr>, lp_failures = 0, lp_retried = False, lp_bad = {},
       lp_db = in_db inp, lp_stores = 0, lp_uuids = 0, lp_events = [], lp_ledger = [], lp_requests = []\<rparr>)"

definition input_budget_of :: "harness_env \<Rightarrow> budget_error + input_budget" where
  "input_budget_of H =
     resolve_input_budget (hn_resolved H) (mc_max_context_tokens (ac_model (hn_agent H)))
       (lim_max_context_tokens (ac_limits (hn_agent H))) (mc_max_tokens (ac_model (hn_agent H)))"

definition run_harness :: "harness_env \<Rightarrow> run_input \<Rightarrow> run_end" where
  "run_harness H inp =
     (case input_budget_of H of
        Inl e \<Rightarrow> RunReturned (fail
          (''Model context/output budget is invalid - check the agent'' @ [CHR 0x27] @ ''s model limits'')
          (start_state H inp 0))
      | Inr b \<Rightarrow> leave H (run_loop H (ib_tokens b) (start_state H inp (ib_tokens b))))"

end
