(* ===== verification/Harness_Safety.thy ===== *)
theory Harness_Safety
  imports Harness_Loop
begin

text \<open>
  What the agent loop guarantees of the requests it sends and of its own end: every request is
  well paired and within the model's input budget, the number of model calls and the cost are
  bounded, and the retry after an overflow happens at most once.
\<close>

section \<open>Reasoning about the loop\<close>

fun end_state :: "turn_end \<Rightarrow> loop_state" where
  "end_state (NextTurn st) = st"
| "end_state (LeaveLoop st) = st"
| "end_state (ReturnNow st) = st"
| "end_state (Escapes m st) = st"

fun final_state :: "run_end \<Rightarrow> loop_state" where
  "final_state (RunReturned st) = st"
| "final_state (RunEscaped m st) = st"

text \<open>A contract for the turns of a run: an invariant between turns and what holds when one ends.\<close>

locale turn_contract =
  fixes H :: harness_env and budget :: int and I :: "loop_state \<Rightarrow> bool" and Q :: "turn_end \<Rightarrow> bool"
  assumes next_turn: "I st \<Longrightarrow> rr_turns (lp_result st) < max_turns H \<Longrightarrow>
      take_turn H budget st = NextTurn st' \<Longrightarrow> I st'"
    and last_turn: "I st \<Longrightarrow> rr_turns (lp_result st) < max_turns H \<Longrightarrow> Q (take_turn H budget st)"
    and no_turn: "I st \<Longrightarrow> max_turns H \<le> rr_turns (lp_result st) \<Longrightarrow> Q (LeaveLoop st)"
begin

lemma run_end: "I st \<Longrightarrow> Q (run_loop H budget st)"
proof (induction "turns_left H st" arbitrary: st rule: less_induct)
  case less
  show ?case
  proof (cases "rr_turns (lp_result st) < max_turns H")
    case False
    then show ?thesis using less.prems no_turn[of st] by (simp add: run_loop.simps[of H])
  next
    case True
    note last = last_turn[OF less.prems True]
    show ?thesis
    proof (cases "take_turn H budget st")
      case (NextTurn st')
      have "Q (run_loop H budget st')"
        using less.hyps[OF take_turn_measure[OF NextTurn True]] next_turn[OF less.prems True NextTurn]
        by blast
      with NextTurn True show ?thesis by (simp add: run_loop.simps[of H budget st])
    qed (use True last in \<open>simp_all add: run_loop.simps[of H budget st]\<close>)
  qed
qed

end


section \<open>The requests of a turn\<close>

lemma give_up_simps [simp]:
  "lp_requests (give_up H e st) = lp_requests st" "rr_cost (lp_result (give_up H e st)) = rr_cost (lp_result st)"
  by (simp_all add: give_up_def fail_def)

lemma fail_simps [simp]:
  "lp_requests (fail e st) = lp_requests st" "rr_cost (lp_result (fail e st)) = rr_cost (lp_result st)"
  "lp_history (fail e st) = lp_history st" "lp_conv (fail e st) = lp_conv st"
  by (simp_all add: fail_def)

lemma final_answer_requests [simp]: "lp_requests (final_answer H rp st) = lp_requests st"
  by (simp add: final_answer_def Let_def)

lemma final_answer_cost [simp]: "rr_cost (lp_result (final_answer H rp st)) = rr_cost (lp_result st)"
  by (simp add: final_answer_def Let_def)

lemma run_calls_end:
  "lp_requests (end_state (run_calls H n rp st)) = lp_requests st
   \<and> rr_cost (lp_result (end_state (run_calls H n rp st))) = rr_cost (lp_result st)"
  unfolding run_calls_def by (auto simp: Let_def split: prod.split sum.split dest: draw_batch_simps)

lemma model_replied_end:
  "lp_requests (end_state (model_replied H n rp st)) = lp_requests st
   \<and> rr_cost (lp_result (end_state (model_replied H n rp st))) = rr_cost (lp_result st) + rp_cost rp"
  using run_calls_end unfolding model_replied_def by (simp add: Let_def account_def)

lemma model_failed_end:
  "lp_requests (end_state (model_failed H budget e st)) = lp_requests st
   \<and> rr_cost (lp_result (end_state (model_failed H budget e st))) = rr_cost (lp_result st)"
  unfolding model_failed_def
  by (auto split: prod.split option.split dest!: apply_compaction_keeps)

text \<open>The state in which a turn dispatches: past the cost check and the gate.\<close>

definition dispatches :: "harness_env \<Rightarrow> int \<Rightarrow> loop_state \<Rightarrow> loop_state \<Rightarrow> bool" where
  "dispatches H budget st d \<longleftrightarrow>
     \<not> rr_cost (lp_result st) \<ge> max_cost H
     \<and> budget_gate H budget (begin_turn H (length (lp_requests st)) st) = (None, d)"

lemma take_turn_cases:
  obtains (dispatched) d where "dispatches H budget st d"
      "take_turn H budget st = dispatch H (length (lp_requests st)) budget
         (on_result (\<lambda>r. r\<lparr>rr_loaded := hn_loaded H (length (lp_requests st))\<rparr>) d)"
      "lp_requests (end_state (take_turn H budget st)) = lp_requests st @ [(lp_history d, lp_schemas d)]"
    | (ended) "lp_requests (end_state (take_turn H budget st)) = lp_requests st"
      "rr_cost (lp_result (end_state (take_turn H budget st))) = rr_cost (lp_result st)"
      "\<forall>st'. take_turn H budget st \<noteq> NextTurn st'"
proof (cases "rr_cost (lp_result st) \<ge> max_cost H")
  case True
  then show thesis by (intro ended) (simp_all add: take_turn_def)
next
  case False
  obtain err d where g: "budget_gate H budget (begin_turn H (length (lp_requests st)) st) = (err, d)"
    by fastforce
  note k = budget_gate_keeps[OF g]
  show thesis
  proof (cases err)
    case (Some e)
    then show thesis
      using False g k by (intro ended) (simp_all add: take_turn_def Let_def begin_turn_def)
  next
    case None
    let ?d = "on_result (\<lambda>r. r\<lparr>rr_loaded := hn_loaded H (length (lp_requests st))\<rparr>) d"
    have t: "take_turn H budget st = dispatch H (length (lp_requests st)) budget ?d"
      using False g None by (simp add: take_turn_def Let_def)
    have "lp_requests (end_state (dispatch H (length (lp_requests st)) budget ?d)) =
        lp_requests st @ [(lp_history d, lp_schemas d)]"
      using k unfolding dispatch_def Let_def
      by (simp add: begin_turn_def model_replied_end model_failed_end split: reply.split)
    then show thesis
      using False g None t by (intro dispatched[of d]) (simp_all add: dispatches_def)
  qed
qed



section \<open>Pairing\<close>

definition well_paired :: "harness_env \<Rightarrow> loop_state \<Rightarrow> bool" where
  "well_paired H st \<longleftrightarrow> paired (cv_messages (lp_conv st))
     \<and> (\<exists>rest. lp_history st = system_row (hn_prompt H) # rest \<and> paired rest)"

lemma well_paired_cong:
  "lp_history st' = lp_history st \<Longrightarrow> lp_conv st' = lp_conv st \<Longrightarrow> well_paired H st' = well_paired H st"
  by (simp add: well_paired_def)

lemma well_pairedE:
  assumes "well_paired H st"
  obtains rest where "paired (cv_messages (lp_conv st))" "lp_history st = system_row (hn_prompt H) # rest"
    "paired rest"
  using assms unfolding well_paired_def by blast

lemma apply_compaction_paired:
  assumes "apply_compaction H force budget st = (err, st')" "well_paired H st"
  shows "well_paired H st'"
proof -
  obtain rest where p: "paired (cv_messages (lp_conv st))" and h: "lp_history st = system_row (hn_prompt H) # rest"
    and r: "paired rest"
    using assms(2) by (rule well_pairedE)
  let ?fp = "conv_fingerprint H (lp_conv st)"
  show ?thesis
  proof (cases "\<not> force \<and> ?fp \<in> lp_bad st")
    case True
    then show ?thesis using assms by (simp add: apply_compaction_def)
  next
    case go: False
    show ?thesis
    proof (cases "compact_context (hn_compaction H) (compaction_args_of H force budget st) (cv_messages (lp_conv st))")
      case (Inl e)
      then show ?thesis using assms go by (auto simp: apply_compaction_def Let_def split: if_splits)
    next
      case (Inr cr)
      note c = compaction_paired[OF Inr p]
      let ?h = "st\<lparr>lp_history := take 1 (lp_history st) @ co_messages cr\<rparr>"
      have w: "well_paired H ?h" using c p h by (simp add: well_paired_def)
      show ?thesis
      proof (cases "persist_compaction H cr ?h")
        case (Inl e)
        then show ?thesis
          using assms(1) go Inr w unfolding apply_compaction_def Let_def
          by (auto split: if_splits option.splits simp: well_paired_def)
      next
        case (Inr d)
        have "well_paired H (on_result f (d\<lparr>lp_conv := compacted_conv cr (lp_conv d), lp_user := u\<rparr>))" for f u
          using persist_compaction_keeps[OF Inr] w c by (simp add: well_paired_def compacted_conv_def Let_def)
        then show ?thesis
          using assms(1) go Inr w \<open>compact_context _ _ _ = Inr cr\<close> unfolding apply_compaction_def Let_def
          by (auto split: if_splits option.splits simp: well_paired_def)
      qed
    qed
  qed
qed

lemma budget_gate_paired:
  assumes "budget_gate H budget st = (err, st')" "well_paired H st"
  shows "well_paired H st'"
proof -
  obtain e d where c: "(if cc_auto_compaction (ac_compaction (hn_agent H)) then apply_compaction H False budget st
      else (None, st)) = (e, d)"
    by fastforce
  have "well_paired H d"
    using c assms(2) by (auto split: if_splits dest: apply_compaction_paired)
  then have "well_paired H (on_result f d)" for f
    by (simp add: well_paired_def)
  then show ?thesis
    using assms c \<open>well_paired H d\<close> unfolding budget_gate_def
    by (auto simp: Let_def split: if_splits option.splits)
qed

text \<open>A batch and its results.\<close>

lemma batch_row_calls [simp]:
  "calls \<noteq> [] \<Longrightarrow> has_calls (batch_row H t calls)"
  "map call_id (calls_of (batch_row H t calls)) = map rc_id calls"
  by (simp_all add: batch_row_def has_calls_def has_role_def calls_of_def dget_def call_id_def call_entry_def
      comp_def)

lemma result_row_simps [simp]:
  "is_tool_result (result_row H c r)" "result_id (result_row H c r) = rc_id c"
  by (simp_all add: result_row_def is_tool_result_def has_role_def result_id_def dget_def)

lemma process_results_rows:
  "lp_history (fold (process_result H b) crs st) = lp_history st @ map (\<lambda>(c, r). result_row H c r) crs
   \<and> cv_messages (lp_conv (fold (process_result H b) crs st)) =
       cv_messages (lp_conv st) @ map (\<lambda>(c, r). result_row H c r) crs"
  by (induction crs arbitrary: st)
     (auto simp: process_result_def outcome_event_def Let_def split: prod.split)

lemma all_results_length: "all_results ms = Inr rs \<Longrightarrow> length rs = length ms"
  by (induction ms arbitrary: rs rule: all_results.induct) auto

lemma name_calls_length: "length (fst (name_calls H cs n)) = length cs"
  by (induction H cs n rule: name_calls.induct) (auto split: prod.splits)

lemma paired_batch_rows:
  assumes "calls \<noteq> []" "length rs = length calls"
  shows "paired (batch_row H t calls # map (\<lambda>(c, r). result_row H c r) (zip calls rs))"
proof -
  have "map result_id (map (\<lambda>(c, r). result_row H c r) (zip calls rs)) = map rc_id calls"
    using assms(2) by (induction rs calls rule: list_induct2) simp_all
  then have "paired (batch_row H t calls # map (\<lambda>(c, r). result_row H c r) (zip calls rs) @ [])"
    using assms(1) by (intro paired_batch paired_Nil) auto
  then show ?thesis by simp
qed

lemma note_row_plain [simp]: "\<not> is_tool_result (note_row n)" "\<not> has_calls (note_row n)"
  by (simp_all add: note_row_def is_tool_result_def has_calls_def)

lemma close_batch_rows:
  "\<exists>extra. paired extra \<and> lp_history (close_batch H i cs st) = lp_history st @ extra
     \<and> cv_messages (lp_conv (close_batch H i cs st)) = cv_messages (lp_conv st) @ extra"
proof -
  have "paired [note_row n]" for n by (rule paired_single) simp_all
  then show ?thesis
    by (auto simp: close_batch_def Let_def intro: paired_Nil)
qed

lemma run_calls_paired:
  assumes "run_calls H n rp st = NextTurn st'" "rp_calls rp \<noteq> []" "well_paired H st"
  shows "well_paired H st'"
proof -
  obtain rest where p: "paired (cv_messages (lp_conv st))" and h: "lp_history st = system_row (hn_prompt H) # rest"
    and r: "paired rest"
    using assms(3) by (rule well_pairedE)
  obtain calls uu where nc: "name_calls H (rp_calls rp) (lp_uuids st) = (calls, uu)" by fastforce
  have ne: "calls \<noteq> []" using name_calls_length[of H "rp_calls rp" "lp_uuids st"] nc assms(2) by auto
  let ?o = "open_batch H rp calls (st\<lparr>lp_uuids := uu\<rparr>)"
  obtain b d where db: "draw_batch H calls ?o = (b, d)" by fastforce
  note dk = draw_batch_simps[OF db]
  obtain rs where rs: "all_results (map (\<lambda>(k, c). hn_tool H n k (to_call H c)) (enumerate 0 calls)) = Inr rs"
    using assms(1) nc db by (auto simp: run_calls_def Let_def split: sum.splits)
  have len: "length rs = length calls" using all_results_length[OF rs] by simp
  let ?rows = "batch_row H (rp_content rp) calls # map (\<lambda>(c, r). result_row H c r) (zip calls rs)"
  let ?f = "fold (process_result H b) (zip calls rs) d"
  have f: "lp_history ?f = lp_history st @ ?rows" "cv_messages (lp_conv ?f) = cv_messages (lp_conv st) @ ?rows"
    using dk by (simp_all add: process_results_rows open_batch_def)
  let ?i = "length (cv_sources (lp_conv ?o)) - 1"
  obtain extra where extra: "paired extra" "lp_history (close_batch H ?i calls ?f) = lp_history ?f @ extra"
    "cv_messages (lp_conv (close_batch H ?i calls ?f)) = cv_messages (lp_conv ?f) @ extra"
    using close_batch_rows by blast
  have st': "st' = turn_complete H rp (on_result (\<lambda>r. r\<lparr>rr_loaded := hn_loaded H (Suc n)\<rparr>) (close_batch H ?i calls ?f))"
    using assms(1) nc db rs by (simp add: run_calls_def Let_def)
  have rows: "paired (?rows @ extra)"
    using paired_batch_rows[OF ne len] extra(1) by (rule paired_append)
  have "cv_messages (lp_conv st') = cv_messages (lp_conv st) @ (?rows @ extra)"
    "lp_history st' = system_row (hn_prompt H) # (rest @ (?rows @ extra))"
    unfolding st' using f extra h by simp_all
  then show ?thesis
    unfolding well_paired_def using paired_append[OF p rows] paired_append[OF r rows] by auto
qed

lemma dispatch_paired:
  assumes "dispatch H n budget st = NextTurn st'" "well_paired H st"
  shows "well_paired H st'"
proof -
  have replied: "well_paired H d'" if "model_replied H n rp d = NextTurn d'" "well_paired H d" for rp d d'
  proof -
    let ?e = "record_model_call H ''ok'' (rp_tokens_in rp) (rp_tokens_out rp) (rp_cost rp) None
        (on_result (account rp) (if \<not> hn_streams H \<and> rp_thinking rp \<noteq> []
           then emit_event H ''thinking'' (content_payload (rp_thinking rp)) d else d))"
    have "well_paired H ?e" using that(2) by (simp add: well_paired_def)
    moreover have "run_calls H n rp ?e = NextTurn d'" "rp_calls rp \<noteq> []"
      using that(1) by (auto simp: model_replied_def Let_def split: if_splits)
    ultimately show ?thesis using run_calls_paired by blast
  qed
  have failed: "well_paired H d'" if "model_failed H budget e d = NextTurn d'" "well_paired H d" for e d d'
  proof -
    obtain err c where c: "apply_compaction H True budget (d\<lparr>lp_retried := True\<rparr>) = (err, c)" by fastforce
    have "well_paired H (d\<lparr>lp_retried := True\<rparr>)" using that(2) by (simp add: well_paired_def)
    with c have "well_paired H c" by (rule apply_compaction_paired)
    with that(1) c show ?thesis
      by (auto simp: model_failed_def well_paired_def split: if_splits option.splits)
  qed
  let ?d = "(emit_event H ''typing'' [] st)\<lparr>lp_requests := lp_requests (emit_event H ''typing'' [] st)
      @ [(lp_history (emit_event H ''typing'' [] st), lp_schemas (emit_event H ''typing'' [] st))]\<rparr>"
  have "well_paired H ?d" "well_paired H (stream_deltas H ds ?d)" for ds
    using assms(2) by (simp_all add: well_paired_def)
  then show ?thesis
    using assms(1) replied failed unfolding dispatch_def Let_def
    by (auto split: reply.splits if_splits)
qed

lemma take_turn_paired:
  assumes "take_turn H budget st = NextTurn st'" "well_paired H st"
  shows "well_paired H st'"
proof (cases rule: take_turn_cases[of H budget st])
  case (dispatched d)
  have "well_paired H (begin_turn H (length (lp_requests st)) st)"
    using assms(2) by (simp add: begin_turn_def well_paired_def)
  then have "well_paired H d"
    using dispatched(1) unfolding dispatches_def by (auto dest: budget_gate_paired)
  then have "well_paired H (on_result f d)" for f by (simp add: well_paired_def)
  then show ?thesis using dispatched(2) assms(1) dispatch_paired by metis
next
  case ended
  with assms(1) show ?thesis by blast
qed


section \<open>Every request is paired and within the budget\<close>

definition request_paired :: "harness_env \<Rightarrow> message list \<times> pydict list \<Rightarrow> bool" where
  "request_paired H rq \<longleftrightarrow> (\<exists>rest. fst rq = system_row (hn_prompt H) # rest \<and> paired rest)"

definition requests_paired :: "harness_env \<Rightarrow> loop_state \<Rightarrow> bool" where
  "requests_paired H st \<longleftrightarrow> list_all (request_paired H) (lp_requests st)"

definition request_fits :: "harness_env \<Rightarrow> int \<Rightarrow> message list \<times> pydict list \<Rightarrow> bool" where
  "request_fits H budget rq \<longleftrightarrow>
     int (hn_text_tokens H (hn_prompt H)) + int (hn_tool_tokens H (snd rq))
       + int (ce_tokens (hn_compaction H) (drop 1 (fst rq))) \<le> budget"

definition requests_fit :: "harness_env \<Rightarrow> int \<Rightarrow> loop_state \<Rightarrow> bool" where
  "requests_fit H budget st \<longleftrightarrow> list_all (request_fits H budget) (lp_requests st)"

lemma dispatches_paired:
  assumes "dispatches H budget st d" "well_paired H st"
  shows "well_paired H d"
proof -
  have "well_paired H (begin_turn H (length (lp_requests st)) st)"
    using assms(2) by (simp add: begin_turn_def well_paired_def)
  then show ?thesis using assms(1) unfolding dispatches_def by (auto dest: budget_gate_paired)
qed

lemma gate_passed_fits:
  assumes "budget_gate H budget st = (None, d)"
  shows "request_fits H budget (lp_history d, lp_schemas d)"
  using assms unfolding budget_gate_def Let_def request_fits_def
  by (auto split: if_splits prod.splits option.splits simp: fixed_tokens_def)

lemma turn_requests:
  assumes "\<And>d. dispatches H budget st d \<Longrightarrow> P (lp_history d, lp_schemas d)" "list_all P (lp_requests st)"
  shows "list_all P (lp_requests (end_state (take_turn H budget st)))"
proof (cases rule: take_turn_cases[of H budget st])
  case (dispatched d)
  with assms show ?thesis by simp
next
  case ended
  with assms show ?thesis by simp
qed

interpretation pairing: turn_contract H budget "\<lambda>st. well_paired H st \<and> requests_paired H st"
    "\<lambda>e. requests_paired H (end_state e)"
  for H budget
proof
  fix st st'
  assume I: "well_paired H st \<and> requests_paired H st"
  have "requests_paired H (end_state (take_turn H budget st))"
    using I turn_requests[of H budget st "request_paired H"] dispatches_paired
    unfolding requests_paired_def request_paired_def well_paired_def by fastforce
  then show "requests_paired H (end_state (take_turn H budget st))" .
  then show "well_paired H st' \<and> requests_paired H st'" if "take_turn H budget st = NextTurn st'"
    using I that take_turn_paired by simp
next
  fix st
  assume "well_paired H st \<and> requests_paired H st"
  then show "requests_paired H (end_state (LeaveLoop st))" by simp
qed

interpretation fitting: turn_contract H budget "requests_fit H budget"
    "\<lambda>e. requests_fit H budget (end_state e)"
  for H budget
proof
  fix st st'
  assume I: "requests_fit H budget st"
  have "requests_fit H budget (end_state (take_turn H budget st))"
    using I turn_requests[of H budget st "request_fits H budget"] gate_passed_fits
    unfolding requests_fit_def dispatches_def by blast
  then show "requests_fit H budget (end_state (take_turn H budget st))" .
  then show "requests_fit H budget st'" if "take_turn H budget st = NextTurn st'"
    using that by simp
qed simp

lemma end_run_requests [simp]: "lp_requests (end_run H st) = lp_requests st"
  by (simp add: end_run_def Let_def)

lemma leave_requests [simp]: "lp_requests (final_state (leave H e)) = lp_requests (end_state e)"
  by (cases e) simp_all

lemma start_requests [simp]: "lp_requests (start_state H inp budget) = []"
  by (simp add: start_state_def Let_def)

lemma run_harness_cases:
  obtains (bad_budget) e where "input_budget_of H = Inl e" "lp_requests (final_state (run_harness H inp)) = []"
    | (ran) b where "input_budget_of H = Inr b"
      "run_harness H inp = leave H (run_loop H (ib_tokens b) (start_state H inp (ib_tokens b)))"
  by (cases "input_budget_of H") (simp_all add: run_harness_def)


interpretation trace: turn_contract H budget "\<lambda>st :: loop_state. rq \<in> set (lp_requests st)" "\<lambda>e. rq \<in> set (lp_requests (end_state e))"
  for H budget rq
proof
  fix st st' :: loop_state
  assume I: "rq \<in> set (lp_requests st)"
  show "rq \<in> set (lp_requests (end_state (take_turn H budget st)))"
    by (cases rule: take_turn_cases[of H budget st]) (use I in simp_all)
  then show "rq \<in> set (lp_requests st')" if "take_turn H budget st = NextTurn st'"
    using that by simp
qed simp

text \<open>What a turn dispatches stays in the trace of the run.\<close>

lemma dispatched_request:
  assumes "dispatches H budget st d" "rr_turns (lp_result st) < max_turns H"
  shows "(lp_history d, lp_schemas d) \<in> set (lp_requests (end_state (run_loop H budget st)))"
proof -
  have t: "(lp_history d, lp_schemas d) \<in> set (lp_requests (end_state (take_turn H budget st)))"
  proof (cases rule: take_turn_cases[of H budget st])
    case (dispatched d')
    then have "d' = d" using assms(1) by (simp add: dispatches_def)
    with dispatched show ?thesis by simp
  next
    case ended
    have "\<exists>t. take_turn H budget st = dispatch H (length (lp_requests st)) budget t
        \<and> lp_requests t = lp_requests st \<and> lp_history t = lp_history d \<and> lp_schemas t = lp_schemas d"
      using assms(1) unfolding dispatches_def
      by (auto simp: take_turn_def Let_def begin_turn_def dest!: budget_gate_keeps)
    then obtain t where t: "take_turn H budget st = dispatch H (length (lp_requests st)) budget t"
      and k: "lp_requests t = lp_requests st"
      by blast
    have "lp_requests (end_state (dispatch H (length (lp_requests st)) budget t)) \<noteq> lp_requests t"
      unfolding dispatch_def Let_def
      by (simp add: model_replied_end model_failed_end split: reply.split)
    with ended(1) t k show ?thesis by simp
  qed
  show ?thesis
  proof (cases "take_turn H budget st")
    case (NextTurn st')
    then show ?thesis
      using t trace.run_end[of "(lp_history d, lp_schemas d)" st' H budget] assms(2)
      by (simp add: run_loop.simps[of H budget st])
  qed (use t assms(2) in \<open>simp_all add: run_loop.simps[of H budget st]\<close>)
qed

section \<open>The number of requests and the cost\<close>

definition counted :: "harness_env \<Rightarrow> loop_state \<Rightarrow> bool" where
  "counted H st \<longleftrightarrow> int (length (lp_requests st)) = rr_turns (lp_result st) + (if lp_retried st then 1 else 0)
     \<and> rr_turns (lp_result st) \<le> max 0 (max_turns H)"

interpretation count: turn_contract H budget "counted H"
    "\<lambda>e. int (length (lp_requests (end_state e))) \<le> max 0 (max_turns H) + 1" for H budget
proof
  fix st st' :: loop_state
  assume I: "counted H st" and m: "rr_turns (lp_result st) < max_turns H"
  show "counted H st'" if "take_turn H budget st = NextTurn st'"
    using take_turn_next[OF that] I m by (auto simp: counted_def)
  have "length (lp_requests (end_state (take_turn H budget st))) \<le> Suc (length (lp_requests st))"
    by (cases rule: take_turn_cases[of H budget st]) simp_all
  then show "int (length (lp_requests (end_state (take_turn H budget st)))) \<le> max 0 (max_turns H) + 1"
    using I m by (auto simp: counted_def split: if_splits)
next
  fix st :: loop_state
  assume "counted H st"
  then show "int (length (lp_requests (end_state (LeaveLoop st)))) \<le> max 0 (max_turns H) + 1"
    by (auto simp: counted_def split: if_splits)
qed

definition reply_cost_at_most :: "harness_env \<Rightarrow> rat \<Rightarrow> bool" where
  "reply_cost_at_most H c \<longleftrightarrow> (\<forall>n h s ds rp. hn_model H n h s = Replied ds rp \<longrightarrow> rp_cost rp \<le> c)"

lemma dispatch_cost:
  assumes "reply_cost_at_most H c" "0 \<le> c"
  shows "rr_cost (lp_result (end_state (dispatch H n budget st))) \<le> rr_cost (lp_result st) + c"
proof (cases "hn_model H n (lp_history (emit_event H ''typing'' [] st)) (lp_schemas (emit_event H ''typing'' [] st))")
  case (Replied ds rp)
  then have "rp_cost rp \<le> c" using assms(1) unfolding reply_cost_at_most_def by blast
  with Replied show ?thesis by (simp add: dispatch_def Let_def model_replied_end)
qed (use assms(2) in \<open>simp_all add: dispatch_def Let_def model_failed_end\<close>)

lemma take_turn_cost:
  assumes "reply_cost_at_most H c" "0 \<le> c" "rr_cost (lp_result st) \<le> max_cost H + c"
  shows "rr_cost (lp_result (end_state (take_turn H budget st))) \<le> max_cost H + c"
proof (cases rule: take_turn_cases[of H budget st])
  case (dispatched d)
  have "rr_cost (lp_result d) = rr_cost (lp_result st)" "rr_cost (lp_result st) < max_cost H"
    using dispatched(1) unfolding dispatches_def by (auto dest: budget_gate_keeps simp: begin_turn_def)
  with dispatch_cost[OF assms(1,2), of "length (lp_requests st)" budget
      "on_result (\<lambda>r. r\<lparr>rr_loaded := hn_loaded H (length (lp_requests st))\<rparr>) d"] dispatched(2)
  show ?thesis by simp
next
  case ended
  with assms(3) show ?thesis by simp
qed

interpretation spending: turn_contract H budget
    "\<lambda>st :: loop_state. reply_cost_at_most H c \<and> 0 \<le> c \<and> rr_cost (lp_result st) \<le> max_cost H + c"
    "\<lambda>e. rr_cost (lp_result (end_state e)) \<le> max_cost H + c" for H budget c
proof
  fix st st' :: loop_state
  assume I: "reply_cost_at_most H c \<and> 0 \<le> c \<and> rr_cost (lp_result st) \<le> max_cost H + c"
  show "rr_cost (lp_result (end_state (take_turn H budget st))) \<le> max_cost H + c"
    using I take_turn_cost by blast
  then show "reply_cost_at_most H c \<and> 0 \<le> c \<and> rr_cost (lp_result st') \<le> max_cost H + c"
    if "take_turn H budget st = NextTurn st'"
    using that I by simp
qed simp


section \<open>What a completed run answers\<close>

text \<open>The answer of a completed run is what the guardrails leave of a reply without tool calls.\<close>

definition answered :: "harness_env \<Rightarrow> run_result \<Rightarrow> bool" where
  "answered H r \<longleftrightarrow> (\<exists>n h s ds rp. hn_model H n h s = Replied ds rp \<and> rp_calls rp = []
     \<and> rr_answer r = gr_content (hn_guard H (rp_content rp)) \<and> rr_cost r \<le> max_cost H)"

definition clean :: "loop_state \<Rightarrow> bool" where
  "clean st \<longleftrightarrow> rr_status (lp_result st) = ''completed'' \<and> rr_answer (lp_result st) = []"

lemma final_answer_answered:
  assumes "hn_model H n h s = Replied ds rp" "rp_calls rp = []"
    "rr_status (lp_result (final_answer H rp st)) = ''completed''"
  shows "answered H (lp_result (final_answer H rp st))"
proof -
  have "\<not> rr_cost (lp_result st) > max_cost H"
    using assms(3) by (auto simp: final_answer_def Let_def split: if_splits)
  moreover from this have "rr_answer (lp_result (final_answer H rp st)) = gr_content (hn_guard H (rp_content rp))"
    by (simp add: final_answer_def Let_def)
  ultimately show ?thesis using assms(1,2) unfolding answered_def by fastforce
qed


lemma apply_compaction_status:
  "apply_compaction H force budget st = (err, st') \<Longrightarrow> rr_status (lp_result st') = rr_status (lp_result st)"
  unfolding apply_compaction_def Let_def
  by (auto split: if_splits sum.splits dest: persist_compaction_keeps)

lemma budget_gate_status:
  "budget_gate H budget st = (err, st') \<Longrightarrow> rr_status (lp_result st') = rr_status (lp_result st)"
  unfolding budget_gate_def Let_def
  by (auto split: if_splits option.splits prod.splits dest: apply_compaction_status)

lemma process_results_status [simp]:
  "rr_status (lp_result (fold (process_result H b) crs st)) = rr_status (lp_result st)"
  by (induction crs arbitrary: st) (simp_all add: process_result_def outcome_event_def Let_def split: prod.split)

text \<open>How a turn may end, for its status and answer.\<close>

definition turn_answers :: "harness_env \<Rightarrow> turn_end \<Rightarrow> bool" where
  "turn_answers H e \<longleftrightarrow> (case e of
     NextTurn st \<Rightarrow> clean st
   | LeaveLoop st \<Rightarrow> rr_status (lp_result st) = ''completed'' \<longrightarrow>
       answered H (lp_result st) \<or> clean st \<and> max_turns H \<le> rr_turns (lp_result st)
   | ReturnNow st \<Rightarrow> rr_status (lp_result st) \<noteq> ''completed''
   | Escapes m st \<Rightarrow> True)"

lemma run_calls_answers:
  assumes "clean st" shows "turn_answers H (run_calls H n rp st)"
  using assms unfolding run_calls_def Let_def turn_answers_def clean_def
  by (auto split: prod.split sum.split dest!: draw_batch_simps)

lemma model_replied_answers:
  assumes "clean st" "hn_model H n h s = Replied ds rp"
  shows "turn_answers H (model_replied H n rp st)"
proof -
  let ?e = "record_model_call H ''ok'' (rp_tokens_in rp) (rp_tokens_out rp) (rp_cost rp) None
        (on_result (account rp) (if \<not> hn_streams H \<and> rp_thinking rp \<noteq> []
           then emit_event H ''thinking'' (content_payload (rp_thinking rp)) st else st))"
  have "clean ?e" using assms(1) by (simp add: clean_def account_def)
  then show ?thesis
    using final_answer_answered[OF assms(2), of ?e] run_calls_answers[of ?e H n rp]
    by (auto simp: model_replied_def Let_def turn_answers_def)
qed

lemma model_failed_answers:
  assumes "clean st" shows "turn_answers H (model_failed H budget e st)"
proof -
  obtain err d where c: "apply_compaction H True budget (st\<lparr>lp_retried := True\<rparr>) = (err, d)" by fastforce
  have "clean d"
    using assms apply_compaction_status[OF c] apply_compaction_keeps[OF c] by (simp add: clean_def)
  with c show ?thesis
    by (auto simp: model_failed_def turn_answers_def give_up_def fail_def clean_def split: option.split)
qed

lemma dispatch_answers:
  assumes "clean st" shows "turn_answers H (dispatch H n budget st)"
proof -
  let ?d = "(emit_event H ''typing'' [] st)\<lparr>lp_requests := lp_requests (emit_event H ''typing'' [] st)
      @ [(lp_history (emit_event H ''typing'' [] st), lp_schemas (emit_event H ''typing'' [] st))]\<rparr>"
  have "clean ?d" "clean (stream_deltas H ds ?d)" for ds
    using assms by (simp_all add: clean_def)
  then show ?thesis
    unfolding dispatch_def Let_def
    by (cases "hn_model H n (lp_history (emit_event H ''typing'' [] st)) (lp_schemas (emit_event H ''typing'' [] st))")
       (auto intro!: model_replied_answers model_failed_answers, auto simp: turn_answers_def)
qed

lemma take_turn_answers:
  assumes "clean st" shows "turn_answers H (take_turn H budget st)"
proof (cases "rr_cost (lp_result st) \<ge> max_cost H")
  case True
  then show ?thesis by (simp add: take_turn_def turn_answers_def)
next
  case False
  obtain err d where g: "budget_gate H budget (begin_turn H (length (lp_requests st)) st) = (err, d)"
    by fastforce
  have "clean d"
    using assms budget_gate_keeps[OF g] budget_gate_status[OF g] by (simp add: clean_def begin_turn_def)
  then have "clean (on_result (\<lambda>r. r\<lparr>rr_loaded := l\<rparr>) d)" for l by (simp add: clean_def)
  then show ?thesis
    using False g dispatch_answers
    by (auto simp: take_turn_def Let_def turn_answers_def[of H "LeaveLoop _"] fail_def split: option.split)
qed

interpretation answering: turn_contract H budget clean "turn_answers H" for H budget
proof
  fix st st' :: loop_state
  assume I: "clean st"
  then show "turn_answers H (take_turn H budget st)" by (rule take_turn_answers)
  then show "clean st'" if "take_turn H budget st = NextTurn st'"
    using that by (simp add: turn_answers_def)
next
  fix st :: loop_state
  assume "clean st" "max_turns H \<le> rr_turns (lp_result st)"
  then show "turn_answers H (LeaveLoop st)" by (simp add: turn_answers_def)
qed

lemma run_loop_ends: "run_loop H budget st \<noteq> NextTurn st'"
proof (induction "turns_left H st" arbitrary: st rule: less_induct)
  case less
  show ?case
    using less.hyps[OF take_turn_measure]
    by (subst run_loop.simps) (auto split: turn_end.split)
qed

lemma end_run_result:
  "answered H (lp_result st) \<Longrightarrow> rr_status (lp_result (end_run H st)) = ''completed''
     \<Longrightarrow> answered H (lp_result (end_run H st))"
  by (auto simp: end_run_def Let_def answered_def split: if_splits)

lemma end_run_clean:
  "clean st \<Longrightarrow> max_turns H \<le> rr_turns (lp_result st) \<Longrightarrow> rr_status (lp_result (end_run H st)) \<noteq> ''completed''"
  by (simp add: end_run_def Let_def clean_def)

lemma end_run_status:
  "rr_status (lp_result (end_run H st)) = ''completed'' \<Longrightarrow> rr_status (lp_result st) = ''completed''"
  by (simp add: end_run_def Let_def split: if_splits)

lemma start_clean: "clean (start_state H inp budget)"
  by (simp add: start_state_def Let_def clean_def new_result_def)

text \<open>C9. A run that returns as completed carries a real answer: the model sent, in some dispatch, a
  reply without tool calls, the answer is exactly what the output guardrails make of that reply, and the
  cost of the run is within the limit.  Exhausted turns, an exceeded cost, a failed model call, a request
  that does not fit and a lost compaction never end as completed.\<close>
theorem completed_run_answers:
  assumes "run_harness H inp = RunReturned st" "rr_status (lp_result st) = ''completed''"
  shows "answered H (lp_result st)"
proof (cases rule: run_harness_cases[of H inp])
  case (bad_budget e)
  then show ?thesis using assms by (auto simp: run_harness_def fail_def)
next
  case (ran b)
  let ?e = "run_loop H (ib_tokens b) (start_state H inp (ib_tokens b))"
  have t: "turn_answers H ?e" using start_clean by (rule answering.run_end)
  show ?thesis
  proof (cases ?e)
    case (NextTurn s)
    then show ?thesis using run_loop_ends by blast
  next
    case (LeaveLoop s)
    then have st: "st = end_run H s" using ran(2) assms(1) by simp
    then have "rr_status (lp_result s) = ''completed''" using assms(2) end_run_status by blast
    then have "answered H (lp_result s)"
      using t LeaveLoop assms(2) end_run_clean unfolding turn_answers_def st by auto
    then show ?thesis using assms(2) unfolding st by (rule end_run_result)
  next
    case (ReturnNow s)
    then show ?thesis using t ran(2) assms by (simp add: turn_answers_def)
  next
    case (Escapes m s)
    then show ?thesis using ran(2) assms(1) by simp
  qed
qed


section \<open>A run\<close>

text \<open>The model calls a tool, then answers; the budget has room for everything.\<close>

definition ex_raw_call :: raw_call where
  "ex_raw_call = \<lparr>rc_id = PStr ''c1'', rc_name = ''file_read'', rc_args = None\<rparr>"

definition ex_response :: "string \<Rightarrow> raw_call list \<Rightarrow> response" where
  "ex_response t calls = \<lparr>rp_content = t, rp_thinking = [], rp_calls = calls, rp_tokens_in = 10,
     rp_tokens_out = 5, rp_cached = None, rp_thinking_tokens = None, rp_cost = 1 / 100\<rparr>"

definition ex_ok :: syscall_result where
  "ex_ok = \<lparr>sr_output = PStr ''text'', sr_allowed = True, sr_denied_reason = None, sr_audit = None,
     sr_status = ''ok'', sr_model_content = PNone\<rparr>"

definition ex_harness :: harness_env where
  "ex_harness = \<lparr>hn_doc = ex_doc, hn_registry = ex_registry, hn_compaction = ex_compact_env,
     hn_text_tokens = \<lambda>t. 3, hn_tool_tokens = \<lambda>s. 0,
     hn_agent = default_agent ''a1'' ''Ada'' default_model_config, hn_resolved = None, hn_restrictions = None,
     hn_session = None, hn_has_db = False, hn_streams = False, hn_emits = False, hn_trigger = ''chat'',
     hn_prompt = ''You are Ada.'', hn_names = \<lambda>n. [''file_read''], hn_loaded = \<lambda>n. [],
     hn_model = \<lambda>n h s. Replied [] (if n = 0 then ex_response [] [ex_raw_call] else ex_response ''Done.'' []),
     hn_tool = \<lambda>n k c. MedResult ex_ok, hn_receipt = \<lambda>i. None,
     hn_guard = \<lambda>t. \<lparr>gr_content = t, gr_warnings = [], gr_redactions = []\<rparr>,
     hn_between = \<lambda>n d. d, hn_store_raises = \<lambda>n. False, hn_terminals = []\<rparr>"

definition ex_input :: run_input where
  "ex_input = \<lparr>in_message = ''Read it.'', in_attachments = [], in_recent = [], in_conversation = None,
     in_message_id = None, in_db = ex_conv_db\<rparr>"

definition ex_final :: loop_state where
  "ex_final = final_state (run_harness ex_harness ex_input)"

lemma ex_dispatch: "\<exists>d. dispatches ex_harness 32768 (start_state ex_harness ex_input 32768) d"
proof -
  have "fst (budget_gate ex_harness 32768 (begin_turn ex_harness 0 (start_state ex_harness ex_input 32768))) = None"
    by code_simp
  moreover have "\<not> rr_cost (lp_result (start_state ex_harness ex_input 32768)) \<ge> max_cost ex_harness"
    by code_simp
  ultimately show ?thesis
    unfolding dispatches_def start_requests list.size(3) by (metis prod.collapse)
qed

lemma ex_budget: "\<exists>b. input_budget_of ex_harness = Inr b \<and> ib_tokens b = 32768"
proof -
  have "case input_budget_of ex_harness of Inr b \<Rightarrow> ib_tokens b = 32768 | _ \<Rightarrow> False" by code_simp
  then show ?thesis by (auto split: sum.splits)
qed

lemma ex_requests: "lp_requests (final_state (run_harness ex_harness ex_input)) \<noteq> []"
proof -
  obtain b where b: "input_budget_of ex_harness = Inr b" "ib_tokens b = 32768" using ex_budget by blast
  obtain d where d: "dispatches ex_harness 32768 (start_state ex_harness ex_input 32768) d" using ex_dispatch by blast
  have "rr_turns (lp_result (start_state ex_harness ex_input 32768)) < max_turns ex_harness" by code_simp
  from dispatched_request[OF d this] b show ?thesis by (auto simp: run_harness_def)
qed


section \<open>The properties of a run\<close>

lemma well_paired_start:
  assumes "\<forall>cv. in_conversation inp = Some cv \<longrightarrow> paired (cv_messages cv)"
  shows "well_paired H (start_state H inp budget)"
proof -
  let ?u = "user_row (dl_py (hn_doc H)) (in_message inp) (in_attachments inp)"
  have u: "paired [?u]" by (rule paired_single) simp_all
  have "paired (cv_messages (start_conversation H inp))"
  proof (cases "in_conversation inp")
    case None
    have "paired (concat (map (format_stored_message (hn_doc H)) (in_recent inp)) @ [?u])"
      using u format_stored_paired by (intro paired_append paired_concat) auto
    with None show ?thesis by (simp add: start_conversation_def Let_def build_message_history_def)
  next
    case (Some cv)
    have "paired (cv_messages cv @ [?u])" using assms Some u by (auto intro: paired_append)
    with Some show ?thesis by (simp add: start_conversation_def append_row_def)
  qed
  moreover from this have "paired (render (start_conversation H inp))"
    by (auto simp: render_def intro: paired_plain split: option.split)
  ultimately show ?thesis by (simp add: well_paired_def start_state_def Let_def)
qed

text \<open>C7. Providers reject a request in which a call has no result or a result no call.  In every request a run
  dispatches the system prompt comes first and each batch of calls is followed at once by its results,
  one per call and in order: from a transient history or a loaded session, through turns with tool
  calls, automatic and forced compactions and their failures.\<close>
theorem requests_are_paired:
  assumes "\<forall>cv. in_conversation inp = Some cv \<longrightarrow> (\<exists>db sid s exclude. cv = load_conversation (hn_doc H) db sid s exclude)"
  shows "requests_paired H (final_state (run_harness H inp))"
proof (cases rule: run_harness_cases[of H inp])
  case (bad_budget e)
  then show ?thesis by (simp add: requests_paired_def)
next
  case (ran b)
  have "well_paired H (start_state H inp (ib_tokens b))"
    using assms by (intro well_paired_start) (auto intro: load_conversation_paired)
  then have "requests_paired H (end_state (run_loop H (ib_tokens b) (start_state H inp (ib_tokens b))))"
    by (intro pairing.run_end) (simp add: requests_paired_def)
  with ran show ?thesis by (simp add: requests_paired_def)
qed

text \<open>C8. Every request a run dispatches fits: the tokens of the system prompt, of the tool schemas sent with
  that request and of its messages are within the input budget resolved for the model, whatever the
  tools returned and whatever the summary model produced.\<close>
theorem requests_fit_budget:
  assumes "input_budget_of H = Inr b"
  shows "requests_fit H (ib_tokens b) (final_state (run_harness H inp))"
proof -
  have "requests_fit H (ib_tokens b) (end_state (run_loop H (ib_tokens b) (start_state H inp (ib_tokens b))))"
    by (intro fitting.run_end) (simp add: requests_fit_def)
  then show ?thesis by (simp add: run_harness_def assms requests_fit_def)
qed

text \<open>C10. The loop stops: whatever the model and the tools do, a run dispatches at most one request more than
  its turn limit, the one being the retry after a context overflow, which happens at most once.\<close>
theorem model_calls_bounded:
  "int (length (lp_requests (final_state (run_harness H inp)))) \<le> max 0 (max_turns H) + 1"
proof (cases rule: run_harness_cases[of H inp])
  case (bad_budget e)
  then show ?thesis by simp
next
  case (ran b)
  have "int (length (lp_requests (end_state (run_loop H (ib_tokens b) (start_state H inp (ib_tokens b))))))
      \<le> max 0 (max_turns H) + 1"
    by (rule count.run_end) (simp add: counted_def start_state_def Let_def new_result_def)
  with ran show ?thesis by simp
qed

lemma end_run_cost [simp]: "rr_cost (lp_result (end_run H st)) = rr_cost (lp_result st)"
  by (simp add: end_run_def Let_def)

lemma leave_cost [simp]: "rr_cost (lp_result (final_state (leave H e))) = rr_cost (lp_result (end_state e))"
  by (cases e) simp_all

text \<open>C11. The cost limit is checked before every request, so a run overspends by at most one reply: its cost
  stays within the limit plus the cost of the dearest reply.\<close>
theorem overspend_bounded:
  assumes "reply_cost_at_most H c" "0 \<le> c" "0 \<le> max_cost H"
  shows "rr_cost (lp_result (final_state (run_harness H inp))) \<le> max_cost H + c"
proof -
  have start: "rr_cost (lp_result (start_state H inp budget)) \<le> max_cost H + c" for budget
    using assms(2,3) by (simp add: start_state_def Let_def new_result_def)
  show ?thesis
  proof (cases rule: run_harness_cases[of H inp])
    case (bad_budget e)
    then show ?thesis using start[of 0] by (simp add: run_harness_def)
  next
    case (ran b)
    have "rr_cost (lp_result (end_state (run_loop H (ib_tokens b) (start_state H inp (ib_tokens b))))) \<le> max_cost H + c"
      using assms start by (intro spending.run_end) blast
    with ran show ?thesis by simp
  qed
qed


section \<open>Two endings that hide their reason\<close>

text \<open>A request that does not fit in the last allowed turn is reported as an exhausted turn limit.\<close>

lemma last_turn_failure_masked:
  assumes "take_turn H budget st = LeaveLoop st'" "rr_status (lp_result st') = ''failed''"
    "rr_answer (lp_result st') = []" "max_turns H \<le> rr_turns (lp_result st')"
  shows "rr_status (lp_result (end_run H st')) = ''limit_exceeded''"
  using assms by (simp add: end_run_def Let_def)

text \<open>A reply that exceeds the cost is replaced by the name of the policy.\<close>

lemma overspent_answer_is_policy_name:
  assumes "rr_cost (lp_result st) > max_cost H" "ac_on_limit (hn_agent H) = TellUserAndStop"
  shows "rr_answer (lp_result (final_answer H rp st)) = ''tell_user_and_stop''"
  using assms by (simp add: final_answer_def Let_def )


section \<open>Witnesses\<close>

theorem requests_are_paired_witness:
  "list_all (request_paired ex_harness) (lp_requests (final_state (run_harness ex_harness ex_input)))
   \<and> lp_requests (final_state (run_harness ex_harness ex_input)) \<noteq> []"
  using requests_are_paired[of ex_input ex_harness] ex_requests
  by (simp add: ex_input_def requests_paired_def)

theorem requests_fit_budget_witness:
  "requests_fit ex_harness 32768 (final_state (run_harness ex_harness ex_input))"
proof -
  obtain b where "input_budget_of ex_harness = Inr b" "ib_tokens b = 32768" using ex_budget by blast
  with requests_fit_budget[of ex_harness b ex_input] show ?thesis by simp
qed

lemma ex_costs: "reply_cost_at_most ex_harness (1 / 100)" "0 \<le> max_cost ex_harness"
proof -
  show "reply_cost_at_most ex_harness (1 / 100)"
    by (auto simp: reply_cost_at_most_def ex_harness_def ex_response_def split: if_splits)
  show "0 \<le> max_cost ex_harness" by code_simp
qed

theorem overspend_bounded_witness:
  "rr_cost (lp_result (final_state (run_harness ex_harness ex_input))) \<le> max_cost ex_harness + 1 / 100"
  using overspend_bounded[OF ex_costs(1) _ ex_costs(2)] by simp

definition ex_direct :: harness_env where
  "ex_direct = ex_harness\<lparr>hn_model := \<lambda>n h s. Replied [] (ex_response ''Done.'' [])\<rparr>"

lemma ex_direct_run:
  "\<exists>st. run_harness ex_direct ex_input = RunReturned st \<and> rr_status (lp_result st) = ''completed''"
proof -
  obtain b where b: "input_budget_of ex_direct = Inr b" "ib_tokens b = 32768"
    using ex_budget by (auto simp: input_budget_of_def ex_direct_def)
  let ?s = "start_state ex_direct ex_input 32768"
  have gate: "fst (budget_gate ex_direct 32768 (begin_turn ex_direct 0 ?s)) = None" by code_simp
  obtain d where d: "budget_gate ex_direct 32768 (begin_turn ex_direct 0 ?s) = (None, d)"
    using gate by (metis prod.collapse)
  have cost: "\<not> rr_cost (lp_result ?s) \<ge> max_cost ex_direct" "1 / 100 \<le> max_cost ex_direct"
    by code_simp+
  have turns: "max_turns ex_direct = 200" "rr_turns (lp_result ?s) < max_turns ex_direct" by code_simp+
  have k: "rr_cost (lp_result d) = 0" "rr_status (lp_result d) = ''completed''" "rr_turns (lp_result d) = 1"
    using budget_gate_keeps[OF d] budget_gate_status[OF d]
    by (simp_all add: begin_turn_def start_state_def Let_def new_result_def)
  let ?R = "ex_response ''Done.'' []"
  have m: "hn_model ex_direct n h s = Replied [] ?R" for n h s by (simp add: ex_direct_def)
  have r: "rp_calls ?R = []" "rp_cost ?R = 1 / 100" "rp_thinking ?R = []" "hn_streams ex_direct = False"
    by (simp_all add: ex_response_def ex_direct_def ex_harness_def)
  have "\<exists>e. take_turn ex_direct 32768 ?s = LeaveLoop (final_answer ex_direct ?R e)
      \<and> rr_cost (lp_result e) = 1 / 100 \<and> rr_status (lp_result e) = ''completed'' \<and> rr_turns (lp_result e) = 1"
    using d cost(1) m r
    by (simp add: take_turn_def Let_def dispatch_def model_replied_def)
       (rule exI, rule conjI[OF refl], simp add: k account_def)
  then obtain e where e: "take_turn ex_direct 32768 ?s = LeaveLoop (final_answer ex_direct ?R e)"
    "rr_cost (lp_result e) = 1 / 100" "rr_status (lp_result e) = ''completed''" "rr_turns (lp_result e) = 1"
    by blast
  have "run_harness ex_direct ex_input = RunReturned (end_run ex_direct (final_answer ex_direct ?R e))"
    using b e(1) turns by (simp add: run_harness_def run_loop.simps[of ex_direct 32768 ?s])
  moreover have "rr_status (lp_result (end_run ex_direct (final_answer ex_direct ?R e))) = ''completed''"
    using e cost(2) turns(1) by (simp add: end_run_def final_answer_def Let_def)
  ultimately show ?thesis by blast
qed

theorem completed_run_answers_witness:
  "\<exists>st. run_harness ex_direct ex_input = RunReturned st \<and> answered ex_direct (lp_result st)"
  using ex_direct_run completed_run_answers[of ex_direct ex_input] by blast

end
