(* ===== verification/Core_Memory.thy ===== *)
theory Core_Memory
  imports Context
begin

text \<open>
  The bounded core memory of an agent (\<^verbatim>\<open>memory/core.py\<close>): the file \<^verbatim>\<open>MEMORY.md\<close> with its managed
  identity, the archive of revisions, pinning a session to a revision, and the writers, which all
  publish under a compare-and-swap on the hash of the whole file.  SHA-256, the reference tokenizer,
  JSON and the credential patterns are fields of an environment; what other tasks and external editors
  do at the points where the code waits is a script.
\<close>

section \<open>Errors and state\<close>

text \<open>\<open>CoreConflict\<close> with its message, current hash, current curated text and kind.\<close>

datatype core_error =
    CoreConflict string "string option" "string option" string
  | CoreInvalid string
  | CoreCancelled

definition conflict :: "string \<Rightarrow> core_error" where
  "conflict msg = CoreConflict msg None None ''conflict''"

definition conflict_kind :: "string \<Rightarrow> string \<Rightarrow> core_error" where
  "conflict_kind kind msg = CoreConflict msg None None kind"

record core_row =
  kr_id :: string
  kr_agent :: string
  kr_content :: string
  kr_curated :: string
  kr_hash :: string
  kr_version :: "string option"
  kr_refs :: "string list"
  kr_published :: bool

record version_row =
  vr_id :: string
  vr_agent :: string
  vr_number :: int
  vr_config :: string

datatype path_state = PathOk | HomeEscapes | HomeSymlink | FileSymlink

text \<open>
  The file (\<open>None\<close> when it is not UTF-8, empty when it does not exist), the rows as the session sees
  them and as they are committed, the backups by name, the agents with their active versions.
\<close>

record core_world =
  kw_disk :: "string option"
  kw_path :: path_state
  kw_rows :: "core_row list"
  kw_durable :: "core_row list"
  kw_backups :: "(string \<times> string) list"
  kw_agents :: "(string \<times> string option) list"
  kw_versions :: "version_row list"
  kw_uuids :: nat

record core_env =
  ke_doc :: doc_lib
  ke_tokens :: "string \<Rightarrow> nat"
  ke_prompt :: string
  ke_request_tokens :: "string \<Rightarrow> nat"
  ke_secret :: "string \<Rightarrow> bool"

datatype cleanup_reply = CleanupText string | CleanupFails | CleanupCancelled

text \<open>What happens while an operation waits: for the lock, for the cleanup model, for the commit (an
  external editor of the file), between the last check and the replacement, after it.\<close>

record core_script =
  ks_lock :: "core_world \<Rightarrow> core_world"
  ks_wait :: "core_world \<Rightarrow> core_world"
  ks_commit :: "string option \<Rightarrow> string option"
  ks_replace :: "string option \<Rightarrow> string option"
  ks_landed :: "string option \<Rightarrow> string option"
  ks_provider :: bool
  ks_model :: pydict
  ks_reply :: "string \<Rightarrow> cleanup_reply"

definition ke_sha :: "core_env \<Rightarrow> string \<Rightarrow> string" where
  "ke_sha K = lib_sha256 (dl_py (ke_doc K))"


section \<open>Operations that may fail\<close>

type_synonym 'a core_op = "(core_world, core_error, 'a) op"

definition commit :: "core_world \<Rightarrow> core_world" where
  "commit w = w\<lparr>kw_durable := kw_rows w\<rparr>"


section \<open>The file format\<close>

definition IDENTITY_BEGIN :: string where
  "IDENTITY_BEGIN = ''<!-- caberos:core-identity v1 sha256:''"

definition IDENTITY_END :: string where
  "IDENTITY_END = ''<!-- /caberos:core-identity -->''"

definition ARROW :: string where
  "ARROW = ''-->''"

definition identity_of :: "string \<Rightarrow> string \<Rightarrow> string \<Rightarrow> string" where
  "identity_of soul persona task =
     py_join [nl, nl]
       ((if soul = [] then [] else [''## Soul'' @ [nl, nl] @ soul])
        @ (if persona = [] then [] else [''## Persona'' @ [nl, nl] @ persona])
        @ (if task = [] then [] else [''## Task'' @ [nl, nl] @ task]))"

definition identity_text :: "agent_config \<Rightarrow> string" where
  "identity_text cfg = identity_of (ac_soul cfg) (ac_persona cfg) (ac_task cfg)"

definition build_core :: "core_env \<Rightarrow> string \<Rightarrow> string \<Rightarrow> string" where
  "build_core K identity curated =
     IDENTITY_BEGIN @ ke_sha K identity @ '' -->'' @ [nl] @ identity @ [nl] @ IDENTITY_END @ [nl, nl] @ curated"

definition drop_first_nl :: "string \<Rightarrow> string" where
  "drop_first_nl s = (case s of [] \<Rightarrow> [] | c # t \<Rightarrow> if c = nl then t else s)"

definition drop_last_nl :: "string \<Rightarrow> string" where
  "drop_last_nl s = (if s \<noteq> [] \<and> last s = nl then butlast s else s)"

definition drop_separator :: "string \<Rightarrow> string" where
  "drop_separator rest = (if starts_with [nl, nl] rest then drop 2 rest else drop_first_nl rest)"

lemma find_from_bounds: "find_from p s k = Some m \<Longrightarrow> p \<noteq> [] \<Longrightarrow> k \<le> m \<and> m < length s"
proof -
  assume a: "find_from p s k = Some m" "p \<noteq> []"
  then obtain i where i: "find_sub p (drop k s) = Some i" "m = k + i" by (auto simp: find_from_def)
  from find_sub_Some_starts[OF i(1)] a(2) have "drop i (drop k s) \<noteq> []"
    by (auto simp: starts_with_def)
  with i(2) show ?thesis by (simp add: not_le)
qed

text \<open>The end marker is the first one whose identity has the recorded hash.\<close>

function split_search ::
    "core_env \<Rightarrow> string \<Rightarrow> nat \<Rightarrow> string \<Rightarrow> nat \<Rightarrow> core_error + (string option \<times> string option \<times> string)" where
  "split_search K content start recorded search_from =
     (case find_from IDENTITY_END content search_from of
        None \<Rightarrow> Inl (conflict ''Managed identity end marker is missing or tampered'')
      | Some m \<Rightarrow>
          let identity = drop_last_nl (drop_first_nl (take (m - start) (drop start content))) in
          if ke_sha K identity = recorded
          then Inr (Some recorded, Some identity, drop_separator (drop (m + length IDENTITY_END) content))
          else split_search K content start recorded (m + 1))"
  by pat_completeness auto
termination
  by (relation "measure (\<lambda>(K, content, start, recorded, k). length content - k)")
     (auto dest!: find_from_bounds simp: IDENTITY_END_def)

declare split_search.simps [simp del]

definition split_core :: "core_env \<Rightarrow> string \<Rightarrow> core_error + (string option \<times> string option \<times> string)" where
  "split_core K content =
     (if \<not> starts_with IDENTITY_BEGIN content
      then if contains IDENTITY_BEGIN content
           then Inl (conflict ''Managed identity marker is not at the file start'')
           else Inr (None, None, content)
      else case find_from ARROW content (length IDENTITY_BEGIN) of
             None \<Rightarrow> Inl (conflict ''Managed identity marker is unterminated'')
           | Some open_end \<Rightarrow>
               let recorded = py_strip (take (open_end - length IDENTITY_BEGIN) (drop (length IDENTITY_BEGIN) content))
               in split_search K content (open_end + 3) recorded (open_end + 3))"

definition validate_curated :: "string \<Rightarrow> core_error + unit" where
  "validate_curated curated =
     (if contains IDENTITY_BEGIN curated \<or> contains IDENTITY_END curated
      then Inl (conflict ''Curated memory must not contain managed identity markers'') else Inr ())"


section \<open>Versions of the configuration\<close>

definition core_text :: "core_env \<Rightarrow> string \<Rightarrow> pyval option" where
  "core_text K = dl_loads (ke_doc K)"

text \<open>The active version, when its identity is the caller's.\<close>

definition active_version_id :: "core_env \<Rightarrow> agent_config \<Rightarrow> core_world \<Rightarrow> core_error + string" where
  "active_version_id K cfg w =
     (let active = (case map_of (kw_agents w) (ac_id cfg) of Some (Some v) \<Rightarrow>
                      find (\<lambda>r. vr_id r = v \<and> vr_agent r = ac_id cfg) (kw_versions w) | _ \<Rightarrow> None)
      in case active of
           None \<Rightarrow> Inl (conflict ''Agent active version integrity failure'')
         | Some r \<Rightarrow>
             (case core_text K (vr_config r) of
                Some (PDict d) \<Rightarrow>
                  if dget d ''soul'' (PStr []) = PStr (ac_soul cfg)
                     \<and> dget d ''persona'' (PStr []) = PStr (ac_persona cfg)
                     \<and> dget d ''task'' (PStr []) = PStr (ac_task cfg)
                  then Inr (vr_id r)
                  else Inl (conflict ''Agent identity changed; retry with the active configuration'')
              | _ \<Rightarrow> Inl (conflict ''Agent active configuration is invalid'')))"

text \<open>The hash of the identity a stored version renders, if its fields are texts.\<close>

definition version_identity :: "core_env \<Rightarrow> version_row \<Rightarrow> string option" where
  "version_identity K r =
     (case core_text K (vr_config r) of
        Some (PDict d) \<Rightarrow>
          (case (dget d ''soul'' (PStr []), dget d ''persona'' (PStr []), dget d ''task'' (PStr [])) of
             (PStr a, PStr b, PStr c) \<Rightarrow> Some (ke_sha K (identity_of a b c))
           | _ \<Rightarrow> None)
      | _ \<Rightarrow> None)"

definition identity_version :: "core_env \<Rightarrow> string \<Rightarrow> string \<Rightarrow> core_world \<Rightarrow> string option" where
  "identity_version K agent h w =
     map_option vr_id (find (\<lambda>r. version_identity K r = Some h)
       (rev (sort_key vr_number (filter (\<lambda>r. vr_agent r = agent) (kw_versions w)))))"

definition known_identity_hash :: "core_env \<Rightarrow> string \<Rightarrow> string \<Rightarrow> core_world \<Rightarrow> bool" where
  "known_identity_hash K agent h w \<longleftrightarrow> identity_version K agent h w \<noteq> None"


section \<open>The file\<close>

definition valid_agent_id :: "string \<Rightarrow> bool" where
  "valid_agent_id i \<longleftrightarrow> 1 \<le> length i \<and> length i \<le> 128
     \<and> list_all (\<lambda>c. c \<in> set ''ABCDEFGHIJKLMNOPQRSTUVWXYZabcdefghijklmnopqrstuvwxyz0123456789_-'') i"

definition core_path :: "agent_config \<Rightarrow> core_world \<Rightarrow> core_error + unit" where
  "core_path cfg w =
     (if \<not> valid_agent_id (ac_id cfg) then Inl (CoreInvalid ''Invalid agent id'')
      else case kw_path w of
             PathOk \<Rightarrow> Inr ()
           | HomeEscapes \<Rightarrow> Inl (conflict ''Agent home resolves outside the configured root'')
           | HomeSymlink \<Rightarrow> Inl (conflict ''Agent home must not be a symlink'')
           | FileSymlink \<Rightarrow> Inl (conflict ''MEMORY.md must not be a symlink''))"

definition read_disk :: "core_world \<Rightarrow> core_error + string" where
  "read_disk w = (case kw_disk w of None \<Rightarrow> Inl (conflict ''MEMORY.md is not valid UTF-8'') | Some t \<Rightarrow> Inr t)"

definition edit_disk :: "(string option \<Rightarrow> string option) \<Rightarrow> core_world \<Rightarrow> core_world" where
  "edit_disk f w = w\<lparr>kw_disk := f (kw_disk w)\<rparr>"


section \<open>The archive\<close>

definition add_revision ::
    "core_env \<Rightarrow> agent_config \<Rightarrow> string \<Rightarrow> string \<Rightarrow> string option \<Rightarrow> string list \<Rightarrow> bool \<Rightarrow> string core_op" where
  "add_revision K cfg content curated version refs published w =
     (let i = lib_uuid (dl_py (ke_doc K)) (kw_uuids w);
          row = \<lparr>kr_id = i, kr_agent = ac_id cfg, kr_content = content, kr_curated = curated,
                 kr_hash = ke_sha K content, kr_version = version, kr_refs = refs, kr_published = published\<rparr>
      in (Inr i, w\<lparr>kw_rows := kw_rows w @ [row], kw_uuids := Suc (kw_uuids w)\<rparr>))"

definition mark_published :: "string \<Rightarrow> core_world \<Rightarrow> core_world" where
  "mark_published i w =
     w\<lparr>kw_rows := map (\<lambda>r. if kr_id r = i then r\<lparr>kr_published := True\<rparr> else r) (kw_rows w)\<rparr>"

definition row_for :: "agent_config \<Rightarrow> string \<Rightarrow> core_world \<Rightarrow> core_row option" where
  "row_for cfg h w = find (\<lambda>r. kr_agent r = ac_id cfg \<and> kr_hash r = h) (kw_rows w)"

definition find_revision :: "string \<Rightarrow> core_world \<Rightarrow> core_row option" where
  "find_revision i w = find (\<lambda>r. kr_id r = i) (kw_rows w)"

text \<open>The original bytes become a published revision; an identity no stored version renders is refused.\<close>

definition record_new :: "core_env \<Rightarrow> agent_config \<Rightarrow> string \<Rightarrow> string option core_op" where
  "record_new K cfg disk =
     (case split_core K disk of
        Inl e \<Rightarrow> cfail (conflict ''Existing MEMORY.md is malformed'')
      | Inr (None, i, curated) \<Rightarrow>
          cbind (add_revision K cfg disk disk None [] True) (\<lambda>i. cret (Some i))
      | Inr (Some recorded, i, curated) \<Rightarrow>
          cbind (cget (\<lambda>w. Inr (identity_version K (ac_id cfg) recorded w))) (\<lambda>original.
            if original = None
            then cfail (conflict (''Existing managed identity is not from this agent'' @ [CHR 0x27]
                   @ ''s configuration''))
            else cbind (add_revision K cfg disk curated original [] True) (\<lambda>i. cret (Some i))))"

definition record_original_snapshot ::
    "core_env \<Rightarrow> agent_config \<Rightarrow> string \<Rightarrow> string option core_op" where
  "record_original_snapshot K cfg disk w =
     (if disk = [] then cret None w
      else case row_for cfg (ke_sha K disk) w of
             Some r \<Rightarrow>
               if ke_sha K (kr_content r) = kr_hash r then (Inr (Some (kr_id r)), mark_published (kr_id r) w)
               else record_new K cfg disk w
           | None \<Rightarrow> record_new K cfg disk w)"


section \<open>Publishing\<close>

record core_snapshot =
  cs_revision :: "string option"
  cs_content :: string
  cs_curated :: string
  cs_hash :: string
  cs_version :: "string option"
  cs_tokens :: nat

definition snapshot_of :: "core_env \<Rightarrow> core_row \<Rightarrow> core_snapshot" where
  "snapshot_of K r = \<lparr>cs_revision = Some (kr_id r), cs_content = kr_content r, cs_curated = kr_curated r,
     cs_hash = ke_sha K (kr_content r), cs_version = kr_version r, cs_tokens = ke_tokens K (kr_content r)\<rparr>"

definition core_ceiling :: "agent_config \<Rightarrow> int" where
  "core_ceiling cfg = lim_core_max_tokens (ac_limits cfg)"

definition over_ceiling :: "core_env \<Rightarrow> agent_config \<Rightarrow> string \<Rightarrow> bool" where
  "over_ceiling K cfg content \<longleftrightarrow> int (ke_tokens K content) > core_ceiling cfg"

text \<open>The conflict of a stale base, with what is on disk now.\<close>

definition stale_base :: "core_env \<Rightarrow> string \<Rightarrow> 'a core_op" where
  "stale_base K disk =
     (if disk = [] then cfail (CoreConflict ''Core changed since your edit base'' None (Some []) ''conflict'')
      else cbind (clift (split_core K disk)) (\<lambda>(s, i, curated).
        cfail (CoreConflict ''Core changed since your edit base'' (Some (ke_sha K disk)) (Some curated) ''conflict'')))"

definition read_file :: "agent_config \<Rightarrow> string core_op" where
  "read_file cfg = cbind (cget (core_path cfg)) (\<lambda>_. cget read_disk)"

definition check_base :: "core_env \<Rightarrow> string option \<Rightarrow> string \<Rightarrow> unit core_op" where
  "check_base K expected disk =
     (case expected of None \<Rightarrow> cret () | Some h \<Rightarrow> if ke_sha K disk = h then cret () else stale_base K disk)"

text \<open>Up to the commit: the original and the candidate are durable, the file is untouched.\<close>

definition publish_prepare ::
    "core_env \<Rightarrow> agent_config \<Rightarrow> string \<Rightarrow> string \<Rightarrow> string list \<Rightarrow> string \<Rightarrow> string option \<Rightarrow> string core_op" where
  "publish_prepare K cfg whole curated refs version expected =
     cbind (cget (active_version_id K cfg)) (\<lambda>v.
     cbind (ccheck (v = version) (conflict ''Agent configuration changed before core publication'')) (\<lambda>_.
     cbind (read_file cfg) (\<lambda>disk.
     cbind (record_original_snapshot K cfg disk) (\<lambda>_.
     cbind (check_base K expected disk) (\<lambda>_.
     cbind (add_revision K cfg whole curated (Some version) refs False) (\<lambda>i.
     cbind (cput commit) (\<lambda>_. cret i)))))))"

text \<open>The base is checked again, then the file is replaced and read back.\<close>

definition publish_swap ::
    "core_env \<Rightarrow> core_script \<Rightarrow> agent_config \<Rightarrow> string \<Rightarrow> string option \<Rightarrow> string \<Rightarrow> unit core_op" where
  "publish_swap K S cfg whole expected i =
     cbind (case expected of
              None \<Rightarrow> cret ()
            | Some h \<Rightarrow> cbind (read_file cfg) (\<lambda>disk. check_base K expected disk)) (\<lambda>_.
     cbind (cput (edit_disk (ks_replace S))) (\<lambda>_.
     cbind (cput (edit_disk (\<lambda>_. Some whole))) (\<lambda>_.
     cbind (cput (edit_disk (ks_landed S))) (\<lambda>_.
     cbind (cget read_disk) (\<lambda>landed.
     cbind (ccheck (ke_sha K landed = ke_sha K whole)
              (conflict ''Core file was replaced externally during publish'')) (\<lambda>_.
     cbind (cput (mark_published i)) (\<lambda>_. cput commit)))))))"

definition publish ::
    "core_env \<Rightarrow> core_script \<Rightarrow> agent_config \<Rightarrow> string \<Rightarrow> string list \<Rightarrow> string \<Rightarrow> string option
     \<Rightarrow> core_snapshot core_op" where
  "publish K S cfg curated refs version expected =
     (let whole = build_core K (identity_text cfg) curated in
     cbind (clift (validate_curated curated)) (\<lambda>_.
     cbind (ccheck (\<not> over_ceiling K cfg whole)
       (conflict_kind ''limit'' (''Core exceeds ceiling: '' @ show_int (int (ke_tokens K whole)) @ '' tokens > ''
          @ show_int (core_ceiling cfg)))) (\<lambda>_.
     cbind (cget (core_path cfg)) (\<lambda>_.
     cbind (cput (ks_lock S)) (\<lambda>_.
     cbind (publish_prepare K cfg whole curated refs version expected) (\<lambda>i.
     cbind (cput (edit_disk (ks_commit S))) (\<lambda>_.
     cbind (publish_swap K S cfg whole expected i) (\<lambda>_.
       cret \<lparr>cs_revision = Some i, cs_content = whole, cs_curated = curated, cs_hash = ke_sha K whole,
             cs_version = Some version, cs_tokens = ke_tokens K whole\<rparr>))))))))"


section \<open>Pinning a session\<close>

text \<open>The curated part of the file; a managed identity must be current or one a stored version renders.\<close>

definition managed_ok :: "core_env \<Rightarrow> agent_config \<Rightarrow> string \<Rightarrow> string \<Rightarrow> string \<Rightarrow> unit core_op" where
  "managed_ok K cfg unknown recorded identity =
     cbind (ccheck (ke_sha K identity = recorded) (conflict ''Managed identity marker was tampered with'')) (\<lambda>_.
     cbind (cget (\<lambda>w. Inr (known_identity_hash K (ac_id cfg) recorded w))) (\<lambda>known.
       ccheck (recorded = ke_sha K (identity_text cfg) \<or> known) (conflict unknown)))"

definition disk_curated :: "core_env \<Rightarrow> agent_config \<Rightarrow> string \<Rightarrow> string core_op" where
  "disk_curated K cfg disk =
     (if disk = [] then cret []
      else if starts_with IDENTITY_BEGIN disk
      then cbind (clift (split_core K disk)) (\<lambda>(recorded, identity, curated).
             cbind (managed_ok K cfg (''Managed identity does not match current config or a ''
                      @ ''known revision; restore an explicit revision instead'')
                      (case recorded of None \<Rightarrow> [] | Some r \<Rightarrow> r) (case identity of None \<Rightarrow> [] | Some t \<Rightarrow> t))
               (\<lambda>_. cret curated))
      else cret disk)"

definition backup_name :: "core_env \<Rightarrow> string \<Rightarrow> string" where
  "backup_name K disk = ''MEMORY.md.pre-core-backup.'' @ take 16 (ke_sha K disk)"

text \<open>An oversized file is copied beside itself, never over another copy.\<close>

definition keep_backup :: "core_env \<Rightarrow> string \<Rightarrow> unit core_op" where
  "keep_backup K disk w =
     (if disk = [] then cret () w
      else case map_of (kw_backups w) (backup_name K disk) of
             None \<Rightarrow> (Inr (), w\<lparr>kw_backups := kw_backups w @ [(backup_name K disk, disk)]\<rparr>)
           | Some t \<Rightarrow> if t = disk then (Inr (), w)
                       else (Inl (conflict ''Existing core backup does not match the original''), w))"

text \<open>The newest row of those bytes, a published one first.\<close>

definition newest_revision :: "agent_config \<Rightarrow> string \<Rightarrow> core_world \<Rightarrow> core_row option" where
  "newest_revision cfg h w =
     (let rows = rev (filter (\<lambda>r. kr_agent r = ac_id cfg \<and> kr_hash r = h) (kw_rows w))
      in case find kr_published rows of Some r \<Rightarrow> Some r | None \<Rightarrow> find (\<lambda>r. True) rows)"

definition pin_existing :: "core_env \<Rightarrow> core_row \<Rightarrow> core_snapshot core_op" where
  "pin_existing K r w =
     (Inr (snapshot_of K r), if kr_published r then w else commit (mark_published (kr_id r) w))"

definition pinned_revision :: "core_env \<Rightarrow> agent_config \<Rightarrow> string \<Rightarrow> core_snapshot core_op" where
  "pinned_revision K cfg i =
     cbind (cget (\<lambda>w. case find_revision i w of
        None \<Rightarrow> Inl (conflict (''Session'' @ [CHR 0x27] @ ''s pinned core revision is invalid or missing''))
      | Some r \<Rightarrow> if kr_agent r \<noteq> ac_id cfg \<or> \<not> kr_published r \<or> ke_sha K (kr_content r) \<noteq> kr_hash r
                  then Inl (conflict (''Session'' @ [CHR 0x27] @ ''s pinned core revision is invalid or missing''))
                  else Inr (snapshot_of K r)))
       cret"

text \<open>The pin of the session, and the snapshot with the session's new pin.\<close>

definition load_or_pin_core ::
    "core_env \<Rightarrow> core_script \<Rightarrow> agent_config \<Rightarrow> string option \<Rightarrow> (core_snapshot \<times> string option) core_op" where
  "load_or_pin_core K S cfg pin =
     (if pin \<noteq> None \<and> pin \<noteq> Some []
      then cbind (pinned_revision K cfg (the pin)) (\<lambda>sn. cret (sn, pin))
      else
        cbind (read_file cfg) (\<lambda>disk.
        cbind (cget (active_version_id K cfg)) (\<lambda>version.
        cbind (disk_curated K cfg disk) (\<lambda>curated.
        cbind (ccheck (\<not> over_ceiling K cfg (identity_text cfg))
          (conflict_kind ''limit'' ''Agent identity exceeds the core token ceiling'')) (\<lambda>_.
        let whole = build_core K (identity_text cfg) curated in
        if over_ceiling K cfg whole
        then cbind (keep_backup K disk) (\<lambda>_. cfail (conflict (''MEMORY.md exceeds the core ceiling and needs ''
               @ ''manual curation; original preserved alongside it'')))
        else
          cbind (cget (\<lambda>w. Inr (newest_revision cfg (ke_sha K whole) w))) (\<lambda>existing.
          cbind (case existing of
                   Some r \<Rightarrow>
                     if ke_sha K (kr_content r) = kr_hash r \<and> (kr_published r \<or> ke_sha K disk = kr_hash r)
                     then pin_existing K r
                     else publish K S cfg curated [] version (Some (ke_sha K disk))
                 | None \<Rightarrow> publish K S cfg curated [] version (Some (ke_sha K disk)))
            (\<lambda>sn. cret (sn, cs_revision sn))))))))"


section \<open>Writers\<close>

definition curated_on_disk :: "core_env \<Rightarrow> string \<Rightarrow> string core_op" where
  "curated_on_disk K disk =
     (if starts_with IDENTITY_BEGIN disk
      then cbind (clift (split_core K disk)) (\<lambda>(s, i, curated). cret curated) else cret disk)"

text \<open>A stale edit is refused before anything is written.\<close>

definition check_edit_base :: "core_env \<Rightarrow> string option \<Rightarrow> string \<Rightarrow> unit core_op" where
  "check_edit_base K expected disk =
     (if expected \<noteq> None \<and> expected \<noteq> Some (ke_sha K disk)
      then cbind (curated_on_disk K disk) (\<lambda>curated.
             cfail (CoreConflict ''Core changed since your edit base'' (Some (ke_sha K disk)) (Some curated) ''conflict''))
      else cret ())"

definition reduce_input_to_curated :: "core_env \<Rightarrow> agent_config \<Rightarrow> string \<Rightarrow> string core_op" where
  "reduce_input_to_curated K cfg incoming =
     (if \<not> starts_with IDENTITY_BEGIN incoming then cret incoming
      else cbind (clift (split_core K incoming)) (\<lambda>(recorded, identity, curated).
        if recorded \<noteq> None \<and> Some (ke_sha K (case identity of None \<Rightarrow> [] | Some t \<Rightarrow> t)) = recorded
           \<and> recorded = Some (ke_sha K (identity_text cfg))
        then cret curated
        else cfail (conflict ''Incoming content carries an unmanaged identity prefix'')))"

definition capped_tokens :: "agent_config \<Rightarrow> int" where
  "capped_tokens cfg =
     min (case mc_max_tokens (ac_model cfg) of None \<Rightarrow> 4096 | Some n \<Rightarrow> if n = 0 then 4096 else n) 4096"

definition supplied_ids :: "string option \<Rightarrow> string \<Rightarrow> string list" where
  "supplied_ids base proposal =
     (case base of None \<Rightarrow> [proposal] | Some b \<Rightarrow> if b = proposal then [b] else [b, proposal])"

definition cleanup_request :: "core_env \<Rightarrow> agent_config \<Rightarrow> string \<Rightarrow> string \<Rightarrow> string list \<Rightarrow> string" where
  "cleanup_request K cfg current proposal ids =
     ke_prompt K @ [nl, nl] @ dl_dumps (ke_doc K) (PDict
       [(''existing_curated'', PStr current), (''proposed_curated'', PStr proposal),
        (''max_tokens'', PInt (core_ceiling cfg)),
        (''identity_tokens_reserved'', PInt (int (ke_tokens K (build_core K (identity_text cfg) [])))),
        (''source_ids'', PList (map PStr ids))])"

definition demoted_ok :: "string list \<Rightarrow> pyval \<Rightarrow> bool" where
  "demoted_ok ids v =
     (case v of
        PDict d \<Rightarrow>
          (case (dget d ''text'' PNone, dget d ''source_ids'' PNone) of
             (PStr t, PList xs) \<Rightarrow> list_all (\<lambda>x. x \<in> set (map PStr ids)) xs
           | _ \<Rightarrow> False)
      | _ \<Rightarrow> False)"

definition demoted_text :: "pyval \<Rightarrow> string" where
  "demoted_text v = (case v of PDict d \<Rightarrow> (case dget d ''text'' PNone of PStr t \<Rightarrow> t | _ \<Rightarrow> []) | _ \<Rightarrow> [])"

fun is_text :: "pyval \<Rightarrow> bool" where
  "is_text (PStr s) = True"
| "is_text _ = False"

text \<open>What the cleanup model returned, if it can be used: the curated text.\<close>

definition cleanup_output :: "core_env \<Rightarrow> string list \<Rightarrow> string \<Rightarrow> core_error + string" where
  "cleanup_output K ids content =
     (let bad = (\<lambda>msg. Inl (conflict_kind ''cleanup'' msg)) in
      case core_text K (py_strip content) of
        None \<Rightarrow> bad ''Core cleanup returned invalid JSON''
      | Some (PDict d) \<Rightarrow>
          (case (dget d ''core_markdown'' PNone, dget d ''demoted'' (PList []), dget d ''conflicts'' (PList [])) of
             (PStr curated, PList demoted, PList conflicts) \<Rightarrow>
               if \<not> list_all is_text conflicts then bad ''Core cleanup returned invalid conflicts''
               else if conflicts \<noteq> []
               then bad (''Core cleanup reported conflicts: '' @ show_int (int (length conflicts)))
               else if \<not> list_all (demoted_ok ids) demoted then bad ''Core cleanup returned invalid demoted entries''
               else if list_ex (ke_secret K) (curated # map demoted_text demoted)
               then bad ''Core cleanup output contains credential material''
               else Inr curated
           | (PStr curated, PList demoted, _) \<Rightarrow> bad ''Core cleanup returned invalid conflicts''
           | (PStr curated, _, _) \<Rightarrow> bad ''Core cleanup returned invalid demoted entries''
           | _ \<Rightarrow> bad ''Core cleanup returned no curated markdown'')
      | Some v \<Rightarrow> bad ''Core cleanup returned no curated markdown'')"

definition proposal_revision ::
    "core_env \<Rightarrow> agent_config \<Rightarrow> string \<Rightarrow> string \<Rightarrow> string \<Rightarrow> string option \<Rightarrow> string core_op" where
  "proposal_revision K cfg whole curated version base w =
     (case row_for cfg (ke_sha K whole) w of
        Some r \<Rightarrow> if kr_content r = whole then (Inr (kr_id r), w)
                  else add_revision K cfg whole curated (Some version)
                         (case base of None \<Rightarrow> [] | Some b \<Rightarrow> [b]) False w
      | None \<Rightarrow> add_revision K cfg whole curated (Some version)
                  (case base of None \<Rightarrow> [] | Some b \<Rightarrow> [b]) False w)"

definition ask_cleanup ::
    "core_env \<Rightarrow> core_script \<Rightarrow> agent_config \<Rightarrow> string \<Rightarrow> string list \<Rightarrow> string core_op" where
  "ask_cleanup K S cfg request ids =
     cbind (ccheck (ks_provider S) (conflict_kind ''cleanup'' ''Core cleanup provider unavailable'')) (\<lambda>_.
     cbind (clift (case resolve_input_budget (Some (ks_model S)) (mc_max_context_tokens (ac_model cfg))
                          (lim_max_context_tokens (ac_limits cfg)) (Some (capped_tokens cfg)) of
                     Inl e \<Rightarrow> Inl (CoreInvalid ''budget'') | Inr b \<Rightarrow> Inr (ib_tokens b))) (\<lambda>budget.
     cbind (ccheck (int (ke_request_tokens K request) \<le> budget)
       (conflict_kind ''cleanup'' ''Core cleanup input exceeds the resolved budget'')) (\<lambda>_.
     cbind (cput (ks_wait S)) (\<lambda>_.
     case ks_reply S request of
       CleanupCancelled \<Rightarrow> cfail CoreCancelled
     | CleanupFails \<Rightarrow> cfail (conflict_kind ''cleanup'' ''Core cleanup could not complete'')
     | CleanupText t \<Rightarrow> clift (cleanup_output K ids t)))))"

definition cleanup_core ::
    "core_env \<Rightarrow> core_script \<Rightarrow> agent_config \<Rightarrow> string option \<Rightarrow> string option \<Rightarrow> core_snapshot core_op" where
  "cleanup_core K S cfg proposed expected =
     cbind (read_file cfg) (\<lambda>disk.
     cbind (ccheck (\<not> over_ceiling K cfg (build_core K (identity_text cfg) []))
       (conflict ''Managed identity alone exceeds the core ceiling'')) (\<lambda>_.
     cbind (curated_on_disk K disk) (\<lambda>current.
     let proposal = (case proposed of Some p \<Rightarrow> p | None \<Rightarrow> current) in
     cbind (ccheck (expected = None \<or> expected = Some (ke_sha K disk))
       (CoreConflict ''Core changed since your edit base'' (Some (ke_sha K disk)) (Some current) ''conflict'')) (\<lambda>_.
     cbind (cget (\<lambda>w. if map_of (kw_agents w) (ac_id cfg) = None
                      then Inl (conflict (''Agent '' @ ac_id cfg @ '' not found'')) else Inr ())) (\<lambda>_.
     cbind (cget (active_version_id K cfg)) (\<lambda>version.
     cbind (record_original_snapshot K cfg disk) (\<lambda>base.
     cbind (proposal_revision K cfg (build_core K (identity_text cfg) proposal) proposal version base) (\<lambda>i.
     cbind (cput commit) (\<lambda>_.
     let ids = supplied_ids base i in
     cbind (ask_cleanup K S cfg (cleanup_request K cfg current proposal ids) ids) (\<lambda>curated.
     cbind (ccheck (\<not> over_ceiling K cfg (build_core K (identity_text cfg) curated))
       (conflict_kind ''cleanup'' ''Core cleanup could not fit the ceiling'')) (\<lambda>_.
     cbind (cget (active_version_id K cfg)) (\<lambda>version.
       publish K S cfg curated ids version (Some (ke_sha K disk))))))))))))))"

text \<open>A failed cleanup of an update: a conflict is passed on, anything else is the limit.\<close>

definition cleanup_failure :: "core_error \<Rightarrow> core_error" where
  "cleanup_failure e =
     (case e of
        CoreConflict msg h c kind \<Rightarrow>
          if kind = ''conflict'' then e
          else conflict_kind ''limit'' (''Core update exceeds the ceiling; cleanup failed: '' @ msg)
      | _ \<Rightarrow> e)"

definition update_core ::
    "core_env \<Rightarrow> core_script \<Rightarrow> agent_config \<Rightarrow> string \<Rightarrow> string option \<Rightarrow> string list \<Rightarrow> bool
     \<Rightarrow> core_snapshot core_op" where
  "update_core K S cfg text expected refs cleanup =
     cbind (read_file cfg) (\<lambda>disk.
     cbind (if starts_with IDENTITY_BEGIN disk
            then cbind (clift (split_core K disk)) (\<lambda>(recorded, identity, c).
                   managed_ok K cfg (''Managed identity differs from the current configuration; ''
                       @ ''restore an explicit revision instead'')
                     (case recorded of None \<Rightarrow> [] | Some r \<Rightarrow> r) (case identity of None \<Rightarrow> [] | Some t \<Rightarrow> t))
            else cret ()) (\<lambda>_.
     cbind (reduce_input_to_curated K cfg text) (\<lambda>incoming.
     cbind (clift (validate_curated incoming)) (\<lambda>_.
     cbind (check_edit_base K expected disk) (\<lambda>_.
     cbind (cget (active_version_id K cfg)) (\<lambda>version.
     let whole = build_core K (identity_text cfg) incoming in
     if over_ceiling K cfg whole
     then
       cbind (add_revision K cfg whole incoming (Some version) refs False) (\<lambda>_.
       cbind (cput commit) (\<lambda>_.
       if \<not> cleanup
       then cfail (conflict_kind ''limit'' ''Core update exceeds the ceiling - run cleanup or narrow the edit'')
       else (\<lambda>w. case cleanup_core K S cfg (Some incoming) (Some (ke_sha K disk)) w of
                   (Inl e, w) \<Rightarrow> (Inl (cleanup_failure e), w) | r \<Rightarrow> r)))
     else publish K S cfg incoming refs version (Some (ke_sha K disk))))))))"

definition restore_core ::
    "core_env \<Rightarrow> core_script \<Rightarrow> agent_config \<Rightarrow> string \<Rightarrow> string option \<Rightarrow> core_snapshot core_op" where
  "restore_core K S cfg i expected =
     cbind (cget (\<lambda>w. case find_revision i w of
        None \<Rightarrow> Inl (conflict ''Unknown core revision'')
      | Some r \<Rightarrow> if kr_agent r = ac_id cfg then Inr r else Inl (conflict ''Unknown core revision''))) (\<lambda>r.
     cbind (clift (split_core K (kr_content r))) (\<lambda>(recorded, identity, c).
     cbind (ccheck (recorded = None
         \<or> Some (ke_sha K (case identity of None \<Rightarrow> [] | Some t \<Rightarrow> t)) = recorded)
       (conflict ''Stored revision identity is invalid'')) (\<lambda>_.
     cbind (ccheck (ke_sha K (kr_content r) = kr_hash r) (conflict ''Stored revision content hash mismatch'')) (\<lambda>_.
     cbind (ccheck (kr_published r) (conflict ''Only published revisions can be restored'')) (\<lambda>_.
     cbind (read_file cfg) (\<lambda>observed.
     cbind (ccheck (expected = None \<or> expected = Some (ke_sha K observed))
       (CoreConflict ''Core changed since your restore base'' (Some (ke_sha K observed)) None ''conflict'')) (\<lambda>_.
     cbind (cget (active_version_id K cfg)) (\<lambda>version.
       publish K S cfg (kr_curated r) [] version (Some (ke_sha K observed))))))))))"

end
