(* ===== verification/Core_Memory_Safety.thy ===== *)
theory Core_Memory_Safety
  imports Core_Memory Approvals
begin

text \<open>
  What the core memory guarantees: the file format is read back exactly, the archive only adds_only so that a
  pinned session keeps its core, updates are compare-and-swap and lose nothing, the evidence is durable
  before the file is replaced, and a writer that fails leaves the file alone.
\<close>

section \<open>The file format round trip\<close>

lemma find_sub_skip:
  assumes "p \<noteq> []" "hd p \<notin> set xs"
  shows "find_sub p (xs @ ys) = map_option ((+) (length xs)) (find_sub p ys)"
  using assms(2)
proof (induction xs)
  case Nil
  then show ?case by (simp add: option.map_id0 [unfolded id_def] map_option.id)
next
  case (Cons x xs)
  have "\<not> starts_with p (x # xs @ ys)"
    using Cons.prems assms(1) by (cases p) (auto simp: starts_with_iff)
  with Cons show ?case by (simp add: option.map_comp comp_def)
qed

lemma py_strip_word: "list_all (\<lambda>c. \<not> py_space c) h \<Longrightarrow> py_strip (h @ [blank]) = h"
proof -
  assume h: "list_all (\<lambda>c. \<not> py_space c) h"
  have l: "dropWhile py_space (h @ [blank]) = (if h = [] then [] else h @ [blank])"
    using h by (cases h) auto
  have r: "dropWhile py_space (rev h) = rev h"
    using h by (cases h rule: rev_cases) auto
  show ?thesis using l r by (simp add: py_strip_def py_lstrip_def py_rstrip_def)
qed

lemma end_char: "starts_with IDENTITY_END (c # s) \<Longrightarrow> c = CHR ''<''"
  by (simp add: starts_with_def IDENTITY_END_def)

text \<open>No shorter identity has the same hash.\<close>

definition hash_separates :: "core_env \<Rightarrow> string \<Rightarrow> bool" where
  "hash_separates K identity \<longleftrightarrow> (\<forall>s. length s < length identity \<longrightarrow> ke_sha K s \<noteq> ke_sha K identity)"

lemma candidate_short:
  assumes content: "content = pre @ nl # identity @ nl # IDENTITY_END @ rest"
    and start: "length pre = start"
    and m: "start \<le> m" "m < start + length identity + 2" "starts_with IDENTITY_END (drop m content)"
  shows "length (drop_last_nl (drop_first_nl (take (m - start) (drop start content)))) < length identity"
proof -
  have "drop start content = nl # identity @ nl # IDENTITY_END @ rest" using content start by simp
  moreover from this have "drop m content = drop (m - start) (nl # identity @ nl # IDENTITY_END @ rest)"
    using m(1) by (metis drop_drop le_add_diff_inverse2)
  moreover have "m \<noteq> start"
    using calculation m(3) by (auto dest: end_char)
  moreover have "m \<noteq> start + length identity + 1"
  proof
    assume "m = start + length identity + 1"
    then have "drop m content = nl # IDENTITY_END @ rest"
      using calculation(2) by simp
    with m(3) show False by (auto dest: end_char)
  qed
  ultimately have d: "drop start content = nl # identity @ nl # IDENTITY_END @ rest"
    and k: "\<exists>k. m - start = Suc k \<and> k < length identity"
    using m(1,2) by (auto intro!: exI[of _ "m - start - 1"])
  from k obtain k where k: "m - start = Suc k" "k < length identity" by blast
  have "drop_first_nl (take (m - start) (drop start content)) = take k identity"
    using d k by (simp add: drop_first_nl_def)
  then show ?thesis using k by (auto simp: drop_last_nl_def)
qed

lemma split_search_finds:
  assumes content: "content = pre @ nl # identity @ nl # IDENTITY_END @ rest"
    and start: "length pre = start" and sep: "hash_separates K identity"
  shows "start \<le> k \<Longrightarrow> k \<le> start + length identity + 2 \<Longrightarrow>
    split_search K content start (ke_sha K identity) k = Inr (Some (ke_sha K identity), Some identity, drop_separator rest)"
proof (induction "start + length identity + 2 - k" arbitrary: k rule: less_induct)
  case less
  let ?p = "start + length identity + 2"
  have at: "drop ?p content = IDENTITY_END @ rest" using content start by simp
  have len: "?p \<le> length content" using content start by simp
  have "\<exists>i \<le> ?p - k. find_sub IDENTITY_END (drop k content) = Some i"
    using find_sub_exists[of "?p - k" "drop k content" IDENTITY_END] at len less.prems by simp
  then obtain i where i: "i \<le> ?p - k" "find_sub IDENTITY_END (drop k content) = Some i" by blast
  define m where "m = k + i"
  have m: "find_from IDENTITY_END content k = Some m" "k \<le> m" "m \<le> ?p"
    using i less.prems(2) by (simp_all add: find_from_def m_def)
  have s: "starts_with IDENTITY_END (drop m content)"
    using find_sub_Some_starts[OF i(2)] by (simp add: m_def add.commute)
  show ?case
  proof (cases "m = ?p")
    case True
    have "drop_last_nl (drop_first_nl (take (m - start) (drop start content))) = identity"
      using content start True by (simp add: drop_first_nl_def drop_last_nl_def)
    moreover have "drop (m + length IDENTITY_END) content = rest"
      using at True by (metis append_eq_conv_conj drop_drop add.commute)
    ultimately show ?thesis using m(1) by (simp add: split_search.simps[of K content start _ k])
  next
    case False
    with m(3) have lt: "m < ?p" by simp
    have "length (drop_last_nl (drop_first_nl (take (m - start) (drop start content)))) < length identity"
      using candidate_short[OF content start _ lt s] m(2) less.prems(1) by simp
    then have "ke_sha K (drop_last_nl (drop_first_nl (take (m - start) (drop start content)))) \<noteq> ke_sha K identity"
      using sep unfolding hash_separates_def by blast
    then have "split_search K content start (ke_sha K identity) k = split_search K content start (ke_sha K identity) (m + 1)"
      using m(1) by (simp add: split_search.simps[of K content start _ k] Let_def)
    with less.hyps[of "m + 1"] m(2) lt less.prems show ?thesis by simp
  qed
qed

definition hex_text :: "string \<Rightarrow> bool" where
  "hex_text h \<longleftrightarrow> list_all (\<lambda>c. c \<in> set ''0123456789abcdef'') h"

lemma hex_plain: "hex_text h \<Longrightarrow> list_all (\<lambda>c. \<not> py_space c) h" "hex_text h \<Longrightarrow> CHR ''-'' \<notin> set h"
  unfolding hex_text_def list_all_iff by (fastforce simp: py_space_def)+

text \<open>C24. What a publication writes is read back exactly: whatever the identity and the curated text contain, the
  end marker of the format included, splitting a built file returns the recorded hash, the identity and
  the curated text byte for byte.  SHA-256 digests are hexadecimal, and no shorter text shares the
  identity's digest.\<close>
theorem split_build_core:
  assumes "hex_text (ke_sha K identity)" "hash_separates K identity"
  shows "split_core K (build_core K identity curated) = Inr (Some (ke_sha K identity), Some identity, curated)"
proof -
  let ?h = "ke_sha K identity" and ?L = "length IDENTITY_BEGIN"
  let ?rest = "[nl] @ identity @ [nl] @ IDENTITY_END @ [nl, nl] @ curated"
  let ?c = "build_core K identity curated"
  have c: "?c = IDENTITY_BEGIN @ ?h @ [blank] @ ARROW @ ?rest" by (simp add: build_core_def ARROW_def)
  have "find_sub ARROW ((?h @ [blank]) @ ARROW @ ?rest) = Some (length ?h + 1)"
    using hex_plain(2)[OF assms(1)]
    by (subst find_sub_skip) (auto simp: ARROW_def starts_with_def)
  then have f: "find_from ARROW ?c ?L = Some (?L + (length ?h + 1))" by (simp add: find_from_def c)
  have r: "py_strip (take (Suc (length ?h)) (drop ?L ?c)) = ?h"
    using py_strip_word[OF hex_plain(1)[OF assms(1)]] by (simp add: c)
  have b: "?c = (IDENTITY_BEGIN @ ?h @ [blank] @ ARROW) @ nl # identity @ nl # IDENTITY_END @ ([nl, nl] @ curated)"
    by (simp add: c)
  have "split_search K ?c (?L + (length ?h + 1) + 3) ?h (?L + (length ?h + 1) + 3) =
      Inr (Some ?h, Some identity, drop_separator ([nl, nl] @ curated))"
    by (rule split_search_finds[OF b _ assms(2)]) (simp_all add: ARROW_def)
  moreover have "drop_separator ([nl, nl] @ curated) = curated"
    by (simp add: drop_separator_def starts_with_def)
  moreover have "starts_with IDENTITY_BEGIN ?c" by (simp add: c)
  ultimately show ?thesis by (simp add: split_core_def f r Let_def)
qed


section \<open>The archive only adds_only\<close>

definition kept :: "core_row \<Rightarrow> core_row \<Rightarrow> bool" where
  "kept r r' \<longleftrightarrow> r' = r \<or> r' = r\<lparr>kr_published := True\<rparr>"

definition archive_le :: "core_world \<Rightarrow> core_world \<Rightarrow> bool" where
  "archive_le w w' \<longleftrightarrow> (\<exists>ps qs. kw_rows w' = ps @ qs \<and> list_all2 kept (kw_rows w) ps)"

lemma kept_refl [simp]: "kept r r" by (simp add: kept_def)

lemma kept_trans: "kept r s \<Longrightarrow> kept s t \<Longrightarrow> kept r t"
  by (auto simp: kept_def)

lemma archive_refl [simp]: "archive_le w w"
  unfolding archive_le_def by (intro exI[of _ "kw_rows w"] exI[of _ "[]"]) (simp add: list_all2_same)

lemma archive_trans:
  assumes "archive_le w1 w2" "archive_le w2 w3" shows "archive_le w1 w3"
proof -
  obtain ps qs where 1: "kw_rows w2 = ps @ qs" "list_all2 kept (kw_rows w1) ps"
    using assms(1) unfolding archive_le_def by blast
  obtain us vs where 2: "kw_rows w3 = us @ vs" "list_all2 kept (ps @ qs) us"
    using assms(2) 1(1) unfolding archive_le_def by auto
  obtain ps' qs' where 3: "us = ps' @ qs'" "list_all2 kept ps ps'"
    using 2(2) by (auto simp: list_all2_append1)
  have "list_all2 kept (kw_rows w1) ps'" by (rule list_all2_trans[OF _ 1(2) 3(2)]) (rule kept_trans)
  with 2 3 show ?thesis unfolding archive_le_def by (intro exI[of _ ps'] exI[of _ "qs' @ vs"]) simp
qed

lemma archive_same: "kw_rows w' = kw_rows w \<Longrightarrow> archive_le w w'"
  using archive_refl unfolding archive_le_def by simp

lemma archive_mark: "archive_le w (mark_published i w)"
  unfolding archive_le_def
  by (intro exI[of _ "kw_rows (mark_published i w)"] exI[of _ "[]"])
     (auto simp: mark_published_def list_all2_conv_all_nth kept_def)

lemma archive_commit [simp]: "archive_le w (commit w)" by (rule archive_same) (simp add: commit_def)

lemma archive_edit [simp]: "archive_le w (edit_disk f w)" by (rule archive_same) (simp add: edit_disk_def)

definition adds_only :: "'a core_op \<Rightarrow> bool" where
  "adds_only m \<longleftrightarrow> (\<forall>w r w'. m w = (r, w') \<longrightarrow> archive_le w w')"

named_theorems add_intros

lemma adds_bind [add_intros]: "adds_only m \<Longrightarrow> (\<And>x. adds_only (f x)) \<Longrightarrow> adds_only (cbind m f)"
  unfolding adds_only_def cbind_def
  by (auto split: prod.splits sum.splits) (blast intro: archive_trans)

lemma adds_basic [add_intros]:
  "adds_only (cfail e)" "adds_only (cret x)" "adds_only (clift r)" "adds_only (cget g)" "adds_only (ccheck b e)"
  by (auto simp: adds_only_def cfail_def cret_def clift_def cget_def ccheck_def)

lemma adds_put [add_intros]: "(\<And>w. archive_le w (f w)) \<Longrightarrow> adds_only (cput f)"
  by (auto simp: adds_only_def cput_def)

lemmas add_puts [add_intros] = archive_commit archive_edit archive_mark

lemma adds_add [add_intros]: "adds_only (add_revision K cfg content curated v refs p)"
  unfolding adds_only_def add_revision_def archive_le_def by (auto simp: Let_def list_all2_same)

lemma adds_if [add_intros]: "adds_only m \<Longrightarrow> adds_only n \<Longrightarrow> adds_only (if b then m else n)" by simp

lemma adds_record [add_intros]: "adds_only (record_original_snapshot K cfg disk)"
proof -
  have "adds_only (record_new K cfg disk)"
    unfolding record_new_def by (auto intro!: add_intros split: sum.split option.split prod.split)
  then show ?thesis
    unfolding adds_only_def record_original_snapshot_def
    by (auto split: if_splits option.splits simp: archive_mark)
qed

lemma adds_read [add_intros]: "adds_only (read_file cfg)"
  unfolding read_file_def by (intro add_intros)

lemma adds_stale [add_intros]: "adds_only (stale_base K disk)"
  unfolding stale_base_def by (auto intro!: add_intros split: prod.split)

lemma adds_check_base [add_intros]: "adds_only (check_base K expected disk)"
  unfolding check_base_def by (auto intro!: add_intros split: option.split)

lemma adds_prepare [add_intros]: "adds_only (publish_prepare K cfg whole curated refs version expected)"
  unfolding publish_prepare_def by (intro add_intros)

lemma adds_swap [add_intros]: "adds_only (publish_swap K S cfg whole expected i)"
  unfolding publish_swap_def by (auto intro!: add_intros split: option.split)

text \<open>Other tasks add to the archive as these operations do.\<close>

definition fair :: "core_script \<Rightarrow> bool" where
  "fair S \<longleftrightarrow> (\<forall>w. archive_le w (ks_lock S w)) \<and> (\<forall>w. archive_le w (ks_wait S w))"

lemma adds_publish: "fair S \<Longrightarrow> adds_only (publish K S cfg curated refs version expected)"
  unfolding publish_def Let_def fair_def by (intro add_intros) auto

lemma adds_managed [add_intros]: "adds_only (managed_ok K cfg m recorded identity)"
  unfolding managed_ok_def by (intro add_intros)

lemma adds_disk_curated [add_intros]: "adds_only (disk_curated K cfg disk)"
  unfolding disk_curated_def by (auto intro!: add_intros split: prod.split)

lemma adds_backup [add_intros]: "adds_only (keep_backup K disk)"
  unfolding adds_only_def keep_backup_def
  by (auto split: if_splits option.splits intro: archive_same)

lemma adds_pin_existing [add_intros]: "adds_only (pin_existing K r)"
  unfolding adds_only_def pin_existing_def
  by (auto split: if_splits intro: archive_trans[OF archive_mark archive_commit])

lemma adds_pinned [add_intros]: "adds_only (pinned_revision K cfg i)"
  unfolding pinned_revision_def by (intro add_intros)

lemma adds_load: "fair S \<Longrightarrow> adds_only (load_or_pin_core K S cfg pin)"
  unfolding load_or_pin_core_def Let_def
  by (auto intro!: add_intros adds_publish split: option.split)

lemma adds_curated [add_intros]: "adds_only (curated_on_disk K disk)"
  unfolding curated_on_disk_def by (auto intro!: add_intros split: prod.split)

lemma adds_edit_base [add_intros]: "adds_only (check_edit_base K expected disk)"
  unfolding check_edit_base_def by (intro add_intros)

lemma adds_reduce [add_intros]: "adds_only (reduce_input_to_curated K cfg incoming)"
  unfolding reduce_input_to_curated_def by (auto intro!: add_intros split: prod.split)

lemma adds_proposal [add_intros]: "adds_only (proposal_revision K cfg whole curated version base)"
  using adds_add unfolding adds_only_def proposal_revision_def
  by (auto split: if_splits option.splits)

lemma adds_ask: "fair S \<Longrightarrow> adds_only (ask_cleanup K S cfg request ids)"
  unfolding ask_cleanup_def fair_def
  by (intro add_intros) (auto intro!: add_intros split: cleanup_reply.split)

lemma adds_cleanup: "fair S \<Longrightarrow> adds_only (cleanup_core K S cfg proposed expected)"
  unfolding cleanup_core_def Let_def
  by (intro add_intros adds_ask adds_publish)

lemma adds_update: "fair S \<Longrightarrow> adds_only (update_core K S cfg text expected refs cleanup)"
proof -
  assume S: "fair S"
  have c: "adds_only (\<lambda>w. case cleanup_core K S cfg (Some p) h w of (Inl e, w) \<Rightarrow> (Inl (cleanup_failure e), w) | r \<Rightarrow> r)"
    for p h
    using adds_cleanup[OF S, of K cfg "Some p" h] unfolding adds_only_def
    by (auto split: prod.splits sum.splits)
  show ?thesis
    unfolding update_core_def Let_def
    by (intro add_intros adds_publish[OF S] c) (auto intro!: add_intros split: prod.split)
qed

lemma adds_restore: "fair S \<Longrightarrow> adds_only (restore_core K S cfg i expected)"
  unfolding restore_core_def by (auto intro!: add_intros adds_publish split: prod.split)


section \<open>Whoever only adds keeps every pin\<close>

lemma find_kept:
  "list_all2 kept rows ps \<Longrightarrow> find (\<lambda>r. kr_id r = i) rows = Some r \<Longrightarrow>
     \<exists>r'. find (\<lambda>r. kr_id r = i) ps = Some r' \<and> kept r r'"
  by (induction rule: list_all2_induct) (auto simp: kept_def split: if_splits)

lemma archive_find:
  assumes "archive_le w w'" "find_revision i w = Some r"
  shows "\<exists>r'. find_revision i w' = Some r' \<and> kept r r'"
proof -
  obtain ps qs where p: "kw_rows w' = ps @ qs" "list_all2 kept (kw_rows w) ps"
    using assms(1) unfolding archive_le_def by blast
  obtain r' where "find (\<lambda>r. kr_id r = i) ps = Some r'" "kept r r'"
    using find_kept[OF p(2)] assms(2) unfolding find_revision_def by blast
  then show ?thesis using find_append_Some[of _ ps r' qs] p(1) unfolding find_revision_def by auto
qed

lemma pinned_revision_eq:
  "pinned_revision K cfg i w = (Inr sn, w') \<longleftrightarrow> w' = w \<and> (\<exists>r. find_revision i w = Some r \<and> kr_agent r = ac_id cfg
     \<and> kr_published r \<and> ke_sha K (kr_content r) = kr_hash r \<and> sn = snapshot_of K r)"
  by (auto simp: pinned_revision_def cbind_eq_Inr split: option.splits if_splits)

text \<open>A contract for those who change the world: whatever is allowed only adds to the archive.\<close>

locale archive_steps =
  fixes allowed :: "'a \<Rightarrow> bool" and step :: "'a \<Rightarrow> core_world \<Rightarrow> core_world"
  assumes only_adds: "allowed a \<Longrightarrow> archive_le w (step a w)"
begin

lemma steps_only_add: "\<forall>a \<in> set as. allowed a \<Longrightarrow> archive_le w (fold step as w)"
  by (induction as arbitrary: w) (auto intro: archive_trans[OF only_adds])

lemma pinned_stays:
  assumes "pinned_revision K cfg i w = (Inr sn, w)" "\<forall>a \<in> set as. allowed a"
  shows "pinned_revision K cfg i (fold step as w) = (Inr sn, fold step as w)"
proof -
  obtain r where r: "find_revision i w = Some r" "kr_agent r = ac_id cfg" "kr_published r"
    "ke_sha K (kr_content r) = kr_hash r" "sn = snapshot_of K r"
    using assms(1) unfolding pinned_revision_eq by blast
  obtain r' where "find_revision i (fold step as w) = Some r'" "kept r r'"
    using archive_find[OF steps_only_add[OF assms(2)] r(1)] by blast
  with r show ?thesis unfolding pinned_revision_eq by (auto simp: kept_def snapshot_of_def)
qed

end

text \<open>What changes the file, the archive or the configuration of an agent.\<close>

datatype core_action =
    Update agent_config core_script string "string option" "string list" bool
  | Cleanup agent_config core_script "string option"
  | Restore agent_config core_script string "string option"
  | LoadCore agent_config core_script "string option"
  | EditFile "string option \<Rightarrow> string option"
  | SaveVersion version_row
  | Activate string string

fun script_of :: "core_action \<Rightarrow> core_script option" where
  "script_of (Update cfg S t e refs c) = Some S"
| "script_of (Cleanup cfg S e) = Some S"
| "script_of (Restore cfg S i e) = Some S"
| "script_of (LoadCore cfg S pin) = Some S"
| "script_of (EditFile f) = None"
| "script_of (SaveVersion v) = None"
| "script_of (Activate a v) = None"

fun core_run :: "core_env \<Rightarrow> core_action \<Rightarrow> core_world \<Rightarrow> (core_error + core_snapshot option) \<times> core_world" where
  "core_run K (Update cfg S t e refs c) w = cbind (update_core K S cfg t e refs c) (\<lambda>sn. cret (Some sn)) w"
| "core_run K (Cleanup cfg S e) w = cbind (cleanup_core K S cfg None e) (\<lambda>sn. cret (Some sn)) w"
| "core_run K (Restore cfg S i e) w = cbind (restore_core K S cfg i e) (\<lambda>sn. cret (Some sn)) w"
| "core_run K (LoadCore cfg S pin) w = cbind (load_or_pin_core K S cfg pin) (\<lambda>(sn, pin). cret (Some sn)) w"
| "core_run K (EditFile f) w = (Inr None, edit_disk f w)"
| "core_run K (SaveVersion v) w = (Inr None, w\<lparr>kw_versions := kw_versions w @ [v]\<rparr>)"
| "core_run K (Activate a v) w = (Inr None, w\<lparr>kw_agents := AList.update a (Some v) (kw_agents w)\<rparr>)"

definition core_step :: "core_env \<Rightarrow> core_action \<Rightarrow> core_world \<Rightarrow> core_world" where
  "core_step K a w = snd (core_run K a w)"

definition fair_action :: "core_action \<Rightarrow> bool" where
  "fair_action a \<longleftrightarrow> (case script_of a of None \<Rightarrow> True | Some S \<Rightarrow> fair S)"

lemma adds_split: "(\<And>x y. adds_only (f x y)) \<Longrightarrow> adds_only (case p of (x, y) \<Rightarrow> f x y)"
  by (cases p) simp

lemma core_run_adds: "fair_action a \<Longrightarrow> adds_only (core_run K a)"
proof (cases a)
  case (Update cfg S t e refs c)
  assume "fair_action a"
  then have "fair S" using Update by (simp add: fair_action_def)
  moreover have "core_run K a = cbind (update_core K S cfg t e refs c) (\<lambda>sn. cret (Some sn))"
    using Update by (simp add: fun_eq_iff)
  ultimately show ?thesis by (simp add: adds_bind adds_update adds_basic)
next
  case (Cleanup cfg S e)
  assume "fair_action a"
  then have "fair S" using Cleanup by (simp add: fair_action_def)
  moreover have "core_run K a = cbind (cleanup_core K S cfg None e) (\<lambda>sn. cret (Some sn))"
    using Cleanup by (simp add: fun_eq_iff)
  ultimately show ?thesis by (simp add: adds_bind adds_cleanup adds_basic)
next
  case (Restore cfg S i e)
  assume "fair_action a"
  then have "fair S" using Restore by (simp add: fair_action_def)
  moreover have "core_run K a = cbind (restore_core K S cfg i e) (\<lambda>sn. cret (Some sn))"
    using Restore by (simp add: fun_eq_iff)
  ultimately show ?thesis by (simp add: adds_bind adds_restore adds_basic)
next
  case (LoadCore cfg S pin)
  assume "fair_action a"
  then have "fair S" using LoadCore by (simp add: fair_action_def)
  moreover have "core_run K a = cbind (load_or_pin_core K S cfg pin) (\<lambda>(sn, pin). cret (Some sn))"
    using LoadCore by (simp add: fun_eq_iff)
  ultimately show ?thesis by (simp add: adds_bind adds_load adds_split adds_basic)
qed (auto simp: adds_only_def intro: archive_same)

interpretation core_actions: archive_steps fair_action "core_step K" for K
proof
  fix a w
  assume "fair_action a"
  then have "adds_only (core_run K a)" by (rule core_run_adds)
  moreover obtain r w' where "core_run K a w = (r, w')" by fastforce
  ultimately show "archive_le w (core_step K a w)"
    unfolding adds_only_def core_step_def by fastforce
qed


section \<open>What a publication does\<close>

definition archived :: "agent_config \<Rightarrow> string \<Rightarrow> core_world \<Rightarrow> bool" where
  "archived cfg t w \<longleftrightarrow> (\<exists>r \<in> set (kw_durable w). kr_agent r = ac_id cfg \<and> kr_content r = t)"

definition archived_published :: "agent_config \<Rightarrow> string \<Rightarrow> core_world \<Rightarrow> bool" where
  "archived_published cfg t w \<longleftrightarrow>
     (\<exists>r \<in> set (kw_durable w). kr_agent r = ac_id cfg \<and> kr_content r = t \<and> kr_published r)"

definition has_row :: "agent_config \<Rightarrow> string \<Rightarrow> core_world \<Rightarrow> bool" where
  "has_row cfg t w \<longleftrightarrow> (\<exists>r \<in> set (kw_rows w). kr_agent r = ac_id cfg \<and> kr_content r = t \<and> kr_published r)"

lemma has_row_mono: "archive_le w w' \<Longrightarrow> has_row cfg t w \<Longrightarrow> has_row cfg t w'"
  unfolding archive_le_def has_row_def
  by (force simp: kept_def list_all2_conv_all_nth in_set_conv_nth)

lemma read_file_eq [simp]:
  "read_file cfg w = (Inr d, w') \<longleftrightarrow> core_path cfg w = Inr () \<and> kw_disk w = Some d \<and> w' = w"
  by (auto simp: read_file_def cbind_eq_Inr read_disk_def split: option.splits)

lemma add_revision_eq:
  "add_revision K cfg content curated v refs p w = (Inr i, w') \<Longrightarrow>
     kw_disk w' = kw_disk w \<and> kw_path w' = kw_path w
     \<and> (\<exists>r \<in> set (kw_rows w'). kr_id r = i \<and> kr_agent r = ac_id cfg \<and> kr_content r = content \<and> kr_published r = p)"
  by (auto simp: add_revision_def Let_def)

lemma mark_row: "r \<in> set (kw_rows w) \<Longrightarrow> r\<lparr>kr_published := True\<rparr> \<in> set (kw_rows (mark_published (kr_id r) w))"
  by (auto simp: mark_published_def image_iff intro!: bexI[of _ r])

lemma record_original_row:
  assumes "record_original_snapshot K cfg disk w = (Inr b, w')" "inj (ke_sha K)" "disk \<noteq> []"
  shows "has_row cfg disk w'"
proof -
  have new: "has_row cfg disk w'" if "record_new K cfg disk w = (Inr b, w')"
    using that unfolding record_new_def has_row_def
    by (auto split: sum.splits option.splits if_splits simp: cbind_eq_Inr cfail_def dest!: add_revision_eq)
  show ?thesis
  proof (cases "row_for cfg (ke_sha K disk) w")
    case None
    then show ?thesis using assms(1,3) new by (simp add: record_original_snapshot_def)
  next
    case (Some r)
    then have r: "r \<in> set (kw_rows w)" "kr_agent r = ac_id cfg" "kr_hash r = ke_sha K disk"
      unfolding row_for_def by (auto simp: find_Some_iff)
    show ?thesis
    proof (cases "ke_sha K (kr_content r) = kr_hash r")
      case True
      then have "kr_content r = disk" using r(3) assms(2) by (simp add: inj_eq)
      moreover have "w' = mark_published (kr_id r) w"
        using assms(1,3) Some True by (simp add: record_original_snapshot_def)
      ultimately show ?thesis using r mark_row[OF r(1)] unfolding has_row_def
        by (intro bexI[of _ "r\<lparr>kr_published := True\<rparr>"]) simp_all
    qed (use assms(1,3) Some new in \<open>simp add: record_original_snapshot_def\<close>)
  qed
qed

lemma check_base_eq [simp]:
  "check_base K (Some h) disk w = (Inr u, w') \<longleftrightarrow> ke_sha K disk = h \<and> w' = w"
  by (auto simp: check_base_def stale_base_def cbind_eq_Inr)


lemma record_original_disk:
  "record_original_snapshot K cfg disk w = (r, w') \<Longrightarrow> kw_disk w' = kw_disk w"
  by (auto simp: record_original_snapshot_def record_new_def cbind_def cret_def cfail_def cget_def
      add_revision_def mark_published_def Let_def split: if_splits option.splits sum.splits prod.splits)

text \<open>Before the file is touched, both texts are durable.\<close>

lemma publish_prepare_spec:
  assumes "publish_prepare K cfg whole curated refs v (Some h) w = (Inr i, w')" "inj (ke_sha K)"
  shows "\<exists>old. kw_disk w = Some old \<and> ke_sha K old = h \<and> kw_disk w' = Some old \<and> kw_durable w' = kw_rows w'
    \<and> (old \<noteq> [] \<longrightarrow> has_row cfg old w')
    \<and> (\<exists>r \<in> set (kw_rows w'). kr_id r = i \<and> kr_agent r = ac_id cfg \<and> kr_content r = whole)"
proof -
  obtain old b w1 w2 where r: "kw_disk w = Some old" "record_original_snapshot K cfg old w = (Inr b, w1)"
    "ke_sha K old = h" "add_revision K cfg whole curated (Some v) refs False w1 = (Inr i, w2)" "w' = commit w2"
    using assms(1) unfolding publish_prepare_def by (auto simp: cbind_eq_Inr)
  note a = add_revision_eq[OF r(4)]
  have d: "kw_disk w2 = Some old" using record_original_disk[OF r(2)] a r(1) by simp
  have row: "old \<noteq> [] \<longrightarrow> has_row cfg old w2"
    using record_original_row[OF r(2) assms(2)] has_row_mono adds_add r(4) unfolding adds_only_def by blast
  have same: "kw_rows w' = kw_rows w2" "kw_disk w' = kw_disk w2" "kw_durable w' = kw_rows w2"
    using r(5) by (simp_all add: commit_def)
  show ?thesis
    using r(1,3) d row a unfolding same has_row_def by (intro exI[of _ old]) (auto simp: same)
qed

lemma publish_swap_spec:
  assumes "publish_swap K S cfg whole (Some h) i w = (Inr u, w')"
  shows "\<exists>disk landed. kw_disk w = Some disk \<and> ke_sha K disk = h \<and> kw_disk w' = Some landed
    \<and> ke_sha K landed = ke_sha K whole \<and> kw_durable w' = kw_rows w' \<and> kw_rows w' = kw_rows (mark_published i w)"
  using assms unfolding publish_swap_def
  by (auto simp: cbind_eq_Inr read_disk_def edit_disk_def commit_def mark_published_def split: option.splits)

lemma publish_spec:
  assumes "publish K S cfg curated refs v (Some h) w = (Inr sn, w')" "inj (ke_sha K)"
  shows "\<exists>old. kw_disk (ks_lock S w) = Some old \<and> ke_sha K old = h \<and> ks_commit S (Some old) = Some old
    \<and> kw_disk w' = Some (cs_content sn) \<and> cs_content sn = build_core K (identity_text cfg) curated
    \<and> cs_curated sn = curated \<and> \<not> over_ceiling K cfg (cs_content sn)
    \<and> (old \<noteq> [] \<longrightarrow> archived_published cfg old w') \<and> archived_published cfg (cs_content sn) w'"
proof -
  let ?whole = "build_core K (identity_text cfg) curated"
  obtain i w1 w2 where p: "\<not> over_ceiling K cfg ?whole"
    "publish_prepare K cfg ?whole curated refs v (Some h) (ks_lock S w) = (Inr i, w1)"
    "publish_swap K S cfg ?whole (Some h) i (edit_disk (ks_commit S) w1) = (Inr (), w')"
    "cs_content sn = ?whole" "cs_curated sn = curated"
    using assms(1) unfolding publish_def Let_def by (auto simp: cbind_eq_Inr)
  obtain old where o: "kw_disk (ks_lock S w) = Some old" "ke_sha K old = h" "kw_disk w1 = Some old"
    "old \<noteq> [] \<longrightarrow> has_row cfg old w1"
    "\<exists>r \<in> set (kw_rows w1). kr_id r = i \<and> kr_agent r = ac_id cfg \<and> kr_content r = ?whole"
    using publish_prepare_spec[OF p(2) assms(2)] by blast
  obtain disk landed where l: "ks_commit S (Some old) = Some disk" "ke_sha K disk = h" "kw_disk w' = Some landed"
    "ke_sha K landed = ke_sha K ?whole" "kw_durable w' = kw_rows w'"
    "kw_rows w' = kw_rows (mark_published i w1)"
    using publish_swap_spec[OF p(3)] o(3) by (auto simp: edit_disk_def mark_published_def)
  have same: "disk = old" "landed = ?whole"
    using o(2) l(2,4) injD[OF assms(2)] by blast+
  have le: "archive_le w1 w'"
    using archive_mark[of w1 i] l(6) unfolding archive_le_def by simp
  obtain r where "r \<in> set (kw_rows w1)" "kr_id r = i" "kr_agent r = ac_id cfg" "kr_content r = ?whole"
    using o(5) by blast
  then have "archived_published cfg ?whole w'"
    using mark_row[of r w1] l(5,6) unfolding archived_published_def
    by (intro bexI[of _ "r\<lparr>kr_published := True\<rparr>"]) simp_all
  moreover have "old \<noteq> [] \<longrightarrow> archived_published cfg old w'"
    using has_row_mono[OF le] o(4) l(5) unfolding has_row_def archived_published_def by auto
  ultimately show ?thesis using p o(1,2) l(1,3) same by auto
qed

text \<open>With nothing else going on, a publication that fails leaves the file as it was.\<close>

definition quiet :: "core_script \<Rightarrow> bool" where
  "quiet S \<longleftrightarrow> (\<forall>w. ks_lock S w = w \<and> ks_wait S w = w) \<and> (\<forall>d. ks_commit S d = d \<and> ks_replace S d = d \<and> ks_landed S d = d)"

definition file_kept :: "'a core_op \<Rightarrow> bool" where
  "file_kept m \<longleftrightarrow> (\<forall>w e w'. m w = (Inl e, w') \<longrightarrow> kw_disk w' = kw_disk w)"

text \<open>Reads and writes of the archive never touch the file.\<close>

definition file_same :: "'a core_op \<Rightarrow> bool" where
  "file_same m \<longleftrightarrow> (\<forall>w r w'. m w = (r, w') \<longrightarrow> kw_disk w' = kw_disk w)"

named_theorems file_intros

lemma file_same_bind [file_intros]: "file_same m \<Longrightarrow> (\<And>x. file_same (f x)) \<Longrightarrow> file_same (cbind m f)"
  unfolding file_same_def cbind_def by (auto split: prod.splits sum.splits)

lemma file_kept_bind [file_intros]: "file_same m \<Longrightarrow> (\<And>x. file_kept (f x)) \<Longrightarrow> file_kept (cbind m f)"
  unfolding file_same_def file_kept_def cbind_def by (auto split: prod.splits sum.splits)

lemma file_kept_ret: "file_kept m \<Longrightarrow> file_kept (cbind m (\<lambda>x. cret (g x)))"
  unfolding file_kept_def cbind_def cret_def by (auto split: prod.splits sum.splits)

lemma file_same_kept: "file_same m \<Longrightarrow> file_kept m"
  unfolding file_same_def file_kept_def by blast

lemma file_same_basic [file_intros]:
  "file_same (cfail e)" "file_same (cret x)" "file_same (clift r)" "file_same (cget g)" "file_same (ccheck b e)"
  by (auto simp: file_same_def cfail_def cret_def clift_def cget_def ccheck_def)

lemma file_same_put [file_intros]: "(\<And>w. kw_disk (f w) = kw_disk w) \<Longrightarrow> file_same (cput f)"
  by (auto simp: file_same_def cput_def)

lemma file_same_if [file_intros]: "file_same m \<Longrightarrow> file_same n \<Longrightarrow> file_same (if b then m else n)" by simp
lemma file_kept_if [file_intros]: "file_kept m \<Longrightarrow> file_kept n \<Longrightarrow> file_kept (if b then m else n)" by simp

lemma file_same_ops [file_intros]:
  "file_same (record_original_snapshot K cfg disk)" "file_same (read_file cfg)" "file_same (stale_base K disk)"
  "file_same (check_base K expected disk)" "file_same (add_revision K cfg content curated v refs p)"
  "file_same (managed_ok K cfg m recorded identity)" "file_same (disk_curated K cfg disk)"
  "file_same (keep_backup K disk)" "file_same (curated_on_disk K disk)" "file_same (check_edit_base K expected disk)"
  "file_same (reduce_input_to_curated K cfg incoming)" "file_same (proposal_revision K cfg whole curated version base)"
  "file_same (pinned_revision K cfg i)"
proof -
  show a: "file_same (add_revision K cfg content curated v refs p)" for K cfg content curated v refs p
    by (auto simp: file_same_def add_revision_def Let_def)
  show "file_same (record_original_snapshot K cfg disk)"
    using record_original_disk unfolding file_same_def by blast
  show r: "file_same (read_file cfg)" unfolding read_file_def by (intro file_intros)
  show s: "file_same (stale_base K disk)" for K disk
    unfolding stale_base_def by (auto intro!: file_intros split: prod.split)
  show "file_same (check_base K expected disk)"
    unfolding check_base_def by (auto intro!: file_intros s split: option.split)
  show m: "file_same (managed_ok K cfg m recorded identity)" for K cfg m recorded identity
    unfolding managed_ok_def by (intro file_intros)
  show "file_same (disk_curated K cfg disk)"
    unfolding disk_curated_def by (auto intro!: file_intros m split: prod.split)
  show "file_same (keep_backup K disk)"
    unfolding file_same_def keep_backup_def by (auto split: if_splits option.splits)
  show c: "file_same (curated_on_disk K disk)" for K disk
    unfolding curated_on_disk_def by (auto intro!: file_intros split: prod.split)
  show "file_same (check_edit_base K expected disk)"
    unfolding check_edit_base_def by (intro file_intros c)
  show "file_same (reduce_input_to_curated K cfg incoming)"
    unfolding reduce_input_to_curated_def by (auto intro!: file_intros split: prod.split)
  show "file_same (proposal_revision K cfg whole curated version base)"
    using a unfolding file_same_def proposal_revision_def by (auto split: if_splits option.splits)
  show "file_same (pinned_revision K cfg i)" unfolding pinned_revision_def by (intro file_intros)
qed

lemma commit_disk [simp]: "kw_disk (commit w) = kw_disk w" by (simp add: commit_def)

lemma mark_disk [simp]: "kw_disk (mark_published i w) = kw_disk w" by (simp add: mark_published_def)

lemma quiet_publish_kept [file_intros]:
  assumes "quiet S" shows "file_kept (publish K S cfg curated refs v expected)"
proof -
  have e: "edit_disk (ks_commit S) w = w" "edit_disk (ks_replace S) w = w" "edit_disk (ks_landed S) w = w"
    "ks_lock S w = w" for w
    using assms by (simp_all add: quiet_def edit_disk_def)
  have swap: "file_kept (publish_swap K S cfg whole expected i)" for whole i
  proof -
    have big: "file_kept (cbind (cput (edit_disk (ks_replace S))) (\<lambda>_.
      cbind (cput (edit_disk (\<lambda>_. Some whole))) (\<lambda>_.
      cbind (cput (edit_disk (ks_landed S))) (\<lambda>_.
      cbind (cget read_disk) (\<lambda>landed.
      cbind (ccheck (ke_sha K landed = ke_sha K whole)
              (conflict ''Core file was replaced externally during publish'')) (\<lambda>_.
      cbind (cput (mark_published i)) (\<lambda>_. cput commit)))))))"
      by (simp add: file_kept_def cbind_def cput_def cget_def ccheck_def cret_def e read_disk_def edit_disk_def[of "\<lambda>_. Some whole"])
    show ?thesis
      unfolding publish_swap_def
      by (rule file_kept_bind) (auto intro!: file_intros big split: option.split)
  qed
  show ?thesis
    unfolding publish_def Let_def publish_prepare_def
    by (intro file_kept_ret[OF swap] file_kept_bind file_intros) (simp_all add: e file_same_kept file_same_basic)
qed

lemma file_kept_split: "(\<And>x y z. file_kept (f x y z)) \<Longrightarrow> file_kept (case p of (x, y, z) \<Rightarrow> f x y z)"
  by (cases p) simp

lemma quiet_ask_kept: "quiet S \<Longrightarrow> file_same (ask_cleanup K S cfg request ids)"
  unfolding ask_cleanup_def quiet_def
  by (intro file_intros) (auto intro!: file_intros split: cleanup_reply.split)

lemma quiet_cleanup_kept: "quiet S \<Longrightarrow> file_kept (cleanup_core K S cfg proposed expected)"
  unfolding cleanup_core_def Let_def
  by (intro file_kept_bind file_intros quiet_ask_kept) simp_all

lemma quiet_update_kept:
  assumes "quiet S" shows "file_kept (update_core K S cfg text expected refs cleanup)"
proof -
  have c: "file_kept (\<lambda>w. case cleanup_core K S cfg p h w of (Inl e, w) \<Rightarrow> (Inl (cleanup_failure e), w) | r \<Rightarrow> r)"
    for p h
    using quiet_cleanup_kept[OF assms, of K cfg p h] unfolding file_kept_def
    by (auto split: prod.splits sum.splits)
  show ?thesis
    unfolding update_core_def Let_def
    by (intro file_kept_bind file_kept_if quiet_publish_kept[OF assms] c)
       (auto intro!: file_intros file_same_kept split: prod.split)
qed

lemma quiet_restore_kept: "quiet S \<Longrightarrow> file_kept (restore_core K S cfg i expected)"
  unfolding restore_core_def
  by (auto intro!: file_kept_bind file_kept_split file_intros split: prod.split)

lemma quiet_load_kept: "quiet S \<Longrightarrow> file_kept (load_or_pin_core K S cfg pin)"
proof -
  assume S: "quiet S"
  have p: "file_kept (pin_existing K r)" for r
    by (simp add: file_kept_def pin_existing_def)
  have l: "file_kept (cbind (case existing of
                   Some r \<Rightarrow>
                     if ke_sha K (kr_content r) = kr_hash r \<and> (kr_published r \<or> ke_sha K disk = kr_hash r)
                     then pin_existing K r
                     else publish K S cfg curated [] version (Some (ke_sha K disk))
                 | None \<Rightarrow> publish K S cfg curated [] version (Some (ke_sha K disk)))
            (\<lambda>sn. cret (sn, cs_revision sn)))" for existing disk curated version
    by (rule file_kept_ret) (auto intro!: p quiet_publish_kept[OF S] split: option.split)
  have r: "file_kept (cbind (pinned_revision K cfg i) (\<lambda>sn. cret (sn, pin)))" for i
    by (intro file_same_kept file_intros)
  show ?thesis
    unfolding load_or_pin_core_def Let_def
    by (intro l r file_kept_bind file_kept_if) (auto intro!: file_intros file_same_kept)
qed


section \<open>The properties of the core memory\<close>

text \<open>C15. A session that is pinned to a revision keeps loading exactly that core: whatever updates, cleanups,
  restores, pins of other sessions, external edits and changes of the configuration follow, in any
  order and interleaved with other tasks that only add to the archive, the pinned snapshot is returned
  with the same text, hash and version.\<close>
theorem pinned_core_is_stable:
  assumes "load_or_pin_core K S cfg (Some i) w = (Inr (sn, pin), w0)" "i \<noteq> []" "\<forall>a \<in> set as. fair_action a"
  shows "fst (load_or_pin_core K S cfg (Some i) (fold (core_step K) as w)) = Inr (sn, Some i)"
proof -
  have "pinned_revision K cfg i w = (Inr sn, w)"
    using assms(1,2) by (auto simp: load_or_pin_core_def cbind_eq_Inr pinned_revision_eq)
  then have "pinned_revision K cfg i (fold (core_step K) as w) = (Inr sn, fold (core_step K) as w)"
    using assms(3) by (rule core_actions.pinned_stays)
  then show ?thesis using assms(2) by (simp add: load_or_pin_core_def cbind_def cret_def)
qed

lemma check_edit_base_eq [simp]:
  "check_edit_base K expected disk w = (Inr u, w') \<longleftrightarrow> (expected = None \<or> expected = Some (ke_sha K disk)) \<and> w' = w"
  by (auto simp: check_edit_base_def cbind_eq_Inr)

lemma recast_Inr [simp]:
  "(case p of (Inl e, w) \<Rightarrow> (Inl (f e), w) | (Inr s, w) \<Rightarrow> (Inr s, w)) = (Inr y, w') \<longleftrightarrow> p = (Inr y, w')"
  by (auto split: prod.split sum.split)

definition publishes :: "core_env \<Rightarrow> core_script \<Rightarrow> agent_config \<Rightarrow> string \<Rightarrow> core_snapshot \<Rightarrow> core_world \<Rightarrow> bool" where
  "publishes K S cfg h sn w' \<longleftrightarrow> (\<exists>c refs v w1. publish K S cfg c refs v (Some h) w1 = (Inr sn, w'))"

lemma cleanup_core_published:
  assumes "cleanup_core K S cfg p (Some h) w = (Inr sn, w')"
  shows "publishes K S cfg h sn w'"
  using assms unfolding cleanup_core_def Let_def publishes_def
  by (elim cbindE) (simp, blast)

lemma update_core_published:
  assumes "update_core K S cfg text expected refs cleanup w = (Inr sn, w')"
  shows "\<exists>old. kw_disk w = Some old \<and> (expected = None \<or> expected = Some (ke_sha K old))
    \<and> publishes K S cfg (ke_sha K old) sn w'"
  using assms unfolding update_core_def Let_def
proof (elim cbindE)
  fix disk w1 u w2 incoming w3 v w4 u' w5 version w6
  let ?whole = "build_core K (identity_text cfg) incoming"
  assume r: "read_file cfg w = (Inr disk, w1)"
    and b: "check_edit_base K expected disk w4 = (Inr u', w5)"
    and p: "(if over_ceiling K cfg ?whole
      then cbind (add_revision K cfg ?whole incoming (Some version) refs False)
           (\<lambda>_. cbind (cput commit) (\<lambda>_. if \<not> cleanup
             then cfail (conflict_kind ''limit'' ''Core update exceeds the ceiling - run cleanup or narrow the edit'')
             else (\<lambda>w. case cleanup_core K S cfg (Some incoming) (Some (ke_sha K disk)) w of
                    (Inl e, w) \<Rightarrow> (Inl (cleanup_failure e), w) | (Inr s, w) \<Rightarrow> (Inr s, w))))
      else publish K S cfg incoming refs version (Some (ke_sha K disk))) w6 = (Inr sn, w')"
  have "publishes K S cfg (ke_sha K disk) sn w'"
  proof (cases "over_ceiling K cfg ?whole")
    case True
    then obtain w7 where "cleanup_core K S cfg (Some incoming) (Some (ke_sha K disk)) w7 = (Inr sn, w')"
      using p by (auto simp: cbind_eq_Inr split: if_splits)
    then show ?thesis by (rule cleanup_core_published)
  next
    case False
    with p show ?thesis unfolding publishes_def by auto
  qed
  with r b show ?thesis by auto
qed

text \<open>C14. An update is a compare-and-swap that loses nothing.  When it succeeds, the file it was based on was
  the one the caller named, it was still there after the wait for the lock and at the check after the
  commit, the file now is exactly the managed identity with the accepted text and within the ceiling,
  and both the replaced and the new text are committed in the archive as published revisions.  SHA-256
  is taken to be free of collisions.\<close>
theorem update_is_compare_and_swap:
  assumes "update_core K S cfg text expected refs cleanup w = (Inr sn, w')" "inj (ke_sha K)"
  shows "\<exists>old. kw_disk w = Some old \<and> (expected = None \<or> expected = Some (ke_sha K old))
    \<and> ks_commit S (Some old) = Some old
    \<and> kw_disk w' = Some (build_core K (identity_text cfg) (cs_curated sn))
    \<and> int (ke_tokens K (build_core K (identity_text cfg) (cs_curated sn))) \<le> core_ceiling cfg
    \<and> archived_published cfg (build_core K (identity_text cfg) (cs_curated sn)) w'
    \<and> (old = [] \<or> archived_published cfg old w')"
proof -
  obtain old c r v w1 where o: "kw_disk w = Some old" "expected = None \<or> expected = Some (ke_sha K old)"
    and p: "publish K S cfg c r v (Some (ke_sha K old)) w1 = (Inr sn, w')"
    using update_core_published[OF assms(1)] unfolding publishes_def by blast
  obtain old' where q: "ke_sha K old' = ke_sha K old" "ks_commit S (Some old') = Some old'"
    "kw_disk w' = Some (cs_content sn)" "cs_content sn = build_core K (identity_text cfg) c" "cs_curated sn = c"
    "\<not> over_ceiling K cfg (cs_content sn)" "old' \<noteq> [] \<longrightarrow> archived_published cfg old' w'"
    "archived_published cfg (cs_content sn) w'"
    using publish_spec[OF p assms(2)] by blast
  have "old' = old" using injD[OF assms(2) q(1)] .
  with o q show ?thesis by (intro exI[of _ old]) (auto simp: over_ceiling_def)
qed

text \<open>A writer that fails leaves the file alone: whatever goes wrong in an update, a cleanup, a restore or
  the pinning of a session - a stale base, an identity that is not the agent's, a text over the ceiling,
  an unusable reply of the cleanup model, a changed configuration - \<^verbatim>\<open>MEMORY.md\<close> holds what it held before,
  as far as this operation is concerned.\<close>
theorem failed_writer_keeps_file:
  assumes "core_run K a w = (Inl e, w')" "\<forall>S. script_of a = Some S \<longrightarrow> quiet S"
  shows "kw_disk w' = kw_disk w"
proof (cases a)
  case (Update cfg S t x refs c)
  then have "file_kept (update_core K S cfg t x refs c)" using assms(2) by (simp add: quiet_update_kept)
  then show ?thesis using assms(1) Update unfolding file_kept_def by simp
next
  case (Cleanup cfg S x)
  then have "file_kept (cleanup_core K S cfg None x)" using assms(2) by (simp add: quiet_cleanup_kept)
  then show ?thesis using assms(1) Cleanup unfolding file_kept_def by simp
next
  case (Restore cfg S i x)
  then have "file_kept (restore_core K S cfg i x)" using assms(2) by (simp add: quiet_restore_kept)
  then show ?thesis using assms(1) Restore unfolding file_kept_def by simp
next
  case (LoadCore cfg S pin)
  then have "file_kept (load_or_pin_core K S cfg pin)" using assms(2) by (simp add: quiet_load_kept)
  then show ?thesis
    using assms(1) LoadCore unfolding file_kept_def
    by (auto simp: cbind_def cret_def split: prod.splits sum.splits)
qed (use assms(1) in simp_all)

text \<open>Evidence before action: when a publication has reached the point of replacing the file, the text it
  is about to replace and the text it is about to write are both committed in the archive, and the file
  is still the old one; a crash at any later point leaves a file whose text the archive holds.\<close>
theorem evidence_before_swap:
  assumes "publish_prepare K cfg whole curated refs v (Some h) w = (Inr i, w')" "inj (ke_sha K)"
  shows "\<exists>old. kw_disk w = Some old \<and> kw_disk w' = Some old \<and> ke_sha K old = h
    \<and> archived cfg whole w' \<and> (old = [] \<or> archived_published cfg old w')"
  using publish_prepare_spec[OF assms] unfolding archived_def archived_published_def has_row_def by auto


section \<open>An agent with a notebook\<close>

text \<open>A digest without collisions: the bits of the text.\<close>

definition ex_bit :: "bool \<Rightarrow> char" where
  "ex_bit b = (if b then CHR ''1'' else CHR ''0'')"

fun ex_hash :: "string \<Rightarrow> string" where
  "ex_hash [] = []"
| "ex_hash (c # s) = ex_bit (digit0 c) # ex_bit (digit1 c) # ex_bit (digit2 c) # ex_bit (digit3 c)
     # ex_bit (digit4 c) # ex_bit (digit5 c) # ex_bit (digit6 c) # ex_bit (digit7 c) # ex_hash s"

lemma ex_bit_inj: "ex_bit a = ex_bit b \<longleftrightarrow> a = b"
  by (simp add: ex_bit_def)

lemma ex_hash_eq: "ex_hash s = ex_hash t \<Longrightarrow> s = t"
proof (induction s arbitrary: t)
  case Nil
  then show ?case by (cases t) simp_all
next
  case (Cons c s)
  then show ?case by (cases t) (auto simp: ex_bit_inj intro: char.expand)
qed

lemma ex_hash_inj: "inj ex_hash"
  by (rule injI) (rule ex_hash_eq)

lemma ex_hash_hex: "hex_text (ex_hash s)"
  by (induction s) (simp_all add: hex_text_def ex_bit_def)

definition ex_core :: core_env where
  "ex_core = \<lparr>ke_doc = \<lparr>dl_py = ex_lib\<lparr>lib_sha256 := ex_hash\<rparr>, dl_loads = \<lambda>t. Some (PDict []), dl_dumps = \<lambda>v. []\<rparr>,
     ke_tokens = \<lambda>t. 3, ke_prompt = [], ke_request_tokens = length, ke_secret = \<lambda>t. False\<rparr>"

definition ex_calm :: core_script where
  "ex_calm = \<lparr>ks_lock = \<lambda>w. w, ks_wait = \<lambda>w. w, ks_commit = \<lambda>d. d, ks_replace = \<lambda>d. d, ks_landed = \<lambda>d. d,
     ks_provider = False, ks_model = [], ks_reply = \<lambda>r. CleanupFails\<rparr>"

definition ex_notebook :: core_world where
  "ex_notebook = \<lparr>kw_disk = Some ''likes tea'', kw_path = PathOk, kw_rows = [], kw_durable = [], kw_backups = [],
     kw_agents = [(''a1'', Some ''v1'')],
     kw_versions = [\<lparr>vr_id = ''v1'', vr_agent = ''a1'', vr_number = 1, vr_config = ''{}''\<rparr>], kw_uuids = 0\<rparr>"

definition ex_owner :: agent_config where
  "ex_owner = default_agent ''a1'' ''Ada'' default_model_config"

definition ex_updated :: "(core_error + core_snapshot) \<times> core_world" where
  "ex_updated = update_core ex_core ex_calm ex_owner ''likes coffee'' None [] False ex_notebook"

lemma ex_active: "active_version_id ex_core ex_owner w = Inr ''v1''"
  if "kw_agents w = kw_agents ex_notebook" "kw_versions w = kw_versions ex_notebook"
  using that
  by (simp add: active_version_id_def core_text_def ex_core_def ex_owner_def default_agent_def ex_notebook_def dget_def)

lemma ex_path: "kw_path w = PathOk \<Longrightarrow> core_path ex_owner w = Inr ()"
  by (simp add: core_path_def ex_owner_def default_agent_def valid_agent_id_def)

lemma ex_limit: "\<not> over_ceiling ex_core ex_owner t"
  by (simp add: over_ceiling_def core_ceiling_def ex_core_def ex_owner_def default_agent_def default_limits_def)

lemma ex_plain_text: "\<not> starts_with IDENTITY_BEGIN ''likes tea''" "\<not> starts_with IDENTITY_BEGIN ''likes coffee''"
  "split_core ex_core ''likes tea'' = Inr (None, None, ''likes tea'')" "validate_curated ''likes coffee'' = Inr ()"
  by code_simp+

lemma ex_update_ok: "\<exists>sn w'. ex_updated = (Inr sn, w')"
  by (simp add: ex_updated_def update_core_def cbind_def read_file_def cget_def ex_path ex_notebook_def read_disk_def
      ex_plain_text cret_def reduce_input_to_curated_def clift_def check_edit_base_def ex_active ex_limit
      publish_def cput_def ccheck_def ex_calm_def publish_prepare_def record_original_snapshot_def
      row_for_def record_new_def add_revision_def Let_def check_base_def publish_swap_def edit_disk_def mark_published_def commit_def)


lemma ex_sha [simp]: "ke_sha ex_core = ex_hash"
  by (simp add: ke_sha_def ex_core_def)

theorem split_build_core_witness:
  "split_core ex_core (build_core ex_core (''Soul '' @ IDENTITY_END) (IDENTITY_END @ ''notes'')) =
     Inr (Some (ex_hash (''Soul '' @ IDENTITY_END)), Some (''Soul '' @ IDENTITY_END), IDENTITY_END @ ''notes'')"
proof -
  have "hash_separates ex_core i" for i
    unfolding hash_separates_def ex_sha using ex_hash_eq by blast
  then show ?thesis
    using split_build_core[of ex_core "''Soul '' @ IDENTITY_END" "IDENTITY_END @ ''notes''"] ex_hash_hex
    unfolding ex_sha by blast
qed

theorem update_is_compare_and_swap_witness:
  "\<exists>sn w'. ex_updated = (Inr sn, w') \<and> archived_published ex_owner ''likes tea'' w'
     \<and> kw_disk w' = Some (build_core ex_core (identity_text ex_owner) (cs_curated sn))"
proof -
  obtain sn w' where u: "ex_updated = (Inr sn, w')" using ex_update_ok by blast
  from update_is_compare_and_swap[OF u[unfolded ex_updated_def]] ex_hash_inj
  obtain old where "kw_disk ex_notebook = Some old" "old = [] \<or> archived_published ex_owner old w'"
    "kw_disk w' = Some (build_core ex_core (identity_text ex_owner) (cs_curated sn))"
    by auto
  with u show ?thesis by (auto simp: ex_notebook_def)
qed

theorem failed_writer_keeps_file_witness:
  "\<exists>e w'. core_run ex_core (Update ex_owner ex_calm ''likes coffee'' (Some ''stale'') [] False) ex_notebook = (Inl e, w')
     \<and> kw_disk w' = kw_disk ex_notebook"
proof -
  have "''stale'' \<noteq> ex_hash ''likes tea''" by code_simp
  then obtain e w' where "core_run ex_core (Update ex_owner ex_calm ''likes coffee'' (Some ''stale'') [] False) ex_notebook
      = (Inl e, w')"
    by (simp add: update_core_def cbind_def read_file_def cget_def ex_path ex_notebook_def read_disk_def
        ex_plain_text cret_def reduce_input_to_curated_def clift_def check_edit_base_def curated_on_disk_def cfail_def)
  moreover have "quiet ex_calm" by (simp add: quiet_def ex_calm_def)
  ultimately show ?thesis
    using failed_writer_keeps_file[of ex_core "Update ex_owner ex_calm ''likes coffee'' (Some ''stale'') [] False"]
    by fastforce
qed

theorem evidence_before_swap_witness:
  "\<exists>i w'. publish_prepare ex_core ex_owner ''new'' ''new'' [] ''v1'' (Some (ex_hash ''likes tea'')) ex_notebook = (Inr i, w')
     \<and> archived ex_owner ''new'' w' \<and> archived_published ex_owner ''likes tea'' w'"
proof -
  obtain i w' where p: "publish_prepare ex_core ex_owner ''new'' ''new'' [] ''v1'' (Some (ex_hash ''likes tea'')) ex_notebook
      = (Inr i, w')"
    by (simp add: cbind_def read_file_def cget_def ex_path ex_notebook_def read_disk_def
        ex_plain_text cret_def ex_active cput_def ccheck_def publish_prepare_def record_original_snapshot_def
        row_for_def record_new_def add_revision_def Let_def check_base_def commit_def)
  from evidence_before_swap[OF p] ex_hash_inj p show ?thesis by (auto simp: ex_notebook_def)
qed

definition ex_pinned :: core_world where
  "ex_pinned = ex_notebook\<lparr>kw_rows := [\<lparr>kr_id = ''r1'', kr_agent = ''a1'', kr_content = ''old'', kr_curated = ''old'',
     kr_hash = ex_hash ''old'', kr_version = None, kr_refs = [], kr_published = True\<rparr>]\<rparr>"

theorem pinned_core_is_stable_witness:
  "\<exists>sn. fst (load_or_pin_core ex_core ex_calm ex_owner (Some ''r1'') ex_pinned) = Inr (sn, Some ''r1'')
     \<and> fst (load_or_pin_core ex_core ex_calm ex_owner (Some ''r1'') (fold (core_step ex_core)
         [Update ex_owner ex_calm ''likes coffee'' None [] False, EditFile (\<lambda>d. None)] ex_pinned)) = Inr (sn, Some ''r1'')"
proof -
  obtain sn w0 where l: "load_or_pin_core ex_core ex_calm ex_owner (Some ''r1'') ex_pinned = (Inr (sn, Some ''r1''), w0)"
    by (simp add: load_or_pin_core_def cbind_def pinned_revision_def cget_def cret_def find_revision_def ex_pinned_def
        ex_owner_def default_agent_def)
  have "\<forall>a \<in> set [Update ex_owner ex_calm ''likes coffee'' None [] False, EditFile (\<lambda>d. None)]. fair_action a"
    by (simp add: fair_action_def fair_def ex_calm_def)
  from pinned_core_is_stable[OF l _ this] l show ?thesis by simp
qed

end
