(* ===== verification/Chunker.thy ===== *)
theory Chunker
  imports Prelude
begin

text \<open>
  Chunking of extracted documents (\<^verbatim>\<open>knowledge/chunker.py\<close>): prose into parents and overlapping child
  windows, tables into regions of whole rows with the header in every child.  Loops that need not end
  for every parameter are partial functions with \<open>None\<close> for not returning.  Whitespace, digits and
  letters are those of the code points below 256.
\<close>

section \<open>Data\<close>

record extracted_block =
  eb_text :: string
  eb_heading :: "string list"
  eb_page :: "int option"
  eb_sheet :: "string option"
  eb_location :: "string option"
  eb_type :: string

record markdown_chunk =
  md_text :: string
  md_heading :: "string list"
  md_tokens :: nat
  md_page :: "int option"
  md_sheet :: "string option"
  md_location :: "string option"
  md_type :: string
  md_ordinal :: nat

record chunking_config =
  cf_parent_tokens :: int
  cf_child_tokens :: int
  cf_child_overlap :: int
  cf_table_row_limit :: int

definition default_chunking :: chunking_config where
  "default_chunking = \<lparr>cf_parent_tokens = 450, cf_child_tokens = 120, cf_child_overlap = 20,
     cf_table_row_limit = 150\<rparr>"

text \<open>The metadata a node takes over from its block.\<close>

record block_meta =
  bm_page :: "int option"
  bm_sheet :: "string option"
  bm_location :: "string option"
  bm_type :: string

datatype chunk_node = ChunkNode (cn_text: string) (cn_heading: "string list") (cn_tokens: nat)
  (cn_kind: string) (cn_meta: block_meta) (cn_children: "chunk_node list")

definition meta_of :: "extracted_block \<Rightarrow> block_meta" where
  "meta_of b = \<lparr>bm_page = eb_page b, bm_sheet = eb_sheet b, bm_location = eb_location b, bm_type = eb_type b\<rparr>"


section \<open>Flat chunks of Markdown\<close>

definition hash_mark :: char where
  "hash_mark = CHR ''#''"

text \<open>
  \<^verbatim>\<open>^(#{1,6})\s+(.+?)\s*$\<close> on one line: the level and the title.  A line of marks and at least two blanks
  matches with a blank for a title.
\<close>

definition heading_match :: "string \<Rightarrow> (nat \<times> string) option" where
  "heading_match line =
     (let n = length (takeWhile (\<lambda>c. c = hash_mark) line); rest = drop n line;
          ws = takeWhile py_space rest; body = py_rstrip (dropWhile py_space rest)
      in if n < 1 \<or> 6 < n \<or> ws = [] then None
         else if body \<noteq> [] then Some (n, body)
         else if 2 \<le> length ws then Some (n, [last ws]) else None)"

text \<open>The heading stack, the finished sections and the words of the current one.\<close>

type_synonym md_state = "string list \<times> (string list \<times> string list) list \<times> string list"

definition md_flush :: "md_state \<Rightarrow> md_state" where
  "md_flush st = (case st of (stack, sections, content) \<Rightarrow>
     if content = [] then st else (stack, sections @ [(stack, content)], []))"

definition md_line :: "string \<Rightarrow> md_state \<Rightarrow> md_state" where
  "md_line line st =
     (case heading_match line of
        Some (level, title) \<Rightarrow>
          (case md_flush st of (stack, sections, content) \<Rightarrow> (take (level - 1) stack @ [title], sections, content))
      | None \<Rightarrow>
          (case st of (stack, sections, content) \<Rightarrow>
             if py_strip line = [] then st else (stack, sections, content @ py_split line)))"

definition md_sections :: "string \<Rightarrow> (string list \<times> string list) list" where
  "md_sections text = (case md_flush (fold md_line (py_splitlines text) ([], [], [])) of (a, sections, b) \<Rightarrow> sections)"

definition flat_chunk :: "string \<Rightarrow> string list \<Rightarrow> markdown_chunk" where
  "flat_chunk text heading = \<lparr>md_text = text, md_heading = heading, md_tokens = length (py_split text),
     md_page = None, md_sheet = None, md_location = None, md_type = ''paragraph'', md_ordinal = 0\<rparr>"

text \<open>The windows over the words of one section.\<close>

partial_function (option) section_windows ::
    "int \<Rightarrow> int \<Rightarrow> string list \<Rightarrow> string list \<Rightarrow> string list \<Rightarrow> int \<Rightarrow> markdown_chunk list option" where
  "section_windows available overlap prefix heading words start =
     (if start < int (length words)
      then
        let stop = min (start + available) (int (length words));
            text = py_strip (py_join [nl] (prefix @ [py_join [blank] (py_slice words start stop)]));
            chunk = flat_chunk text heading
        in if stop = int (length words) then Some [chunk]
           else Option.bind (section_windows available overlap prefix heading words (stop - overlap))
                  (\<lambda>cs. Some (chunk # cs))
      else Some [])"

definition section_chunks :: "int \<Rightarrow> int \<Rightarrow> string list \<times> string list \<Rightarrow> markdown_chunk list option" where
  "section_chunks max_tokens overlap sec =
     (case sec of (heading, words) \<Rightarrow>
        let prefix = (if int (length heading) \<ge> max_tokens then take (nat (max_tokens - 1)) heading else heading)
        in section_windows (max_tokens - int (length prefix)) overlap prefix heading words 0)"

fun collect :: "'a list option list \<Rightarrow> 'a list option" where
  "collect [] = Some []"
| "collect (None # xs) = None"
| "collect (Some ys # xs) = map_option (\<lambda>zs. ys @ zs) (collect xs)"

definition chunk_markdown :: "string \<Rightarrow> int \<Rightarrow> int \<Rightarrow> string + markdown_chunk list option" where
  "chunk_markdown text max_tokens overlap =
     (if max_tokens \<le> 0 then Inl ''max_tokens must be positive''
      else if overlap < 0 \<or> overlap \<ge> max_tokens
      then Inl ''overlap_tokens must be between zero and max_tokens - 1''
      else Inr (collect (map (section_chunks max_tokens overlap) (md_sections text))))"

definition place_chunk :: "nat \<Rightarrow> extracted_block \<Rightarrow> markdown_chunk \<Rightarrow> markdown_chunk" where
  "place_chunk ordinal b c =
     (let text = py_strip (py_join [nl] (eb_heading b @ [md_text c]))
      in \<lparr>md_text = text, md_heading = eb_heading b, md_tokens = length (py_split text), md_page = eb_page b,
          md_sheet = eb_sheet b, md_location = eb_location b, md_type = eb_type b, md_ordinal = ordinal\<rparr>)"

fun chunk_extracted_from ::
    "int \<Rightarrow> int \<Rightarrow> nat \<Rightarrow> extracted_block list \<Rightarrow> string + markdown_chunk list option" where
  "chunk_extracted_from max_tokens overlap n [] = Inr (Some [])"
| "chunk_extracted_from max_tokens overlap n (b # bs) =
     (let available = max_tokens - int (length (eb_heading b)) in
      if available \<le> 0 then Inl ''max_tokens must leave room for heading context''
      else sbind (chunk_markdown (eb_text b) available (min overlap (available - 1))) (\<lambda>cs.
        case cs of
          None \<Rightarrow> Inr None
        | Some cs \<Rightarrow> sbind (chunk_extracted_from max_tokens overlap (Suc n) bs)
                       (\<lambda>rest. Inr (map_option (\<lambda>r. map (place_chunk n b) cs @ r) rest))))"

definition chunk_extracted_blocks ::
    "extracted_block list \<Rightarrow> int \<Rightarrow> int \<Rightarrow> string + markdown_chunk list option" where
  "chunk_extracted_blocks bs max_tokens overlap = chunk_extracted_from max_tokens overlap 0 bs"


section \<open>Prose\<close>

definition tokens :: "string \<Rightarrow> int" where
  "tokens text = int (length (py_split text))"

definition with_heading_prefix :: "string list \<Rightarrow> string \<Rightarrow> string" where
  "with_heading_prefix heading body = (if heading = [] then body else py_strip (py_join [nl] (heading @ [body])))"

definition leaf :: "string list \<Rightarrow> block_meta \<Rightarrow> string \<Rightarrow> chunk_node" where
  "leaf heading meta body =
     (let text = with_heading_prefix heading body
      in ChunkNode text heading (length (py_split text)) ''child'' meta [])"

definition parent :: "string list \<Rightarrow> block_meta \<Rightarrow> string \<Rightarrow> chunk_node list \<Rightarrow> chunk_node" where
  "parent heading meta body children =
     (let text = with_heading_prefix heading body
      in ChunkNode text heading (length (py_split text)) ''parent'' meta children)"

partial_function (option) prose_children ::
    "chunking_config \<Rightarrow> string list \<Rightarrow> block_meta \<Rightarrow> string list \<Rightarrow> int \<Rightarrow> chunk_node list option" where
  "prose_children C heading meta words c_start =
     (if c_start < int (length words)
      then
        let c_end = min (c_start + cf_child_tokens C) (int (length words));
            node = leaf heading meta (py_join [blank] (py_slice words c_start c_end))
        in if c_end = int (length words) then Some [node]
           else Option.bind (prose_children C heading meta words (c_end - cf_child_overlap C))
                  (\<lambda>ns. Some (node # ns))
      else Some [])"

partial_function (option) prose_nodes ::
    "chunking_config \<Rightarrow> string list \<Rightarrow> block_meta \<Rightarrow> string list \<Rightarrow> int \<Rightarrow> chunk_node list option" where
  "prose_nodes C heading meta words start =
     (if start < int (length words)
      then
        let parent_words = py_slice words start (start + cf_parent_tokens C);
            body = py_join [blank] parent_words
        in Option.bind
             (if tokens body \<le> cf_child_tokens C then Some (leaf heading meta body)
              else map_option (parent heading meta body) (prose_children C heading meta parent_words 0))
             (\<lambda>node. Option.bind (prose_nodes C heading meta words (start + cf_parent_tokens C))
                (\<lambda>ns. Some (node # ns)))
      else Some [])"


section \<open>Tables\<close>

definition row_cells :: "string \<Rightarrow> string list" where
  "row_cells text = filter (\<lambda>line. py_strip line \<noteq> []) (py_splitlines text)"

definition upper_ascii :: "char \<Rightarrow> bool" where
  "upper_ascii c \<longleftrightarrow> c \<in> set ''ABCDEFGHIJKLMNOPQRSTUVWXYZ''"

definition digit_ascii :: "char \<Rightarrow> bool" where
  "digit_ascii c \<longleftrightarrow> c \<in> set ''0123456789''"

text \<open>\<^verbatim>\<open>([A-Z]+)\d+:([A-Z]+)\d+\<close>: the column letters of a cell range.\<close>

definition cell_range :: "string \<Rightarrow> (string \<times> string) option" where
  "cell_range s =
     (let a = takeWhile upper_ascii s; s = drop (length a) s;
          m = takeWhile digit_ascii s; s = drop (length m) s
      in case s of
           [] \<Rightarrow> None
         | c # s \<Rightarrow>
             let b = takeWhile upper_ascii s; s = drop (length b) s;
                 n = takeWhile digit_ascii s; s = drop (length n) s
             in if c = CHR '':'' \<and> a \<noteq> [] \<and> m \<noteq> [] \<and> b \<noteq> [] \<and> n \<noteq> [] \<and> s = [] then Some (a, b) else None)"

text \<open>The sheet name is what precedes the last exclamation mark.\<close>

definition column_span :: "string \<Rightarrow> (string \<times> string) option" where
  "column_span location =
     (let suffix = rev (takeWhile (\<lambda>c. c \<noteq> CHR ''!'') (rev location));
          sheet = take (length location - length suffix - 1) location
      in if CHR ''!'' \<in> set location \<and> sheet \<noteq> [] \<and> nl \<notin> set sheet then cell_range suffix else None)"

definition row_location :: "extracted_block \<Rightarrow> nat \<Rightarrow> nat \<Rightarrow> string" where
  "row_location b first last_row =
     (let base = (case eb_location b of None \<Rightarrow> [] | Some l \<Rightarrow> l);
          span = (case column_span base of None \<Rightarrow> (''A'', []) | Some ab \<Rightarrow> ab);
          f = show_int (int first); l = show_int (int last_row)
      in case eb_sheet b of
           Some (c # sheet) \<Rightarrow> (c # sheet) @ ''!'' @ fst span @ f @ '':'' @ snd span @ l
         | _ \<Rightarrow> (if base = [] then ''table'' else base) @ '' rows '' @ f @ ''-'' @ l)"

definition row_meta :: "extracted_block \<Rightarrow> nat \<Rightarrow> nat \<Rightarrow> block_meta" where
  "row_meta b first last_row = \<lparr>bm_page = None, bm_sheet = eb_sheet b,
     bm_location = Some (row_location b first last_row), bm_type = eb_type b\<rparr>"

text \<open>The rows of the next region, and of the next group; the first row is always taken.\<close>

fun take_region :: "chunking_config \<Rightarrow> nat \<Rightarrow> int \<Rightarrow> string list \<Rightarrow> string list" where
  "take_region C n toks [] = []"
| "take_region C n toks (row # rows) =
     (let new = toks + tokens row + 1 in
      if 0 < n \<and> (int n \<ge> cf_table_row_limit C \<or> new > cf_parent_tokens C) then []
      else row # take_region C (Suc n) new rows)"

fun take_group :: "chunking_config \<Rightarrow> nat \<Rightarrow> int \<Rightarrow> string list \<Rightarrow> string list" where
  "take_group C n toks [] = []"
| "take_group C n toks (row # rows) =
     (if 0 < n \<and> toks + tokens row + 1 > cf_child_tokens C then []
      else row # take_group C (Suc n) (toks + tokens row + 1) rows)"

definition table_body :: "string \<Rightarrow> string list \<Rightarrow> string" where
  "table_body header rows = py_join [nl] (header # rows)"

lemma take_group_nonempty [simp]: "rows \<noteq> [] \<Longrightarrow> take_group C 0 t rows \<noteq> []"
  by (cases rows) simp_all

lemma take_region_nonempty [simp]: "rows \<noteq> [] \<Longrightarrow> take_region C 0 t rows \<noteq> []"
  by (cases rows) (simp_all add: Let_def)

function group_nodes :: "chunking_config \<Rightarrow> extracted_block \<Rightarrow> string \<Rightarrow> nat \<Rightarrow> string list \<Rightarrow> chunk_node list" where
  "group_nodes C b header first rows =
     (if rows = [] then []
      else
        let group = take_group C 0 (tokens header) rows
        in leaf (eb_heading b) (row_meta b first (first + length group - 1)) (table_body header group)
           # group_nodes C b header (first + length group) (drop (length group) rows))"
  by pat_completeness auto
termination
  by (relation "measure (\<lambda>(C, b, header, first, rows). length rows)") auto

declare group_nodes.simps [simp del]

definition region_node :: "chunking_config \<Rightarrow> extracted_block \<Rightarrow> string \<Rightarrow> nat \<Rightarrow> string list \<Rightarrow> chunk_node" where
  "region_node C b header first rows =
     (case group_nodes C b header first rows of
        [child] \<Rightarrow> child
      | children \<Rightarrow> parent (eb_heading b) (row_meta b first (first + length rows - 1)) (table_body header rows) children)"

function region_nodes :: "chunking_config \<Rightarrow> extracted_block \<Rightarrow> string \<Rightarrow> nat \<Rightarrow> string list \<Rightarrow> chunk_node list" where
  "region_nodes C b header first rows =
     (if rows = [] then []
      else
        let region = take_region C 0 (tokens header) rows
        in region_node C b header first region
           # region_nodes C b header (first + length region) (drop (length region) rows))"
  by pat_completeness auto
termination
  by (relation "measure (\<lambda>(C, b, header, first, rows). length rows)") auto

declare region_nodes.simps [simp del]

definition tabular_nodes :: "chunking_config \<Rightarrow> extracted_block \<Rightarrow> chunk_node list" where
  "tabular_nodes C b =
     (case row_cells (eb_text b) of
        [] \<Rightarrow> []
      | [header] \<Rightarrow> [leaf (eb_heading b) (row_meta b 1 1) header]
      | header # rows \<Rightarrow> region_nodes C b header 2 rows)"


section \<open>Documents\<close>

text \<open>The nodes so far, and the open prose section with its heading and metadata.\<close>

record chunk_state =
  ck_nodes :: "chunk_node list"
  ck_words :: "string list"
  ck_heading :: "string list"
  ck_meta :: "block_meta option"

definition prose_block :: "extracted_block \<Rightarrow> bool" where
  "prose_block b \<longleftrightarrow> eb_type b = ''paragraph'' \<or> eb_type b = ''page''"

definition table_block :: "extracted_block \<Rightarrow> bool" where
  "table_block b \<longleftrightarrow> eb_type b = ''table'' \<or> eb_type b = ''sheet''"

definition no_meta :: block_meta where
  "no_meta = \<lparr>bm_page = None, bm_sheet = None, bm_location = None, bm_type = ''paragraph''\<rparr>"

definition flush_prose :: "chunking_config \<Rightarrow> chunk_state \<Rightarrow> chunk_state option" where
  "flush_prose C st =
     (if ck_words st = [] then Some st
      else map_option
        (\<lambda>ns. st\<lparr>ck_nodes := ck_nodes st @ ns, ck_words := [], ck_heading := [], ck_meta := None\<rparr>)
        (prose_nodes C (ck_heading st) (case ck_meta st of None \<Rightarrow> no_meta | Some m \<Rightarrow> m) (ck_words st) 0))"

text \<open>Prose of one heading and page is one section; the metadata is that of its last block.\<close>

definition prose_continues :: "extracted_block \<Rightarrow> chunk_state \<Rightarrow> bool" where
  "prose_continues b st \<longleftrightarrow> ck_words st = []
     \<or> eb_heading b = ck_heading st \<and> eb_page b = (case ck_meta st of None \<Rightarrow> None | Some m \<Rightarrow> bm_page m)"

definition block_nodes :: "chunking_config \<Rightarrow> extracted_block \<Rightarrow> chunk_node list" where
  "block_nodes C b = (if table_block b then tabular_nodes C b else [leaf (eb_heading b) (meta_of b) (eb_text b)])"

definition chunk_block :: "chunking_config \<Rightarrow> extracted_block \<Rightarrow> chunk_state \<Rightarrow> chunk_state option" where
  "chunk_block C b st =
     (if prose_block b
      then map_option
        (\<lambda>st. st\<lparr>ck_words := ck_words st @ py_split (eb_text b), ck_heading := eb_heading b, ck_meta := Some (meta_of b)\<rparr>)
        (if prose_continues b st then Some st else flush_prose C st)
      else map_option (\<lambda>st. st\<lparr>ck_nodes := ck_nodes st @ block_nodes C b\<rparr>) (flush_prose C st))"

fun chunk_all :: "chunking_config \<Rightarrow> extracted_block list \<Rightarrow> chunk_state \<Rightarrow> chunk_state option" where
  "chunk_all C [] st = flush_prose C st"
| "chunk_all C (b # bs) st = (case chunk_block C b st of None \<Rightarrow> None | Some st \<Rightarrow> chunk_all C bs st)"

definition chunk_blocks :: "extracted_block list \<Rightarrow> chunking_config \<Rightarrow> chunk_node list option" where
  "chunk_blocks bs C =
     map_option ck_nodes (chunk_all C bs \<lparr>ck_nodes = [], ck_words = [], ck_heading = [], ck_meta = None\<rparr>)"

text \<open>What the profile endpoint accepts (\<^verbatim>\<open>RetrievalProfileRequest\<close> and \<^verbatim>\<open>put_profile\<close>).\<close>

definition accepted_profile :: "chunking_config \<Rightarrow> bool" where
  "accepted_profile C \<longleftrightarrow> 50 \<le> cf_parent_tokens C \<and> cf_parent_tokens C \<le> 4000
     \<and> 20 \<le> cf_child_tokens C \<and> cf_child_tokens C \<le> 1000
     \<and> 0 \<le> cf_child_overlap C \<and> cf_child_overlap C < cf_child_tokens C
     \<and> 1 \<le> cf_table_row_limit C \<and> cf_table_row_limit C \<le> 10000"

text \<open>What is searched: the children and the nodes without a parent.\<close>

definition retrievable :: "chunk_node list \<Rightarrow> chunk_node list" where
  "retrievable ns = concat (map (\<lambda>n. if cn_kind n = ''parent'' then cn_children n else [n]) ns)"

end
