(* ===== verification/Chunker_Safety.thy ===== *)
theory Chunker_Safety
  imports Chunker
begin

text \<open>
  What chunking guarantees (\<^verbatim>\<open>knowledge/chunker.py\<close>): under every accepted profile it returns, keeps every
  word retrievable and respects its bounds; rows of tables stay whole; and the flat chunker, whose
  parameters are not checked against the depth of the headings, returns exactly when the stride is
  positive or the section fits one window.
\<close>

section \<open>Words of nodes\<close>

definition node_words :: "chunk_node \<Rightarrow> string set" where
  "node_words n = set (py_split (cn_text n))"

definition heading_words :: "string list \<Rightarrow> string list" where
  "heading_words heading = concat (map py_split heading)"

lemma split_with_heading: "py_split (with_heading_prefix heading body) = heading_words heading @ py_split body"
  by (simp add: with_heading_prefix_def heading_words_def py_split_join)

lemma leaf_simps [simp]:
  "cn_kind (leaf h m body) = ''child''" "cn_children (leaf h m body) = []"
  "cn_text (leaf h m body) = with_heading_prefix h body" "cn_meta (leaf h m body) = m" "cn_heading (leaf h m body) = h"
  "node_words (leaf h m body) = set (heading_words h) \<union> set (py_split body)"
  "cn_tokens (leaf h m body) = length (heading_words h) + length (py_split body)"
  by (simp_all add: leaf_def Let_def node_words_def split_with_heading)

lemma parent_simps [simp]:
  "cn_kind (parent h m body cs) = ''parent''" "cn_children (parent h m body cs) = cs"
  "cn_text (parent h m body cs) = with_heading_prefix h body"
  "cn_tokens (parent h m body cs) = length (heading_words h) + length (py_split body)"
  "cn_meta (parent h m body cs) = m" "cn_heading (parent h m body cs) = h"
  by (simp_all add: parent_def Let_def split_with_heading)

text \<open>A leaf counts the words of its text and has no children; a parent holds leaves of its heading.\<close>

definition leaf_ok :: "chunk_node \<Rightarrow> bool" where
  "leaf_ok n \<longleftrightarrow> cn_kind n = ''child'' \<and> cn_children n = [] \<and> cn_tokens n = length (py_split (cn_text n))"

definition tree_ok :: "chunk_node \<Rightarrow> bool" where
  "tree_ok n \<longleftrightarrow> leaf_ok n
     \<or> cn_kind n = ''parent'' \<and> cn_tokens n = length (py_split (cn_text n))
        \<and> list_all (\<lambda>k. leaf_ok k \<and> cn_heading k = cn_heading n \<and> bm_type (cn_meta k) = bm_type (cn_meta n)) (cn_children n)"

lemma leaf_ok_leaf [simp]: "leaf_ok (leaf h m body)" "tree_ok (leaf h m body)"
  by (simp_all add: leaf_ok_def tree_ok_def split_with_heading)

lemma parent_tree_ok:
  assumes "list_all (\<lambda>k. leaf_ok k \<and> cn_heading k = h \<and> bm_type (cn_meta k) = bm_type m) cs"
  shows "tree_ok (parent h m body cs)"
  using assms by (simp add: tree_ok_def split_with_heading)

definition all_words :: "chunk_node list \<Rightarrow> string set" where
  "all_words ns = \<Union> (node_words ` set ns)"

lemma all_words_simps [simp]:
  "all_words [] = {}" "all_words (n # ns) = node_words n \<union> all_words ns"
  "all_words (ns @ ms) = all_words ns \<union> all_words ms"
  by (auto simp: all_words_def)

lemma retrievable_simps [simp]:
  "retrievable [] = []" "retrievable (ns @ ms) = retrievable ns @ retrievable ms"
  "retrievable (n # ns) = (if cn_kind n = ''parent'' then cn_children n else [n]) @ retrievable ns"
  by (simp_all add: retrievable_def)

lemma leaf_retrievable [simp]: "retrievable [leaf h m body] = [leaf h m body]"
  by simp

lemma split_words: "list_all is_word ws \<Longrightarrow> py_split (py_join [blank] ws) = ws"
  by (rule py_split_join_words) (auto simp: list_all_iff)

lemma words_are_words: "list_all is_word (py_split s)"
  using py_split_words by (simp add: list_all_iff)

lemma slice_words: "list_all is_word ws \<Longrightarrow> list_all is_word (py_slice ws i j)"
  using set_py_slice[of ws i j] by (auto simp: list_all_iff)


section \<open>Prose\<close>

definition windows_ok :: "chunking_config \<Rightarrow> bool" where
  "windows_ok C \<longleftrightarrow> 0 < cf_parent_tokens C \<and> 0 < cf_child_tokens C \<and> 0 \<le> cf_child_overlap C
     \<and> cf_child_overlap C < cf_child_tokens C"

text \<open>A child of a section: a leaf over at most \<open>child_tokens\<close> words.\<close>

definition small_leaf :: "chunking_config \<Rightarrow> string list \<Rightarrow> block_meta \<Rightarrow> chunk_node \<Rightarrow> bool" where
  "small_leaf C h m n \<longleftrightarrow> leaf_ok n \<and> cn_meta n = m \<and> cn_heading n = h
     \<and> int (cn_tokens n) \<le> int (length (heading_words h)) + cf_child_tokens C"

lemma small_leafI:
  assumes "list_all is_word ws" "int (length ws) \<le> cf_child_tokens C"
  shows "small_leaf C h m (leaf h m (py_join [blank] ws))"
  using assms by (simp add: small_leaf_def split_words)

lemma prose_children_ok:
  assumes "windows_ok C" "list_all is_word words"
  shows "\<exists>ns. prose_children C h m words (int c) = Some ns \<and> list_all (small_leaf C h m) ns
    \<and> set (drop c words) \<subseteq> all_words ns"
proof (induction "length words - c" arbitrary: c rule: less_induct)
  case less
  show ?case
  proof (cases "c < length words")
    case False
    then show ?thesis by (simp add: prose_children.simps[of C h m words "int c"])
  next
    case True
    define stop where "stop = min (int c + cf_child_tokens C) (int (length words))"
    have "int c < stop" "stop \<le> int (length words)" "stop \<le> int c + cf_child_tokens C"
      using True assms(1) unfolding stop_def windows_ok_def by auto
    then obtain e where e: "stop = int e" "c < e" "e \<le> length words" "int e \<le> int c + cf_child_tokens C"
      by (intro that[of "nat stop"]) auto
    let ?w = "py_slice words (int c) (int e)"
    have w: "?w = take (e - c) (drop c words)" using e True by simp
    have len: "int (length ?w) \<le> cf_child_tokens C" using e True unfolding w by simp
    let ?n = "leaf h m (py_join [blank] ?w)"
    have ww: "list_all is_word ?w" by (rule slice_words) (rule assms(2))
    have n: "small_leaf C h m ?n" "set ?w \<subseteq> node_words ?n"
      by (rule small_leafI[OF ww len]) (simp only: leaf_simps split_words[OF ww], blast)
    show ?thesis
    proof (cases "e = length words")
      case end_: True
      then have "?w = drop c words" using True unfolding w by simp
      with n True end_ e(1) show ?thesis
        by (simp add: prose_children.simps[of C h m words "int c"] stop_def[symmetric] Let_def)
    next
      case False
      then have stop: "int e = int c + cf_child_tokens C" using e(1) unfolding stop_def by auto
      obtain d where d: "int e - cf_child_overlap C = int d" "c < d" "d \<le> e"
        using stop assms(1) unfolding windows_ok_def
        by (intro that[of "nat (int e - cf_child_overlap C)"]) auto
      obtain ns where ns: "prose_children C h m words (int d) = Some ns" "list_all (small_leaf C h m) ns"
        "set (drop d words) \<subseteq> all_words ns"
        using less.hyps[of d] d True by fastforce
      have "set (drop c words) \<subseteq> set ?w \<union> set (drop d words)"
      proof -
        have "drop c words = ?w @ drop e words"
          using take_drop_split[of c e words] e(2) unfolding w by simp
        then have "set (drop c words) = set (?w @ drop e words)" by (rule arg_cong)
        then have "set (drop c words) = set ?w \<union> set (drop e words)" by (simp only: set_append)
        moreover have "set (drop e words) \<subseteq> set (drop d words)"
          by (rule set_drop_subset_set_drop) (rule d(3))
        ultimately show ?thesis by blast
      qed
      moreover have "prose_children C h m words (int c) = Some (?n # ns)"
        using True False ns(1) d(1) e(1)
        by (simp add: prose_children.simps[of C h m words "int c"] stop_def[symmetric] Let_def)
      ultimately show ?thesis using n ns by auto
    qed
  qed
qed

text \<open>A node of a section: a small leaf, or a bounded parent of small leaves.\<close>

definition prose_node :: "chunking_config \<Rightarrow> string list \<Rightarrow> block_meta \<Rightarrow> chunk_node \<Rightarrow> bool" where
  "prose_node C h m n \<longleftrightarrow> small_leaf C h m n
     \<or> cn_kind n = ''parent'' \<and> cn_meta n = m \<and> cn_heading n = h
        \<and> tree_ok n \<and> int (cn_tokens n) \<le> int (length (heading_words h)) + cf_parent_tokens C
        \<and> list_all (small_leaf C h m) (cn_children n)"

lemma prose_nodes_ok:
  assumes "windows_ok C" "list_all is_word words"
  shows "\<exists>ns. prose_nodes C h m words (int c) = Some ns \<and> list_all (prose_node C h m) ns
    \<and> set (drop c words) \<subseteq> all_words (retrievable ns)"
proof (induction "length words - c" arbitrary: c rule: less_induct)
  case less
  show ?case
  proof (cases "c < length words")
    case False
    then show ?thesis by (simp add: prose_nodes.simps[of C h m words "int c"])
  next
    case True
    obtain d where d: "int c + cf_parent_tokens C = int d" "c < d"
      using assms(1) unfolding windows_ok_def by (intro that[of "nat (int c + cf_parent_tokens C)"]) auto
    obtain ns where ns: "prose_nodes C h m words (int d) = Some ns" "list_all (prose_node C h m) ns"
      "set (drop d words) \<subseteq> all_words (retrievable ns)"
      using less.hyps[of d] d True by fastforce
    let ?w = "py_slice words (int c) (int d)"
    have ww: "list_all is_word ?w" using assms(2) by (rule slice_words)
    have w: "set (drop c words) \<subseteq> set ?w \<union> set (drop d words)"
    proof (cases "d \<le> length words")
      case le: True
      have "drop c words = ?w @ drop d words"
        using take_drop_split[of c d words] d(2) True le by (simp add: min_def)
      then have "set (drop c words) = set (?w @ drop d words)" by (rule arg_cong)
      then show ?thesis by (simp only: set_append)
    next
      case False
      then show ?thesis using d(2) True by (simp add: min_def)
    qed
    have len: "int (length ?w) \<le> cf_parent_tokens C" using d True by simp
    let ?b = "py_join [blank] ?w"
    have "\<exists>n. (if tokens ?b \<le> cf_child_tokens C then Some (leaf h m ?b)
              else map_option (parent h m ?b) (prose_children C h m ?w 0)) = Some n
          \<and> prose_node C h m n \<and> set ?w \<subseteq> all_words (retrievable [n])"
    proof (cases "tokens ?b \<le> cf_child_tokens C")
      case small: True
      then have "int (length ?w) \<le> cf_child_tokens C" using ww by (simp only: tokens_def split_words)
      then have "small_leaf C h m (leaf h m ?b)" by (rule small_leafI[OF ww])
      moreover have "set ?w \<subseteq> all_words (retrievable [leaf h m ?b])"
        by (simp only: leaf_retrievable all_words_simps leaf_simps split_words[OF ww]) blast
      ultimately show ?thesis using small by (simp only: prose_node_def if_True) blast
    next
      case False
      obtain cs where "prose_children C h m ?w (int 0) = Some cs" "list_all (small_leaf C h m) cs"
        "set (drop 0 ?w) \<subseteq> all_words cs"
        using prose_children_ok[OF assms(1) ww] by blast
      moreover have "int (length (py_split ?b)) \<le> cf_parent_tokens C"
        using len by (simp only: split_words[OF ww])
      moreover have "tree_ok (parent h m ?b cs)"
        using calculation(2) by (intro parent_tree_ok) (auto simp: list_all_iff small_leaf_def)
      ultimately show ?thesis using False by (simp add: prose_node_def)
    qed
    then obtain n where n: "(if tokens ?b \<le> cf_child_tokens C then Some (leaf h m ?b)
              else map_option (parent h m ?b) (prose_children C h m ?w 0)) = Some n"
      "prose_node C h m n" "set ?w \<subseteq> all_words (retrievable [n])" by blast
    have "prose_nodes C h m words (int c) = Some (n # ns)"
      using True n(1) ns(1) d(1) by (subst prose_nodes.simps) (simp only: Let_def d(1) n(1) ns(1), simp)
    moreover have "all_words (retrievable (n # ns)) = all_words (retrievable [n]) \<union> all_words (retrievable ns)"
      by simp
    then have "set (drop c words) \<subseteq> all_words (retrievable (n # ns))"
      using w n(3) ns(3) by (simp only:) blast
    moreover have "list_all (prose_node C h m) (n # ns)" using n(2) ns(2) by simp
    ultimately show ?thesis by blast
  qed
qed

section \<open>Tables\<close>

lemma line_break_space: "line_break c \<Longrightarrow> py_space c"
  by (auto simp: line_break_def py_space_def)

lemma splitlines_words: "concat (map py_split (splitlines_acc acc s)) = py_split (acc @ s)"
proof (induction acc s rule: splitlines_acc.induct)
  case (3 cur c d s)
  have "py_space (CHR 0x0D)" by (simp add: py_space_def)
  with 3 show ?case by (auto simp: py_split_append_space line_break_space)
qed (auto simp: py_split_append_space line_break_space)

lemma blank_no_words: "py_strip s = [] \<Longrightarrow> py_split s = []"
  using py_split_strip[of s] by simp

lemma row_words: "concat (map py_split (row_cells s)) = py_split s"
proof -
  have "concat (map py_split (filter (\<lambda>l. py_strip l \<noteq> []) ls)) = concat (map py_split ls)" for ls
    by (induction ls) (auto simp: blank_no_words)
  then show ?thesis
    using splitlines_words[of "[]" s] by (simp add: row_cells_def py_splitlines_def)
qed

lemma table_body_words: "py_split (table_body header rows) = py_split header @ concat (map py_split rows)"
  by (simp add: table_body_def py_split_join)


text \<open>The children of a table: one leaf per group of whole rows, at the rows' numbers.\<close>

fun place_groups :: "extracted_block \<Rightarrow> string \<Rightarrow> nat \<Rightarrow> string list list \<Rightarrow> chunk_node list" where
  "place_groups b header first [] = []"
| "place_groups b header first (g # gs) =
     leaf (eb_heading b) (row_meta b first (first + length g - 1)) (table_body header g)
       # place_groups b header (first + length g) gs"

lemma place_groups_append:
  "place_groups b h first (gs @ hs) = place_groups b h first gs @ place_groups b h (first + length (concat gs)) hs"
  by (induction b h first gs rule: place_groups.induct) (simp_all add: add.assoc)

lemma place_groups_child: "n \<in> set (place_groups b h first gs) \<Longrightarrow> cn_kind n = ''child''"
  by (induction b h first gs rule: place_groups.induct) auto

definition group_tokens :: "string \<Rightarrow> string list \<Rightarrow> int" where
  "group_tokens header rows = tokens header + sum_list (map (\<lambda>r. tokens r + 1) rows)"

definition group_fits :: "chunking_config \<Rightarrow> string \<Rightarrow> string list \<Rightarrow> bool" where
  "group_fits C header g \<longleftrightarrow> length g = 1 \<or> g \<noteq> [] \<and> group_tokens header g \<le> cf_child_tokens C"

lemma take_group_prefix: "take (length (take_group C n t rows)) rows = take_group C n t rows"
  by (induction C n t rows rule: take_group.induct) auto

lemma take_group_split: "take_group C n t rows @ drop (length (take_group C n t rows)) rows = rows"
  using append_take_drop_id[of "length (take_group C n t rows)" rows] by (simp add: take_group_prefix)

lemma take_region_prefix: "take (length (take_region C n t rows)) rows = take_region C n t rows"
  by (induction C n t rows rule: take_region.induct) (auto simp: Let_def)

lemma take_region_split: "take_region C n t rows @ drop (length (take_region C n t rows)) rows = rows"
  using append_take_drop_id[of "length (take_region C n t rows)" rows] by (simp add: take_region_prefix)

lemma take_group_bound:
  "0 < n \<Longrightarrow> take_group C n t rows = [] \<or> t + sum_list (map (\<lambda>r. tokens r + 1) (take_group C n t rows)) \<le> cf_child_tokens C"
  by (induction C n t rows rule: take_group.induct) (auto simp: algebra_simps)

lemma take_group_fits: "rows \<noteq> [] \<Longrightarrow> group_fits C header (take_group C 0 (tokens header) rows)"
  using take_group_bound[of "Suc 0" C "tokens header + tokens (hd rows) + 1" "tl rows"]
  by (cases rows) (auto simp: group_fits_def group_tokens_def algebra_simps)

lemma group_nodes_ok:
  "\<exists>gs. concat gs = rows \<and> list_all (group_fits C header) gs
     \<and> group_nodes C b header first rows = place_groups b header first gs"
proof (induction C b header first rows rule: group_nodes.induct)
  case (1 C b header first rows)
  show ?case
  proof (cases "rows = []")
    case True
    then show ?thesis by (intro exI[of _ "[]"]) (simp add: group_nodes.simps)
  next
    case False
    let ?g = "take_group C 0 (tokens header) rows"
    obtain gs where gs: "concat gs = drop (length ?g) rows" "list_all (group_fits C header) gs"
      "group_nodes C b header (first + length ?g) (drop (length ?g) rows)
         = place_groups b header (first + length ?g) gs"
      using 1[OF False refl] by blast
    show ?thesis
      using False gs take_group_fits[OF False, of C header] take_group_split[of C 0 "tokens header" rows]
      by (intro exI[of _ "?g # gs"]) (simp add: group_nodes.simps[of C b header first rows] Let_def)
  qed
qed

lemma retrievable_children: "(\<And>n. n \<in> set ns \<Longrightarrow> cn_kind n = ''child'') \<Longrightarrow> retrievable ns = ns"
  by (induction ns) auto

lemma region_node_retrievable:
  "cn_kind (region_node C b h f rows) = ''parent'' \<or> group_nodes C b h f rows = [region_node C b h f rows]"
  "retrievable [region_node C b h f rows] = group_nodes C b h f rows"
proof -
  obtain gs where gs: "group_nodes C b h f rows = place_groups b h f gs" using group_nodes_ok by blast
  have k: "n \<in> set (group_nodes C b h f rows) \<Longrightarrow> cn_kind n = ''child''" for n
    unfolding gs by (rule place_groups_child)
  show "cn_kind (region_node C b h f rows) = ''parent'' \<or> group_nodes C b h f rows = [region_node C b h f rows]"
    by (auto simp: region_node_def split: list.splits)
  show "retrievable [region_node C b h f rows] = group_nodes C b h f rows"
    using k by (auto simp: region_node_def split: list.splits)
qed

lemma region_nodes_ok:
  "\<exists>gs. concat gs = rows \<and> list_all (group_fits C header) gs
     \<and> retrievable (region_nodes C b header first rows) = place_groups b header first gs"
proof (induction C b header first rows rule: region_nodes.induct)
  case (1 C b header first rows)
  show ?case
  proof (cases "rows = []")
    case True
    then show ?thesis by (intro exI[of _ "[]"]) (simp add: region_nodes.simps)
  next
    case False
    let ?r = "take_region C 0 (tokens header) rows"
    obtain hs where hs: "concat hs = drop (length ?r) rows" "list_all (group_fits C header) hs"
      "retrievable (region_nodes C b header (first + length ?r) (drop (length ?r) rows))
         = place_groups b header (first + length ?r) hs"
      using 1[OF False refl] by blast
    obtain gs where gs: "concat gs = ?r" "list_all (group_fits C header) gs"
      "group_nodes C b header first ?r = place_groups b header first gs"
      using group_nodes_ok by blast
    have "retrievable (region_nodes C b header first rows)
      = retrievable [region_node C b header first ?r]
        @ retrievable (region_nodes C b header (first + length ?r) (drop (length ?r) rows))"
      using False by (simp add: region_nodes.simps[of C b header first rows] Let_def)
    then have "retrievable (region_nodes C b header first rows) = place_groups b header first (gs @ hs)"
      by (simp only: region_node_retrievable(2) gs(3) hs(3) place_groups_append gs(1))
    moreover have "concat (gs @ hs) = rows"
      using gs(1) hs(1) take_region_split[of C 0 "tokens header" rows] by simp
    moreover have "list_all (group_fits C header) (gs @ hs)" using gs(2) hs(2) by simp
    ultimately show ?thesis by blast
  qed
qed

lemma place_groups_words:
  "set (concat (map py_split (concat gs))) \<subseteq> all_words (place_groups b header first gs)"
  by (induction b header first gs rule: place_groups.induct) (auto simp: table_body_words)

lemma place_groups_header:
  "gs \<noteq> [] \<Longrightarrow> set (py_split header) \<subseteq> all_words (place_groups b header first gs)"
  by (cases gs) (auto simp: table_body_words)

lemma tabular_words: "set (py_split (eb_text b)) \<subseteq> all_words (retrievable (tabular_nodes C b))"
proof (cases "row_cells (eb_text b)")
  case Nil
  then show ?thesis using row_words[of "eb_text b"] by simp
next
  case (Cons header rows)
  have w: "set (py_split (eb_text b)) = set (py_split header) \<union> set (concat (map py_split rows))"
    unfolding row_words[of "eb_text b", symmetric] Cons by simp
  obtain gs where gs: "concat gs = rows"
    "retrievable (region_nodes C b header 2 rows) = place_groups b header 2 gs"
    using region_nodes_ok by blast
  show ?thesis
  proof (cases "rows = []")
    case True
    then show ?thesis using w Cons by (simp add: tabular_nodes_def)
  next
    case False
    with gs have "gs \<noteq> []" by auto
    moreover have "tabular_nodes C b = region_nodes C b header 2 rows"
      using False Cons by (simp add: tabular_nodes_def split: list.split)
    ultimately show ?thesis
      using place_groups_words[of gs b header 2] place_groups_header[of gs header b 2] gs w by simp
  qed
qed


section \<open>Trees of tables\<close>

lemma place_groups_leaves:
  "list_all (\<lambda>k. leaf_ok k \<and> cn_heading k = eb_heading b \<and> bm_type (cn_meta k) = eb_type b) (place_groups b h first gs)"
  by (induction b h first gs rule: place_groups.induct) (auto simp: row_meta_def)

lemma group_nodes_leaves:
  "list_all (\<lambda>k. leaf_ok k \<and> cn_heading k = eb_heading b \<and> bm_type (cn_meta k) = eb_type b) (group_nodes C b h f rows)"
proof -
  obtain gs where "group_nodes C b h f rows = place_groups b h f gs" using group_nodes_ok by blast
  then show ?thesis by (simp only: place_groups_leaves)
qed

lemma region_node_ok: "tree_ok (region_node C b h f rows) \<and> bm_type (cn_meta (region_node C b h f rows)) = eb_type b"
proof -
  have p: "tree_ok (parent (eb_heading b) (row_meta b i j) body (group_nodes C b h f rows))" for i j body
    using group_nodes_leaves[of b C h f rows] by (intro parent_tree_ok) (auto simp: list_all_iff row_meta_def)
  have m: "bm_type (row_meta b i j) = eb_type b" for i j by (simp add: row_meta_def)
  show ?thesis
  proof (cases "\<exists>c. group_nodes C b h f rows = [c]")
    case True
    then obtain c where c: "group_nodes C b h f rows = [c]" by blast
    have "list_all (\<lambda>k. leaf_ok k \<and> cn_heading k = eb_heading b \<and> bm_type (cn_meta k) = eb_type b) [c]"
      using group_nodes_leaves[of b C h f rows] unfolding c .
    with c show ?thesis by (simp add: region_node_def tree_ok_def)
  next
    case False
    then have "region_node C b h f rows = parent (eb_heading b) (row_meta b f (f + length rows - 1))
        (table_body h rows) (group_nodes C b h f rows)"
      by (auto simp: region_node_def split: list.splits)
    then show ?thesis by (simp only: p m parent_simps)
  qed
qed

lemma region_nodes_tree: "list_all (\<lambda>n. tree_ok n \<and> bm_type (cn_meta n) = eb_type b) (region_nodes C b h first rows)"
proof (induction C b h first rows rule: region_nodes.induct)
  case (1 C b h first rows)
  then show ?case
    by (cases "rows = []") (simp_all add: region_nodes.simps[of C b h first] Let_def region_node_ok)
qed

lemma tabular_tree: "list_all (\<lambda>n. tree_ok n \<and> bm_type (cn_meta n) = eb_type b) (tabular_nodes C b)"
  using region_nodes_tree[of b C] by (auto simp: tabular_nodes_def row_meta_def split: list.splits)


section \<open>Documents\<close>

definition prose_type :: "string \<Rightarrow> bool" where
  "prose_type t \<longleftrightarrow> t = ''paragraph'' \<or> t = ''page''"

definition node_ok :: "chunking_config \<Rightarrow> chunk_node \<Rightarrow> bool" where
  "node_ok C n \<longleftrightarrow> tree_ok n \<and> (prose_type (bm_type (cn_meta n)) \<longrightarrow> prose_node C (cn_heading n) (cn_meta n) n)"

lemma prose_node_ok: "prose_node C h m n \<Longrightarrow> node_ok C n"
  by (auto simp: node_ok_def prose_node_def small_leaf_def tree_ok_def)

lemma block_nodes_ok:
  assumes "\<not> prose_block b"
  shows "list_all (node_ok C) (block_nodes C b)"
    and "set (py_split (eb_text b)) \<subseteq> all_words (retrievable (block_nodes C b))"
proof -
  have "\<not> prose_type (eb_type b)" using assms by (simp add: prose_block_def prose_type_def)
  then show "list_all (node_ok C) (block_nodes C b)"
    using tabular_tree[of b C] by (auto simp: block_nodes_def node_ok_def meta_of_def list_all_iff)
  show "set (py_split (eb_text b)) \<subseteq> all_words (retrievable (block_nodes C b))"
    using tabular_words[of b C] by (auto simp: block_nodes_def)
qed

text \<open>What a state has kept: the words of its retrievable nodes and of the open section.\<close>

definition kept_words :: "chunk_state \<Rightarrow> string set" where
  "kept_words st = all_words (retrievable (ck_nodes st)) \<union> set (ck_words st)"

definition chunk_inv :: "chunking_config \<Rightarrow> chunk_state \<Rightarrow> bool" where
  "chunk_inv C st \<longleftrightarrow> list_all is_word (ck_words st) \<and> list_all (node_ok C) (ck_nodes st)"

lemma flush_prose_ok:
  assumes "windows_ok C" "chunk_inv C st"
  shows "\<exists>st'. flush_prose C st = Some st' \<and> chunk_inv C st' \<and> ck_words st' = [] \<and> kept_words st \<subseteq> kept_words st'"
proof (cases "ck_words st = []")
  case True
  with assms(2) show ?thesis by (simp add: flush_prose_def)
next
  case False
  have w: "list_all is_word (ck_words st)" "list_all (node_ok C) (ck_nodes st)"
    using assms(2) by (simp_all add: chunk_inv_def)
  let ?m = "case ck_meta st of None \<Rightarrow> no_meta | Some m \<Rightarrow> m"
  obtain ns where ns: "prose_nodes C (ck_heading st) ?m (ck_words st) (int 0) = Some ns"
    "list_all (prose_node C (ck_heading st) ?m) ns" "set (drop 0 (ck_words st)) \<subseteq> all_words (retrievable ns)"
    using prose_nodes_ok[OF assms(1) w(1)] by blast
  have "list_all (node_ok C) ns" using ns(2) by (auto simp: list_all_iff intro: prose_node_ok)
  with False ns w show ?thesis by (auto simp: flush_prose_def chunk_inv_def kept_words_def)
qed

lemma chunk_block_ok:
  assumes "windows_ok C" "chunk_inv C st"
  shows "\<exists>st'. chunk_block C b st = Some st' \<and> chunk_inv C st' \<and> kept_words st \<union> set (py_split (eb_text b)) \<subseteq> kept_words st'"
proof -
  obtain st1 where st1: "flush_prose C st = Some st1" "chunk_inv C st1" "ck_words st1 = []" "kept_words st \<subseteq> kept_words st1"
    using flush_prose_ok[OF assms] by blast
  show ?thesis
  proof (cases "prose_block b")
    case True
    define st2 where "st2 = (if prose_continues b st then st else st1)"
    have s2: "chunk_inv C st2" "kept_words st \<subseteq> kept_words st2" using assms(2) st1 by (simp_all add: st2_def)
    have "chunk_block C b st = Some (st2\<lparr>ck_words := ck_words st2 @ py_split (eb_text b),
        ck_heading := eb_heading b, ck_meta := Some (meta_of b)\<rparr>)"
      using True st1(1) by (simp add: chunk_block_def st2_def)
    with s2 words_are_words[of "eb_text b"] show ?thesis by (auto simp: chunk_inv_def kept_words_def)
  next
    case False
    with st1 block_nodes_ok[OF False, of C] show ?thesis by (auto simp: chunk_block_def chunk_inv_def kept_words_def)
  qed
qed

lemma chunk_all_ok:
  assumes "windows_ok C" "chunk_inv C st"
  shows "\<exists>st'. chunk_all C bs st = Some st' \<and> chunk_inv C st' \<and> ck_words st' = []
    \<and> kept_words st \<union> (\<Union>b \<in> set bs. set (py_split (eb_text b))) \<subseteq> kept_words st'"
  using assms(2)
proof (induction bs arbitrary: st)
  case Nil
  then show ?case using flush_prose_ok[OF assms(1) Nil] by simp
next
  case (Cons b bs)
  obtain st1 where st1: "chunk_block C b st = Some st1" "chunk_inv C st1"
    "kept_words st \<union> set (py_split (eb_text b)) \<subseteq> kept_words st1"
    using chunk_block_ok[OF assms(1) Cons.prems] by blast
  from Cons.IH[OF st1(2)] obtain st2 where "chunk_all C bs st1 = Some st2" "chunk_inv C st2" "ck_words st2 = []"
    "kept_words st1 \<union> (\<Union>b \<in> set bs. set (py_split (eb_text b))) \<subseteq> kept_words st2" by blast
  with st1 show ?case by auto
qed

lemma chunk_blocks_ok:
  assumes "windows_ok C"
  shows "\<exists>ns. chunk_blocks bs C = Some ns \<and> list_all (node_ok C) ns
    \<and> (\<Union>b \<in> set bs. set (py_split (eb_text b))) \<subseteq> all_words (retrievable ns)"
proof -
  let ?s = "\<lparr>ck_nodes = [], ck_words = [], ck_heading = [], ck_meta = None\<rparr>"
  have "chunk_inv C ?s" by (simp add: chunk_inv_def)
  from chunk_all_ok[OF assms this, of bs] show ?thesis
    by (auto simp: chunk_blocks_def chunk_inv_def kept_words_def)
qed

lemma accepted_windows: "accepted_profile C \<Longrightarrow> windows_ok C"
  by (simp add: accepted_profile_def windows_ok_def)

section \<open>Flat chunks\<close>

lemma window_diverges:
  assumes "section_windows a v p h ws s = Some cs"
  shows "\<not> (0 < a \<and> a \<le> v \<and> s + a < int (length ws))"
proof (rule section_windows.raw_induct
    [where P = "\<lambda>a v p h ws s cs. \<not> (0 < a \<and> a \<le> v \<and> s + a < int (length ws))", OF _ assms], rule notI)
  fix f :: "int \<Rightarrow> int \<Rightarrow> string list \<Rightarrow> string list \<Rightarrow> string list \<Rightarrow> int \<Rightarrow> markdown_chunk list option"
    and a v p h ws s cs
  assume hyp: "\<And>a v p h ws s cs. f a v p h ws s = Some cs \<Longrightarrow> \<not> (0 < a \<and> a \<le> v \<and> s + a < int (length ws))"
    and body: "(if s < int (length ws)
      then let stop = min (s + a) (int (length ws)); text = py_strip (py_join [nl] (p @ [py_join [blank] (py_slice ws s stop)]));
             chunk = flat_chunk text h
        in if stop = int (length ws) then Some [chunk]
           else Option.bind (f a v p h ws (stop - v)) (\<lambda>cs. Some (chunk # cs))
      else Some []) = Some cs"
    and bad: "0 < a \<and> a \<le> v \<and> s + a < int (length ws)"
  from bad have "s < int (length ws)" "min (s + a) (int (length ws)) = s + a" "s + a \<noteq> int (length ws)" by linarith+
  with body obtain cs' where "f a v p h ws (s + a - v) = Some cs'"
    by (auto simp: Let_def bind_eq_Some_conv)
  from hyp[OF this] bad show False by linarith
qed

lemma window_ends:
  assumes "v < a" "0 \<le> v"
  shows "\<exists>cs. section_windows a v p h ws (int c) = Some cs"
proof (induction "length ws - c" arbitrary: c rule: less_induct)
  case less
  define e where "e = min (int c + a) (int (length ws))"
  have step: "section_windows a v p h ws (int c) =
     (if c < length ws
      then if e = int (length ws) then Some [flat_chunk (py_strip (py_join [nl] (p @ [py_join [blank] (py_slice ws (int c) e)]))) h]
           else Option.bind (section_windows a v p h ws (e - v))
             (\<lambda>cs. Some (flat_chunk (py_strip (py_join [nl] (p @ [py_join [blank] (py_slice ws (int c) e)]))) h # cs))
      else Some [])"
    by (subst section_windows.simps) (simp add: Let_def e_def)
  show ?case
  proof (cases "c < length ws \<and> e \<noteq> int (length ws)")
    case True
    then have "int c < e - v" using assms by (auto simp: e_def)
    then obtain d where d: "e - v = int d" "c < d" by (intro that[of "nat (e - v)"]) auto
    from less.hyps[of d] d True obtain cs where "section_windows a v p h ws (e - v) = Some cs" by fastforce
    with True step show ?thesis by simp
  next
    case False
    with step show ?thesis by auto
  qed
qed

lemma window_small:
  assumes "int (length ws) \<le> a"
  shows "\<exists>cs. section_windows a v p h ws 0 = Some cs"
  using assms by (subst section_windows.simps) (simp add: Let_def min_def)

text \<open>The words a window of a section can take next to its headings.\<close>

definition window_room :: "int \<Rightarrow> string list \<Rightarrow> int" where
  "window_room max_tokens h = max_tokens - min (int (length h)) (max 0 (max_tokens - 1))"

lemma section_ends_iff:
  assumes "0 \<le> v" "v < m"
  shows "section_chunks m v (h, ws) = None \<longleftrightarrow> window_room m h \<le> v \<and> window_room m h < int (length ws)"
proof -
  define p where "p = (if int (length h) \<ge> m then take (nat (m - 1)) h else h)"
  have r: "m - int (length p) = window_room m h" "0 < window_room m h"
    using assms by (auto simp: window_room_def p_def)
  have s: "section_chunks m v (h, ws) = section_windows (window_room m h) v p h ws 0"
    using r(1) by (simp add: section_chunks_def p_def Let_def)
  have "window_room m h \<le> v \<Longrightarrow> window_room m h < int (length ws) \<Longrightarrow> section_chunks m v (h, ws) = None"
    using window_diverges[of "window_room m h" v p h ws 0] r(2) unfolding s
    by (cases "section_windows (window_room m h) v p h ws 0") auto
  moreover have "v < window_room m h \<Longrightarrow> section_chunks m v (h, ws) \<noteq> None"
    using window_ends[of v "window_room m h" p h ws 0] assms s by auto
  moreover have "int (length ws) \<le> window_room m h \<Longrightarrow> section_chunks m v (h, ws) \<noteq> None"
    using window_small[of ws "window_room m h" v p h] s by auto
  ultimately show ?thesis by linarith
qed

lemma collect_None: "collect xs = None \<longleftrightarrow> None \<in> set xs"
  by (induction xs rule: collect.induct) auto

lemma heading_match_level: "heading_match line = Some (n, t) \<Longrightarrow> 1 \<le> n \<and> n \<le> 6"
  by (cases "takeWhile (\<lambda>c. c = hash_mark) line") (auto simp: heading_match_def Let_def split: if_splits)

definition md_depth :: "md_state \<Rightarrow> bool" where
  "md_depth st \<longleftrightarrow> (case st of (stack, sections, content) \<Rightarrow>
     length stack \<le> 6 \<and> (\<forall>s \<in> set sections. length (fst s) \<le> 6))"

lemma md_flush_depth: "md_depth st \<Longrightarrow> md_depth (md_flush st)"
  by (cases st) (auto simp: md_depth_def md_flush_def)

lemma md_line_depth: "md_depth st \<Longrightarrow> md_depth (md_line line st)"
proof (cases "heading_match line")
  case (Some lt)
  obtain level title where lt: "lt = (level, title)" by fastforce
  assume "md_depth st"
  then have "md_depth (md_flush st)" by (rule md_flush_depth)
  moreover have "1 \<le> level \<and> level \<le> 6" using heading_match_level Some lt by blast
  ultimately show ?thesis
    using Some lt by (cases "md_flush st") (auto simp: md_line_def md_depth_def)
qed (cases st, auto simp: md_line_def md_depth_def)

lemma md_sections_depth: "s \<in> set (md_sections text) \<Longrightarrow> length (fst s) \<le> 6"
proof -
  have "md_depth (fold md_line ls st)" if "md_depth st" for ls st
    using that by (induction ls arbitrary: st) (simp_all add: md_line_depth)
  then have "md_depth (md_flush (fold md_line (py_splitlines text) ([], [], [])))"
    by (intro md_flush_depth) (simp add: md_depth_def)
  then show "s \<in> set (md_sections text) \<Longrightarrow> length (fst s) \<le> 6"
    by (auto simp: md_sections_def md_depth_def split: prod.splits)
qed


section \<open>Documents of the examples\<close>

abbreviation ex_text :: extracted_block where
  "ex_text \<equiv> \<lparr>eb_text = ''hello world'', eb_heading = [''Intro''], eb_page = Some 1, eb_sheet = None,
     eb_location = None, eb_type = ''page''\<rparr>"

abbreviation ex_table :: extracted_block where
  "ex_table \<equiv> \<lparr>eb_text = ''k v'' @ [nl] @ ''a 1'' @ [nl] @ ''b 2'', eb_heading = [], eb_page = None, eb_sheet = Some ''S'',
     eb_location = None, eb_type = ''sheet''\<rparr>"

lemma ex_text_chunks: "chunk_blocks [ex_text] default_chunking = Some [leaf [''Intro''] (meta_of ex_text) ''hello world'']"
  by (simp add: chunk_blocks_def chunk_block_def prose_block_def prose_continues_def flush_prose_def
      prose_nodes.simps default_chunking_def tokens_def py_split_def py_slice_def py_index_def py_space_def Let_def)


section \<open>Claims\<close>

text \<open>C33. Chunking returns and loses nothing: for every profile the endpoint accepts and every list of extracted
  blocks, the loops end, and each word of each block (prose, table row or figure) is in the text of some
  node that is searched.\<close>
theorem chunking_loses_nothing:
  assumes "accepted_profile C"
  shows "\<exists>ns. chunk_blocks bs C = Some ns
    \<and> (\<forall>b \<in> set bs. \<forall>w \<in> set (py_split (eb_text b)). \<exists>n \<in> set (retrievable ns). w \<in> set (py_split (cn_text n)))"
  using chunk_blocks_ok[OF accepted_windows[OF assms], of bs]
  by (auto simp: all_words_def node_words_def subset_iff)

theorem chunking_loses_nothing_witness:
  "accepted_profile default_chunking \<and> (\<exists>ns. chunk_blocks [ex_text] default_chunking = Some ns
     \<and> (\<exists>n \<in> set (retrievable ns). ''hello'' \<in> set (py_split (cn_text n))))"
proof
  show a: "accepted_profile default_chunking" by (simp add: accepted_profile_def default_chunking_def)
  have "''hello'' \<in> set (py_split (eb_text ex_text))" by (simp add: py_split_def py_space_def)
  then show "\<exists>ns. chunk_blocks [ex_text] default_chunking = Some ns
     \<and> (\<exists>n \<in> set (retrievable ns). ''hello'' \<in> set (py_split (cn_text n)))"
    using chunking_loses_nothing[OF a, of "[ex_text]"] by auto
qed



text \<open>Rows of a table are atomic: the searched nodes of a table are the header with consecutive groups of whole
  rows, in order, every row exactly once and cited under its own row numbers; a group of more than one row
  stays within \<open>child_tokens\<close>, counting a separator per row.\<close>
theorem table_rows_are_atomic:
  assumes "row_cells (eb_text b) = header # rows" "rows \<noteq> []"
  shows "\<exists>groups. concat groups = rows \<and> retrievable (tabular_nodes C b) = place_groups b header 2 groups
    \<and> (\<forall>g \<in> set groups. length g = 1 \<or> g \<noteq> [] \<and> group_tokens header g \<le> cf_child_tokens C)"
proof -
  have "tabular_nodes C b = region_nodes C b header 2 rows"
    using assms by (simp add: tabular_nodes_def split: list.split)
  with region_nodes_ok[of rows C header b 2] show ?thesis by (auto simp: list_all_iff group_fits_def)
qed

theorem table_rows_are_atomic_witness:
  "row_cells (eb_text ex_table) = [''k v'', ''a 1'', ''b 2''] \<and>
   (\<exists>groups. concat groups = [''a 1'', ''b 2''] \<and> retrievable (tabular_nodes default_chunking ex_table)
      = place_groups ex_table ''k v'' 2 groups)"
proof -
  have a: "row_cells (eb_text ex_table) = [''k v'', ''a 1'', ''b 2'']"
    by (simp add: row_cells_def py_splitlines_def line_break_def py_strip_def py_lstrip_def py_rstrip_def py_space_def)
  show ?thesis using table_rows_are_atomic[OF a, of default_chunking] a by auto
qed

text \<open>C35. The flat chunker does not return exactly when some section leaves no positive stride: the words next to
  the headings are at most the overlap, and the section has more words than one window.  An overlap more
  than six below the window always returns, since headings are at most six deep.\<close>
theorem flat_chunking_returns_iff:
  assumes "0 \<le> v" "v < m"
  shows "(chunk_markdown text m v = Inr None \<longleftrightarrow>
      (\<exists>(h, ws) \<in> set (md_sections text). window_room m h \<le> v \<and> window_room m h < int (length ws)))
    \<and> (v + 6 < m \<longrightarrow> (\<exists>cs. chunk_markdown text m v = Inr (Some cs)))"
proof -
  have c: "chunk_markdown text m v = Inr (collect (map (section_chunks m v) (md_sections text)))"
    using assms by (simp add: chunk_markdown_def)
  have n: "collect (map (section_chunks m v) (md_sections text)) = None \<longleftrightarrow>
      (\<exists>(h, ws) \<in> set (md_sections text). window_room m h \<le> v \<and> window_room m h < int (length ws))"
  proof -
    have "collect (map (section_chunks m v) (md_sections text)) = None
        \<longleftrightarrow> (\<exists>s \<in> set (md_sections text). section_chunks m v s = None)"
      by (simp add: collect_None image_iff eq_commute[of None])
    also have "\<dots> \<longleftrightarrow> (\<exists>s \<in> set (md_sections text). window_room m (fst s) \<le> v
        \<and> window_room m (fst s) < int (length (snd s)))"
      by (intro bex_cong refl) (metis section_ends_iff[OF assms] prod.collapse)
    finally show ?thesis by (simp add: case_prod_unfold)
  qed
  have "v + 6 < m \<Longrightarrow> \<not> window_room m h \<le> v" if "(h, ws) \<in> set (md_sections text)" for h ws
    using md_sections_depth[OF that] by (auto simp: window_room_def)
  then have "v + 6 < m \<Longrightarrow> collect (map (section_chunks m v) (md_sections text)) \<noteq> None"
    unfolding n by auto
  with c n show ?thesis by auto
qed

theorem flat_chunking_returns_iff_witness:
  "chunk_markdown (''# A'' @ [nl] @ ''x y z'') 3 2 = Inr None \<and> (\<exists>cs. chunk_markdown (''# A'' @ [nl] @ ''x y z'') 9 2 = Inr (Some cs))"
proof -
  have s: "md_sections (''# A'' @ [nl] @ ''x y z'') = [([''A''], [''x'', ''y'', ''z''])]"
    by code_simp
  show ?thesis
    using flat_chunking_returns_iff[of 2 3 "''# A'' @ [nl] @ ''x y z''"]
      flat_chunking_returns_iff[of 2 9 "''# A'' @ [nl] @ ''x y z''"]
    unfolding s by (simp add: window_room_def)
qed

end
