(* ===== verification/Db_Session.thy ===== *)
theory Db_Session
  imports Prelude
begin

text \<open>
  A database session beside others: a world holds the tables as the session sees them and as they are
  committed.  At a commit, and at a wait with no uncommitted change, other sessions may change the tables
  (there is one writer at a time); what they do is a function of the number of the wait.
\<close>

record 'd db_world =
  wd_db :: 'd
  wd_saved :: 'd
  wd_waits :: nat

type_synonym 'd others = "nat \<Rightarrow> 'd \<Rightarrow> 'd"

definition edit_db :: "('d \<Rightarrow> 'd) \<Rightarrow> (('d, 'm) db_world_scheme, 'e, unit) op" where
  "edit_db f = cput (\<lambda>w. w\<lparr>wd_db := f (wd_db w)\<rparr>)"

definition read_db :: "('d \<Rightarrow> 'a) \<Rightarrow> (('d, 'm) db_world_scheme, 'e, 'a) op" where
  "read_db f = cget (\<lambda>w. Inr (f (wd_db w)))"

definition yield_world :: "'d others \<Rightarrow> ('d, 'm) db_world_scheme \<Rightarrow> ('d, 'm) db_world_scheme" where
  "yield_world others w =
     (if wd_db w = wd_saved w
      then let v = others (wd_waits w) (wd_db w) in w\<lparr>wd_db := v, wd_saved := v, wd_waits := Suc (wd_waits w)\<rparr>
      else w\<lparr>wd_waits := Suc (wd_waits w)\<rparr>)"

definition wait :: "'d others \<Rightarrow> (('d, 'm) db_world_scheme, 'e, unit) op" where
  "wait others = cput (yield_world others)"

definition commit_db :: "'d others \<Rightarrow> (('d, 'm) db_world_scheme, 'e, unit) op" where
  "commit_db others = cput (\<lambda>w. yield_world others (w\<lparr>wd_saved := wd_db w\<rparr>))"

definition rollback_db :: "(('d, 'm) db_world_scheme, 'e, unit) op" where
  "rollback_db = cput (\<lambda>w. w\<lparr>wd_db := wd_saved w\<rparr>)"

text \<open>\<open>try m except e: h e\<close>.\<close>

definition catch_op :: "('s, 'e, 'a) op \<Rightarrow> ('e \<Rightarrow> ('s, 'e, 'a) op) \<Rightarrow> ('s, 'e, 'a) op" where
  "catch_op m h w = (case m w of (Inl e, w) \<Rightarrow> h e w | (Inr x, w) \<Rightarrow> (Inr x, w))"

text \<open>A session ends by dropping what was not committed.\<close>

definition request_op :: "(('d, 'm) db_world_scheme, 'e, 'a) op \<Rightarrow> (('d, 'm) db_world_scheme, 'e, 'a) op" where
  "request_op m w = (case m w of (r, w) \<Rightarrow> (r, w\<lparr>wd_db := wd_saved w\<rparr>))"


section \<open>Relations that sessions keep\<close>

text \<open>
  The contract of a relation between the worlds before and after: waiting and committing keep it.  Then
  what is composed of reads, waits, commits and caught errors keeps it.
\<close>

locale session_frame = kept_relation R
  for R :: "('d, 'm) db_world_scheme \<Rightarrow> ('d, 'm) db_world_scheme \<Rightarrow> bool" +
  fixes others :: "'d others"
  assumes step_wait: "R w (yield_world others w)"
    and step_commit: "R w (yield_world others (w\<lparr>wd_saved := wd_db w\<rparr>))"
begin

lemma read [intro!, simp]: "op_keeps R (read_db h)"
  by (simp add: read_db_def)

lemma waiting [intro!]: "op_keeps R (wait others)"
  unfolding wait_def by (rule change) (rule step_wait)

lemma committing [intro!]: "op_keeps R (commit_db others)"
  unfolding commit_db_def by (rule change) (rule step_commit)

lemma catch [intro]:
  assumes "op_keeps R m" "\<And>e. op_keeps R (h e)"
  shows "op_keeps R (catch_op m h)"
proof -
  have "R w (snd (catch_op m h w))" for w
    using assms trans unfolding op_keeps_def catch_op_def
    by (auto split: prod.split sum.split) (metis snd_conv)+
  then show ?thesis by (simp add: op_keeps_def)
qed

end


section \<open>Contracts on the tables\<close>

text \<open>
  An invariant of the tables and a preorder between the tables before and after, kept by other sessions: then
  the relations that carry them to worlds, with what is committed and without, are kept by sessions.
\<close>

definition session_keeps ::
    "('d \<Rightarrow> bool) \<Rightarrow> ('d \<Rightarrow> 'd \<Rightarrow> bool) \<Rightarrow> ('d, 'm) db_world_scheme \<Rightarrow> ('d, 'm) db_world_scheme \<Rightarrow> bool" where
  "session_keeps P G w w' \<longleftrightarrow>
     (P (wd_db w) \<and> P (wd_saved w) \<and> G (wd_saved w) (wd_db w) \<longrightarrow>
        P (wd_db w') \<and> P (wd_saved w') \<and> G (wd_saved w') (wd_db w') \<and> G (wd_saved w) (wd_saved w') \<and> G (wd_db w) (wd_db w'))"

definition live_keeps ::
    "('d \<Rightarrow> bool) \<Rightarrow> ('d \<Rightarrow> 'd \<Rightarrow> bool) \<Rightarrow> ('d, 'm) db_world_scheme \<Rightarrow> ('d, 'm) db_world_scheme \<Rightarrow> bool" where
  "live_keeps P G w w' \<longleftrightarrow> (P (wd_db w) \<longrightarrow> P (wd_db w') \<and> G (wd_db w) (wd_db w'))"

locale db_contract =
  fixes P :: "'d \<Rightarrow> bool" and G :: "'d \<Rightarrow> 'd \<Rightarrow> bool" and others :: "'d others"
  assumes G_refl: "G d d" and G_trans: "G d e \<Longrightarrow> G e f \<Longrightarrow> G d f"
    and others_ok: "P d \<Longrightarrow> P (others n d) \<and> G d (others n d)"
begin

sublocale committed: session_frame "session_keeps P G" others
  using G_refl G_trans others_ok
  by unfold_locales (auto simp: session_keeps_def yield_world_def Let_def, (blast+)?)

sublocale live: session_frame "live_keeps P G" others
  using G_refl G_trans others_ok
  by unfold_locales (auto simp: live_keeps_def yield_world_def Let_def, (blast+)?)

lemma change_keeps:
  assumes "P (wd_db w) \<Longrightarrow> P (f (wd_db w)) \<and> G (wd_db w) (f (wd_db w))"
  shows "session_keeps P G w (w\<lparr>wd_db := f (wd_db w)\<rparr>)" "live_keeps P G w (w\<lparr>wd_db := f (wd_db w)\<rparr>)"
  using assms G_refl G_trans by (auto simp: session_keeps_def live_keeps_def)

lemma aside_keeps:
  assumes "wd_db v = wd_db w" "wd_saved v = wd_saved w"
  shows "session_keeps P G w v" "live_keeps P G w v"
  using assms G_refl by (auto simp: session_keeps_def live_keeps_def)

end


section \<open>Results of operations\<close>

text \<open>What holds of the result and the state after an operation that returns.\<close>

lemma bind_Inr: "cbind m f w = (Inr y, w') \<longleftrightarrow> (\<exists>x v. m w = (Inr x, v) \<and> f x v = (Inr y, w'))"
  by (auto simp: cbind_def split: prod.splits sum.splits)

lemma bind_Inl: "cbind m f w = (Inl e, w') \<longleftrightarrow> m w = (Inl e, w') \<or> (\<exists>x v. m w = (Inr x, v) \<and> f x v = (Inl e, w'))"
  by (auto simp: cbind_def split: prod.splits sum.splits)

lemma keeps_run: "op_keeps R m \<Longrightarrow> m w = (x, w') \<Longrightarrow> R w w'"
  unfolding op_keeps_def by (metis snd_conv)

definition op_gives :: "('s \<Rightarrow> bool) \<Rightarrow> ('s, 'e, 'a) op \<Rightarrow> ('a \<Rightarrow> 's \<Rightarrow> bool) \<Rightarrow> bool" where
  "op_gives I m J \<longleftrightarrow> (\<forall>w x w'. I w \<and> m w = (Inr x, w') \<longrightarrow> J x w')"

lemma gives_bind: "op_gives I m J \<Longrightarrow> (\<And>x. op_gives (J x) (f x) K) \<Longrightarrow> op_gives I (cbind m f) K"
  unfolding op_gives_def bind_Inr by blast

lemma gives_ret: "(\<And>w. I w \<Longrightarrow> J x w) \<Longrightarrow> op_gives I (cret x) J"
  by (simp add: op_gives_def)

lemma gives_option:
  assumes "op_gives (\<lambda>w. I w \<and> x = None) m K" "\<And>s. x = Some s \<Longrightarrow> op_gives (J s) (f s) K"
  shows "op_gives (\<lambda>w. I w \<and> (\<forall>s. x = Some s \<longrightarrow> J s w)) (case x of None \<Rightarrow> m | Some s \<Rightarrow> f s) K"
  using assms by (cases x) (auto simp: op_gives_def)

lemma gives_less: "op_gives I m K \<Longrightarrow> (\<And>w. J w \<Longrightarrow> I w) \<Longrightarrow> op_gives J m K"
  by (auto simp: op_gives_def)

end
