(* ===== verification/Vault.thy ===== *)
theory Vault
  imports Chunker Db_Session
begin

text \<open>
  The Knowledge Vault: documents with their chunks and full-text rows (\<^verbatim>\<open>knowledge/ingest.py\<close>), the
  embedding seam with its egress rule (\<^verbatim>\<open>knowledge/embeddings.py\<close>), index generations with building,
  activation, repair and rollback (\<^verbatim>\<open>knowledge/indexing.py\<close>), and the endpoints that change them
  (\<^verbatim>\<open>api/knowledge.py\<close>).  Embeddings and extraction are fields of an environment.  Row identifiers are
  drawn from a counter, which stands for random ones.
\<close>

section \<open>Tables\<close>

record vault_config =
  vf_fusion :: string
  vf_chunking :: chunking_config
  vf_rrf_k :: int
  vf_max_parents :: int

record profile_row =
  pf_id :: nat
  pf_revision :: int
  pf_active :: bool
  pf_config :: vault_config

record provider_row =
  pv_id :: string
  pv_type :: string
  pv_base_url :: string
  pv_readable_key :: bool

record resource_row =
  er_id :: nat
  er_provider :: string
  er_model :: string
  er_dims :: "int option"
  er_status :: string
  er_error :: "string option"
  er_egress :: bool

record index_stats =
  st_embedded :: int
  st_failed :: int
  st_total :: int
  st_reason :: "string option"

record generation_row =
  ig_id :: nat
  ig_revision :: int
  ig_profile_revision :: int
  ig_resource :: "nat option"
  ig_model :: "string option"
  ig_dims :: "int option"
  ig_adapter :: string
  ig_status :: string
  ig_stats :: index_stats
  ig_error :: "string option"

record vector_row =
  ce_chunk :: nat
  ce_generation :: nat
  ce_vector :: "rat list"

record document_row =
  vd_id :: nat
  vd_agent :: "string option"
  vd_source :: string
  vd_storage :: string
  vd_name :: string
  vd_hash :: string
  vd_size :: int
  vd_status :: string
  vd_semantic :: string
  vd_error :: "string option"

record chunk_row =
  vc_id :: nat
  vc_doc :: nat
  vc_kind :: string
  vc_parent :: "nat option"
  vc_seq :: nat
  vc_text :: string
  vc_heading :: "string list"
  vc_page :: "int option"
  vc_location :: "string option"
  vc_type :: string
  vc_tokens :: nat

record fts_row =
  ft_text :: string
  ft_chunk :: nat
  ft_doc :: nat
  ft_agent :: "string option"
  ft_source :: string
  ft_storage :: string
  ft_heading :: "string list"
  ft_page :: "int option"
  ft_sheet :: "string option"
  ft_location :: "string option"

record vault =
  vt_docs :: "document_row list"
  vt_chunks :: "chunk_row list"
  vt_fts :: "fts_row list"
  vt_vectors :: "vector_row list"
  vt_generations :: "generation_row list"
  vt_profiles :: "profile_row list"
  vt_resources :: "resource_row list"
  vt_providers :: "provider_row list"
  vt_next :: nat

text \<open>A request that left for the provider: whether its endpoint is local, the resource's flag, the texts.\<close>

record egress_call =
  eg_local :: bool
  eg_allowed :: bool
  eg_texts :: "string list"

record vault_world = "vault db_world" +
  vw_calls :: "egress_call list"

datatype vault_error =
    EmbeddingUnavailable string
  | RebuildInProgress
  | VaultValue string
  | VaultFailure string
  | VaultHttp nat string

record extracted_document =
  ed_blocks :: "extracted_block list"

text \<open>A stored file: its hash, its size and what extraction makes of it.\<close>

record source_file =
  sf_name :: string
  sf_hash :: string
  sf_size :: int
  sf_extract :: "vault_error + extracted_document"

text \<open>
  The environment: the path of a file below a root (\<open>None\<close> when it escapes) with the file there, the host
  of a URL, the provider's answer to a batch (\<open>None\<close> for a failure), the adapter of the connection, what
  other sessions do at the \<open>n\<close>-th wait.
\<close>

record vault_env =
  ve_within :: "string \<Rightarrow> string \<Rightarrow> string option"
  ve_file :: "string \<Rightarrow> string \<Rightarrow> source_file option"
  ve_host :: "string \<Rightarrow> string"
  ve_embed :: "nat \<Rightarrow> string \<Rightarrow> string list \<Rightarrow> rat list list option"
  ve_adapter :: string
  ve_others :: "nat \<Rightarrow> vault \<Rightarrow> vault"

type_synonym 'a vault_op = "(vault_world, vault_error, 'a) op"


section \<open>Lookups and changes of the tables\<close>

definition retrievable_kind :: "chunk_row \<Rightarrow> bool" where
  "retrievable_kind c \<longleftrightarrow> vc_kind c \<noteq> ''parent''"

definition has_vector :: "vault \<Rightarrow> nat \<Rightarrow> nat \<Rightarrow> bool" where
  "has_vector v g c \<longleftrightarrow> list_ex (\<lambda>x. ce_chunk x = c \<and> ce_generation x = g) (vt_vectors v)"

definition find_generation :: "vault \<Rightarrow> nat \<Rightarrow> generation_row option" where
  "find_generation v g = find (\<lambda>x. ig_id x = g) (vt_generations v)"

definition find_resource :: "vault \<Rightarrow> nat option \<Rightarrow> resource_row option" where
  "find_resource v r = (case r of None \<Rightarrow> None | Some i \<Rightarrow> find (\<lambda>x. er_id x = i) (vt_resources v))"

definition find_document :: "vault \<Rightarrow> nat \<Rightarrow> document_row option" where
  "find_document v d = find (\<lambda>x. vd_id x = d) (vt_docs v)"

definition set_generation :: "nat \<Rightarrow> (generation_row \<Rightarrow> generation_row) \<Rightarrow> vault \<Rightarrow> vault" where
  "set_generation g f v =
     v\<lparr>vt_generations := map (\<lambda>x. if ig_id x = g then f x else x) (vt_generations v)\<rparr>"

definition set_document :: "nat \<Rightarrow> (document_row \<Rightarrow> document_row) \<Rightarrow> vault \<Rightarrow> vault" where
  "set_document d f v = v\<lparr>vt_docs := map (\<lambda>x. if vd_id x = d then f x else x) (vt_docs v)\<rparr>"

text \<open>Deleting chunks deletes the chunks below them and the vectors of both (foreign keys cascade).\<close>

definition drop_chunks :: "(chunk_row \<Rightarrow> bool) \<Rightarrow> vault \<Rightarrow> vault" where
  "drop_chunks P v =
     (let gone = map vc_id (filter P (vt_chunks v));
          chunks = filter (\<lambda>c. \<not> P c \<and> (case vc_parent c of None \<Rightarrow> True | Some p \<Rightarrow> p \<notin> set gone)) (vt_chunks v)
      in v\<lparr>vt_chunks := chunks, vt_vectors := filter (\<lambda>x. ce_chunk x \<in> set (map vc_id chunks)) (vt_vectors v)\<rparr>)"

text \<open>Writing to a row that is gone fails.\<close>

definition write_generation :: "nat \<Rightarrow> (generation_row \<Rightarrow> generation_row) \<Rightarrow> unit vault_op" where
  "write_generation g f =
     cbind (read_db (\<lambda>v. find_generation v g)) (\<lambda>r.
       if r = None then cfail (VaultFailure ''row has been deleted'') else edit_db (set_generation g f))"

definition write_document :: "nat \<Rightarrow> (document_row \<Rightarrow> document_row) \<Rightarrow> unit vault_op" where
  "write_document d f =
     cbind (read_db (\<lambda>v. find_document v d)) (\<lambda>r.
       if r = None then cfail (VaultFailure ''row has been deleted'') else edit_db (set_document d f))"


section \<open>Embeddings\<close>

definition local_types :: "string list" where
  "local_types = [''ollama'', ''lmstudio'', ''vllm'', ''llama.cpp'', ''local'']"

definition local_hosts :: "string list" where
  "local_hosts = [''localhost'', ''127.0.0.1'', ''::1'', ''0.0.0.0'']"

definition provider_is_local :: "vault_env \<Rightarrow> provider_row \<Rightarrow> bool" where
  "provider_is_local E p =
     (let base = py_strip (pv_base_url p);
          host = ve_host E (if contains ''://'' base then base else ''http://'' @ base)
      in py_lower (pv_type p) \<in> set local_types
         \<or> (base \<noteq> [] \<and> (py_lower host \<in> set local_hosts \<or> ends_with ''.local'' host)))"

definition egress_permitted :: "vault_env \<Rightarrow> provider_row \<Rightarrow> resource_row \<Rightarrow> bool" where
  "egress_permitted E p r \<longleftrightarrow> provider_is_local E p \<or> er_egress r"

definition provider_for :: "resource_row \<Rightarrow> provider_row vault_op" where
  "provider_for r =
     cbind (read_db (\<lambda>v. find (\<lambda>p. pv_id p = er_provider r) (vt_providers v))) (\<lambda>p.
       case p of None \<Rightarrow> cfail (EmbeddingUnavailable ''embedding provider no longer exists'') | Some p \<Rightarrow> cret p)"

text \<open>Requests go out in batches of 64; the answers are concatenated.\<close>

function embed_batches ::
    "vault_env \<Rightarrow> provider_row \<Rightarrow> resource_row \<Rightarrow> string list \<Rightarrow> rat list list vault_op" where
  "embed_batches E p r texts =
     (if texts = [] then cret []
      else
        cbind (cget (\<lambda>w. Inr (wd_waits w))) (\<lambda>n.
        cbind (cput (\<lambda>w. w\<lparr>vw_calls := vw_calls w @
          [\<lparr>eg_local = provider_is_local E p, eg_allowed = er_egress r, eg_texts = take 64 texts\<rparr>]\<rparr>)) (\<lambda>_.
        cbind (wait (ve_others E)) (\<lambda>_.
        (case ve_embed E n (er_model r) (take 64 texts) of
           None \<Rightarrow> cfail (EmbeddingUnavailable ''embedding request failed'')
         | Some vs \<Rightarrow> cbind (embed_batches E p r (drop 64 texts)) (\<lambda>rest. cret (vs @ rest)))))))"
  by pat_completeness auto
termination
  by (relation "measure (\<lambda>(E, p, r, texts). length texts)") auto

declare embed_batches.simps [simp del]

definition embed_texts :: "vault_env \<Rightarrow> resource_row \<Rightarrow> string list \<Rightarrow> rat list list vault_op" where
  "embed_texts E r texts =
     (if texts = [] then cret []
      else cbind (provider_for r) (\<lambda>p.
        if \<not> egress_permitted E p r
        then cfail (EmbeddingUnavailable ''remote embedding egress is not enabled for this resource'')
        else if \<not> pv_readable_key p then cfail (VaultFailure ''provider key cannot be decrypted'')
        else embed_batches E p r texts))"

definition probe_dimensions :: "vault_env \<Rightarrow> resource_row \<Rightarrow> int vault_op" where
  "probe_dimensions E r =
     cbind (embed_texts E r [''knowledge vault dimension probe'']) (\<lambda>vs.
       case vs of
         [] \<Rightarrow> cfail (EmbeddingUnavailable ''embedding probe returned no vector'')
       | x # _ \<Rightarrow>
           if x = [] then cfail (EmbeddingUnavailable ''embedding probe returned no vector'')
           else case er_dims r of
             None \<Rightarrow> cret (int (length x))
           | Some d \<Rightarrow>
               if d \<noteq> 0 \<and> int (length x) \<noteq> d
               then cfail (EmbeddingUnavailable
                 (''dimension mismatch: expected '' @ show_int d @ '', got '' @ show_int (int (length x))))
               else cret (int (length x)))"


section \<open>Profiles and generations\<close>

definition default_config :: vault_config where
  "default_config = \<lparr>vf_fusion = ''lexical'', vf_chunking = default_chunking, vf_rrf_k = 60, vf_max_parents = 4\<rparr>"

definition active_profile :: "vault \<Rightarrow> profile_row option" where
  "active_profile v = find pf_active (vt_profiles v)"

definition get_active_profile :: "profile_row vault_op" where
  "get_active_profile =
     cbind (read_db id) (\<lambda>v.
       case active_profile v of
         Some p \<Rightarrow> cret p
       | None \<Rightarrow>
           let p = \<lparr>pf_id = vt_next v, pf_revision = 1, pf_active = True, pf_config = default_config\<rparr>
           in cbind (edit_db (\<lambda>v. v\<lparr>vt_profiles := vt_profiles v @ [p], vt_next := Suc (vt_next v)\<rparr>)) (\<lambda>_. cret p))"

definition active_generation :: "vault \<Rightarrow> generation_row option" where
  "active_generation v = find (\<lambda>g. ig_status g = ''active'') (vt_generations v)"

definition current_resource :: "vault \<Rightarrow> resource_row option" where
  "current_resource v = (case vt_resources v of [] \<Rightarrow> None | r # rs \<Rightarrow> Some r)"

definition ready :: "resource_row option \<Rightarrow> bool" where
  "ready r \<longleftrightarrow> (case r of None \<Rightarrow> False | Some r \<Rightarrow> er_status r = ''ready'')"

text \<open>Searched chunks without a vector in the generation, by document and position.\<close>

definition missing_chunk_ids :: "vault \<Rightarrow> nat \<Rightarrow> nat list" where
  "missing_chunk_ids v g =
     map vc_id (sort_key vc_doc (sort_key vc_seq
       (filter (\<lambda>c. retrievable_kind c \<and> \<not> has_vector v g (vc_id c)) (vt_chunks v))))"

definition no_stats :: index_stats where
  "no_stats = \<lparr>st_embedded = 0, st_failed = 0, st_total = 0, st_reason = None\<rparr>"

definition add_stats :: "index_stats \<Rightarrow> nat \<Rightarrow> nat \<Rightarrow> nat \<Rightarrow> index_stats" where
  "add_stats st ok failed all =
     st\<lparr>st_embedded := st_embedded st + int ok, st_failed := st_failed st + int failed,
        st_total := st_total st + int all\<rparr>"

text \<open>Inserting vectors: a chunk or generation that is gone and a second vector of a chunk violate constraints.\<close>

definition new_vectors :: "nat \<Rightarrow> (chunk_row \<times> rat list) list \<Rightarrow> vector_row list" where
  "new_vectors g pairs = map (\<lambda>(c, x). \<lparr>ce_chunk = vc_id c, ce_generation = g, ce_vector = x\<rparr>) pairs"

definition vectors_insertable :: "vault \<Rightarrow> nat \<Rightarrow> (chunk_row \<times> rat list) list \<Rightarrow> bool" where
  "vectors_insertable v g pairs \<longleftrightarrow>
     list_all (\<lambda>(c, x). vc_id c \<in> vc_id ` set (vt_chunks v) \<and> \<not> has_vector v g (vc_id c)) pairs
     \<and> distinct (map (vc_id \<circ> fst) pairs) \<and> (pairs = [] \<or> find_generation v g \<noteq> None)"

definition insert_vectors :: "nat \<Rightarrow> (chunk_row \<times> rat list) list \<Rightarrow> unit vault_op" where
  "insert_vectors g pairs =
     cbind (read_db (\<lambda>v. vectors_insertable v g pairs)) (\<lambda>ok.
       if ok then edit_db (\<lambda>v. v\<lparr>vt_vectors := vt_vectors v @ new_vectors g pairs\<rparr>)
       else cfail (VaultFailure ''constraint failed''))"

text \<open>
  One batch of at most 32 chunks: the rows that still exist are embedded; only unavailability is caught.
  The pairs inserted and the rows that failed.
\<close>

definition embed_batch :: "vault_env \<Rightarrow> nat \<Rightarrow> resource_row \<Rightarrow> nat list \<Rightarrow> (nat \<times> nat) vault_op" where
  "embed_batch E g r ids =
     cbind (read_db (\<lambda>v. filter (\<lambda>c. vc_id c \<in> set ids) (vt_chunks v))) (\<lambda>rows.
     cbind (catch_op (cbind (embed_texts E r (map vc_text rows)) (\<lambda>vs. cret (Some vs)))
              (\<lambda>e. case e of EmbeddingUnavailable m \<Rightarrow> cret None | _ \<Rightarrow> cfail e)) (\<lambda>answer.
       case answer of
         None \<Rightarrow> cret (0, length rows)
       | Some vs \<Rightarrow> cbind (insert_vectors g (zip rows vs)) (\<lambda>_. cret (length (zip rows vs), 0))))"

text \<open>All batches, with the statistics after each and a commit after every eighth.\<close>

function embed_from ::
    "vault_env \<Rightarrow> nat \<Rightarrow> resource_row \<Rightarrow> index_stats \<Rightarrow> nat \<Rightarrow> nat \<Rightarrow> nat \<Rightarrow> nat \<Rightarrow> nat list \<Rightarrow> (nat \<times> nat) vault_op" where
  "embed_from E g r st all index ok failed ids =
     (if ids = [] then cret (ok, failed)
      else
        cbind (embed_batch E g r (take 32 ids)) (\<lambda>(d, f).
        cbind (write_generation g (\<lambda>x. x\<lparr>ig_stats := add_stats st (ok + d) (failed + f) all\<rparr>)) (\<lambda>_.
        cbind (if Suc index mod 8 = 0 then commit_db (ve_others E) else cret ()) (\<lambda>_.
          embed_from E g r st all (Suc index) (ok + d) (failed + f) (drop 32 ids)))))"
  by pat_completeness auto
termination
  by (relation "measure (\<lambda>(E, g, r, st, all, index, ok, failed, ids). length ids)") auto

declare embed_from.simps [simp del]

definition embed_into_generation ::
    "vault_env \<Rightarrow> generation_row \<Rightarrow> resource_row \<Rightarrow> nat list \<Rightarrow> (nat \<times> nat) vault_op" where
  "embed_into_generation E g r ids = embed_from E (ig_id g) r (ig_stats g) (length ids) 0 0 0 ids"

text \<open>\<open>documents.semantic_state\<close> against a generation.\<close>

definition semantic_state :: "vault \<Rightarrow> nat \<Rightarrow> nat \<Rightarrow> string" where
  "semantic_state v g d =
     (let own = filter (\<lambda>c. vc_doc c = d \<and> retrievable_kind c) (vt_chunks v)
      in if own = [] then ''na''
         else if list_ex (\<lambda>c. \<not> has_vector v g (vc_id c)) own then ''pending'' else ''embedded'')"

definition refresh_semantic_states :: "nat \<Rightarrow> vault \<Rightarrow> vault" where
  "refresh_semantic_states g v =
     v\<lparr>vt_docs := map (\<lambda>d. d\<lparr>vd_semantic := semantic_state v g (vd_id d)\<rparr>) (vt_docs v)\<rparr>"

definition retire :: "generation_row \<Rightarrow> generation_row" where
  "retire g = (if ig_status g = ''active'' then g\<lparr>ig_status := ''superseded''\<rparr> else g)"

definition activate_row :: "nat \<Rightarrow> unit vault_op" where
  "activate_row g =
     cbind (edit_db (\<lambda>v. v\<lparr>vt_generations := map retire (vt_generations v)\<rparr>)) (\<lambda>_.
     cbind (write_generation g (\<lambda>x. x\<lparr>ig_status := ''active''\<rparr>)) (\<lambda>_.
       edit_db (refresh_semantic_states g)))"

definition last_revision :: "vault \<Rightarrow> int" where
  "last_revision v = (case vt_generations v of [] \<Rightarrow> 0 | _ \<Rightarrow> Max (set (map ig_revision (vt_generations v))))"

definition new_generation :: "vault_env \<Rightarrow> profile_row \<Rightarrow> vault \<Rightarrow> generation_row" where
  "new_generation E p v =
     (let r = current_resource v
      in \<lparr>ig_id = vt_next v, ig_revision = last_revision v + 1, ig_profile_revision = pf_revision p,
          ig_resource = map_option er_id r, ig_model = map_option er_model r,
          ig_dims = Option.bind r er_dims, ig_adapter = ve_adapter E, ig_status = ''building'',
          ig_stats = no_stats, ig_error = None\<rparr>)"

definition fill_new :: "vault_env \<Rightarrow> generation_row \<Rightarrow> resource_row option \<Rightarrow> nat list \<Rightarrow> unit vault_op" where
  "fill_new E g r ids =
     (case r of
        Some r \<Rightarrow>
          if er_status r = ''ready'' then cbind (embed_into_generation E g r ids) (\<lambda>_. cret ())
          else if ids = [] then cret ()
          else write_generation (ig_id g) (\<lambda>x. x\<lparr>ig_stats := \<lparr>st_embedded = 0, st_failed = int (length ids),
                 st_total = int (length ids), st_reason = Some ''embedding resource not ready''\<rparr>\<rparr>)
      | None \<Rightarrow>
          if ids = [] then cret ()
          else write_generation (ig_id g) (\<lambda>x. x\<lparr>ig_stats := \<lparr>st_embedded = 0, st_failed = int (length ids),
                 st_total = int (length ids), st_reason = Some ''embedding resource not ready''\<rparr>\<rparr>))"

definition error_text :: "vault_error \<Rightarrow> string" where
  "error_text e = (case e of
     EmbeddingUnavailable m \<Rightarrow> m | RebuildInProgress \<Rightarrow> ''an index rebuild is already running''
   | VaultValue m \<Rightarrow> m | VaultFailure m \<Rightarrow> m | VaultHttp c m \<Rightarrow> m)"

text \<open>Building: a committed row, the sweep, the activation; a failure is recorded on the row.\<close>

definition build :: "vault_env \<Rightarrow> nat \<Rightarrow> generation_row \<Rightarrow> resource_row option \<Rightarrow> nat vault_op" where
  "build E i g r =
     catch_op
       (cbind (read_db (\<lambda>v. missing_chunk_ids v i)) (\<lambda>ids.
        cbind (fill_new E g r ids) (\<lambda>_.
        cbind (activate_row i) (\<lambda>_.
        cbind (commit_db (ve_others E)) (\<lambda>_. cret i)))))
       (\<lambda>e.
        cbind rollback_db (\<lambda>_.
        cbind (write_generation i (\<lambda>x. x\<lparr>ig_status := ''failed'', ig_error := Some (take 500 (error_text e))\<rparr>)) (\<lambda>_.
        cbind (commit_db (ve_others E)) (\<lambda>_. cfail e))))"

definition rebuild_index :: "vault_env \<Rightarrow> bool \<Rightarrow> nat vault_op" where
  "rebuild_index E locked =
     (if locked then cfail RebuildInProgress
      else
        cbind (read_db (\<lambda>v. list_ex (\<lambda>g. ig_status g = ''building'') (vt_generations v))) (\<lambda>building.
        if building then cfail RebuildInProgress
        else
          cbind get_active_profile (\<lambda>p.
          cbind (read_db id) (\<lambda>v.
          let g = new_generation E p v in
          cbind (edit_db (\<lambda>v. v\<lparr>vt_generations := vt_generations v @ [g], vt_next := Suc (vt_next v)\<rparr>)) (\<lambda>_.
          cbind (commit_db (ve_others E)) (\<lambda>_. build E (ig_id g) g (current_resource v)))))))"

definition activate_generation :: "vault_env \<Rightarrow> nat \<Rightarrow> nat vault_op" where
  "activate_generation E i =
     cbind (read_db (\<lambda>v. find_generation v i)) (\<lambda>found.
       case found of
         None \<Rightarrow> cfail (VaultValue ''generation not found'')
       | Some g \<Rightarrow>
           if ig_status g = ''active'' then cret i
           else if ig_status g = ''building'' then cfail RebuildInProgress
           else
             cbind (read_db (\<lambda>v. (missing_chunk_ids v i, find_resource v (ig_resource g)))) (\<lambda>(missing, r).
             cbind (case r of
                      Some r \<Rightarrow> if missing \<noteq> [] \<and> er_status r = ''ready''
                                then cbind (embed_into_generation E g r missing) (\<lambda>_. cret ()) else cret ()
                    | None \<Rightarrow> cret ()) (\<lambda>_.
             cbind (activate_row i) (\<lambda>_. cret i))))"

record repair_report =
  rr_fixed :: nat
  rr_pending :: nat
  rr_reasons :: "string list"

definition repair_index :: "vault_env \<Rightarrow> repair_report vault_op" where
  "repair_index E =
     cbind (read_db active_generation) (\<lambda>active.
       case active of
         None \<Rightarrow> cret \<lparr>rr_fixed = 0, rr_pending = 0, rr_reasons = [''no active generation'']\<rparr>
       | Some g \<Rightarrow>
           cbind (read_db (\<lambda>v. (find_resource v (ig_resource g), missing_chunk_ids v (ig_id g)))) (\<lambda>(r, missing).
           if missing = [] then cret \<lparr>rr_fixed = 0, rr_pending = 0, rr_reasons = []\<rparr>
           else
             case r of
               None \<Rightarrow>
                 cbind (edit_db (refresh_semantic_states (ig_id g))) (\<lambda>_.
                   cret \<lparr>rr_fixed = 0, rr_pending = length missing, rr_reasons = [''embedding resource not ready'']\<rparr>)
             | Some r \<Rightarrow>
                 if er_status r \<noteq> ''ready'' then
                   cbind (edit_db (refresh_semantic_states (ig_id g))) (\<lambda>_.
                     cret \<lparr>rr_fixed = 0, rr_pending = length missing, rr_reasons = [''embedding resource not ready'']\<rparr>)
                 else
                   cbind (embed_into_generation E g r missing) (\<lambda>(fixed, failed).
                   cbind (edit_db (refresh_semantic_states (ig_id g))) (\<lambda>_.
                   cbind (read_db (\<lambda>v. missing_chunk_ids v (ig_id g))) (\<lambda>remaining.
                     cret \<lparr>rr_fixed = fixed, rr_pending = length remaining,
                       rr_reasons = (if remaining = [] then [] else [''embedding calls failed''])\<rparr>)))))"

definition reconcile_stale_builds :: "nat vault_op" where
  "reconcile_stale_builds =
     cbind (read_db (\<lambda>v. length (filter (\<lambda>g. ig_status g = ''building'') (vt_generations v)))) (\<lambda>n.
     cbind (edit_db (\<lambda>v. v\<lparr>vt_generations := map (\<lambda>g. if ig_status g = ''building''
         then g\<lparr>ig_status := ''failed'', ig_error := Some ''Gateway restarted during build''\<rparr> else g) (vt_generations v)\<rparr>))
       (\<lambda>_. cret n))"

definition delete_generation :: "nat \<Rightarrow> bool vault_op" where
  "delete_generation i =
     cbind (read_db (\<lambda>v. find_generation v i)) (\<lambda>g.
       if (case g of None \<Rightarrow> True | Some g \<Rightarrow> ig_status g = ''active'') then cret False
       else
         cbind (edit_db (\<lambda>v. v\<lparr>vt_vectors := filter (\<lambda>x. ce_generation x \<noteq> i) (vt_vectors v),
             vt_generations := filter (\<lambda>x. ig_id x \<noteq> i) (vt_generations v)\<rparr>)) (\<lambda>_. cret True))"


section \<open>Ingestion\<close>

definition embed_chunks_at_ingest :: "vault_env \<Rightarrow> chunk_row list \<Rightarrow> string vault_op" where
  "embed_chunks_at_ingest E chunks =
     (if chunks = [] then cret ''na''
      else
        cbind (read_db active_generation) (\<lambda>active.
        case active of
          None \<Rightarrow> cret ''na''
        | Some g \<Rightarrow>
            cbind get_active_profile (\<lambda>p.
            if vf_fusion (pf_config p) \<noteq> ''hybrid'' then cret ''pending''
            else
              cbind (read_db (\<lambda>v. find_resource v (ig_resource g))) (\<lambda>r.
              case r of
                None \<Rightarrow> cret ''pending''
              | Some r \<Rightarrow>
                  if er_status r \<noteq> ''ready'' then cret ''pending''
                  else
                    cbind (embed_into_generation E g r (map vc_id chunks)) (\<lambda>(fixed, failed).
                      cret (if failed \<noteq> 0 then ''pending'' else ''embedded''))))))"

definition chunking_of :: "vault \<Rightarrow> chunking_config" where
  "chunking_of v = (case active_profile v of None \<Rightarrow> default_chunking | Some p \<Rightarrow> vf_chunking (pf_config p))"

text \<open>The tree with its positions: a parent, then its children; other nodes stand alone.\<close>

fun lay_out :: "nat \<Rightarrow> chunk_node list \<Rightarrow> (nat \<times> chunk_node \<times> (nat \<times> chunk_node) list) list" where
  "lay_out s [] = []"
| "lay_out s (n # ns) =
     (let kids = (if cn_kind n = ''parent'' then cn_children n else [])
      in (s, n, enumerate (Suc s) kids) # lay_out (Suc s + length kids) ns)"

definition chunk_row_of :: "nat \<Rightarrow> nat \<Rightarrow> nat option \<Rightarrow> nat \<Rightarrow> chunk_node \<Rightarrow> chunk_row" where
  "chunk_row_of i d par s n = \<lparr>vc_id = i, vc_doc = d, vc_kind = cn_kind n, vc_parent = par, vc_seq = s,
     vc_text = cn_text n, vc_heading = cn_heading n, vc_page = bm_page (cn_meta n),
     vc_location = bm_location (cn_meta n), vc_type = bm_type (cn_meta n), vc_tokens = cn_tokens n\<rparr>"

text \<open>Rows of the first flush get the next identifiers, their children the ones after; each with its node.\<close>

definition tree_rows :: "nat \<Rightarrow> nat \<Rightarrow> (nat \<times> chunk_node \<times> (nat \<times> chunk_node) list) list \<Rightarrow> (chunk_row \<times> chunk_node) list" where
  "tree_rows base d tree = map (\<lambda>(i, s, n, kids). (chunk_row_of i d None s n, n)) (enumerate base tree)"

definition kid_slots :: "nat \<Rightarrow> (nat \<times> chunk_node \<times> (nat \<times> chunk_node) list) list \<Rightarrow> (nat \<times> nat \<times> chunk_node) list" where
  "kid_slots base tree =
     concat (map (\<lambda>(i, s, n, kids). map (\<lambda>(t, k). (i, t, k)) kids) (enumerate base tree))"

definition kid_rows :: "nat \<Rightarrow> nat \<Rightarrow> (nat \<times> chunk_node \<times> (nat \<times> chunk_node) list) list \<Rightarrow> (chunk_row \<times> chunk_node) list" where
  "kid_rows base d tree =
     map (\<lambda>(i, p, t, k). (chunk_row_of i d (Some p) t k, k))
       (enumerate (base + length tree) (kid_slots base tree))"

text \<open>The searched rows in tree order: the children of a row, and the row itself unless it is a parent.\<close>

definition searched_rows :: "(chunk_row \<times> chunk_node) list \<Rightarrow> (chunk_row \<times> chunk_node) list \<Rightarrow> (chunk_row \<times> chunk_node) list" where
  "searched_rows rows kids =
     concat (map (\<lambda>(r, n). filter (\<lambda>(k, m). vc_parent k = Some (vc_id r)) kids
        @ (if vc_kind r \<noteq> ''parent'' then [(r, n)] else [])) rows)"

definition fts_row_of :: "document_row \<Rightarrow> string option \<Rightarrow> chunk_row \<times> chunk_node \<Rightarrow> fts_row" where
  "fts_row_of doc agent rn = (case rn of (r, n) \<Rightarrow>
     \<lparr>ft_text = vc_text r, ft_chunk = vc_id r, ft_doc = vd_id doc, ft_agent = agent, ft_source = vd_source doc,
      ft_storage = vd_storage doc, ft_heading = vc_heading r, ft_page = vc_page r,
      ft_sheet = bm_sheet (cn_meta n), ft_location = vc_location r\<rparr>)"

definition write_chunk_nodes :: "chunk_node list \<Rightarrow> document_row \<Rightarrow> string option \<Rightarrow> chunk_row list vault_op" where
  "write_chunk_nodes nodes doc agent =
     cbind (read_db vt_next) (\<lambda>base.
       let tree = lay_out 0 nodes; rows = tree_rows base (vd_id doc) tree; kids = kid_rows base (vd_id doc) tree;
           found = searched_rows rows kids
       in cbind (read_db (\<lambda>v. rows \<noteq> [] \<and> find_document v (vd_id doc) = None)) (\<lambda>orphan.
          if orphan then cfail (VaultFailure ''constraint failed'')
          else cbind (edit_db (\<lambda>v. v\<lparr>vt_chunks := vt_chunks v @ map fst rows @ map fst kids,
            vt_fts := vt_fts v @ map (fts_row_of doc agent) found,
            vt_next := base + length rows + length kids\<rparr>)) (\<lambda>_. cret (map fst found))))"

definition delete_chunks_of :: "nat \<Rightarrow> vault \<Rightarrow> vault" where
  "delete_chunks_of d v = drop_chunks (\<lambda>c. vc_doc c = d) (v\<lparr>vt_fts := filter (\<lambda>r. ft_doc r \<noteq> d) (vt_fts v)\<rparr>)"

definition documents_at :: "vault \<Rightarrow> string option \<Rightarrow> string \<Rightarrow> document_row list" where
  "documents_at v agent source = filter (\<lambda>d. vd_agent d = agent \<and> vd_source d = source) (vt_docs v)"

definition new_document :: "nat \<Rightarrow> string option \<Rightarrow> string \<Rightarrow> string \<Rightarrow> source_file \<Rightarrow> document_row" where
  "new_document i agent source storage f =
     \<lparr>vd_id = i, vd_agent = agent, vd_source = source, vd_storage = storage, vd_name = sf_name f,
      vd_hash = sf_hash f, vd_size = sf_size f, vd_status = ''pending'', vd_semantic = ''na'', vd_error = None\<rparr>"

definition indexed_document :: "string \<Rightarrow> source_file \<Rightarrow> document_row \<Rightarrow> document_row" where
  "indexed_document storage f d = d\<lparr>vd_name := sf_name f, vd_storage := storage, vd_hash := sf_hash f,
     vd_size := sf_size f, vd_status := ''indexed'', vd_error := None\<rparr>"

text \<open>From the extraction on: the corpus is written and committed, then the new chunks are embedded.\<close>

definition index_document ::
    "vault_env \<Rightarrow> document_row \<Rightarrow> string \<Rightarrow> source_file \<Rightarrow> string option \<Rightarrow> nat vault_op" where
  "index_document E doc storage f agent =
     cbind (wait (ve_others E)) (\<lambda>_.
     cbind (clift (sf_extract f)) (\<lambda>extracted.
     cbind (edit_db (delete_chunks_of (vd_id doc))) (\<lambda>_.
     cbind (write_document (vd_id doc) (indexed_document storage f)) (\<lambda>_.
     cbind (read_db chunking_of) (\<lambda>config.
     case chunk_blocks (ed_blocks extracted) config of
       None \<Rightarrow> cfail (VaultFailure ''chunking does not return'')
     | Some nodes \<Rightarrow>
         cbind (write_chunk_nodes nodes (indexed_document storage f doc) agent) (\<lambda>chunks.
         cbind (read_db active_generation) (\<lambda>active.
         cbind (write_document (vd_id doc) (\<lambda>d. d\<lparr>vd_semantic := (if active = None then ''na'' else ''pending'')\<rparr>)) (\<lambda>_.
         cbind (commit_db (ve_others E)) (\<lambda>_.
         cbind (embed_chunks_at_ingest E chunks) (\<lambda>state.
         cbind (write_document (vd_id doc) (\<lambda>d. d\<lparr>vd_semantic := state\<rparr>)) (\<lambda>_.
           cret (vd_id doc))))))))))))"

definition ingest_document ::
    "vault_env \<Rightarrow> string \<Rightarrow> string \<Rightarrow> string option \<Rightarrow> string option \<Rightarrow> nat vault_op" where
  "ingest_document E base path source agent =
     (case ve_within E base path of
        None \<Rightarrow> cfail (VaultValue ''Path escapes allowed root'')
      | Some storage \<Rightarrow>
          (case ve_file E base storage of
             None \<Rightarrow> cfail (VaultValue (''Document does not exist: '' @ path))
           | Some f \<Rightarrow>
               let logical = (case source of None \<Rightarrow> sf_name f | Some p \<Rightarrow> if p = [] then sf_name f else p) in
               cbind (read_db id) (\<lambda>v.
               case documents_at v agent logical of
                 [] \<Rightarrow>
                   let d = new_document (vt_next v) agent logical storage f in
                   cbind (edit_db (\<lambda>v. v\<lparr>vt_docs := vt_docs v @ [d], vt_next := Suc (vt_next v)\<rparr>)) (\<lambda>_.
                     index_document E d storage f agent)
               | [d] \<Rightarrow>
                   if vd_hash d = sf_hash f \<and> vd_status d = ''indexed'' then cret (vd_id d)
                   else index_document E d storage f agent
               | _ \<Rightarrow> cfail (VaultFailure ''Multiple rows were found when one or none was required''))))"

definition list_documents :: "vault \<Rightarrow> string option \<Rightarrow> document_row list" where
  "list_documents v agent = filter (\<lambda>d. vd_agent d = agent) (vt_docs v)"

definition delete_document :: "nat \<Rightarrow> bool vault_op" where
  "delete_document d =
     cbind (read_db (\<lambda>v. find_document v d)) (\<lambda>found.
       if found = None then cret False
       else cbind (edit_db (\<lambda>v. (delete_chunks_of d v)\<lparr>vt_docs := filter (\<lambda>x. vd_id x \<noteq> d) (vt_docs v)\<rparr>))
              (\<lambda>_. cret True))"


section \<open>Endpoints\<close>

definition answer_value_errors :: "'a vault_op \<Rightarrow> 'a vault_op" where
  "answer_value_errors m =
     catch_op m (\<lambda>e. cbind rollback_db (\<lambda>_.
       case e of VaultValue x \<Rightarrow> cfail (VaultHttp 400 ''Document could not be indexed'') | _ \<Rightarrow> cfail e))"

definition upload_scope :: "vault_env \<Rightarrow> string \<Rightarrow> string \<Rightarrow> string \<Rightarrow> string option \<Rightarrow> nat vault_op" where
  "upload_scope E base storage filename agent =
     request_op (answer_value_errors
       (cbind (ingest_document E base storage (Some filename) agent) (\<lambda>d.
        cbind (read_db (\<lambda>v. find_document v d)) (\<lambda>row.
        cbind (if map_option vd_storage row = Some storage
               then write_document d (\<lambda>x. x\<lparr>vd_name := filename\<rparr>) else cret ()) (\<lambda>_.
        cbind (commit_db (ve_others E)) (\<lambda>_. cret d))))))"

definition reindex_scope_document :: "vault_env \<Rightarrow> string \<Rightarrow> string option \<Rightarrow> nat \<Rightarrow> nat vault_op" where
  "reindex_scope_document E base agent d =
     request_op
       (cbind (read_db (\<lambda>v. find_document v d)) (\<lambda>found.
        case found of
          None \<Rightarrow> cfail (VaultHttp 404 ''Document not found'')
        | Some doc \<Rightarrow>
            if vd_agent doc \<noteq> agent then cfail (VaultHttp 404 ''Document not found'')
            else
              (case ve_within E base (vd_storage doc) of
                 None \<Rightarrow> cfail (VaultHttp 400 ''Document storage path is invalid'')
               | Some path \<Rightarrow>
                   if ve_file E base path = None then cfail (VaultHttp 404 ''Document file is missing'')
                   else answer_value_errors
                     (cbind (ingest_document E base path (Some (vd_source doc)) agent) (\<lambda>d.
                      cbind (commit_db (ve_others E)) (\<lambda>_. cret d))))))"

definition remove_scope :: "vault_env \<Rightarrow> string option \<Rightarrow> nat \<Rightarrow> unit vault_op" where
  "remove_scope E agent d =
     request_op
       (cbind (read_db (\<lambda>v. find_document v d)) (\<lambda>found.
        if (case found of None \<Rightarrow> True | Some doc \<Rightarrow> vd_agent doc \<noteq> agent)
        then cfail (VaultHttp 404 ''Document not found'')
        else cbind (delete_document d) (\<lambda>_. commit_db (ve_others E))))"

definition rebuild :: "vault_env \<Rightarrow> bool \<Rightarrow> nat vault_op" where
  "rebuild E locked =
     request_op (catch_op (cbind (rebuild_index E locked) (\<lambda>g. cbind (commit_db (ve_others E)) (\<lambda>_. cret g)))
       (\<lambda>e. if e = RebuildInProgress then cfail (VaultHttp 409 ''An index rebuild is already running'') else cfail e))"

definition repair :: "vault_env \<Rightarrow> repair_report vault_op" where
  "repair E = request_op (cbind (repair_index E) (\<lambda>r. cbind (commit_db (ve_others E)) (\<lambda>_. cret r)))"

definition activate :: "vault_env \<Rightarrow> nat \<Rightarrow> nat vault_op" where
  "activate E i =
     request_op (catch_op (cbind (activate_generation E i) (\<lambda>g. cbind (commit_db (ve_others E)) (\<lambda>_. cret g)))
       (\<lambda>e. case e of
          RebuildInProgress \<Rightarrow> cfail (VaultHttp 409 ''An index rebuild is still running'')
        | VaultValue m \<Rightarrow> cfail (VaultHttp 404 ''Generation not found'')
        | _ \<Rightarrow> cfail e))"

definition remove_generation :: "vault_env \<Rightarrow> nat \<Rightarrow> unit vault_op" where
  "remove_generation E i =
     request_op (cbind (delete_generation i) (\<lambda>ok.
       if ok then commit_db (ve_others E) else cfail (VaultHttp 404 ''Generation not found or still active'')))"

definition startup_reconcile :: "vault_env \<Rightarrow> nat vault_op" where
  "startup_reconcile E = request_op (cbind reconcile_stale_builds (\<lambda>n. cbind (commit_db (ve_others E)) (\<lambda>_. cret n)))"

text \<open>The bounds of the request model, and the check of the overlap.\<close>

definition config_in_bounds :: "vault_config \<Rightarrow> bool" where
  "config_in_bounds c \<longleftrightarrow> vf_fusion c \<in> {''lexical'', ''hybrid''}
     \<and> 50 \<le> cf_parent_tokens (vf_chunking c) \<and> cf_parent_tokens (vf_chunking c) \<le> 4000
     \<and> 20 \<le> cf_child_tokens (vf_chunking c) \<and> cf_child_tokens (vf_chunking c) \<le> 1000
     \<and> 0 \<le> cf_child_overlap (vf_chunking c)
     \<and> 1 \<le> cf_table_row_limit (vf_chunking c) \<and> cf_table_row_limit (vf_chunking c) \<le> 10000
     \<and> 1 \<le> vf_rrf_k c \<and> vf_rrf_k c \<le> 1000 \<and> 0 \<le> vf_max_parents c \<and> vf_max_parents c \<le> 20"

definition put_profile :: "vault_env \<Rightarrow> vault_config \<Rightarrow> nat vault_op" where
  "put_profile E c =
     request_op
       (if \<not> config_in_bounds c then cfail (VaultHttp 422 ''value out of range'')
        else
          cbind get_active_profile (\<lambda>p.
          cbind (ccheck (cf_child_overlap (vf_chunking c) < cf_child_tokens (vf_chunking c))
            (VaultHttp 400 ''child_overlap must be smaller than child_tokens'')) (\<lambda>_.
          cbind (edit_db (\<lambda>v. v\<lparr>vt_profiles := map (\<lambda>x. if pf_id x = pf_id p
              then x\<lparr>pf_config := c, pf_revision := pf_revision x + 1\<rparr> else x) (vt_profiles v)\<rparr>)) (\<lambda>_.
          cbind (commit_db (ve_others E)) (\<lambda>_. cret (pf_id p))))))"

definition configured :: "vault_env \<Rightarrow> provider_row \<Rightarrow> string \<Rightarrow> bool \<Rightarrow> resource_row \<Rightarrow> resource_row" where
  "configured E p model allowed r =
     r\<lparr>er_provider := pv_id p, er_model := model, er_status := ''unvalidated'', er_dims := None,
       er_error := None, er_egress := (allowed \<or> provider_is_local E p)\<rparr>"

text \<open>The first resource is changed in place; there is one.\<close>

definition put_embedding_resource :: "vault_env \<Rightarrow> string \<Rightarrow> string \<Rightarrow> bool \<Rightarrow> nat vault_op" where
  "put_embedding_resource E provider model allowed =
     request_op
       (cbind (read_db id) (\<lambda>v.
        case find (\<lambda>p. pv_id p = provider) (vt_providers v) of
          None \<Rightarrow> cfail (VaultHttp 404 ''Provider not found'')
        | Some p \<Rightarrow>
            let blank = \<lparr>er_id = vt_next v, er_provider = provider, er_model = [], er_dims = None,
                  er_status = ''unvalidated'', er_error = None, er_egress = False\<rparr>;
                i = (case current_resource v of None \<Rightarrow> vt_next v | Some r \<Rightarrow> er_id r)
            in cbind (edit_db (\<lambda>v. if vt_resources v = []
                 then v\<lparr>vt_resources := [blank], vt_next := Suc (vt_next v)\<rparr> else v)) (\<lambda>_.
               cbind (edit_db (\<lambda>v. v\<lparr>vt_resources := map (\<lambda>r. if er_id r = i
                   then configured E p model allowed r else r) (vt_resources v)\<rparr>)) (\<lambda>_.
               cbind (commit_db (ve_others E)) (\<lambda>_. cret i)))))"

definition validate_embedding_resource :: "vault_env \<Rightarrow> string vault_op" where
  "validate_embedding_resource E =
     request_op
       (cbind (read_db id) (\<lambda>v.
        case current_resource v of
          None \<Rightarrow> cfail (VaultHttp 404 ''No embedding resource configured'')
        | Some r \<Rightarrow>
            (case find (\<lambda>p. pv_id p = er_provider r) (vt_providers v) of
               None \<Rightarrow> cfail (VaultHttp 404 ''Provider not found'')
             | Some p \<Rightarrow>
                 if \<not> provider_is_local E p \<and> \<not> er_egress r
                 then cfail (VaultHttp 403 ''Remote embedding requires egress_allowed'')
                 else
                   cbind (catch_op (cbind (probe_dimensions E r) (\<lambda>d. cret (\<lambda>x. x\<lparr>er_dims := Some d,
                            er_status := ''ready'', er_error := None\<rparr>)))
                          (\<lambda>e. case e of EmbeddingUnavailable m \<Rightarrow> cret (\<lambda>x. x\<lparr>er_status := ''error'', er_error := Some m\<rparr>)
                                 | _ \<Rightarrow> cfail e)) (\<lambda>f.
                   cbind (edit_db (\<lambda>v. v\<lparr>vt_resources := map (\<lambda>x. if er_id x = er_id r then f x else x) (vt_resources v)\<rparr>)) (\<lambda>_.
                   cbind (commit_db (ve_others E)) (\<lambda>_. cret (er_status (f r))))))))"

end
