(* ===== verification/Vault_Safety.thy ===== *)
theory Vault_Safety
  imports Vault Chunker_Safety
begin

text \<open>
  The Knowledge Vault keeps its invariant through every request, whatever other sessions commit meanwhile;
  an upload makes every word of a document searchable under its owner; a rebuild takes over completely or
  leaves nothing but its failed row.  Embedding is shown once to keep any relation its elementary steps
  keep (locale \<open>index_frame\<close>, over \<open>session_frame\<close>), which is interpreted for the invariant, the full-text rows and the index.
\<close>

section \<open>The invariant of the tables\<close>

definition ids_ok :: "vault \<Rightarrow> bool" where
  "ids_ok v \<longleftrightarrow> distinct (map vd_id (vt_docs v)) \<and> distinct (map vc_id (vt_chunks v))
     \<and> distinct (map ig_id (vt_generations v))
     \<and> (\<forall>d \<in> set (vt_docs v). vd_id d < vt_next v) \<and> (\<forall>c \<in> set (vt_chunks v). vc_id c < vt_next v)
     \<and> (\<forall>g \<in> set (vt_generations v). ig_id g < vt_next v)"

definition one_active :: "vault \<Rightarrow> bool" where
  "one_active v \<longleftrightarrow> length (filter (\<lambda>g. ig_status g = ''active'') (vt_generations v)) \<le> 1"

text \<open>Every chunk has its document, and its parent in the same document.\<close>

definition chunks_ok :: "vault \<Rightarrow> bool" where
  "chunks_ok v \<longleftrightarrow> (\<forall>c \<in> set (vt_chunks v). (\<exists>d \<in> set (vt_docs v). vd_id d = vc_doc c)
     \<and> (\<forall>p. vc_parent c = Some p \<longrightarrow> (\<exists>q \<in> set (vt_chunks v). vc_id q = p \<and> vc_doc q = vc_doc c)))"

text \<open>Full-text rows are those of the searched chunks, with the scope of their document.\<close>

definition fts_ok :: "vault \<Rightarrow> bool" where
  "fts_ok v \<longleftrightarrow>
     (\<forall>r \<in> set (vt_fts v). \<exists>c \<in> set (vt_chunks v). vc_id c = ft_chunk r \<and> vc_doc c = ft_doc r
        \<and> vc_text c = ft_text r \<and> retrievable_kind c)
     \<and> (\<forall>c \<in> set (vt_chunks v). retrievable_kind c \<longrightarrow> (\<exists>r \<in> set (vt_fts v). ft_chunk r = vc_id c))
     \<and> (\<forall>r \<in> set (vt_fts v). \<forall>d \<in> set (vt_docs v). vd_id d = ft_doc r \<longrightarrow> vd_agent d = ft_agent r)"

definition vectors_ok :: "vault \<Rightarrow> bool" where
  "vectors_ok v \<longleftrightarrow> (\<forall>x \<in> set (vt_vectors v). \<exists>c \<in> set (vt_chunks v). vc_id c = ce_chunk x)"

text \<open>Every stored profile could be chunked with.\<close>

definition profiles_ok :: "vault \<Rightarrow> bool" where
  "profiles_ok v \<longleftrightarrow> (\<forall>p \<in> set (vt_profiles v). accepted_profile (vf_chunking (pf_config p)))"

definition vault_ok :: "vault \<Rightarrow> bool" where
  "vault_ok v \<longleftrightarrow> profiles_ok v \<and> ids_ok v \<and> one_active v \<and> chunks_ok v \<and> fts_ok v \<and> vectors_ok v"

text \<open>Identifiers are not reused, documents keep their scope and chunks their document.\<close>

definition vault_grows :: "vault \<Rightarrow> vault \<Rightarrow> bool" where
  "vault_grows u v \<longleftrightarrow> vt_next u \<le> vt_next v
     \<and> (\<forall>d' \<in> set (vt_docs v). vd_id d' < vt_next u \<longrightarrow>
          (\<exists>d \<in> set (vt_docs u). vd_id d = vd_id d' \<and> vd_agent d = vd_agent d'))
     \<and> (\<forall>c' \<in> set (vt_chunks v). vc_id c' < vt_next u \<longrightarrow>
          (\<exists>c \<in> set (vt_chunks u). vc_id c = vc_id c' \<and> vc_doc c = vc_doc c'))"

definition fine_step :: "(vault \<Rightarrow> vault) \<Rightarrow> bool" where
  "fine_step f \<longleftrightarrow> (\<forall>v. vault_ok v \<longrightarrow> vault_ok (f v) \<and> vault_grows v (f v))"

lemma vault_grows_refl [simp]: "vault_grows v v"
  by (auto simp: vault_grows_def)

lemma vault_grows_trans: "\<lbrakk>vault_grows u v; vault_grows v w\<rbrakk> \<Longrightarrow> vault_grows u w"
  unfolding vault_grows_def by (intro conjI ballI impI) (linarith, metis order_less_le_trans, metis order_less_le_trans)

lemmas vault_ok_defs = vault_ok_def profiles_ok_def ids_ok_def one_active_def chunks_ok_def fts_ok_def vectors_ok_def

text \<open>Changes outside the corpus and the generations.\<close>

lemma fine_same_corpus:
  assumes "\<And>v. vt_docs (f v) = vt_docs v" "\<And>v. vt_chunks (f v) = vt_chunks v" "\<And>v. vt_fts (f v) = vt_fts v"
    "\<And>v. vt_vectors (f v) = vt_vectors v"
    "\<And>v p. vault_ok v \<Longrightarrow> p \<in> set (vt_profiles (f v)) \<Longrightarrow> accepted_profile (vf_chunking (pf_config p))"
    "\<And>v. vt_generations (f v) = vt_generations v" "\<And>v. vt_next v \<le> vt_next (f v)"
  shows "fine_step f"
  using assms unfolding fine_step_def vault_grows_def
proof (intro allI impI conjI)
  fix v assume v: "vault_ok v"
  have "profiles_ok (f v)" using assms(5)[OF v] by (simp add: profiles_ok_def)
  then show "vault_ok (f v)"
    using v assms by (auto simp: vault_ok_def ids_ok_def one_active_def chunks_ok_def fts_ok_def vectors_ok_def
        intro: order_less_le_trans)
qed (use assms in auto)

text \<open>Documents mapped row by row, keeping identifier and scope.\<close>

lemma fine_map_docs:
  assumes "\<And>d. vd_id (h d) = vd_id d" "\<And>d. vd_agent (h d) = vd_agent d"
  shows "fine_step (\<lambda>v. v\<lparr>vt_docs := map h (vt_docs v)\<rparr>)"
proof -
  have m: "map vd_id (map h ds) = map vd_id ds" for ds using assms(1) by simp
  show ?thesis
    unfolding fine_step_def vault_ok_defs vault_grows_def using assms by (auto simp: m simp del: map_map)
qed

lemma fine_refresh: "fine_step (refresh_semantic_states g)"
  unfolding refresh_semantic_states_def fine_step_def
proof (intro allI impI)
  fix v assume v: "vault_ok v"
  show "vault_ok (v\<lparr>vt_docs := map (\<lambda>d. d\<lparr>vd_semantic := semantic_state v g (vd_id d)\<rparr>) (vt_docs v)\<rparr>)
    \<and> vault_grows v (v\<lparr>vt_docs := map (\<lambda>d. d\<lparr>vd_semantic := semantic_state v g (vd_id d)\<rparr>) (vt_docs v)\<rparr>)"
    using fine_map_docs[of "\<lambda>d. d\<lparr>vd_semantic := semantic_state v g (vd_id d)\<rparr>"] v
    by (simp add: fine_step_def)
qed

lemma fine_set_document:
  assumes "\<And>d. vd_id (h d) = vd_id d" "\<And>d. vd_agent (h d) = vd_agent d"
  shows "fine_step (set_document i h)"
  unfolding set_document_def by (rule fine_map_docs) (use assms in auto)

text \<open>Generations.\<close>

lemma fine_generations:
  assumes "\<And>v. vault_ok v \<Longrightarrow> distinct (map ig_id (h v))"
    "\<And>v. vault_ok v \<Longrightarrow> \<forall>g \<in> set (h v). ig_id g < vt_next v"
    "\<And>v. vault_ok v \<Longrightarrow> length (filter (\<lambda>g. ig_status g = ''active'') (h v)) \<le> 1"
  shows "fine_step (\<lambda>v. v\<lparr>vt_generations := h v\<rparr>)"
  unfolding fine_step_def
proof (intro allI impI conjI)
  fix v assume v: "vault_ok v"
  show "vault_ok (v\<lparr>vt_generations := h v\<rparr>)" using assms[OF v] v by (simp add: vault_ok_defs)
qed (simp add: vault_grows_def, blast)

lemma active_map_le:
  assumes "\<And>g. g \<in> set gs \<Longrightarrow> ig_status (h g) = ''active'' \<Longrightarrow> ig_status g = ''active''"
  shows "length (filter (\<lambda>g. ig_status g = ''active'') (map h gs)) \<le> length (filter (\<lambda>g. ig_status g = ''active'') gs)"
  using assms
proof (induction gs)
  case (Cons g gs)
  then have "length (filter (\<lambda>g. ig_status g = ''active'') (map h gs)) \<le> length (filter (\<lambda>g. ig_status g = ''active'') gs)"
    by simp
  with Cons.prems[of g] show ?case by simp
qed simp

lemma fine_map_generations:
  assumes "\<And>g. ig_id (h g) = ig_id g" "\<And>g. ig_status (h g) = ''active'' \<Longrightarrow> ig_status g = ''active''"
  shows "fine_step (\<lambda>v. v\<lparr>vt_generations := map h (vt_generations v)\<rparr>)"
proof (rule fine_generations)
  fix v assume v: "vault_ok v"
  have m: "map ig_id (map h gs) = map ig_id gs" for gs using assms(1) by simp
  show "distinct (map ig_id (map h (vt_generations v)))" using v unfolding m by (simp add: vault_ok_defs)
  show "\<forall>g \<in> set (map h (vt_generations v)). ig_id g < vt_next v" using v assms(1) by (auto simp: vault_ok_defs)
  show "length (filter (\<lambda>g. ig_status g = ''active'') (map h (vt_generations v))) \<le> 1"
    using active_map_le[of "vt_generations v" h] assms(2) v by (simp add: vault_ok_defs)
qed

lemma fine_set_generation:
  assumes "\<And>g. ig_id (h g) = ig_id g" "\<And>g. ig_status (h g) = ''active'' \<Longrightarrow> ig_status g = ''active''"
  shows "fine_step (set_generation i h)"
  unfolding set_generation_def by (rule fine_map_generations) (use assms in \<open>auto split: if_splits\<close>)

definition promote :: "nat \<Rightarrow> generation_row \<Rightarrow> generation_row" where
  "promote i g = (if ig_id g = i then (retire g)\<lparr>ig_status := ''active''\<rparr> else retire g)"

lemma promote_simps [simp]:
  "ig_id (promote i g) = ig_id g" "ig_status (promote i g) = ''active'' \<longleftrightarrow> ig_id g = i"
  by (auto simp: promote_def retire_def)

lemma one_named_active:
  assumes "distinct (map ig_id gs)"
  shows "length (filter (\<lambda>g. ig_status g = ''active'') (map (promote i) gs)) \<le> 1"
proof -
  have "filter (\<lambda>g. ig_status g = ''active'') (map (promote i) gs) = map (promote i) (filter (\<lambda>g. ig_id g = i) gs)"
    by (induction gs) auto
  moreover have "length (filter (\<lambda>g. ig_id g = i) gs) \<le> 1"
    using assms by (induction gs) (auto simp: filter_empty_conv image_iff)
  ultimately show ?thesis by simp
qed

lemma activate_alt:
  "set_generation i (\<lambda>x. x\<lparr>ig_status := ''active''\<rparr>) (v\<lparr>vt_generations := map retire (vt_generations v)\<rparr>)
     = v\<lparr>vt_generations := map (promote i) (vt_generations v)\<rparr>"
  by (simp add: set_generation_def promote_def retire_def comp_def)

lemma fine_activate: "fine_step (\<lambda>v. v\<lparr>vt_generations := map (promote i) (vt_generations v)\<rparr>)"
proof (rule fine_generations)
  fix v assume v: "vault_ok v"
  have m: "map ig_id (map (promote i) gs) = map ig_id gs" for gs by simp
  show "distinct (map ig_id (map (promote i) (vt_generations v)))"
    using v unfolding m by (simp add: vault_ok_defs)
  show "\<forall>g \<in> set (map (promote i) (vt_generations v)). ig_id g < vt_next v"
    using v by (auto simp: vault_ok_defs)
qed (rule one_named_active, simp add: vault_ok_defs)

lemma fine_add_generation:
  assumes "ig_status g \<noteq> ''active''"
  shows "vault_ok v \<Longrightarrow> ig_id g = vt_next v \<Longrightarrow>
    vault_ok (v\<lparr>vt_generations := vt_generations v @ [g], vt_next := Suc (vt_next v)\<rparr>)
    \<and> vault_grows v (v\<lparr>vt_generations := vt_generations v @ [g], vt_next := Suc (vt_next v)\<rparr>)"
  using assms by (auto simp: vault_ok_defs vault_grows_def less_Suc_eq)

text \<open>Vectors.\<close>

lemma fine_vectors:
  assumes "\<And>v x. vault_ok v \<Longrightarrow> x \<in> set (h v) \<Longrightarrow> \<exists>c \<in> set (vt_chunks v). vc_id c = ce_chunk x"
  shows "fine_step (\<lambda>v. v\<lparr>vt_vectors := h v\<rparr>)"
  using assms unfolding fine_step_def vault_grows_def by (auto simp: vault_ok_defs)

lemma fine_delete_generation:
  "fine_step (\<lambda>v. v\<lparr>vt_vectors := filter (\<lambda>x. ce_generation x \<noteq> i) (vt_vectors v),
     vt_generations := filter (\<lambda>x. ig_id x \<noteq> i) (vt_generations v)\<rparr>)"
proof -
  have "length (filter P (filter Q xs)) \<le> length (filter P xs)" for P Q and xs :: "generation_row list"
    by (induction xs) auto
  then have "length (filter P xs) \<le> 1 \<Longrightarrow> length (filter P (filter Q xs)) \<le> 1" for P Q and xs :: "generation_row list"
    using le_trans by blast
  then show ?thesis
    unfolding fine_step_def vault_grows_def by (auto simp: vault_ok_defs distinct_map_filter)
qed

text \<open>The corpus.\<close>

lemma chunk_unique:
  "\<lbrakk>vault_ok v; c \<in> set (vt_chunks v); c' \<in> set (vt_chunks v); vc_id c = vc_id c'\<rbrakk> \<Longrightarrow> c = c'"
  unfolding vault_ok_def ids_ok_def distinct_map inj_on_def by blast

lemma doc_unique:
  "\<lbrakk>vault_ok v; d \<in> set (vt_docs v); d' \<in> set (vt_docs v); vd_id d = vd_id d'\<rbrakk> \<Longrightarrow> d = d'"
  unfolding vault_ok_def ids_ok_def distinct_map inj_on_def by blast

lemma fine_delete_chunks: "fine_step (delete_chunks_of d)"
proof -
  have c: "(\<not> vc_doc c = d \<and> (case vc_parent c of None \<Rightarrow> True | Some p \<Rightarrow> p \<notin> set (map vc_id (filter (\<lambda>c. vc_doc c = d) (vt_chunks v)))))
      \<longleftrightarrow> vc_doc c \<noteq> d" if "vault_ok v" "c \<in> set (vt_chunks v)" for v c
  proof (cases "vc_parent c")
    case (Some p)
    with that obtain q where q: "q \<in> set (vt_chunks v)" "vc_id q = p" "vc_doc q = vc_doc c"
      unfolding vault_ok_def chunks_ok_def by blast
    have "vc_doc c = d" if "p \<in> set (map vc_id (filter (\<lambda>c. vc_doc c = d) (vt_chunks v)))"
    proof -
      from that obtain r where r: "r \<in> set (vt_chunks v)" "vc_id r = p" "vc_doc r = d" by auto
      then have "r = q" using chunk_unique[OF \<open>vault_ok v\<close> r(1) q(1)] q(2) by simp
      with r(3) q(3) show ?thesis by simp
    qed
    then show ?thesis unfolding Some option.case by blast
  qed simp
  have f: "filter (\<lambda>c. \<not> vc_doc c = d \<and> (case vc_parent c of None \<Rightarrow> True | Some p \<Rightarrow> p \<notin> set (map vc_id (filter (\<lambda>c. vc_doc c = d) (vt_chunks v))))) (vt_chunks v)
      = filter (\<lambda>c. vc_doc c \<noteq> d) (vt_chunks v)" if "vault_ok v" for v
    by (rule filter_cong[OF refl]) (rule c[OF that])
  have e: "delete_chunks_of d v = v\<lparr>vt_fts := filter (\<lambda>r. ft_doc r \<noteq> d) (vt_fts v),
      vt_chunks := filter (\<lambda>c. vc_doc c \<noteq> d) (vt_chunks v),
      vt_vectors := filter (\<lambda>x. ce_chunk x \<in> set (map vc_id (filter (\<lambda>c. vc_doc c \<noteq> d) (vt_chunks v)))) (vt_vectors v)\<rparr>"
    if "vault_ok v" for v
    using f[OF that] unfolding delete_chunks_of_def drop_chunks_def
    by (simp add: Let_def del: list.set_map set_filter)
  show ?thesis unfolding fine_step_def
  proof (intro allI impI)
    fix v assume v: "vault_ok v"
    have u: "c = c'" if "c \<in> set (vt_chunks v)" "c' \<in> set (vt_chunks v)" "vc_id c = vc_id c'" for c c'
      by (rule chunk_unique[OF v that])
    have "fts_ok (delete_chunks_of d v)"
      using v unfolding e[OF v] vault_ok_def fts_ok_def by simp (metis u)
    moreover have "chunks_ok (delete_chunks_of d v)"
      using v unfolding e[OF v] vault_ok_def chunks_ok_def by simp metis
    moreover have "profiles_ok (delete_chunks_of d v)" "ids_ok (delete_chunks_of d v)" "one_active (delete_chunks_of d v)" "vectors_ok (delete_chunks_of d v)"
      using v unfolding e[OF v] vault_ok_def profiles_ok_def ids_ok_def one_active_def vectors_ok_def
      by (auto simp: distinct_map_filter)
    moreover have "vault_grows v (delete_chunks_of d v)" unfolding e[OF v] vault_grows_def by auto
    ultimately show "vault_ok (delete_chunks_of d v) \<and> vault_grows v (delete_chunks_of d v)"
      by (simp add: vault_ok_def)
  qed
qed


section \<open>Writing a chunk tree\<close>

lemma tree_rows_set:
  "(r, n) \<in> set (tree_rows base d tree) \<longleftrightarrow>
     (\<exists>i s kids. (i, s, n, kids) \<in> set (enumerate base tree) \<and> r = chunk_row_of i d None s n)"
  by (force simp: tree_rows_def)

lemma kid_slots_set:
  "(i, t, k) \<in> set (kid_slots base tree) \<longleftrightarrow>
     (\<exists>s n kids. (i, s, n, kids) \<in> set (enumerate base tree) \<and> (t, k) \<in> set kids)"
  by (force simp: kid_slots_def)

lemma kid_rows_set:
  "(r, k) \<in> set (kid_rows base d tree) \<longleftrightarrow>
     (\<exists>i p t. (i, p, t, k) \<in> set (enumerate (base + length tree) (kid_slots base tree))
        \<and> r = chunk_row_of i d (Some p) t k)"
  by (force simp: kid_rows_def)

lemma enumerate_mem: "(i, x) \<in> set (enumerate b xs) \<Longrightarrow> x \<in> set xs"
  by (metis in_set_enumerate_eq diff_less_mono2 fst_conv snd_conv nth_mem add.commute less_diff_conv2)

lemma mem_enumerate: "x \<in> set xs \<Longrightarrow> \<exists>i. (i, x) \<in> set (enumerate b xs)"
  by (metis imageE list.set_map map_snd_enumerate prod.collapse)

lemma kid_rows_slot:
  assumes "(r, k) \<in> set (kid_rows base d tree)"
  obtains i s n kids where "(i, s, n, kids) \<in> set (enumerate base tree)" "k \<in> snd ` set kids"
    "vc_parent r = Some i" "vc_doc r = d" "vc_kind r = cn_kind k" "vc_text r = cn_text k"
proof -
  from assms obtain i p t where i: "(i, p, t, k) \<in> set (enumerate (base + length tree) (kid_slots base tree))"
    "r = chunk_row_of i d (Some p) t k" unfolding kid_rows_set by blast
  then have "(p, t, k) \<in> set (kid_slots base tree)" by (metis enumerate_mem)
  then obtain s n kids where "(p, s, n, kids) \<in> set (enumerate base tree)" "(t, k) \<in> set kids"
    unfolding kid_slots_set by blast
  with i(2) that show ?thesis by (force simp: chunk_row_of_def)
qed

lemma kid_rows_all:
  assumes "(s, n, kids) \<in> set tree" "k \<in> snd ` set kids"
  shows "\<exists>r. (r, k) \<in> set (kid_rows base d tree)"
proof -
  obtain i where "(i, s, n, kids) \<in> set (enumerate base tree)" using mem_enumerate[OF assms(1)] by blast
  with assms(2) obtain t where "(i, t, k) \<in> set (kid_slots base tree)" unfolding kid_slots_set by fastforce
  then obtain j where "(j, i, t, k) \<in> set (enumerate (base + length tree) (kid_slots base tree))"
    using mem_enumerate[of "(i, t, k)" "kid_slots base tree" "base + length tree"] by blast
  then show ?thesis unfolding kid_rows_set by blast
qed

lemma row_ids:
  "map vc_id (map fst (tree_rows base d tree)) = [base..<base + length tree]"
  "map vc_id (map fst (kid_rows base d tree)) = [base + length tree..<base + length tree + length (kid_slots base tree)]"
proof -
  have "vc_id \<circ> fst \<circ> (\<lambda>(i, s, n, kids). (chunk_row_of i d None s n, n)) = (fst :: nat \<times> nat \<times> chunk_node \<times> (nat \<times> chunk_node) list \<Rightarrow> nat)"
    by (auto simp: chunk_row_of_def)
  then show "map vc_id (map fst (tree_rows base d tree)) = [base..<base + length tree]"
    by (simp add: tree_rows_def comp_assoc map_fst_enumerate)
  have "vc_id \<circ> fst \<circ> (\<lambda>(i, p, t, k). (chunk_row_of i d (Some p) t k, k)) = (fst :: nat \<times> nat \<times> nat \<times> chunk_node \<Rightarrow> nat)"
    by (auto simp: chunk_row_of_def)
  then show "map vc_id (map fst (kid_rows base d tree)) = [base + length tree..<base + length tree + length (kid_slots base tree)]"
    by (simp add: kid_rows_def comp_assoc map_fst_enumerate)
qed

lemma row_lengths [simp]:
  "length (tree_rows base d tree) = length tree" "length (kid_rows base d tree) = length (kid_slots base tree)"
  by (simp_all add: tree_rows_def kid_rows_def)

text \<open>Every child is found under its parent, and with them the rows that stand alone.\<close>

lemma searched_rows_iff:
  "x \<in> set (searched_rows rows kids) \<longleftrightarrow>
     (\<exists>r n. (r, n) \<in> set rows \<and> (x \<in> set kids \<and> vc_parent (fst x) = Some (vc_id r) \<or> vc_kind r \<noteq> ''parent'' \<and> x = (r, n)))"
proof (induction rows)
  case (Cons rn rows)
  obtain r n where rn: "rn = (r, n)" by fastforce
  have "searched_rows (rn # rows) kids = filter (\<lambda>(k, m). vc_parent k = Some (vc_id r)) kids
      @ (if vc_kind r \<noteq> ''parent'' then [(r, n)] else []) @ searched_rows rows kids"
    by (simp add: searched_rows_def rn)
  then have "x \<in> set (searched_rows (rn # rows) kids) \<longleftrightarrow> (x \<in> set kids \<and> vc_parent (fst x) = Some (vc_id r))
      \<or> (vc_kind r \<noteq> ''parent'' \<and> x = (r, n)) \<or> x \<in> set (searched_rows rows kids)"
    by (auto split: prod.splits)
  with Cons.IH show ?case unfolding rn by auto
qed (simp add: searched_rows_def)

lemma searched_rows_set:
  "(r, n) \<in> set (searched_rows (tree_rows base d tree) (kid_rows base d tree)) \<longleftrightarrow>
     (r, n) \<in> set (kid_rows base d tree) \<or> (r, n) \<in> set (tree_rows base d tree) \<and> vc_kind r \<noteq> ''parent''"
proof -
  have "\<exists>p m. (p, m) \<in> set (tree_rows base d tree) \<and> vc_parent r = Some (vc_id p)"
    if "(r, n) \<in> set (kid_rows base d tree)"
  proof -
    from that obtain i s m kids where j: "(i, s, m, kids) \<in> set (enumerate base tree)" "vc_parent r = Some i"
      by (rule kid_rows_slot)
    then have "(chunk_row_of i d None s m, m) \<in> set (tree_rows base d tree)"
      unfolding tree_rows_set by blast
    moreover have "vc_id (chunk_row_of i d None s m) = i" by (simp add: chunk_row_of_def)
    ultimately show ?thesis using j(2) by metis
  qed
  then show ?thesis unfolding searched_rows_iff by auto
qed

lemma lay_out_nodes: "map (\<lambda>(s, n, kids). n) (lay_out s0 ns) = ns"
  by (induction s0 ns rule: lay_out.induct) (simp_all add: Let_def)

lemma lay_out_kids:
  "(s, n, kids) \<in> set (lay_out s0 ns) \<Longrightarrow> snd ` set kids = (if cn_kind n = ''parent'' then set (cn_children n) else {})"
proof (induction s0 ns rule: lay_out.induct)
  case (2 s0 m ms)
  have "snd ` set (enumerate b xs) = set xs" for b and xs :: "chunk_node list"
    by (metis list.set_map map_snd_enumerate)
  then have e: "snd ` set (enumerate (Suc s0) (if cn_kind m = ''parent'' then cn_children m else []))
      = (if cn_kind m = ''parent'' then set (cn_children m) else {})" by simp
  from "2.prems" consider "n = m" "kids = enumerate (Suc s0) (if cn_kind m = ''parent'' then cn_children m else [])"
    | "(s, n, kids) \<in> set (lay_out (Suc s0 + length (if cn_kind m = ''parent'' then cn_children m else [])) ms)"
    by (auto simp: Let_def)
  then show ?case by cases (use e "2.IH" in \<open>simp_all only: refl if_True Let_def\<close>)
qed simp

lemma lay_out_mem: "(s, n, kids) \<in> set (lay_out s0 ns) \<Longrightarrow> n \<in> set ns"
  using lay_out_nodes[of s0 ns] by (metis (mono_tags, lifting) case_prod_conv image_eqI list.set_map)

lemma lay_out_all: "n \<in> set ns \<Longrightarrow> \<exists>s kids. (s, n, kids) \<in> set (lay_out s0 ns)"
proof (induction s0 ns rule: lay_out.induct)
  case (2 s0 m ms)
  show ?case
  proof (cases "n = m")
    case False
    with 2 obtain s kids where
      "(s, n, kids) \<in> set (lay_out (Suc s0 + length (if cn_kind m = ''parent'' then cn_children m else [])) ms)"
      by fastforce
    then show ?thesis unfolding lay_out.simps Let_def by (meson list.set_intros(2))
  qed (auto simp: Let_def)
qed simp

text \<open>With a well-formed tree the rows found are exactly those of the searched nodes.\<close>

lemma written_found:
  fixes ns base d
  defines "rows \<equiv> tree_rows base d (lay_out 0 ns)" and "kids \<equiv> kid_rows base d (lay_out 0 ns)"
  assumes "list_all tree_ok ns"
  shows "set (map fst (searched_rows rows kids)) = {c \<in> set (map fst rows @ map fst kids). retrievable_kind c}"
    and "vc_text ` set (map fst (searched_rows rows kids)) = cn_text ` set (retrievable ns)"
proof -
  have k: "vc_kind r = ''child''" "vc_text r = cn_text m" "m \<in> set (retrievable ns)" if km: "(r, m) \<in> set kids" for r m
  proof -
    from km obtain i s n ks where j: "(i, s, n, ks) \<in> set (enumerate base (lay_out 0 ns))" "m \<in> snd ` set ks"
      "vc_kind r = cn_kind m" "vc_text r = cn_text m" unfolding kids_def by (rule kid_rows_slot)
    then have e: "(s, n, ks) \<in> set (lay_out 0 ns)" by (metis enumerate_mem)
    from j(2) lay_out_kids[OF e] have n: "cn_kind n = ''parent''" "m \<in> set (cn_children n)"
      by (auto split: if_splits)
    with assms(3) lay_out_mem[OF e] have "leaf_ok m" by (auto simp: list_all_iff tree_ok_def leaf_ok_def)
    with j show "vc_kind r = ''child''" "vc_text r = cn_text m" by (simp_all add: leaf_ok_def)
    show "m \<in> set (retrievable ns)" using n lay_out_mem[OF e] by (auto simp: retrievable_def intro!: bexI[of _ n])
  qed
  have r: "vc_kind r = cn_kind m" "vc_text r = cn_text m" "m \<in> set ns" if rm: "(r, m) \<in> set rows" for r m
    using rm lay_out_mem enumerate_mem unfolding rows_def tree_rows_set by (fastforce simp: chunk_row_of_def)+
  have f: "(x, m) \<in> set (searched_rows rows kids) \<longleftrightarrow> (x, m) \<in> set kids \<or> (x, m) \<in> set rows \<and> vc_kind x \<noteq> ''parent''" for x m
    unfolding rows_def kids_def by (rule searched_rows_set)
  show "set (map fst (searched_rows rows kids)) = {c \<in> set (map fst rows @ map fst kids). retrievable_kind c}"
    using f k(1) by (auto simp: retrievable_kind_def image_iff) force+
  show "vc_text ` set (map fst (searched_rows rows kids)) = cn_text ` set (retrievable ns)"
  proof (intro equalityI subsetI)
    fix t assume "t \<in> vc_text ` set (map fst (searched_rows rows kids))"
    then obtain x m where x: "(x, m) \<in> set (searched_rows rows kids)" "t = vc_text x" by auto
    from x(1) f consider "(x, m) \<in> set kids" | "(x, m) \<in> set rows" "vc_kind x \<noteq> ''parent''" by blast
    then show "t \<in> cn_text ` set (retrievable ns)"
    proof cases
      case 1 with k[OF 1] x show ?thesis by auto
    next
      case 2
      with r[OF 2(1)] have "m \<in> set (retrievable ns)" by (auto simp: retrievable_def intro!: bexI[of _ m])
      with x r[OF 2(1)] show ?thesis by auto
    qed
  next
    fix t assume "t \<in> cn_text ` set (retrievable ns)"
    then obtain n m where n: "n \<in> set ns" "m \<in> set (if cn_kind n = ''parent'' then cn_children n else [n])" "t = cn_text m"
      by (auto simp: retrievable_def)
    obtain s ks where e: "(s, n, ks) \<in> set (lay_out 0 ns)" using lay_out_all[OF n(1)] by blast
    show "t \<in> vc_text ` set (map fst (searched_rows rows kids))"
    proof (cases "cn_kind n = ''parent''")
      case True
      with n lay_out_kids[OF e] have "m \<in> snd ` set ks" by simp
      from kid_rows_all[OF e this] obtain x where "(x, m) \<in> set kids" unfolding kids_def by blast
      with f have "(x, m) \<in> set (searched_rows rows kids)" "t = vc_text x" using k(2) n(3) by auto
      then show ?thesis by (metis fst_conv image_eqI list.set_map)
    next
      case False
      obtain i where "(i, s, n, ks) \<in> set (enumerate base (lay_out 0 ns))" using mem_enumerate[OF e] by blast
      then have x: "(chunk_row_of i d None s n, n) \<in> set rows" unfolding rows_def tree_rows_set by blast
      with False n r(1)[OF x] f have "(chunk_row_of i d None s n, n) \<in> set (searched_rows rows kids)" by auto
      moreover have "t = vc_text (chunk_row_of i d None s n)" using False n r(2)[OF x] by simp
      ultimately show ?thesis by (metis fst_conv image_eqI list.set_map)
    qed
  qed
qed


definition write_tree :: "document_row \<Rightarrow> string option \<Rightarrow> chunk_node list \<Rightarrow> vault \<Rightarrow> vault" where
  "write_tree doc agent ns v =
     (let tree = lay_out 0 ns; rows = tree_rows (vt_next v) (vd_id doc) tree; kids = kid_rows (vt_next v) (vd_id doc) tree
      in v\<lparr>vt_chunks := vt_chunks v @ map fst rows @ map fst kids,
           vt_fts := vt_fts v @ map (fts_row_of doc agent) (searched_rows rows kids),
           vt_next := vt_next v + length rows + length kids\<rparr>)"

lemma tree_row_fields:
  "(r, n) \<in> set (tree_rows base d tree) \<Longrightarrow> vc_doc r = d \<and> vc_parent r = None"
  by (auto simp: tree_rows_set chunk_row_of_def)

lemma kid_row_parent:
  assumes "(r, k) \<in> set (kid_rows base d tree)"
  shows "\<exists>p n. (p, n) \<in> set (tree_rows base d tree) \<and> vc_parent r = Some (vc_id p)" and "vc_doc r = d"
proof -
  from assms obtain i s n kids where j: "(i, s, n, kids) \<in> set (enumerate base tree)" "vc_parent r = Some i" "vc_doc r = d"
    by (rule kid_rows_slot)
  then have "(chunk_row_of i d None s n, n) \<in> set (tree_rows base d tree)" unfolding tree_rows_set by blast
  moreover have "vc_id (chunk_row_of i d None s n) = i" by (simp add: chunk_row_of_def)
  ultimately show "\<exists>p n. (p, n) \<in> set (tree_rows base d tree) \<and> vc_parent r = Some (vc_id p)"
    using j(2) by metis
  show "vc_doc r = d" by (rule j(3))
qed

lemma write_tree_ok:
  assumes v: "vault_ok v" and tree: "list_all tree_ok ns"
    and doc: "ns \<noteq> [] \<Longrightarrow> \<exists>x \<in> set (vt_docs v). vd_id x = vd_id doc"
    and agent: "\<forall>x \<in> set (vt_docs v). vd_id x = vd_id doc \<longrightarrow> vd_agent x = agent"
  shows "vault_ok (write_tree doc agent ns v)" "vault_grows v (write_tree doc agent ns v)"
proof -
  let ?b = "vt_next v" and ?d = "vd_id doc"
  define rows where "rows = tree_rows ?b ?d (lay_out 0 ns)"
  define kids where "kids = kid_rows ?b ?d (lay_out 0 ns)"
  define new where "new = map fst rows @ map fst kids"
  define found where "found = searched_rows rows kids"
  define v' where "v' = write_tree doc agent ns v"
  have v': "v' = v\<lparr>vt_chunks := vt_chunks v @ new, vt_fts := vt_fts v @ map (fts_row_of doc agent) found,
      vt_next := ?b + length rows + length kids\<rparr>"
    by (simp add: v'_def write_tree_def rows_def kids_def new_def found_def Let_def)
  have ids: "map vc_id new = [?b..<?b + length rows + length kids]"
    unfolding new_def map_append rows_def kids_def row_ids row_lengths
    by (rule upt_add_eq_append[symmetric]) simp
  have found: "set (map fst found) = {c \<in> set new. retrievable_kind c}"
    unfolding found_def new_def rows_def kids_def by (rule written_found(1)[OF tree])
  have some: "ns \<noteq> []" if "c \<in> set new" for c
    using that by (cases ns) (auto simp: new_def rows_def kids_def tree_rows_def kid_rows_def kid_slots_def)
  have new: "vc_doc c = ?d" if "c \<in> set new" for c
    using that tree_row_fields kid_row_parent(2) unfolding new_def rows_def kids_def by fastforce
  have par: "\<exists>q \<in> set new. vc_id q = p \<and> vc_doc q = vc_doc c" if c: "c \<in> set new" "vc_parent c = Some p" for c p
  proof -
    from c(1) consider n where "(c, n) \<in> set rows" | n where "(c, n) \<in> set kids" by (auto simp: new_def)
    then show ?thesis
    proof cases
      case 1 then show ?thesis using tree_row_fields c(2) unfolding rows_def by fastforce
    next
      case 2
      then obtain q n' where q: "(q, n') \<in> set rows" "vc_parent c = Some (vc_id q)"
        using kid_row_parent(1) unfolding rows_def kids_def by blast
      then have "q \<in> set new" by (force simp: new_def)
      with q(2) c new show ?thesis by auto
    qed
  qed
  have old: "vc_id c < ?b" if "c \<in> set (vt_chunks v)" for c using v that by (auto simp: vault_ok_defs)
  have newid: "?b \<le> vc_id c \<and> vc_id c < vt_next v'" if "c \<in> set new" for c
  proof -
    have "vc_id c \<in> set (map vc_id new)" using that by simp
    then show ?thesis unfolding ids by (simp add: v')
  qed
  have dist: "distinct (map vc_id (vt_chunks v @ new))"
    using v old newid ids by (fastforce simp: vault_ok_defs)
  have "profiles_ok v'" "one_active v'" using v by (simp_all add: v' vault_ok_def profiles_ok_def one_active_def)
  moreover have "ids_ok v'"
    using v dist newid unfolding vault_ok_def ids_ok_def by (fastforce simp: v')
  moreover have "vectors_ok v'" using v unfolding vault_ok_def vectors_ok_def by (fastforce simp: v')
  moreover have "chunks_ok v'"
    unfolding chunks_ok_def
  proof (intro ballI conjI allI impI)
    fix c assume c: "c \<in> set (vt_chunks v')"
    show "\<exists>d \<in> set (vt_docs v'). vd_id d = vc_doc c"
      using c v doc some new unfolding vault_ok_def chunks_ok_def by (fastforce simp: v')
    fix p assume "vc_parent c = Some p"
    then show "\<exists>q \<in> set (vt_chunks v'). vc_id q = p \<and> vc_doc q = vc_doc c"
      using c v par unfolding vault_ok_def chunks_ok_def by (fastforce simp: v')
  qed
  moreover have "fts_ok v'"
  proof -
    have f: "ft_chunk (fts_row_of doc agent x) = vc_id (fst x)" "ft_doc (fts_row_of doc agent x) = ?d"
      "ft_text (fts_row_of doc agent x) = vc_text (fst x)" "ft_agent (fts_row_of doc agent x) = agent" for x
      by (simp_all add: fts_row_of_def split: prod.splits)
    have r: "\<exists>c \<in> set (vt_chunks v'). vc_id c = ft_chunk r \<and> vc_doc c = ft_doc r \<and> vc_text c = ft_text r \<and> retrievable_kind c"
      if "r \<in> set (vt_fts v')" for r
    proof (cases "r \<in> set (vt_fts v)")
      case True then show ?thesis using v unfolding vault_ok_def fts_ok_def by (fastforce simp: v')
    next
      case False
      with that obtain x where x: "x \<in> set found" "r = fts_row_of doc agent x" by (auto simp: v')
      then have "fst x \<in> set (map fst found)" by simp
      then have "fst x \<in> set new \<and> retrievable_kind (fst x)" using found by blast
      with x(2) f new show ?thesis by (intro bexI[of _ "fst x"]) (auto simp: v')
    qed
    have c: "\<exists>r \<in> set (vt_fts v'). ft_chunk r = vc_id c" if "c \<in> set (vt_chunks v')" "retrievable_kind c" for c
    proof (cases "c \<in> set new")
      case True
      with that found have "c \<in> set (map fst found)" by blast
      then obtain x where "x \<in> set found" "fst x = c" by auto
      then show ?thesis using f(1)[of x] by (intro bexI[of _ "fts_row_of doc agent x"]) (auto simp: v')
    next
      case False
      with that v show ?thesis unfolding vault_ok_def fts_ok_def by (fastforce simp: v')
    qed
    have a: "vd_agent x = ft_agent r" if "r \<in> set (vt_fts v')" "x \<in> set (vt_docs v')" "vd_id x = ft_doc r" for r x
      using that v agent f unfolding vault_ok_def fts_ok_def by (fastforce simp: v')
    show ?thesis unfolding fts_ok_def using r c a by blast
  qed
  ultimately show "vault_ok (write_tree doc agent ns v)" by (simp add: vault_ok_def v'_def)
  show "vault_grows v (write_tree doc agent ns v)"
    unfolding v'_def[symmetric] vault_grows_def using newid by (fastforce simp: v')
qed

lemma write_chunk_nodes_eq:
  "write_chunk_nodes ns doc agent w =
     (if ns \<noteq> [] \<and> find_document (wd_db w) (vd_id doc) = None then (Inl (VaultFailure ''constraint failed''), w)
      else (Inr (map fst (searched_rows (tree_rows (vt_next (wd_db w)) (vd_id doc) (lay_out 0 ns))
              (kid_rows (vt_next (wd_db w)) (vd_id doc) (lay_out 0 ns)))),
            w\<lparr>wd_db := write_tree doc agent ns (wd_db w)\<rparr>))"
proof -
  have "tree_rows b d (lay_out 0 ns) \<noteq> [] \<longleftrightarrow> ns \<noteq> []" for b d
    by (cases ns) (auto simp: tree_rows_def Let_def)
  then show ?thesis
    by (simp add: write_chunk_nodes_def write_tree_def read_db_def edit_db_def cbind_def cget_def cput_def cfail_def cret_def Let_def)
qed

lemma fine_add_document:
  assumes "vault_ok v" "vd_id d = vt_next v"
  shows "vault_ok (v\<lparr>vt_docs := vt_docs v @ [d], vt_next := Suc (vt_next v)\<rparr>)"
    and "vault_grows v (v\<lparr>vt_docs := vt_docs v @ [d], vt_next := Suc (vt_next v)\<rparr>)"
proof -
  have "ft_doc r < vt_next v" if "r \<in> set (vt_fts v)" for r
    using assms(1) that unfolding vault_ok_def fts_ok_def chunks_ok_def ids_ok_def by metis
  then have "fts_ok (v\<lparr>vt_docs := vt_docs v @ [d], vt_next := Suc (vt_next v)\<rparr>)"
    using assms unfolding vault_ok_def fts_ok_def by fastforce
  moreover have "ids_ok (v\<lparr>vt_docs := vt_docs v @ [d], vt_next := Suc (vt_next v)\<rparr>)"
    using assms unfolding vault_ok_def ids_ok_def by (fastforce simp: less_Suc_eq)
  moreover have "chunks_ok (v\<lparr>vt_docs := vt_docs v @ [d], vt_next := Suc (vt_next v)\<rparr>)"
    using assms unfolding vault_ok_def chunks_ok_def by fastforce
  ultimately show "vault_ok (v\<lparr>vt_docs := vt_docs v @ [d], vt_next := Suc (vt_next v)\<rparr>)"
    using assms unfolding vault_ok_def profiles_ok_def one_active_def vectors_ok_def by simp
  show "vault_grows v (v\<lparr>vt_docs := vt_docs v @ [d], vt_next := Suc (vt_next v)\<rparr>)"
    using assms by (auto simp: vault_grows_def)
qed

lemma deleted_chunks:
  assumes "vault_ok v"
  shows "\<forall>c \<in> set (vt_chunks (delete_chunks_of d v)). vc_doc c \<noteq> d"
    and "\<forall>r \<in> set (vt_fts (delete_chunks_of d v)). ft_doc r \<noteq> d"
    and "vt_docs (delete_chunks_of d v) = vt_docs v"
  by (auto simp: delete_chunks_of_def drop_chunks_def Let_def)

lemma fine_delete_document:
  "fine_step (\<lambda>v. (delete_chunks_of d v)\<lparr>vt_docs := filter (\<lambda>x. vd_id x \<noteq> d) (vt_docs v)\<rparr>)"
  unfolding fine_step_def
proof (intro allI impI conjI)
  fix v assume v: "vault_ok v"
  let ?u = "delete_chunks_of d v"
  have u: "vault_ok ?u" using fine_delete_chunks v by (simp add: fine_step_def)
  have docs: "vt_docs ?u = vt_docs v" by (rule deleted_chunks(3)[OF v])
  let ?w = "?u\<lparr>vt_docs := filter (\<lambda>x. vd_id x \<noteq> d) (vt_docs v)\<rparr>"
  have "chunks_ok ?w"
    using u deleted_chunks(1)[OF v, of d] unfolding vault_ok_def chunks_ok_def docs by fastforce
  moreover have "fts_ok ?w" using u unfolding vault_ok_def fts_ok_def docs by fastforce
  moreover have "ids_ok ?w" using u unfolding vault_ok_def ids_ok_def docs by (fastforce simp: distinct_map_filter)
  ultimately show "vault_ok ?w"
    using u unfolding vault_ok_def profiles_ok_def one_active_def vectors_ok_def by simp
  show "vault_grows v ?w" by (auto simp: vault_grows_def delete_chunks_of_def drop_chunks_def Let_def)
qed


section \<open>Operations keep the invariant\<close>

text \<open>Texts left the machine only for local endpoints or with the operator's flag.\<close>

definition calls_permitted :: "vault_world \<Rightarrow> bool" where
  "calls_permitted w \<longleftrightarrow> list_all (\<lambda>c. eg_local c \<or> eg_allowed c) (vw_calls w)"

definition world_ok :: "vault_world \<Rightarrow> bool" where
  "world_ok w \<longleftrightarrow> vault_ok (wd_db w) \<and> vault_ok (wd_saved w) \<and> vault_grows (wd_saved w) (wd_db w) \<and> calls_permitted w"

text \<open>Other sessions keep the invariant too; the operations below show that they do.\<close>

definition fair_env :: "vault_env \<Rightarrow> bool" where
  "fair_env E \<longleftrightarrow> (\<forall>n. fine_step (ve_others E n))"

text \<open>
  A contract of the indexing operations: a relation kept by the requests they send, by waiting and
  committing, by new vectors and by statistics is kept by embedding into a generation.
\<close>

locale index_frame = session_frame R "ve_others E" for R :: "vault_world \<Rightarrow> vault_world \<Rightarrow> bool" and E :: vault_env +
  assumes step_call: "eg_local c \<or> eg_allowed c \<Longrightarrow> R w (w\<lparr>vw_calls := vw_calls w @ [c]\<rparr>)"
    and step_vectors: "vectors_insertable (wd_db w) g pairs \<Longrightarrow>
      R w (w\<lparr>wd_db := (wd_db w)\<lparr>vt_vectors := vt_vectors (wd_db w) @ new_vectors g pairs\<rparr>\<rparr>)"
    and step_stats: "R w (w\<lparr>wd_db := set_generation g (\<lambda>x. x\<lparr>ig_stats := f x\<rparr>) (wd_db w)\<rparr>)"
begin

lemma calls [intro]: "eg_local c \<or> eg_allowed c \<Longrightarrow> op_keeps R (cput (\<lambda>w. w\<lparr>vw_calls := vw_calls w @ [c]\<rparr>))"
  by (rule change) (rule step_call)

lemma stats [intro!]: "op_keeps R (write_generation i (\<lambda>x. x\<lparr>ig_stats := h x\<rparr>))"
  unfolding write_generation_def edit_db_def by (intro bind cond read basic change step_stats)

lemma vectors [intro!]: "op_keeps R (insert_vectors g pairs)"
proof -
  have "R w (snd (insert_vectors g pairs w))" for w
    using step_vectors[of w g pairs] refl
    by (cases "vectors_insertable (wd_db w) g pairs")
      (simp_all add: insert_vectors_def read_db_def edit_db_def cbind_def cget_def cput_def cfail_def)
  then show ?thesis by (simp add: op_keeps_def)
qed

lemma embed_batches:
  assumes "egress_permitted E p r"
  shows "op_keeps R (embed_batches E p r texts)"
proof (induction "length texts" arbitrary: texts rule: less_induct)
  case less
  show ?case
    unfolding embed_batches.simps[of E p r texts]
    by (intro bind cond option calls waiting basic less) (use assms in \<open>auto simp: egress_permitted_def\<close>)
qed

lemma embed_texts [intro!]: "op_keeps R (embed_texts E r texts)"
  unfolding embed_texts_def provider_for_def by (intro bind cond option read basic embed_batches) auto

lemma embed_batch [intro!]: "op_keeps R (embed_batch E g r ids)"
  unfolding embed_batch_def
  by (intro bind option read basic catch embed_texts vectors) (auto split: vault_error.split)

lemma embed_from: "op_keeps R (embed_from E g r st all index ok failed ids)"
proof (induction "length ids" arbitrary: ids index ok failed rule: less_induct)
  case less
  show ?case
    unfolding embed_from.simps[of E g r st all index ok failed ids]
    by (intro bind cond pair basic embed_batch stats committing less) auto
qed

lemma embed_into [intro!]: "op_keeps R (embed_into_generation E g r ids)"
  unfolding embed_into_generation_def by (rule embed_from)

end

definition stays_ok :: "vault_env \<Rightarrow> vault_world \<Rightarrow> vault_world \<Rightarrow> bool" where
  "stays_ok E w w' \<longleftrightarrow> (fair_env E \<and> world_ok w \<longrightarrow>
     world_ok w' \<and> vault_grows (wd_db w) (wd_db w') \<and> vault_grows (wd_saved w) (wd_saved w'))"

lemma stays_db: "(\<And>v. vault_ok v \<Longrightarrow> v = wd_db w \<Longrightarrow> vault_ok u \<and> vault_grows v u) \<Longrightarrow> stays_ok E w (w\<lparr>wd_db := u\<rparr>)"
  using vault_grows_trans by (simp add: stays_ok_def world_ok_def calls_permitted_def) blast

lemma stays_yield: "stays_ok E w (yield_world (ve_others E) w)"
  by (auto simp: stays_ok_def world_ok_def calls_permitted_def yield_world_def fair_env_def fine_step_def Let_def)

lemma stays_fine: "fine_step f \<Longrightarrow> stays_ok E w (w\<lparr>wd_db := f (wd_db w)\<rparr>)"
  by (rule stays_db) (simp add: fine_step_def)

interpretation stays: index_frame "stays_ok E" E for E
proof
  show "stays_ok E u w" if "stays_ok E u v" "stays_ok E v w" for u v w
    using that vault_grows_trans unfolding stays_ok_def by blast
  show "stays_ok E w (yield_world (ve_others E) (w\<lparr>wd_saved := wd_db w\<rparr>))" for w
    using stays_yield[of E "w\<lparr>wd_saved := wd_db w\<rparr>"] vault_grows_trans by (simp add: stays_ok_def world_ok_def calls_permitted_def) blast
  show "stays_ok E w (w\<lparr>wd_db := (wd_db w)\<lparr>vt_vectors := vt_vectors (wd_db w) @ new_vectors g pairs\<rparr>\<rparr>)"
    if "vectors_insertable (wd_db w) g pairs" for w g pairs
  proof (rule stays_db)
    have "\<exists>c \<in> set (vt_chunks (wd_db w)). vc_id c = ce_chunk x" if "x \<in> set (new_vectors g pairs)" for x
      using that \<open>vectors_insertable (wd_db w) g pairs\<close>
      by (fastforce simp: new_vectors_def vectors_insertable_def list_all_iff)
    then show "vault_ok ((wd_db w)\<lparr>vt_vectors := vt_vectors (wd_db w) @ new_vectors g pairs\<rparr>)
        \<and> vault_grows v ((wd_db w)\<lparr>vt_vectors := vt_vectors (wd_db w) @ new_vectors g pairs\<rparr>)"
      if "vault_ok v" "v = wd_db w" for v
      using that by (auto simp: vault_ok_defs vault_grows_def)
  qed
  show "stays_ok E w (w\<lparr>wd_db := set_generation g (\<lambda>x. x\<lparr>ig_stats := f x\<rparr>) (wd_db w)\<rparr>)" for w g f
    by (rule stays_fine) (rule fine_set_generation, auto)
qed (rule stays_yield | simp add: stays_ok_def world_ok_def calls_permitted_def)+

lemma stays_edit [intro]: "fine_step f \<Longrightarrow> op_keeps (stays_ok E) (edit_db f)"
  unfolding edit_db_def by (rule stays.change) (rule stays_fine)

lemma stays_write_generation [intro]:
  assumes "\<And>g. ig_id (h g) = ig_id g" "\<And>g. ig_status (h g) = ''active'' \<Longrightarrow> ig_status g = ''active''"
  shows "op_keeps (stays_ok E) (write_generation i h)"
  unfolding write_generation_def
  by (intro stays.bind stays.cond stays_edit stays.read stays.basic fine_set_generation) (use assms in auto)

lemma stays_write_document [intro]:
  assumes "\<And>d. vd_id (h d) = vd_id d" "\<And>d. vd_agent (h d) = vd_agent d"
  shows "op_keeps (stays_ok E) (write_document i h)"
  unfolding write_document_def
  by (intro stays.bind stays.cond stays_edit stays.read stays.basic fine_set_document) (use assms in auto)

lemma activate_row_eq:
  "activate_row i w =
     (if find_generation (wd_db w) i = None
      then (Inl (VaultFailure ''row has been deleted''), w\<lparr>wd_db := (wd_db w)\<lparr>vt_generations := map retire (vt_generations (wd_db w))\<rparr>\<rparr>)
      else (Inr (), w\<lparr>wd_db := refresh_semantic_states i ((wd_db w)\<lparr>vt_generations := map (promote i) (vt_generations (wd_db w))\<rparr>)\<rparr>))"
proof -
  have "find (\<lambda>x. ig_id x = i) (map retire gs) = None \<longleftrightarrow> find (\<lambda>x. ig_id x = i) gs = None" for gs
    by (induction gs) (auto simp: retire_def)
  then show ?thesis
    using activate_alt[of i "wd_db w"]
    by (simp add: activate_row_def write_generation_def edit_db_def read_db_def cbind_def cget_def cput_def cfail_def
        find_generation_def)
qed

lemma fine_retire: "fine_step (\<lambda>v. v\<lparr>vt_generations := map retire (vt_generations v)\<rparr>)"
  by (rule fine_map_generations) (auto simp: retire_def split: if_splits)

lemma stays_activate_row [intro!]: "op_keeps (stays_ok E) (activate_row i)"
proof -
  have c: "vault_ok (refresh_semantic_states i (v\<lparr>vt_generations := map (promote i) (vt_generations v)\<rparr>))
      \<and> vault_grows v (refresh_semantic_states i (v\<lparr>vt_generations := map (promote i) (vt_generations v)\<rparr>))"
    if "vault_ok v" for v
  proof -
    let ?u = "v\<lparr>vt_generations := map (promote i) (vt_generations v)\<rparr>"
    have u: "vault_ok ?u" "vault_grows v ?u" using fine_activate[of i] that by (simp_all add: fine_step_def)
    have "vault_ok (refresh_semantic_states i ?u)" "vault_grows ?u (refresh_semantic_states i ?u)"
      using fine_refresh[of i] u(1) by (simp_all add: fine_step_def)
    with u(2) vault_grows_trans show ?thesis by blast
  qed
  have r: "vault_ok (v\<lparr>vt_generations := map retire (vt_generations v)\<rparr>)
      \<and> vault_grows v (v\<lparr>vt_generations := map retire (vt_generations v)\<rparr>)" if "vault_ok v" for v
    using fine_retire that by (simp add: fine_step_def)
  have "stays_ok E w (snd (activate_row i w))" for w
    unfolding activate_row_eq using c r by (auto intro!: stays_db)
  then show ?thesis by (simp add: op_keeps_def)
qed

lemma stays_profile [intro!]: "op_keeps (stays_ok E) get_active_profile"
proof -
  have d: "accepted_profile default_chunking" by (simp add: accepted_profile_def default_chunking_def)
  have "fine_step (\<lambda>v. v\<lparr>vt_profiles := vt_profiles v @ [p], vt_next := Suc (vt_next v)\<rparr>)"
    if "accepted_profile (vf_chunking (pf_config p))" for p
    by (rule fine_same_corpus) (use that in \<open>auto simp: vault_ok_defs\<close>)
  then show ?thesis
    unfolding get_active_profile_def Let_def
    by (intro stays.bind stays.option stays.read stays.basic stays_edit) (simp add: default_config_def d)
qed

lemma stays_at_ingest [intro!]: "op_keeps (stays_ok E) (embed_chunks_at_ingest E chunks)"
  unfolding embed_chunks_at_ingest_def
  by (intro stays.bind stays.cond stays.option stays.pair stays.read stays.basic stays_profile stays.embed_into)


section \<open>Requests keep the invariant\<close>

definition stays_safe :: "vault_env \<Rightarrow> vault_world \<Rightarrow> vault_world \<Rightarrow> bool" where
  "stays_safe E w w' \<longleftrightarrow> (fair_env E \<and> world_ok w \<longrightarrow> world_ok w' \<and> vault_grows (wd_saved w) (wd_saved w'))"

lemma stays_is_safe: "stays_ok E w w' \<Longrightarrow> stays_safe E w w'"
  by (simp add: stays_ok_def stays_safe_def)

interpretation safe: index_frame "stays_safe E" E for E
proof
  show "stays_safe E u w" if "stays_safe E u v" "stays_safe E v w" for u v w
    using that vault_grows_trans unfolding stays_safe_def by blast
qed (simp add: stays_safe_def, (rule stays_is_safe, (erule stays.step_call stays.step_vectors | rule stays.step_wait stays.step_commit stays.step_stats))+)

lemma safe_stays: "op_keeps (stays_ok E) m \<Longrightarrow> op_keeps (stays_safe E) m"
  by (simp add: op_keeps_def stays_is_safe)

lemma safe_edit [intro]: "fine_step f \<Longrightarrow> op_keeps (stays_safe E) (edit_db f)"
  by (rule safe_stays) (rule stays_edit)

lemma safe_rollback [intro!]: "op_keeps (stays_safe E) rollback_db"
  unfolding rollback_db_def by (rule safe.change) (simp add: stays_safe_def world_ok_def calls_permitted_def)

lemma safe_request [intro]:
  assumes "op_keeps (stays_safe E) m"
  shows "op_keeps (stays_safe E) (request_op m)"
  using assms unfolding op_keeps_def request_op_def stays_safe_def
  by (fastforce simp: world_ok_def calls_permitted_def split: prod.split)

lemma safe_answers [intro]: "op_keeps (stays_safe E) m \<Longrightarrow> op_keeps (stays_safe E) (answer_value_errors m)"
  unfolding answer_value_errors_def
  by (intro safe.catch safe.bind safe_rollback) (auto split: vault_error.split)

text \<open>Indexing writes the chunks of one document, whose scope no other session changes.\<close>

definition owned :: "nat \<Rightarrow> string option \<Rightarrow> vault \<Rightarrow> bool" where
  "owned d a v \<longleftrightarrow> d < vt_next v \<and> (\<forall>x \<in> set (vt_docs v). vd_id x = d \<longrightarrow> vd_agent x = a)"

definition stays_owned :: "vault_env \<Rightarrow> nat \<Rightarrow> string option \<Rightarrow> vault_world \<Rightarrow> vault_world \<Rightarrow> bool" where
  "stays_owned E d a w w' \<longleftrightarrow> (fair_env E \<and> world_ok w \<and> owned d a (wd_db w) \<longrightarrow>
     world_ok w' \<and> owned d a (wd_db w') \<and> vault_grows (wd_saved w) (wd_saved w'))"

interpretation own: kept_relation "stays_owned E d a" for E d a
  by unfold_locales (auto simp: stays_owned_def intro: vault_grows_trans)

lemma owned_grows: "\<lbrakk>owned d a u; vault_grows u v\<rbrakk> \<Longrightarrow> owned d a v"
  unfolding owned_def vault_grows_def by (metis order_less_le_trans)

lemma own_stays: "op_keeps (stays_ok E) m \<Longrightarrow> op_keeps (stays_owned E d a) m"
  using owned_grows by (auto simp: op_keeps_def stays_ok_def stays_owned_def)

lemma own_write_nodes:
  assumes "list_all tree_ok ns" "vd_id doc = d"
  shows "op_keeps (stays_owned E d a) (write_chunk_nodes ns doc a)"
proof -
  have "stays_owned E d a w (snd (write_chunk_nodes ns doc a w))" for w
  proof (cases "ns \<noteq> [] \<and> find_document (wd_db w) (vd_id doc) = None")
    case True
    then show ?thesis by (simp add: write_chunk_nodes_eq own.refl)
  next
    case False
    show ?thesis
      unfolding stays_owned_def
    proof (intro impI)
      assume w: "fair_env E \<and> world_ok w \<and> owned d a (wd_db w)"
      have "\<exists>x \<in> set (vt_docs (wd_db w)). vd_id x = vd_id doc" if "ns \<noteq> []"
        using False that unfolding find_document_def find_None_iff by blast
      then have t: "vault_ok (write_tree doc a ns (wd_db w))" "vault_grows (wd_db w) (write_tree doc a ns (wd_db w))"
        using write_tree_ok[of "wd_db w" ns doc a] w assms by (auto simp: world_ok_def owned_def)
      then have "stays_ok E w (w\<lparr>wd_db := write_tree doc a ns (wd_db w)\<rparr>)" by (intro stays_db) simp
      moreover have "snd (write_chunk_nodes ns doc a w) = w\<lparr>wd_db := write_tree doc a ns (wd_db w)\<rparr>"
        using False by (auto simp: write_chunk_nodes_eq)
      ultimately show "world_ok (snd (write_chunk_nodes ns doc a w)) \<and> owned d a (wd_db (snd (write_chunk_nodes ns doc a w)))
          \<and> vault_grows (wd_saved w) (wd_saved (snd (write_chunk_nodes ns doc a w)))"
        using w owned_grows[OF _ t(2)] by (simp add: stays_ok_def)
    qed
  qed
  then show ?thesis by (simp add: op_keeps_def)
qed

lemma chunking_of_ok: "vault_ok v \<Longrightarrow> accepted_profile (chunking_of v)"
proof -
  assume v: "vault_ok v"
  have d: "accepted_profile default_chunking" by (simp add: accepted_profile_def default_chunking_def)
  show ?thesis
  proof (cases "active_profile v")
    case (Some p)
    then have "p \<in> set (vt_profiles v)" by (auto simp: active_profile_def find_Some_iff)
    with v Some show ?thesis by (simp add: chunking_of_def vault_ok_def profiles_ok_def)
  qed (simp add: chunking_of_def d)
qed

lemma chunk_blocks_tree: "accepted_profile C \<Longrightarrow> \<exists>ns. chunk_blocks bs C = Some ns \<and> list_all tree_ok ns"
  using chunk_blocks_ok[OF accepted_windows, of C bs] by (auto simp: list_all_iff node_ok_def)

lemma own_chunking:
  assumes "\<And>ns. list_all tree_ok ns \<Longrightarrow> op_keeps (stays_owned E d a) (f ns)"
  shows "op_keeps (stays_owned E d a) (cbind (read_db chunking_of) (\<lambda>config.
    case chunk_blocks bs config of None \<Rightarrow> cfail e | Some ns \<Rightarrow> f ns))"
proof -
  have "stays_owned E d a w (snd (cbind (read_db chunking_of) (\<lambda>config.
    case chunk_blocks bs config of None \<Rightarrow> cfail e | Some ns \<Rightarrow> f ns) w))" for w
  proof (cases "vault_ok (wd_db w)")
    case True
    obtain ns where "chunk_blocks bs (chunking_of (wd_db w)) = Some ns" "list_all tree_ok ns"
      using chunk_blocks_tree[OF chunking_of_ok[OF True]] by blast
    with assms[of ns] show ?thesis by (simp add: cbind_def read_db_def cget_def op_keeps_def)
  next
    case False
    then show ?thesis by (simp add: stays_owned_def world_ok_def)
  qed
  then show ?thesis by (simp add: op_keeps_def)
qed

lemma own_index_document: "op_keeps (stays_owned E (vd_id doc) a) (index_document E doc storage f a)"
  unfolding index_document_def
  by (intro own.bind own_chunking own_write_nodes own.basic own_stays[OF stays.waiting]
      own_stays[OF stays_edit[OF fine_delete_chunks]] own_stays[OF stays.read] own_stays[OF stays_write_document]
      own_stays[OF stays.committing] own_stays[OF stays_at_ingest])
    (simp_all add: indexed_document_def)

lemma owned_new:
  assumes "vault_ok v" "vd_id d = vt_next v" "vd_agent d = a"
  shows "owned (vd_id d) a (v\<lparr>vt_docs := vt_docs v @ [d], vt_next := Suc (vt_next v)\<rparr>)"
  using assms by (auto simp: owned_def vault_ok_def ids_ok_def)

lemma owned_old:
  assumes "vault_ok v" "d \<in> set (vt_docs v)" "vd_agent d = a"
  shows "owned (vd_id d) a v"
  unfolding owned_def using assms doc_unique[OF assms(1)] by (auto simp: vault_ok_def ids_ok_def)

lemma safe_ingest [intro!]: "op_keeps (stays_safe E) (ingest_document E base path source agent)"
proof (cases "ve_within E base path")
  case None then show ?thesis by (simp add: ingest_document_def safe_stays)
next
  case (Some storage)
  note storage = this
  show ?thesis
  proof (cases "ve_file E base storage")
    case None with storage show ?thesis by (simp add: ingest_document_def safe_stays)
  next
    case (Some f)
    define logical where "logical = (case source of None \<Rightarrow> sf_name f | Some p \<Rightarrow> if p = [] then sf_name f else p)"
    have i: "stays_safe E w (snd (index_document E d storage f agent w'))"
      if "world_ok w \<Longrightarrow> world_ok w' \<and> owned (vd_id d) agent (wd_db w') \<and> vault_grows (wd_saved w) (wd_saved w')" for d w w'
      using own_index_document[of E d agent storage f] that vault_grows_trans
      unfolding op_keeps_def stays_owned_def stays_safe_def by blast
    have "stays_safe E w (snd (ingest_document E base path source agent w))" for w
    proof (cases "documents_at (wd_db w) agent logical")
      case Nil
      let ?d = "new_document (vt_next (wd_db w)) agent logical storage f"
      let ?u = "(wd_db w)\<lparr>vt_docs := vt_docs (wd_db w) @ [?d], vt_next := Suc (vt_next (wd_db w))\<rparr>"
      have "snd (ingest_document E base path source agent w) = snd (index_document E ?d storage f agent (w\<lparr>wd_db := ?u\<rparr>))"
        using Nil by (simp add: ingest_document_def storage Some logical_def[symmetric] cbind_def read_db_def edit_db_def
            cget_def cput_def Let_def)
      moreover have "world_ok (w\<lparr>wd_db := ?u\<rparr>) \<and> owned (vd_id ?d) agent (wd_db (w\<lparr>wd_db := ?u\<rparr>))" if "world_ok w"
      proof -
        have v: "vault_ok (wd_db w)" "vault_grows (wd_saved w) (wd_db w)" "vault_ok (wd_saved w)"
          using that by (simp_all add: world_ok_def)
        have d: "vd_id ?d = vt_next (wd_db w)" "vd_agent ?d = agent" by (simp_all add: new_document_def)
        show ?thesis
          using fine_add_document[OF v(1) d(1)] owned_new[OF v(1) d] vault_grows_trans[OF v(2)] v(3)
          using that by (simp add: world_ok_def calls_permitted_def)
      qed
      ultimately show ?thesis using i[of w "w\<lparr>wd_db := ?u\<rparr>" ?d] by simp
    next
      case (Cons d ds)
      then have "d \<in> set (documents_at (wd_db w) agent logical)" by simp
      then have d: "d \<in> set (vt_docs (wd_db w))" "vd_agent d = agent" by (simp_all add: documents_at_def)
      have e: "ingest_document E base path source agent w =
         (if ds \<noteq> [] then (Inl (VaultFailure ''Multiple rows were found when one or none was required''), w)
          else if vd_hash d = sf_hash f \<and> vd_status d = ''indexed'' then (Inr (vd_id d), w)
          else index_document E d storage f agent w)"
        using Cons by (auto simp: ingest_document_def storage Some logical_def[symmetric] cbind_def read_db_def
            cget_def cfail_def cret_def Let_def split: list.split)
      show ?thesis
        unfolding e using i[of w w d] owned_old[OF _ d] safe.refl by (auto simp: world_ok_def)
    qed
    then show ?thesis by (simp add: op_keeps_def)
  qed
qed

lemma safe_rebuild_index [intro!]: "op_keeps (stays_safe E) (rebuild_index E locked)"
proof -
  have b: "op_keeps (stays_safe E) (build E i g r)" for i g r
    unfolding build_def fill_new_def
    by (intro safe.catch safe.bind safe.option safe.cond safe.read safe_rollback safe.basic safe.committing
        safe.embed_into safe_stays[OF stays_write_generation] safe_stays[OF stays_activate_row]) simp_all
  have n: "op_keeps (stays_ok E) (cbind (read_db id) (\<lambda>v. cbind (edit_db (\<lambda>u. u\<lparr>vt_generations := vt_generations u @ [new_generation E p v],
      vt_next := Suc (vt_next u)\<rparr>)) (\<lambda>_. cret v)))" for p
  proof -
    have "stays_ok E w (w\<lparr>wd_db := (wd_db w)\<lparr>vt_generations := vt_generations (wd_db w) @ [new_generation E p (wd_db w)],
        vt_next := Suc (vt_next (wd_db w))\<rparr>\<rparr>)" for w
      by (rule stays_db, simp only:, rule fine_add_generation) (simp_all add: new_generation_def Let_def)
    then show ?thesis
      by (simp add: op_keeps_def cbind_def read_db_def edit_db_def cget_def cput_def cret_def)
  qed
  have r: "rebuild_index E locked = (if locked then cfail RebuildInProgress
      else cbind (read_db (\<lambda>v. list_ex (\<lambda>g. ig_status g = ''building'') (vt_generations v))) (\<lambda>building.
        if building then cfail RebuildInProgress
        else cbind get_active_profile (\<lambda>p.
          cbind (cbind (read_db id) (\<lambda>v. cbind (edit_db (\<lambda>u. u\<lparr>vt_generations := vt_generations u @ [new_generation E p v],
            vt_next := Suc (vt_next u)\<rparr>)) (\<lambda>_. cret v))) (\<lambda>v.
          cbind (commit_db (ve_others E)) (\<lambda>_. build E (ig_id (new_generation E p v)) (new_generation E p v) (current_resource v))))))"
    by (rule ext) (simp add: rebuild_index_def cbind_def read_db_def edit_db_def cget_def cput_def cret_def Let_def
        split: prod.split sum.split)
  show ?thesis
    unfolding r
    by (intro safe.bind safe.cond safe.read safe.basic safe_stays[OF n] safe_stays[OF stays_profile] safe.committing b)
qed


section \<open>Requests\<close>

datatype vault_request =
    UploadScope string string string "string option"
  | ReindexDocument string "string option" nat
  | RemoveDocument "string option" nat
  | RebuildIndex bool
  | RepairIndex
  | ActivateGeneration nat
  | RemoveGeneration nat
  | StartupReconcile
  | PutProfile vault_config
  | PutResource string string bool
  | ValidateResource

definition run_op :: "'a vault_op \<Rightarrow> vault_world \<Rightarrow> vault_world" where
  "run_op m w = snd (m w)"

fun serve :: "vault_env \<Rightarrow> vault_request \<Rightarrow> vault_world \<Rightarrow> vault_world" where
  "serve E (UploadScope base storage name agent) = run_op (upload_scope E base storage name agent)"
| "serve E (ReindexDocument base agent d) = run_op (reindex_scope_document E base agent d)"
| "serve E (RemoveDocument agent d) = run_op (remove_scope E agent d)"
| "serve E (RebuildIndex locked) = run_op (rebuild E locked)"
| "serve E RepairIndex = run_op (repair E)"
| "serve E (ActivateGeneration i) = run_op (activate E i)"
| "serve E (RemoveGeneration i) = run_op (remove_generation E i)"
| "serve E StartupReconcile = run_op (startup_reconcile E)"
| "serve E (PutProfile c) = run_op (put_profile E c)"
| "serve E (PutResource p m allowed) = run_op (put_embedding_resource E p m allowed)"
| "serve E ValidateResource = run_op (validate_embedding_resource E)"

lemma safe_write_document [intro]:
  "\<lbrakk>\<And>d. vd_id (h d) = vd_id d; \<And>d. vd_agent (h d) = vd_agent d\<rbrakk> \<Longrightarrow> op_keeps (stays_safe E) (write_document i h)"
  by (rule safe_stays, rule stays_write_document)

lemma safe_upload: "op_keeps (stays_safe E) (upload_scope E base storage name agent)"
  unfolding upload_scope_def
  by (intro safe_request safe_answers safe.bind safe.cond safe_ingest safe.read safe.committing safe.basic safe_write_document) simp_all

lemma safe_reindex: "op_keeps (stays_safe E) (reindex_scope_document E base agent d)"
  unfolding reindex_scope_document_def
  by (intro safe_request safe_answers safe.bind safe.option safe.cond safe_ingest safe.read safe.committing safe.basic)

lemma safe_remove: "op_keeps (stays_safe E) (remove_scope E agent d)"
  unfolding remove_scope_def delete_document_def
  by (intro safe_request safe.bind safe.option safe.cond safe.read safe.committing safe.basic safe_edit fine_delete_document)

lemma safe_rebuild: "op_keeps (stays_safe E) (rebuild E locked)"
  unfolding rebuild_def
  by (intro safe_request safe.catch safe.bind safe.cond safe_rebuild_index safe.committing safe.basic)

lemma safe_repair: "op_keeps (stays_safe E) (repair E)"
  unfolding repair_def repair_index_def
  by (intro safe_request safe.bind safe.cond safe.option safe.pair safe.read safe.committing safe.basic safe_edit fine_refresh
      safe.embed_into)

lemma safe_activate: "op_keeps (stays_safe E) (activate E i)"
  unfolding activate_def activate_generation_def
  by (intro safe_request safe.catch safe.bind safe.cond safe.option safe.pair safe.read safe.committing safe.basic
      safe_stays[OF stays_activate_row] safe.embed_into) (auto split: vault_error.split)

lemma safe_remove_generation: "op_keeps (stays_safe E) (remove_generation E i)"
  unfolding remove_generation_def delete_generation_def
  by (intro safe_request safe.bind safe.cond safe.read safe.committing safe.basic safe_edit fine_delete_generation)

lemma safe_reconcile: "op_keeps (stays_safe E) (startup_reconcile E)"
proof -
  have "fine_step (\<lambda>v. v\<lparr>vt_generations := map (\<lambda>g. if ig_status g = ''building''
      then g\<lparr>ig_status := ''failed'', ig_error := Some m\<rparr> else g) (vt_generations v)\<rparr>)" for m
    by (rule fine_map_generations) (auto split: if_splits)
  then show "op_keeps (stays_safe E) (startup_reconcile E)"
    unfolding startup_reconcile_def reconcile_stale_builds_def
    by (intro safe_request safe.bind safe.read safe.committing safe.basic safe_edit)
qed

lemma safe_put_profile: "op_keeps (stays_safe E) (put_profile E c)"
proof -
  have "fine_step (\<lambda>v. v\<lparr>vt_profiles := map (\<lambda>x. if pf_id x = i then x\<lparr>pf_config := c, pf_revision := pf_revision x + 1\<rparr> else x) (vt_profiles v)\<rparr>)"
    if "config_in_bounds c" "cf_child_overlap (vf_chunking c) < cf_child_tokens (vf_chunking c)" for i
    by (rule fine_same_corpus)
      (use that in \<open>auto simp: vault_ok_defs config_in_bounds_def accepted_profile_def\<close>)
  then show "op_keeps (stays_safe E) (put_profile E c)"
    unfolding put_profile_def
    by (intro safe_request safe.cond safe.check safe.bind safe_stays[OF stays_profile] safe.basic safe_edit safe.committing) simp_all
qed

lemma safe_put_resource: "op_keeps (stays_safe E) (put_embedding_resource E p m allowed)"
proof -
  have "fine_step (\<lambda>v. v\<lparr>vt_resources := f v\<rparr>)" for f
    by (rule fine_same_corpus) (auto simp: vault_ok_defs)
  moreover have "fine_step (\<lambda>v. if vt_resources v = [] then v\<lparr>vt_resources := [x], vt_next := Suc (vt_next v)\<rparr> else v)" for x
    by (rule fine_same_corpus) (auto simp: vault_ok_defs split: if_splits)
  ultimately show "op_keeps (stays_safe E) (put_embedding_resource E p m allowed)"
    unfolding put_embedding_resource_def Let_def
    by (intro safe_request safe.bind safe.option safe.read safe.committing safe.basic safe_edit)
qed

lemma safe_validate: "op_keeps (stays_safe E) (validate_embedding_resource E)"
proof -
  have "fine_step (\<lambda>v. v\<lparr>vt_resources := f v\<rparr>)" for f
    by (rule fine_same_corpus) (auto simp: vault_ok_defs)
  moreover have "op_keeps (stays_safe E) (probe_dimensions E r)" for r
    unfolding probe_dimensions_def
    by (intro safe.bind safe.embed_texts) (auto split: list.split option.split)
  ultimately show "op_keeps (stays_safe E) (validate_embedding_resource E)"
    unfolding validate_embedding_resource_def
    by (intro safe_request safe.catch safe.bind safe.option safe.cond safe.read safe.committing safe.basic safe_edit)
      (auto split: vault_error.split)
qed

lemma serve_safe: "stays_safe E w (serve E r w)"
  using safe_upload safe_reindex safe_remove safe_rebuild safe_repair safe_activate safe_remove_generation
    safe_reconcile safe_put_profile safe_put_resource safe_validate
  by (cases r) (auto simp: run_op_def op_keeps_def)

text \<open>What other sessions do by serving requests is fair.\<close>

definition as_session :: "vault_env \<Rightarrow> vault_request \<Rightarrow> vault \<Rightarrow> vault" where
  "as_session E r v = wd_saved (serve E r \<lparr>wd_db = v, wd_saved = v, wd_waits = 0, vw_calls = []\<rparr>)"

lemma requests_are_fair: "fair_env E \<Longrightarrow> fine_step (as_session E r)"
  unfolding fine_step_def as_session_def
  using serve_safe[of E "\<lparr>wd_db = v, wd_saved = v, wd_waits = 0, vw_calls = []\<rparr>" r for v]
  by (auto simp: stays_safe_def world_ok_def calls_permitted_def)

definition empty_vault :: "provider_row list \<Rightarrow> vault" where
  "empty_vault ps = \<lparr>vt_docs = [], vt_chunks = [], vt_fts = [], vt_vectors = [], vt_generations = [],
     vt_profiles = [], vt_resources = [], vt_providers = ps, vt_next = 0\<rparr>"

lemma empty_ok: "vault_ok (empty_vault ps)"
  by (simp add: vault_ok_defs empty_vault_def)

lemma serve_all_ok: "fair_env E \<Longrightarrow> world_ok w \<Longrightarrow> world_ok (fold (serve E) rs w)"
  by (induction rs arbitrary: w) (use serve_safe in \<open>auto simp: stays_safe_def\<close>)


section \<open>Frames of quiet indexing\<close>

definition quiet_env :: "vault_env \<Rightarrow> bool" where
  "quiet_env E \<longleftrightarrow> (\<forall>n v. ve_others E n v = v)"

lemma quiet_fair: "quiet_env E \<Longrightarrow> fair_env E"
  by (simp add: quiet_env_def fair_env_def fine_step_def)

lemma quiet_yield [simp]:
  "quiet_env E \<Longrightarrow> wd_db (yield_world (ve_others E) w) = wd_db w" "quiet_env E \<Longrightarrow> wd_saved (yield_world (ve_others E) w) = wd_saved w"
  by (auto simp: quiet_env_def yield_world_def Let_def)

definition keeps_fts :: "vault_env \<Rightarrow> vault_world \<Rightarrow> vault_world \<Rightarrow> bool" where
  "keeps_fts E w w' \<longleftrightarrow> (quiet_env E \<longrightarrow> vt_fts (wd_db w') = vt_fts (wd_db w))"

interpretation fts: index_frame "keeps_fts E" E for E
  by unfold_locales (auto simp: keeps_fts_def set_generation_def)

text \<open>The corpus and the status of every generation.\<close>

definition statuses :: "vault \<Rightarrow> (nat \<times> string) list" where
  "statuses v = map (\<lambda>g. (ig_id g, ig_status g)) (vt_generations v)"

definition same_index :: "vault \<Rightarrow> vault \<Rightarrow> bool" where
  "same_index u v \<longleftrightarrow> vt_docs v = vt_docs u \<and> vt_chunks v = vt_chunks u \<and> vt_fts v = vt_fts u \<and> statuses v = statuses u"

definition keeps_index :: "vault_env \<Rightarrow> vault_world \<Rightarrow> vault_world \<Rightarrow> bool" where
  "keeps_index E w w' \<longleftrightarrow> (quiet_env E \<and> same_index (wd_saved w) (wd_db w) \<longrightarrow>
     same_index (wd_saved w) (wd_saved w') \<and> same_index (wd_saved w') (wd_db w'))"

lemma statuses_set_stats [simp]: "statuses (set_generation i (\<lambda>x. x\<lparr>ig_stats := f x\<rparr>) v) = statuses v"
  by (simp add: statuses_def set_generation_def)

interpretation kept: index_frame "keeps_index E" E for E
proof
  show "keeps_index E w (w\<lparr>wd_db := set_generation g (\<lambda>x. x\<lparr>ig_stats := f x\<rparr>) (wd_db w)\<rparr>)" for w g f
    using statuses_set_stats[of g f "wd_db w"] by (simp add: keeps_index_def same_index_def set_generation_def)
qed (auto simp: keeps_index_def same_index_def statuses_def)


section \<open>Ingestion and rebuilding in an open session\<close>

definition opened :: "vault \<Rightarrow> vault_world" where
  "opened v = \<lparr>wd_db = v, wd_saved = v, wd_waits = 0, vw_calls = []\<rparr>"

lemma opened_ok: "vault_ok v \<Longrightarrow> world_ok (opened v)"
  by (simp add: world_ok_def opened_def calls_permitted_def)


lemma write_tree_fts:
  "vt_fts (write_tree doc a ns v) = vt_fts v @ map (fts_row_of doc a)
     (searched_rows (tree_rows (vt_next v) (vd_id doc) (lay_out 0 ns)) (kid_rows (vt_next v) (vd_id doc) (lay_out 0 ns)))"
  by (simp add: write_tree_def Let_def)

lemma write_tree_texts:
  assumes "list_all tree_ok ns" "n \<in> set (retrievable ns)"
  shows "\<exists>r \<in> set (vt_fts (write_tree doc a ns v)). ft_doc r = vd_id doc \<and> ft_agent r = a \<and> ft_text r = cn_text n"
proof -
  let ?found = "searched_rows (tree_rows (vt_next v) (vd_id doc) (lay_out 0 ns)) (kid_rows (vt_next v) (vd_id doc) (lay_out 0 ns))"
  have "cn_text n \<in> vc_text ` set (map fst ?found)" using written_found(2)[OF assms(1)] assms(2) by blast
  then obtain x where "x \<in> set ?found" "vc_text (fst x) = cn_text n" by auto
  then show ?thesis unfolding write_tree_fts
    by (intro bexI[of _ "fts_row_of doc a x"]) (auto simp: fts_row_of_def split: prod.splits)
qed

lemma keeps_fts_run: "op_keeps (keeps_fts E) m \<Longrightarrow> m w = (r, w') \<Longrightarrow> quiet_env E \<Longrightarrow> vt_fts (wd_db w') = vt_fts (wd_db w)"
  by (auto simp: op_keeps_def keeps_fts_def dest: spec[of _ w])

lemma fts_write_document [intro]: "op_keeps (keeps_fts E) (write_document i h)"
  unfolding write_document_def edit_db_def
  by (intro fts.bind fts.cond fts.read fts.basic fts.change) (simp add: keeps_fts_def set_document_def)

lemma fts_at_ingest: "op_keeps (keeps_fts E) (embed_chunks_at_ingest E cs)"
proof -
  have "op_keeps (keeps_fts E) get_active_profile"
    unfolding get_active_profile_def Let_def edit_db_def
    by (intro fts.bind fts.option fts.read fts.basic fts.change) (simp add: keeps_fts_def)
  then show ?thesis
    unfolding embed_chunks_at_ingest_def
    by (intro fts.bind fts.cond fts.option fts.pair fts.read fts.basic fts.embed_into)
qed

lemma stays_run: "op_keeps (stays_ok E) m \<Longrightarrow> m w = (r, w') \<Longrightarrow> fair_env E \<Longrightarrow> world_ok w \<Longrightarrow> world_ok w'"
  by (auto simp: op_keeps_def stays_ok_def dest: spec[of _ w])

lemma index_document_searchable:
  assumes q: "quiet_env E" and w: "world_ok w" and d: "vd_agent doc = a"
    and run: "index_document E doc storage f a w = (Inr i, w')"
  shows "\<exists>x. sf_extract f = Inr x \<and> i = vd_id doc
    \<and> (\<forall>b \<in> set (ed_blocks x). \<forall>t \<in> set (py_split (eb_text b)).
        \<exists>r \<in> set (vt_fts (wd_db w')). ft_doc r = vd_id doc \<and> ft_agent r = a \<and> t \<in> set (py_split (ft_text r)))"
proof -
  note fair = quiet_fair[OF q]
  define after where "after chunks = cbind (read_db active_generation) (\<lambda>active.
         cbind (write_document (vd_id doc) (\<lambda>d. d\<lparr>vd_semantic := (if active = None then ''na'' else ''pending'')\<rparr>)) (\<lambda>_.
         cbind (commit_db (ve_others E)) (\<lambda>_.
         cbind (embed_chunks_at_ingest E chunks) (\<lambda>state.
         cbind (write_document (vd_id doc) (\<lambda>d. d\<lparr>vd_semantic := state\<rparr>)) (\<lambda>_.
           cret (vd_id doc))))))" for chunks
  from run obtain w1 x w2 w3 where
    s1: "(wait (ve_others E) :: unit vault_op) w = (Inr (), w1)" and x: "Inr x = sf_extract f"
    and s2: "(edit_db (delete_chunks_of (vd_id doc)) :: unit vault_op) w1 = (Inr (), w2)"
    and s3: "write_document (vd_id doc) (indexed_document storage f) w2 = (Inr (), w3)"
    and body: "(case chunk_blocks (ed_blocks x) (chunking_of (wd_db w3)) of
        None \<Rightarrow> cfail (VaultFailure ''chunking does not return'')
      | Some nodes \<Rightarrow> cbind (write_chunk_nodes nodes (indexed_document storage f doc) a) after) w3 = (Inr i, w')"
    unfolding index_document_def after_def[symmetric] by (elim cbindE) (simp add: read_db_def)
  from body obtain nodes where c: "chunk_blocks (ed_blocks x) (chunking_of (wd_db w3)) = Some nodes"
    and "cbind (write_chunk_nodes nodes (indexed_document storage f doc) a) after w3 = (Inr i, w')"
    by (cases "chunk_blocks (ed_blocks x) (chunking_of (wd_db w3))") simp_all
  then obtain chunks w5 where s4: "write_chunk_nodes nodes (indexed_document storage f doc) a w3 = (Inr chunks, w5)"
    and rest: "after chunks w5 = (Inr i, w')" by (elim cbindE) blast
  have ok: "world_ok w3"
    using stays_run[OF stays.waiting s1 fair w] stays_run[OF stays_edit[OF fine_delete_chunks] s2 fair]
      stays_run[OF stays_write_document s3 fair] by (simp add: indexed_document_def)
  then have "accepted_profile (chunking_of (wd_db w3))" by (intro chunking_of_ok) (simp add: world_ok_def)
  from chunk_blocks_ok[OF accepted_windows[OF this], of "ed_blocks x"] c
  have n: "list_all (node_ok (chunking_of (wd_db w3))) nodes"
    "(\<Union>b \<in> set (ed_blocks x). set (py_split (eb_text b))) \<subseteq> all_words (retrievable nodes)" by auto
  then have tree: "list_all tree_ok nodes" by (auto simp: list_all_iff node_ok_def)
  have db5: "wd_db w5 = write_tree (indexed_document storage f doc) a nodes (wd_db w3)"
    using s4 by (auto simp: write_chunk_nodes_eq split: if_splits)
  have k: "op_keeps (keeps_fts E) (after chunks)"
    unfolding after_def by (intro fts.bind fts.read fts_write_document fts.committing fts_at_ingest fts.basic)
  have "vt_fts (wd_db w') = vt_fts (wd_db w5)" by (rule keeps_fts_run[OF k rest q])
  moreover have "i = vd_id doc" using rest unfolding after_def by (elim cbindE) simp
  moreover have "\<exists>r \<in> set (vt_fts (wd_db w5)). ft_doc r = vd_id doc \<and> ft_agent r = a \<and> t \<in> set (py_split (ft_text r))"
    if b: "b \<in> set (ed_blocks x)" "t \<in> set (py_split (eb_text b))" for b t
  proof -
    from b n(2) obtain m where m: "m \<in> set (retrievable nodes)" "t \<in> set (py_split (cn_text m))"
      by (auto simp: all_words_def node_words_def)
    from write_tree_texts[OF tree m(1), of "indexed_document storage f doc" a "wd_db w3"] m(2)
    show ?thesis unfolding db5 by (auto simp: indexed_document_def)
  qed
  ultimately show ?thesis using x[symmetric] by simp
qed


definition already_indexed :: "vault \<Rightarrow> string option \<Rightarrow> string \<Rightarrow> source_file \<Rightarrow> bool" where
  "already_indexed v agent name f \<longleftrightarrow>
     (\<exists>d \<in> set (documents_at v agent name). vd_hash d = sf_hash f \<and> vd_status d = ''indexed'')"

lemma ingest_cases:
  assumes "ve_within E base path = Some storage" "ve_file E base storage = Some f" "name \<noteq> []"
    and "ingest_document E base path (Some name) agent w = (Inr i, w')" "world_ok w"
  obtains "already_indexed (wd_db w) agent name f" "w' = w" "\<exists>d \<in> set (documents_at (wd_db w) agent name). vd_id d = i"
  | d w1 where "index_document E d storage f agent w1 = (Inr i, w')" "world_ok w1" "vd_agent d = agent"
proof (cases "documents_at (wd_db w) agent name")
  case Nil
  let ?d = "new_document (vt_next (wd_db w)) agent name storage f"
  let ?w = "w\<lparr>wd_db := (wd_db w)\<lparr>vt_docs := vt_docs (wd_db w) @ [?d], vt_next := Suc (vt_next (wd_db w))\<rparr>\<rparr>"
  have d: "vd_id ?d = vt_next (wd_db w)" "vd_agent ?d = agent" by (simp_all add: new_document_def)
  have "index_document E ?d storage f agent ?w = (Inr i, w')"
    using assms Nil by (simp add: ingest_document_def cbind_def read_db_def edit_db_def cget_def cput_def Let_def)
  moreover have "world_ok ?w"
    using assms(5) fine_add_document[OF _ d(1)] vault_grows_trans by (auto simp: world_ok_def calls_permitted_def)
  ultimately show ?thesis using that(2) d(2) by blast
next
  case (Cons d ds)
  then have "d \<in> set (documents_at (wd_db w) agent name)" by simp
  then have d: "vd_agent d = agent" by (simp add: documents_at_def)
  have e: "ingest_document E base path (Some name) agent w =
     (if ds \<noteq> [] then (Inl (VaultFailure ''Multiple rows were found when one or none was required''), w)
      else if vd_hash d = sf_hash f \<and> vd_status d = ''indexed'' then (Inr (vd_id d), w)
      else index_document E d storage f agent w)"
    using Cons assms(1-3) by (cases ds) (simp_all add: ingest_document_def cbind_def read_db_def cget_def cfail_def cret_def Let_def)
  show ?thesis
  proof (cases "ds = [] \<and> vd_hash d = sf_hash f \<and> vd_status d = ''indexed''")
    case True
    with e assms(4) have "w' = w" "vd_id d = i" by auto
    with True Cons that(1) show ?thesis by (auto simp: already_indexed_def)
  next
    case False
    with e assms(4) have "index_document E d storage f agent w = (Inr i, w')" by (auto split: if_splits)
    with that(2) assms(5) d show ?thesis by blast
  qed
qed

lemma request_run: "request_op m w = (Inr x, w') \<Longrightarrow> \<exists>w1. m w = (Inr x, w1) \<and> w' = w1\<lparr>wd_db := wd_saved w1\<rparr>"
  by (auto simp: request_op_def split: prod.splits)

lemma answer_run: "answer_value_errors m w = (Inr x, w') \<Longrightarrow> m w = (Inr x, w')"
  unfolding answer_value_errors_def catch_op_def
  by (auto simp: cbind_def rollback_db_def cput_def cfail_def split: prod.splits sum.splits vault_error.splits)


lemma kept_fill: "op_keeps (keeps_index E) (fill_new E g r ids)"
  unfolding fill_new_def
  by (intro kept.bind kept.option kept.cond kept.basic kept.stats kept.embed_into)

lemma find_by_statuses: "find_generation v i \<noteq> None \<longleftrightarrow> i \<in> fst ` set (statuses v)"
  by (force simp: find_generation_def statuses_def find_None_iff)

text \<open>What a build leaves committed: the new generation takes over, or nothing but its failed row changes.\<close>

definition took_over :: "nat \<Rightarrow> vault \<Rightarrow> vault \<Rightarrow> bool" where
  "took_over i u v \<longleftrightarrow> vt_chunks v = vt_chunks u \<and> vt_fts v = vt_fts u
     \<and> statuses v = map (\<lambda>(g, s). (g, if g = i then ''active'' else if s = ''active'' then ''superseded'' else s)) (statuses u)
     \<and> vt_docs v = map (\<lambda>d. d\<lparr>vd_semantic := semantic_state v i (vd_id d)\<rparr>) (vt_docs u)"

definition gave_up :: "nat \<Rightarrow> vault \<Rightarrow> vault \<Rightarrow> bool" where
  "gave_up i u v \<longleftrightarrow> vt_chunks v = vt_chunks u \<and> vt_fts v = vt_fts u \<and> vt_docs v = vt_docs u
     \<and> statuses v = map (\<lambda>(g, s). (g, if g = i then ''failed'' else s)) (statuses u)"

lemma has_vector_rows: "vt_vectors u = vt_vectors v \<Longrightarrow> has_vector u = has_vector v"
  by (intro ext) (simp add: has_vector_def)

lemma semantic_state_rows:
  assumes "vt_chunks u = vt_chunks v" "vt_vectors u = vt_vectors v"
  shows "semantic_state u = semantic_state v"
  by (intro ext) (simp only: semantic_state_def has_vector_rows[OF assms(2)] assms(1))

lemma activated_took_over:
  "took_over i v (refresh_semantic_states i (v\<lparr>vt_generations := map (promote i) (vt_generations v)\<rparr>))" (is "took_over i v (refresh_semantic_states i ?u)")
proof -
  have "semantic_state (refresh_semantic_states i ?u) = semantic_state ?u"
    by (rule semantic_state_rows) (simp_all add: refresh_semantic_states_def)
  then have "vt_docs (refresh_semantic_states i ?u) = map (\<lambda>d. d\<lparr>vd_semantic := semantic_state (refresh_semantic_states i ?u) i (vd_id d)\<rparr>) (vt_docs v)"
    by (simp only:) (simp add: refresh_semantic_states_def)
  then show ?thesis
    unfolding took_over_def by (simp add: refresh_semantic_states_def statuses_def) (auto simp: promote_def retire_def)
qed

lemma failed_gave_up: "gave_up i v (set_generation i (\<lambda>x. x\<lparr>ig_status := ''failed'', ig_error := m\<rparr>) v)"
  by (auto simp: gave_up_def set_generation_def statuses_def)

lemma took_over_same: "same_index u v \<Longrightarrow> took_over i v w \<Longrightarrow> took_over i u w"
  by (simp add: took_over_def same_index_def)

lemma gave_up_same: "same_index u v \<Longrightarrow> gave_up i v w \<Longrightarrow> gave_up i u w"
  by (simp add: gave_up_def same_index_def)

lemma same_index_trans: "same_index u v \<Longrightarrow> same_index v w \<Longrightarrow> same_index u w"
  by (simp add: same_index_def)

lemma write_generation_eq:
  "write_generation i h w = (if find_generation (wd_db w) i = None then (Inl (VaultFailure ''row has been deleted''), w)
     else (Inr (), w\<lparr>wd_db := set_generation i h (wd_db w)\<rparr>))"
  by (simp add: write_generation_def cbind_def read_db_def cget_def cfail_def edit_db_def cput_def)

lemma build_outcome:
  assumes q: "quiet_env E" and w: "wd_db w = wd_saved w" and i: "i \<in> fst ` set (statuses (wd_saved w))"
    and run: "build E i g r w = (res, w')"
  shows "case res of Inr j \<Rightarrow> j = i \<and> took_over i (wd_saved w) (wd_saved w') | Inl e \<Rightarrow> gave_up i (wd_saved w) (wd_saved w')"
proof -
  define ids where "ids = missing_chunk_ids (wd_db w) i"
  obtain s w1 where f: "fill_new E g r ids w = (s, w1)" by (cases "fill_new E g r ids w")
  have "keeps_index E w w1" using kept_fill[of E g r ids] f by (auto simp: op_keeps_def dest: spec[of _ w])
  then have k: "same_index (wd_saved w) (wd_saved w1)" "same_index (wd_saved w1) (wd_db w1)"
    using q w by (simp_all add: keeps_index_def same_index_def)
  then have here: "find_generation (wd_db w1) i \<noteq> None" "find_generation (wd_saved w1) i \<noteq> None"
    using i unfolding find_by_statuses by (simp_all add: same_index_def)
  show ?thesis
  proof (cases s)
    case (Inl e)
    have "res = Inl e \<and> wd_saved w' = set_generation i (\<lambda>x. x\<lparr>ig_status := ''failed'', ig_error := Some (take 500 (error_text e))\<rparr>) (wd_saved w1)"
      using run f Inl here(2) q
      by (auto simp: build_def catch_op_def cbind_def read_db_def cget_def cfail_def rollback_db_def cput_def commit_db_def
          write_generation_eq ids_def[symmetric])
    then show ?thesis using gave_up_same[OF k(1) failed_gave_up] by simp
  next
    case (Inr u)
    have "res = Inr i \<and> wd_saved w' = refresh_semantic_states i ((wd_db w1)\<lparr>vt_generations := map (promote i) (vt_generations (wd_db w1))\<rparr>)"
      using run f Inr here(1) q
      by (auto simp: build_def catch_op_def cbind_def read_db_def cget_def cret_def cput_def commit_db_def
          activate_row_eq ids_def[symmetric])
    then show ?thesis using took_over_same[OF same_index_trans[OF k] activated_took_over] by simp
  qed
qed

lemma build_committed: "quiet_env E \<Longrightarrow> build E i g r w = (Inr j, w') \<Longrightarrow> wd_saved w' = wd_db w'"
  unfolding build_def catch_op_def
  by (auto simp: cbind_eq_Inr commit_db_def cput_def cret_def cbind_def cfail_def split: prod.splits sum.splits)

text \<open>A rebuild in a session of its own, with its request's commit.\<close>

lemma profile_run:
  assumes "get_active_profile w = (res, w')"
  shows "\<exists>p ps n. res = Inr p \<and> w' = w\<lparr>wd_db := (wd_db w)\<lparr>vt_profiles := ps, vt_next := n\<rparr>\<rparr>
    \<and> vt_next (wd_db w) \<le> n"
proof (cases "active_profile (wd_db w)")
  case None
  then show ?thesis
    using assms by (auto simp: get_active_profile_def cbind_def read_db_def cget_def cret_def edit_db_def cput_def Let_def
      intro!: exI[of _ "Suc (vt_next (wd_db w))"])
next
  case (Some p)
  then show ?thesis
    using assms by (auto simp: get_active_profile_def cbind_def read_db_def cget_def cret_def
      intro!: exI[of _ "vt_next (wd_db w)"] exI[of _ "vt_profiles (wd_db w)"])
qed

section \<open>Behaviours worth knowing\<close>

text \<open>Re-indexing a document whose file is unchanged commits nothing new, whatever the profile says by now.\<close>

lemma reindex_of_unchanged_is_noop:
  assumes "quiet_env E" "find_document v d = Some doc" "vd_agent doc = agent" "ve_within E base (vd_storage doc) = Some path"
    and "ve_within E base path = Some path" "ve_file E base path = Some f"
    and "vd_source doc \<noteq> []" "documents_at v agent (vd_source doc) = [doc]" "vd_hash doc = sf_hash f" "vd_status doc = ''indexed''"
  shows "fst (reindex_scope_document E base agent d (opened v)) = Inr (vd_id doc)
    \<and> wd_saved (snd (reindex_scope_document E base agent d (opened v))) = v"
  using assms
  by (simp add: reindex_scope_document_def request_op_def answer_value_errors_def catch_op_def ingest_document_def cbind_def
      read_db_def cget_def cret_def commit_db_def cput_def opened_def Let_def)

text \<open>A resource configured for a local endpoint carries the egress flag although the operator did not set it.\<close>

lemma local_resource_opts_in:
  "provider_is_local E p \<Longrightarrow> er_egress (configured E p m False r) \<and> egress_permitted E p' (configured E p m False r)"
  by (simp add: configured_def egress_permitted_def)

text \<open>A generation that is still being built can be deleted.\<close>

lemma building_generation_deletable:
  "find_generation (wd_db w) i = Some g \<Longrightarrow> ig_status g = ''building'' \<Longrightarrow> fst (delete_generation i w) = Inr True"
  by (simp add: delete_generation_def cbind_def read_db_def cget_def edit_db_def cput_def cret_def)


section \<open>An example\<close>

definition ex_vault_env :: vault_env where
  "ex_vault_env = \<lparr>ve_within = (\<lambda>base p. Some p),
     ve_file = (\<lambda>base p. Some \<lparr>sf_name = p, sf_hash = ''h'', sf_size = 9, sf_extract = Inr \<lparr>ed_blocks = [ex_text]\<rparr>\<rparr>),
     ve_host = id, ve_embed = (\<lambda>n m ts. Some (map (\<lambda>t. [1]) ts)), ve_adapter = ''python'', ve_others = (\<lambda>n v. v)\<rparr>"

lemma ex_vault_env_quiet: "quiet_env ex_vault_env"
  by (simp add: quiet_env_def ex_vault_env_def)

lemma ex_upload: "\<exists>w. upload_scope ex_vault_env ''/kb'' ''a.md'' ''a.md'' None (opened (empty_vault [])) = (Inr 0, w)"
  by (simp add: upload_scope_def request_op_def answer_value_errors_def catch_op_def ingest_document_def cbind_def
      ex_vault_env_def opened_def empty_vault_def read_db_def cget_def documents_at_def new_document_def edit_db_def cput_def
      index_document_def wait_def yield_world_def clift_def write_document_def find_document_def delete_chunks_of_def
      drop_chunks_def set_document_def indexed_document_def chunking_of_def active_profile_def ex_text_chunks
      write_chunk_nodes_def Let_def active_generation_def commit_db_def embed_chunks_at_ingest_def cret_def cfail_def)

lemma ex_rebuild: "\<exists>w. rebuild ex_vault_env False (opened (empty_vault [])) = (Inr 1, w)"
  by (simp add: rebuild_def request_op_def catch_op_def cbind_def rebuild_index_def get_active_profile_def active_profile_def
      ex_vault_env_def opened_def empty_vault_def read_db_def cget_def edit_db_def cput_def yield_world_def new_generation_def
      current_resource_def build_def missing_chunk_ids_def fill_new_def activate_row_eq find_generation_def Let_def
      commit_db_def cret_def cfail_def)


section \<open>Claims\<close>

text \<open>C25. After any sequence of requests, with other sessions committing whatever requests commit at every
  wait: at most one generation is active; every full-text row carries the text of a searched chunk and the
  scope of that chunk's document; every searched chunk has a full-text row; vectors point at chunks that
  exist; and text was sent to an embedding provider only at a local endpoint or with the operator's flag.\<close>
theorem vault_invariant:
  assumes "fair_env E"
  shows "let w = fold (serve E) rs (opened (empty_vault ps)); v = wd_saved w in
     length (filter (\<lambda>g. ig_status g = ''active'') (vt_generations v)) \<le> 1
     \<and> (\<forall>r \<in> set (vt_fts v). \<exists>c \<in> set (vt_chunks v). \<exists>d \<in> set (vt_docs v).
          vc_id c = ft_chunk r \<and> vc_text c = ft_text r \<and> retrievable_kind c \<and> vd_id d = vc_doc c \<and> vd_agent d = ft_agent r)
     \<and> (\<forall>c \<in> set (vt_chunks v). retrievable_kind c \<longrightarrow> (\<exists>r \<in> set (vt_fts v). ft_chunk r = vc_id c))
     \<and> (\<forall>x \<in> set (vt_vectors v). \<exists>c \<in> set (vt_chunks v). vc_id c = ce_chunk x)
     \<and> list_all (\<lambda>c. eg_local c \<or> eg_allowed c) (vw_calls w)"
proof -
  define w where "w = fold (serve E) rs (opened (empty_vault ps))"
  define v where "v = wd_saved w"
  have w: "world_ok w" unfolding w_def by (rule serve_all_ok[OF assms opened_ok[OF empty_ok]])
  then have v: "vault_ok v" by (simp add: world_ok_def v_def)
  have "\<exists>c \<in> set (vt_chunks v). \<exists>d \<in> set (vt_docs v). vc_id c = ft_chunk r \<and> vc_text c = ft_text r
      \<and> retrievable_kind c \<and> vd_id d = vc_doc c \<and> vd_agent d = ft_agent r" if "r \<in> set (vt_fts v)" for r
  proof -
    from v that obtain c where c: "c \<in> set (vt_chunks v)" "vc_id c = ft_chunk r" "vc_doc c = ft_doc r"
      "vc_text c = ft_text r" "retrievable_kind c" unfolding vault_ok_def fts_ok_def by blast
    from v c(1) obtain d where d: "d \<in> set (vt_docs v)" "vd_id d = vc_doc c"
      unfolding vault_ok_def chunks_ok_def by blast
    have "vd_agent d = ft_agent r" using v that d c(3) unfolding vault_ok_def fts_ok_def by simp
    with c d show ?thesis by blast
  qed
  with v w show ?thesis
    unfolding Let_def w_def[symmetric] v_def[symmetric]
    by (simp add: vault_ok_def one_active_def fts_ok_def vectors_ok_def world_ok_def calls_permitted_def)
qed

theorem vault_invariant_witness:
  "let E = ex_vault_env\<lparr>ve_others := \<lambda>n. as_session ex_vault_env (RemoveDocument None n)\<rparr>;
       v = wd_saved (fold (serve E) [UploadScope ''/kb'' ''a.md'' ''a.md'' None, RebuildIndex False] (opened (empty_vault [])))
   in length (filter (\<lambda>g. ig_status g = ''active'') (vt_generations v)) \<le> 1"
proof -
  have "fair_env (ex_vault_env\<lparr>ve_others := \<lambda>n. as_session ex_vault_env (RemoveDocument None n)\<rparr>)"
    using requests_are_fair[OF quiet_fair[OF ex_vault_env_quiet]] by (simp add: fair_env_def)
  then show ?thesis using vault_invariant unfolding Let_def by blast
qed



text \<open>C27. A rebuild takes over completely or not at all: with no build under way and no other writer, the endpoint
  either leaves the new generation active, every active one superseded and every document's state computed
  against the new generation, or it leaves documents and the status of every generation as they were, with
  one more row marked failed; the chunks and the full-text rows are untouched in both cases.\<close>
theorem rebuild_is_atomic:
  assumes "quiet_env E" "vault_ok v" "\<not> list_ex (\<lambda>g. ig_status g = ''building'') (vt_generations v)"
    and "rebuild E False (opened v) = (res, w')"
  shows "vt_chunks (wd_saved w') = vt_chunks v \<and> vt_fts (wd_saved w') = vt_fts v \<and>
    (case res of
       Inr i \<Rightarrow> statuses (wd_saved w') = map (\<lambda>(g, s). (g, if s = ''active'' then ''superseded'' else s)) (statuses v) @ [(i, ''active'')]
         \<and> vt_docs (wd_saved w') = map (\<lambda>d. d\<lparr>vd_semantic := semantic_state (wd_saved w') i (vd_id d)\<rparr>) (vt_docs v)
     | Inl e \<Rightarrow> vt_docs (wd_saved w') = vt_docs v \<and> (\<exists>i. statuses (wd_saved w') = statuses v @ [(i, ''failed'')]))"
proof -
  obtain p w1 where prof: "get_active_profile (opened v) = (p, w1)" by (cases "get_active_profile (opened v)")
  from profile_run[OF this] obtain q ps n where p: "p = Inr q" "vt_next v \<le> n"
    and w1: "w1 = (opened v)\<lparr>wd_db := v\<lparr>vt_profiles := ps, vt_next := n\<rparr>\<rparr>" by (auto simp: opened_def)
  define g where "g = new_generation E q (wd_db w1)"
  define u where "u = (wd_db w1)\<lparr>vt_generations := vt_generations (wd_db w1) @ [g], vt_next := Suc (vt_next (wd_db w1))\<rparr>"
  define w2 where "w2 = yield_world (ve_others E) (w1\<lparr>wd_db := u, wd_saved := u\<rparr>)"
  have g: "ig_id g = n" "ig_status g = ''building''" by (simp_all add: g_def new_generation_def Let_def w1)
  have w2: "wd_db w2 = u" "wd_saved w2 = u" using assms(1) by (simp_all add: w2_def)
  have u: "statuses u = statuses v @ [(n, ''building'')]" "vt_chunks u = vt_chunks v" "vt_fts u = vt_fts v" "vt_docs u = vt_docs v"
    by (simp_all add: u_def w1 statuses_def g)
  obtain b w3 where b: "build E n g (current_resource (wd_db w1)) w2 = (b, w3)"
    by (cases "build E n g (current_resource (wd_db w1)) w2")
  have out: "case b of Inr j \<Rightarrow> j = n \<and> took_over n u (wd_saved w3) | Inl e \<Rightarrow> gave_up n u (wd_saved w3)"
    using build_outcome[OF assms(1) _ _ b] w2 u(1) by (simp split: sum.splits)
  have r: "rebuild_index E False (opened v) = (b, w3)"
    using assms(3) prof b p(1)
    by (simp add: rebuild_index_def cbind_def read_db_def cget_def edit_db_def cput_def commit_db_def Let_def
        g_def[symmetric] u_def[symmetric] w2_def opened_def g(1))
  have fin: "wd_saved w' = wd_saved w3 \<and> (case b of Inr j \<Rightarrow> res = Inr j | Inl e \<Rightarrow> \<exists>e. res = Inl e)"
  proof (cases b)
    case (Inl e)
    then show ?thesis
      using assms(4) r by (auto simp: rebuild_def request_op_def catch_op_def cbind_def cfail_def split: if_splits)
  next
    case (Inr j)
    then have "wd_saved w3 = wd_db w3" using build_committed[OF assms(1) b[unfolded Inr]] by simp
    then show ?thesis
      using assms(1,4) r Inr by (auto simp: rebuild_def request_op_def catch_op_def cbind_def cret_def commit_db_def cput_def)
  qed
  have old: "map (\<lambda>(g, s). (g, if g = n then x else h s)) (statuses v) = map (\<lambda>(g, s). (g, h s)) (statuses v)" for x h
    using assms(2) p(2) by (auto simp: statuses_def vault_ok_defs)
  show ?thesis
  proof (cases b)
    case (Inl e)
    then have "gave_up n u (wd_saved w')" using out fin by simp
    moreover have "map (\<lambda>(g, s). (g, s)) (statuses v) = statuses v" by (simp add: case_prod_unfold)
    ultimately show ?thesis using fin Inl u old[of "''failed''" "\<lambda>s. s"] by (auto simp: gave_up_def)
  next
    case (Inr j)
    then have "took_over n u (wd_saved w')" "res = Inr n" using out fin by auto
    then show ?thesis using u old[of _ "\<lambda>s. if s = ''active'' then ''superseded'' else s"] by (simp add: took_over_def)
  qed
qed

theorem rebuild_is_atomic_witness:
  "\<exists>w. rebuild ex_vault_env False (opened (empty_vault [])) = (Inr 1, w) \<and> statuses (wd_saved w) = [(1, ''active'')]"
proof -
  obtain w where w: "rebuild ex_vault_env False (opened (empty_vault [])) = (Inr 1, w)" using ex_rebuild by blast
  have "\<not> list_ex (\<lambda>g. ig_status g = ''building'') (vt_generations (empty_vault []))" by (simp add: empty_vault_def)
  from rebuild_is_atomic[OF ex_vault_env_quiet empty_ok this w] w show ?thesis
    by (simp add: empty_vault_def statuses_def)
qed

end
