(* ===== verification/Retrieval.thy ===== *)
theory Retrieval
  imports Vault "HOL-Library.Product_Lexorder"
begin

text \<open>
  Searching the Knowledge Vault (\<^verbatim>\<open>fts.py\<close>, \<^verbatim>\<open>knowledge/vectors.py\<close>, \<^verbatim>\<open>knowledge/retrieval.py\<close>): the
  quoting of full-text queries, the lexical and the semantic candidates of a scope, their fusion by
  reciprocal ranks, the bounded expansion of children to parents.  What the full-text engine matches and
  how it ranks, and the cosine of two vectors, are fields of an environment; scores are exact rationals.
\<close>

section \<open>Full-text queries\<close>

text \<open>\<^verbatim>\<open>[\w]\<close> on code points below 256.\<close>

definition word_char :: "char \<Rightarrow> bool" where
  "word_char c \<longleftrightarrow> (let n = of_char c :: nat in
     (48 \<le> n \<and> n \<le> 57) \<or> (65 \<le> n \<and> n \<le> 90) \<or> n = 95 \<or> (97 \<le> n \<and> n \<le> 122)
     \<or> n \<in> {170, 178, 179, 181, 185, 186, 188, 189, 190} \<or> (192 \<le> n \<and> n \<noteq> 215 \<and> n \<noteq> 247))"

abbreviation quote_mark :: char where "quote_mark \<equiv> CHR 0x22"

text \<open>The quoted phrases from left to right, and the text with a blank for each; an open quote stays.\<close>

function split_phrases :: "string \<Rightarrow> string list \<times> string" where
  "split_phrases s =
     (let before = takeWhile (\<lambda>c. c \<noteq> quote_mark) s; rest = dropWhile (\<lambda>c. c \<noteq> quote_mark) s
      in case rest of
           [] \<Rightarrow> ([], s)
         | q # rest \<Rightarrow>
             if quote_mark \<in> set rest
             then case split_phrases (tl (dropWhile (\<lambda>c. c \<noteq> quote_mark) rest)) of
                    (phrases, remainder) \<Rightarrow>
                      (takeWhile (\<lambda>c. c \<noteq> quote_mark) rest # phrases, before @ [blank] @ remainder)
             else ([], s))"
  by pat_completeness auto
termination
proof (relation "measure length", simp, clarify)
  fix s :: string and q rest
  assume "dropWhile (\<lambda>c. c \<noteq> quote_mark) s = q # rest" "quote_mark \<in> set rest"
  then have "length (q # rest) \<le> length s" by (metis length_dropWhile_le)
  moreover have "length (tl (dropWhile (\<lambda>c. c \<noteq> quote_mark) rest)) \<le> length rest"
    using length_dropWhile_le[of "\<lambda>c. c \<noteq> quote_mark" rest] by simp
  ultimately show "(tl (dropWhile (\<lambda>c. c \<noteq> quote_mark) rest), s) \<in> measure length" by simp
qed

declare split_phrases.simps [simp del]

fun word_runs :: "string \<Rightarrow> string \<Rightarrow> string list" where
  "word_runs cur [] = (if cur = [] then [] else [cur])"
| "word_runs cur (c # s) =
     (if word_char c then word_runs (cur @ [c]) s
      else (if cur = [] then word_runs [] s else cur # word_runs [] s))"

text \<open>Terms in order, without repetitions up to case; \<open>seen\<close> holds the lowered ones.\<close>

fun fresh_terms :: "string list \<Rightarrow> string list \<Rightarrow> string list" where
  "fresh_terms seen [] = []"
| "fresh_terms seen (t # ts) =
     (if t = [] \<or> py_lower t \<in> set seen then fresh_terms seen ts
      else t # fresh_terms (seen @ [py_lower t]) ts)"

definition quoted_term :: "string \<Rightarrow> string" where
  "quoted_term t = [quote_mark] @ replace_all [quote_mark] [quote_mark, quote_mark] t @ [quote_mark]"

definition query_terms :: "string \<Rightarrow> string list" where
  "query_terms q = (case split_phrases q of (phrases, rest) \<Rightarrow> fresh_terms [] (map py_strip phrases @ word_runs [] rest))"

definition fts5_match_query :: "string \<Rightarrow> string \<Rightarrow> string option" where
  "fts5_match_query q operator =
     (if py_strip q = [] \<or> query_terms q = [] then None
      else Some (py_join ([blank] @ operator @ [blank]) (map quoted_term (query_terms q))))"


section \<open>Candidates\<close>

record search_env =
  se_vault :: vault_env
  se_match :: "string \<Rightarrow> fts_row \<Rightarrow> bool"
  se_rank :: "string \<Rightarrow> fts_row \<Rightarrow> rat"
  se_cosine :: "rat list \<Rightarrow> rat list \<Rightarrow> rat"
  se_vector_ok :: bool

definition in_scope :: "bool \<Rightarrow> string option \<Rightarrow> string option \<Rightarrow> bool" where
  "in_scope all_scopes agent owner \<longleftrightarrow> all_scopes \<or> owner = None \<or> owner = agent"

definition find_chunk :: "vault \<Rightarrow> nat \<Rightarrow> chunk_row option" where
  "find_chunk v c = find (\<lambda>x. vc_id x = c) (vt_chunks v)"

definition lexical_candidates ::
    "search_env \<Rightarrow> vault \<Rightarrow> string \<Rightarrow> string option \<Rightarrow> nat \<Rightarrow> bool \<Rightarrow> (nat \<times> rat) list" where
  "lexical_candidates S v query agent k all_scopes =
     (case fts5_match_query query ''AND'' of
        None \<Rightarrow> []
      | Some m \<Rightarrow>
          let hits = filter (\<lambda>r. se_match S m r
            \<and> (case find_chunk v (ft_chunk r) of None \<Rightarrow> False | Some c \<Rightarrow> retrievable_kind c)
            \<and> in_scope all_scopes agent (ft_agent r)) (vt_fts v)
          in map (\<lambda>r. (ft_chunk r, se_rank S m r)) (take k (sort_key (se_rank S m) hits)))"

text \<open>The vectors of a generation in the scope, by the joins of \<^verbatim>\<open>_candidate_sql\<close>.\<close>

definition candidate_vectors :: "vault \<Rightarrow> nat \<Rightarrow> string option \<Rightarrow> bool \<Rightarrow> vector_row list" where
  "candidate_vectors v g agent all_scopes =
     filter (\<lambda>x. ce_generation x = g
       \<and> (case find_chunk v (ce_chunk x) of
            None \<Rightarrow> False
          | Some c \<Rightarrow> retrievable_kind c
              \<and> (case find_document v (vc_doc c) of
                   None \<Rightarrow> False | Some d \<Rightarrow> in_scope all_scopes agent (vd_agent d)))) (vt_vectors v)"

text \<open>The heap holds the best so far, the least entry (by score, then identifier) first.\<close>

fun heap_scan :: "nat \<Rightarrow> (rat \<times> nat) list \<Rightarrow> (rat \<times> nat) list \<Rightarrow> (rat \<times> nat) list" where
  "heap_scan k heap [] = heap"
| "heap_scan k heap (x # xs) =
     (if length heap < k then heap_scan k (insort x heap) xs
      else case heap of
             [] \<Rightarrow> heap_scan k heap xs
           | least # others \<Rightarrow>
               if fst x > fst least then heap_scan k (insort x others) xs else heap_scan k heap xs)"

definition python_search ::
    "search_env \<Rightarrow> vault \<Rightarrow> nat \<Rightarrow> rat list \<Rightarrow> string option \<Rightarrow> nat \<Rightarrow> bool \<Rightarrow> (nat \<times> rat) list" where
  "python_search S v g query agent k all_scopes =
     map (\<lambda>(score, c). (c, score)) (rev (heap_scan k []
       (map (\<lambda>x. (se_cosine S query (ce_vector x), ce_chunk x)) (candidate_vectors v g agent all_scopes))))"

definition sqlite_vec_search ::
    "search_env \<Rightarrow> vault \<Rightarrow> nat \<Rightarrow> rat list \<Rightarrow> string option \<Rightarrow> nat \<Rightarrow> bool \<Rightarrow> (nat \<times> rat) list" where
  "sqlite_vec_search S v g query agent k all_scopes =
     map (\<lambda>x. (ce_chunk x, se_cosine S query (ce_vector x)))
       (take k (sort_key (\<lambda>x. 1 - se_cosine S query (ce_vector x)) (candidate_vectors v g agent all_scopes)))"

text \<open>The adapter stored on the generation; the extension may fail to load.\<close>

definition adapter_search ::
    "search_env \<Rightarrow> vault \<Rightarrow> generation_row \<Rightarrow> rat list \<Rightarrow> string option \<Rightarrow> nat \<Rightarrow> bool \<Rightarrow> string + (nat \<times> rat) list" where
  "adapter_search S v g query agent k all_scopes =
     (if ig_adapter g = ''sqlite-vec''
      then if se_vector_ok S then Inr (sqlite_vec_search S v (ig_id g) query agent k all_scopes)
           else Inl ''sqlite-vec extension unavailable''
      else Inr (python_search S v (ig_id g) query agent k all_scopes))"


section \<open>Fusion\<close>

text \<open>One list is added to the scores, ranks counted from one.\<close>

fun add_ranks :: "int \<Rightarrow> nat \<Rightarrow> nat list \<Rightarrow> (nat \<times> rat) list \<Rightarrow> (nat \<times> rat) list" where
  "add_ranks k rank [] scores = scores"
| "add_ranks k rank (c # cs) scores =
     add_ranks k (Suc rank) cs (AList.update c (dget scores c 0 + 1 / of_int (k + int rank)) scores)"

definition rrf_fuse :: "(nat \<times> rat) list \<Rightarrow> (nat \<times> rat) list \<Rightarrow> int \<Rightarrow> nat list" where
  "rrf_fuse lexical semantic k =
     (let scores = add_ranks k 1 (map fst semantic) (add_ranks k 1 (map fst lexical) [])
      in map fst (sort_key (\<lambda>(c, s). - s) scores))"


section \<open>Retrieval\<close>

record search_result =
  sr_chunk :: nat
  sr_doc :: nat
  sr_agent :: "string option"
  sr_text :: string
  sr_matched :: string
  sr_expanded :: bool

record search_trace =
  tr_fusion :: string
  tr_lexical :: nat
  tr_semantic :: nat
  tr_expanded :: nat
  tr_degraded :: "string list"

definition shown :: "chunk_row \<Rightarrow> document_row \<Rightarrow> string \<Rightarrow> bool \<Rightarrow> search_result" where
  "shown c d text expanded = \<lparr>sr_chunk = vc_id c, sr_doc = vd_id d, sr_agent = vd_agent d, sr_text = text,
     sr_matched = vc_text c, sr_expanded = expanded\<rparr>"

text \<open>Each selected child with its parent's text while the number of expanded parents allows.\<close>

fun expand_all :: "vault \<Rightarrow> int \<Rightarrow> nat list \<Rightarrow> nat list \<Rightarrow> search_result list" where
  "expand_all v max_parents expanded [] = []"
| "expand_all v max_parents expanded (c # cs) =
     (case find_chunk v c of
        None \<Rightarrow> expand_all v max_parents expanded cs
      | Some child \<Rightarrow>
          (case find_document v (vc_doc child) of
             None \<Rightarrow> expand_all v max_parents expanded cs
           | Some d \<Rightarrow>
               (case Option.bind (vc_parent child) (find_chunk v) of
                  None \<Rightarrow> shown child d (vc_text child) False # expand_all v max_parents expanded cs
                | Some p \<Rightarrow>
                    if int (length expanded) < max_parents \<and> vc_id p \<notin> set expanded
                    then shown child d (vc_text p) True # expand_all v max_parents (expanded @ [vc_id p]) cs
                    else if vc_id p \<in> set expanded
                    then shown child d (vc_text p) True # expand_all v max_parents expanded cs
                    else shown child d (vc_text child) False # expand_all v max_parents expanded cs)))"

definition SEMANTIC_K :: nat where "SEMANTIC_K = 50"
definition LEXICAL_K :: nat where "LEXICAL_K = 50"

text \<open>The semantic candidates with the notes on what was left out; failures degrade, they do not raise.\<close>

definition semantic_candidates ::
    "search_env \<Rightarrow> string \<Rightarrow> string option \<Rightarrow> bool \<Rightarrow> ((nat \<times> rat) list \<times> string list) vault_op" where
  "semantic_candidates S query agent all_scopes =
     cbind (read_db active_generation) (\<lambda>active.
     case active of
       None \<Rightarrow> cret ([], [''no active index generation; lexical only''])
     | Some g \<Rightarrow>
         if ig_resource g = None then cret ([], [''index generation has no embedding resource; lexical only''])
         else
           cbind (read_db (\<lambda>v. find_resource v (ig_resource g))) (\<lambda>r.
           let slow = (if ig_adapter g = ''python'' then [''adapter=python (sqlite-vec unavailable); slower scan''] else [])
           in case r of
                None \<Rightarrow> cret ([], slow @ [''embedding resource not ready; lexical only''])
              | Some r \<Rightarrow>
                  if er_status r \<noteq> ''ready''
                  then cret ([], slow @ [''embedding resource not ready; lexical only''])
                  else
                    catch_op
                      (cbind (embed_texts (se_vault S) r [query]) (\<lambda>vs.
                       case vs of
                         [] \<Rightarrow> cret ([], slow)
                       | x # _ \<Rightarrow>
                           cbind (read_db (\<lambda>v. adapter_search S v g x agent SEMANTIC_K all_scopes)) (\<lambda>found.
                           case found of
                             Inl m \<Rightarrow> cfail (VaultFailure m)
                           | Inr hits \<Rightarrow> cret (hits, slow))))
                      (\<lambda>e. cret ([], slow @ [case e of
                         EmbeddingUnavailable m \<Rightarrow> ''semantic search failed ('' @ m @ ''); lexical only''
                       | _ \<Rightarrow> ''vector search failed ('' @ error_text e @ ''); lexical only'']))))"

definition retrieve ::
    "search_env \<Rightarrow> string \<Rightarrow> int \<Rightarrow> string option \<Rightarrow> bool \<Rightarrow> (search_result list \<times> search_trace) vault_op" where
  "retrieve S query limit agent all_scopes =
     cbind get_active_profile (\<lambda>p.
     cbind (read_db (\<lambda>v. lexical_candidates S v query agent LEXICAL_K all_scopes)) (\<lambda>lexical.
     cbind (if vf_fusion (pf_config p) = ''hybrid'' then semantic_candidates S query agent all_scopes
            else cret ([], [])) (\<lambda>(semantic, degraded).
     let selected = take (nat (max 1 (min limit 20))) (rrf_fuse lexical semantic (vf_rrf_k (pf_config p)))
     in cbind (read_db (\<lambda>v. expand_all v (vf_max_parents (pf_config p)) [] selected)) (\<lambda>results.
          cret (results, \<lparr>tr_fusion = vf_fusion (pf_config p), tr_lexical = length lexical,
            tr_semantic = length semantic, tr_expanded = length (filter sr_expanded results),
            tr_degraded = degraded\<rparr>)))))"

end
