(* ===== verification/Retrieval_Safety.thy ===== *)
theory Retrieval_Safety
  imports Vault_Safety Retrieval "HOL-Library.Sublist" "HOL-Library.Multiset"
begin

text \<open>
  Retrieval stays within the scopes of its caller although other sessions may change the tables while the
  query is embedded, always answers within its bounds, and ranks by reciprocal ranks; the two vector
  adapters agree; a full-text query consists of quoted terms only.
\<close>

section \<open>Queries\<close>

lemma split_phrases_plain:
  "\<forall>p \<in> set (fst (split_phrases s)). quote_mark \<notin> set p"
proof (induction s rule: split_phrases.induct)
  case (1 s)
  show ?case
  proof (cases "dropWhile (\<lambda>c. c \<noteq> quote_mark) s")
    case Nil
    then show ?thesis by (subst split_phrases.simps) (simp only: Let_def Nil list.case fst_conv list.set ball_empty)
  next
    case (Cons q rest)
    have "quote_mark \<notin> set (takeWhile (\<lambda>c. c \<noteq> quote_mark) rest)" by (auto dest: set_takeWhileD)
    then show ?thesis using 1[OF refl refl Cons] Cons by (subst split_phrases.simps) (auto split: prod.split)
  qed
qed

lemma word_runs_plain:
  "list_all word_char cur \<Longrightarrow> t \<in> set (word_runs cur s) \<Longrightarrow> list_all word_char t \<and> t \<noteq> []"
  by (induction cur s rule: word_runs.induct) (auto split: if_splits)

lemma word_char_plain: "list_all word_char t \<Longrightarrow> quote_mark \<notin> set t"
  by (auto simp: list_all_iff word_char_def Let_def)

lemma fresh_terms_spec:
  "set (fresh_terms seen ts) \<subseteq> set ts \<and> [] \<notin> set (fresh_terms seen ts)
   \<and> distinct (map py_lower (fresh_terms seen ts)) \<and> set (map py_lower (fresh_terms seen ts)) \<inter> set seen = {}
   \<and> (\<forall>t \<in> set ts. t \<noteq> [] \<longrightarrow> py_lower t \<in> set (map py_lower (fresh_terms seen ts)) \<union> set seen)"
  by (induction seen ts rule: fresh_terms.induct) (auto simp del: list.set_map)

lemma strip_plain: "quote_mark \<notin> set s \<Longrightarrow> quote_mark \<notin> set (py_strip s)"
  unfolding py_strip_def py_lstrip_def py_rstrip_def by (auto dest!: set_dropWhileD)

lemma query_terms_plain: "t \<in> set (query_terms q) \<Longrightarrow> quote_mark \<notin> set t"
proof -
  obtain ps rest where s: "split_phrases q = (ps, rest)" by fastforce
  assume "t \<in> set (query_terms q)"
  then have "t \<in> set (map py_strip ps @ word_runs [] rest)"
    using fresh_terms_spec[of "[]" "map py_strip ps @ word_runs [] rest"] s by (auto simp: query_terms_def)
  then show ?thesis
    using split_phrases_plain[of q] s strip_plain word_char_plain word_runs_plain[of "[]" t rest] by fastforce
qed

lemma replace_absent: "quote_mark \<notin> set s \<Longrightarrow> replace_all [quote_mark] r s = s"
proof (induction s)
  case (Cons c s)
  then show ?case by (auto simp: starts_with_def)
qed simp

section \<open>Fusion\<close>

lemma sort_key_map: "sort_key g (map f xs) = map f (sort_key (\<lambda>x. g (f x)) xs)"
proof (induction xs)
  case (Cons x xs)
  have "insort_key g (f x) (map f ys) = map f (insort_key (\<lambda>x. g (f x)) x ys)" for ys by (induction ys) auto
  with Cons show ?case by simp
qed simp

lemma sort_key_eq: "(\<And>x. x \<in> set xs \<Longrightarrow> f x = g x) \<Longrightarrow> sort_key f xs = sort_key g xs"
proof (induction xs)
  case (Cons x xs)
  have "insort_key f x ys = insort_key g x ys" if "\<forall>y \<in> set ys. f y = g y" "f x = g x" for ys
    using that by (induction ys) auto
  with Cons show ?case by simp
qed simp

text \<open>The score of a chunk in one list: a reciprocal for each of its ranks.\<close>

definition rank_score :: "int \<Rightarrow> nat list \<Rightarrow> nat \<Rightarrow> rat" where
  "rank_score k xs c = (\<Sum>(i, x) \<leftarrow> enumerate 1 xs. if x = c then 1 / of_int (k + int i) else 0)"

text \<open>The entries of a list at their first occurrence.\<close>

fun first_seen :: "nat list \<Rightarrow> nat list \<Rightarrow> nat list" where
  "first_seen seen [] = seen"
| "first_seen seen (x # xs) = first_seen (if x \<in> set seen then seen else seen @ [x]) xs"

lemma update_keys:
  "map fst (AList.update c x xs) = (if c \<in> set (map fst xs) then map fst xs else map fst xs @ [c])"
  by (induction xs) auto

lemma add_ranks_spec:
  "map fst (add_ranks k r xs sc) = first_seen (map fst sc) xs
   \<and> dget (add_ranks k r xs sc) c 0 = dget sc c 0 + (\<Sum>(i, x) \<leftarrow> enumerate r xs. if x = c then 1 / of_int (k + int i) else 0)"
proof (induction k r xs sc rule: add_ranks.induct)
  case (2 k r x xs sc)
  then show ?case by (auto simp: update_keys simp del: set_map)
qed simp

lemma first_seen_append: "first_seen seen (xs @ ys) = first_seen (first_seen seen xs) ys"
  by (induction seen xs rule: first_seen.induct) auto

lemma first_seen_set: "set (first_seen seen xs) = set seen \<union> set xs"
  by (induction seen xs rule: first_seen.induct) auto

lemma first_seen_distinct: "distinct seen \<Longrightarrow> distinct (first_seen seen xs)"
  by (induction seen xs rule: first_seen.induct) auto

lemma dget_entry: "distinct (map fst sc) \<Longrightarrow> (c, s) \<in> set sc \<Longrightarrow> dget sc c 0 = s"
  by (simp add: dget_def)

section \<open>The best candidates\<close>

lemma insort_fst: "sorted xs \<Longrightarrow> map fst (insort (x :: rat \<times> nat) xs) = insort (fst x) (map fst xs)"
proof (induction xs)
  case (Cons y ys)
  have "fst x \<le> fst y" if "x \<le> y" using that by (auto simp: less_eq_prod_def)
  moreover have "insort (fst x) (fst y # map fst ys) = fst y # insort (fst x) (map fst ys)" if "\<not> x \<le> y"
  proof (cases "fst x \<le> fst y")
    case True
    with that have e: "fst x = fst y" by (auto simp: less_eq_prod_def)
    from Cons.prems have "list_all (\<lambda>z. fst y \<le> fst z) ys" by (auto simp: list_all_iff less_eq_prod_def)
    then have "insort (fst y) (map fst ys) = fst y # map fst ys" by (cases ys) auto
    with e show ?thesis by simp
  qed simp
  ultimately show ?case using Cons by auto
qed simp

lemma insort_split_right:
  "\<forall>y \<in> set (ps :: rat list). y < x \<Longrightarrow> insort x (ps @ ds) = ps @ insort x ds"
  by (induction ps) auto

lemma insort_split_left:
  "ds \<noteq> [] \<Longrightarrow> (x :: rat) \<le> hd ds \<Longrightarrow> insort x (ps @ ds) = insort x ps @ ds"
  by (induction ps) (auto simp: neq_Nil_conv)

lemma keep_best:
  assumes "sorted (s :: rat list)" "\<not> length s < k"
  shows "drop (Suc (length s) - k) (insort x s) =
    (case drop (length s - k) s of [] \<Rightarrow> [] | least # others \<Rightarrow> if least < x then insort x others else least # others)"
proof -
  define ps ds where "ps = take (length s - k) s" and "ds = drop (length s - k) s"
  have s: "s = ps @ ds" "length ps = length s - k" by (simp_all add: ps_def ds_def)
  have n: "Suc (length s) - k = Suc (length ps)" using assms(2) s(2) by simp
  show ?thesis
  proof (cases ds)
    case Nil
    with s n show ?thesis by simp
  next
    case (Cons least others)
    have le: "\<forall>y \<in> set ps. y \<le> least" using assms(1) unfolding s(1) Cons by (simp add: sorted_append)
    show ?thesis
    proof (cases "least < x")
      case True
      then have "insort x s = ps @ least # insort x others"
        using le insort_split_right[of ps x ds] unfolding s(1) Cons by fastforce
      with True n Cons show ?thesis by (simp add: ds_def[symmetric])
    next
      case False
      then have "insort x s = insort x ps @ ds" using insort_split_left[of ds x ps] s(1) Cons by simp
      with False n Cons show ?thesis by (simp add: ds_def[symmetric])
    qed
  qed
qed

lemma heap_scan_spec:
  assumes "sorted heap" "sorted s" "map fst heap = drop (length s - k) s"
  shows "sorted (heap_scan k heap xs)
    \<and> map fst (heap_scan k heap xs) = drop (length s + length xs - k) (fold insort (map fst xs) s)"
  using assms
proof (induction xs arbitrary: heap s)
  case (Cons x xs)
  let ?s = "insort (fst x) s"
  have n: "length heap = length s - (length s - k)" using Cons.prems(3) by (metis length_drop length_map)
  have srt: "sorted ?s" using Cons.prems(2) by (simp add: sorted_insort)
  show ?case
  proof (cases "length s < k")
    case True
    then have "map fst heap = s" "length heap < k" using Cons.prems(3) n by simp_all
    then have "map fst (insort x heap) = drop (length ?s - k) ?s"
      using insort_fst[OF Cons.prems(1), of x] True by simp
    with Cons.IH[OF _ srt this] \<open>length heap < k\<close> Cons.prems(1) show ?thesis by (simp add: sorted_insort)
  next
    case False
    then have full: "\<not> length heap < k" using n by simp
    have best: "drop (length ?s - k) ?s = (case map fst heap of [] \<Rightarrow> [] | least # others \<Rightarrow>
        if least < fst x then insort (fst x) others else least # others)"
      using keep_best[OF Cons.prems(2) False, of "fst x"] Cons.prems(3) by simp
    show ?thesis
    proof (cases heap)
      case Nil
      with best Cons.IH[OF _ srt, of "[]"] full show ?thesis by simp
    next
      case h: (Cons least others)
      have so: "sorted others" using Cons.prems(1) h by simp
      show ?thesis
      proof (cases "fst least < fst x")
        case True
        then have "map fst (insort x others) = drop (length ?s - k) ?s"
          using best h insort_fst[OF so, of x] by simp
        with Cons.IH[OF _ srt this] True full h so show ?thesis by (simp add: sorted_insort)
      next
        case False
        then have "map fst heap = drop (length ?s - k) ?s" using best h by simp
        with Cons.IH[OF Cons.prems(1) srt this] False full h show ?thesis by simp
      qed
    qed
  qed
qed simp

lemma fold_insort_sort: "fold insort xs [] = sort (xs :: rat list)"
proof -
  have "sorted (fold insort xs s) \<and> mset (fold insort xs s) = mset xs + mset s" if "sorted s" for s
    using that by (induction xs arbitrary: s) (auto simp: sorted_insort)
  from this[of "[]"] show ?thesis by (intro properties_for_sort[symmetric]) simp_all
qed

lemma heap_scan_set: "set (heap_scan k heap xs) \<subseteq> set heap \<union> set xs"
proof (induction k heap xs rule: heap_scan.induct)
  case (2 k heap x xs)
  show ?case
  proof (cases heap)
    case Nil
    with 2 show ?thesis by (cases "0 < k") (auto simp: set_insort_key)
  next
    case h: (Cons least others)
    consider "length heap < k" | "\<not> length heap < k" "fst least < fst x" | "\<not> length heap < k" "\<not> fst least < fst x"
      by linarith
    then show ?thesis
    proof cases
      case 1
      with 2(1) show ?thesis by (auto simp: set_insort_key)
    next
      case 2
      with "2.IH"(3)[OF _ h] h show ?thesis by (auto simp: set_insort_key)
    next
      case 3
      with "2.IH"(4)[OF _ h] h show ?thesis by auto
    qed
  qed
qed simp

lemma sort_descending: "map f (sort_key (\<lambda>x. 1 - f x) xs) = rev (sort (map f xs))" for f :: "'b \<Rightarrow> rat"
proof -
  let ?ys = "sort_key (\<lambda>x. 1 - f x) xs"
  have "sorted (map (\<lambda>x. 1 - f x) ?ys)" by simp
  then have "sorted_wrt (\<lambda>a b. f b \<le> f a) ?ys" by (simp add: sorted_map)
  then have "sorted (rev (map f ?ys))" by (simp add: sorted_wrt_rev sorted_wrt_map)
  moreover have "mset (rev (map f ?ys)) = mset (map f xs)" by simp
  ultimately have "rev (map f ?ys) = sort (map f xs)" by (intro properties_for_sort[symmetric]) simp_all
  then show ?thesis by (metis rev_rev_ident)
qed

lemma python_scores:
  "map snd (python_search S v g q a k al)
     = take k (rev (sort (map (\<lambda>x. se_cosine S q (ce_vector x)) (candidate_vectors v g a al))))"
proof -
  let ?cs = "map (\<lambda>x. (se_cosine S q (ce_vector x), ce_chunk x)) (candidate_vectors v g a al)"
  have "map fst (heap_scan k [] ?cs) = drop (length ?cs - k) (sort (map fst ?cs))"
    using heap_scan_spec[of "[]" "[]" k ?cs] by (simp add: fold_insort_sort)
  then have "rev (map fst (heap_scan k [] ?cs)) = take (length (map fst ?cs) - (length (map fst ?cs) - k)) (rev (sort (map fst ?cs)))"
    by (simp add: rev_drop)
  moreover have "take (length xs - (length xs - k)) (rev (sort xs)) = take k (rev (sort xs))" for xs :: "rat list"
    by (cases "k \<le> length xs") simp_all
  ultimately have "rev (map fst (heap_scan k [] ?cs)) = take k (rev (sort (map fst ?cs)))"
    by (simp only:)
  then show ?thesis by (simp add: python_search_def rev_map comp_def case_prod_unfold)
qed

lemma python_hits:
  "set (python_search S v g q a k al) \<subseteq> (\<lambda>x. (ce_chunk x, se_cosine S q (ce_vector x))) ` set (candidate_vectors v g a al)"
  unfolding python_search_def using heap_scan_set by fastforce

lemma sqlite_hits:
  "set (sqlite_vec_search S v g q a k al) \<subseteq> (\<lambda>x. (ce_chunk x, se_cosine S q (ce_vector x))) ` set (candidate_vectors v g a al)"
  unfolding sqlite_vec_search_def by (auto dest!: in_set_takeD)

section \<open>Expansion\<close>

lemma find_chunk_row: "find_chunk v c = Some k \<Longrightarrow> k \<in> set (vt_chunks v) \<and> vc_id k = c"
  unfolding find_chunk_def find_Some_iff by auto

lemma find_document_row: "find_document v d = Some k \<Longrightarrow> k \<in> set (vt_docs v) \<and> vd_id k = d"
  unfolding find_document_def find_Some_iff by auto

text \<open>A result shows a chunk with its document, and the text of the chunk or of its parent.\<close>

definition result_ok :: "vault \<Rightarrow> search_result \<Rightarrow> bool" where
  "result_ok v r \<longleftrightarrow> (\<exists>k d. find_chunk v (sr_chunk r) = Some k \<and> find_document v (vc_doc k) = Some d
     \<and> sr_doc r = vd_id d \<and> sr_agent r = vd_agent d \<and> sr_matched r = vc_text k
     \<and> (\<exists>p. (p = k \<and> \<not> sr_expanded r \<or> Option.bind (vc_parent k) (find_chunk v) = Some p \<and> sr_expanded r) \<and> sr_text r = vc_text p))"

lemma shown_simps [simp]:
  "sr_chunk (shown c d t e) = vc_id c" "sr_doc (shown c d t e) = vd_id d" "sr_agent (shown c d t e) = vd_agent d"
  "sr_text (shown c d t e) = t" "sr_matched (shown c d t e) = vc_text c" "sr_expanded (shown c d t e) = e"
  by (simp_all add: shown_def)

lemma shown_ok:
  assumes "find_chunk v c = Some k" "find_document v (vc_doc k) = Some d"
  shows "result_ok v (shown k d (vc_text k) False)"
    "Option.bind (vc_parent k) (find_chunk v) = Some p \<Longrightarrow> result_ok v (shown k d (vc_text p) True)"
  using assms find_chunk_row[OF assms(1)] by (auto simp: result_ok_def)

lemma expand_all_ok: "list_all (result_ok v) (expand_all v m ex cs)"
  by (induction v m ex cs rule: expand_all.induct) (auto simp: shown_ok split: option.split)

lemma expand_all_cases:
  "\<exists>e ex'. expand_all v m ex (c # cs) = expand_all v m ex cs
     \<or> sr_chunk e = c \<and> expand_all v m ex (c # cs) = e # expand_all v m ex' cs"
  using find_chunk_row[of v c] by (auto split: option.split)

lemma expand_all_order: "subseq (map sr_chunk (expand_all v m ex cs)) cs"
proof (induction cs arbitrary: ex)
  case (Cons c cs)
  from expand_all_cases[of v m ex c cs] Cons show ?case by (auto simp del: expand_all.simps)
qed simp

text \<open>The parents shown: at most \<open>m\<close> of them.\<close>

lemma expand_all_parents:
  "\<exists>ps. set ex \<subseteq> set ps \<and> length ps \<le> max (length ex) (nat m)
     \<and> (\<forall>r \<in> set (expand_all v m ex cs). sr_expanded r \<longrightarrow> (\<exists>p i. i \<in> set ps \<and> find_chunk v i = Some p \<and> sr_text r = vc_text p))"
proof (induction cs arbitrary: ex)
  case (Cons c cs)
  show ?case
  proof (cases "find_chunk v c")
    case None
    with Cons show ?thesis by simp
  next
    case k: (Some k)
    show ?thesis
    proof (cases "find_document v (vc_doc k)")
      case None
      with Cons k show ?thesis by simp
    next
      case d: (Some d)
      show ?thesis
      proof (cases "Option.bind (vc_parent k) (find_chunk v)")
        case None
        with Cons k d show ?thesis by simp
      next
        case p: (Some p)
        then have fp: "find_chunk v (vc_id p) = Some p" using find_chunk_row by (auto split: bind_splits)
        show ?thesis
        proof (cases "int (length ex) < m \<and> vc_id p \<notin> set ex")
          case True
          from Cons[of "ex @ [vc_id p]"] obtain ps where ps: "set (ex @ [vc_id p]) \<subseteq> set ps"
            "length ps \<le> max (length (ex @ [vc_id p])) (nat m)"
            "\<forall>r \<in> set (expand_all v m (ex @ [vc_id p]) cs). sr_expanded r \<longrightarrow>
              (\<exists>q i. i \<in> set ps \<and> find_chunk v i = Some q \<and> sr_text r = vc_text q)" by blast
          from ps(2) True have "length ps \<le> nat m" by auto
          with ps fp True k d p show ?thesis by (intro exI[of _ ps]) auto
        next
          case False
          from Cons[of ex] obtain ps where ps: "set ex \<subseteq> set ps" "length ps \<le> max (length ex) (nat m)"
            "\<forall>r \<in> set (expand_all v m ex cs). sr_expanded r \<longrightarrow>
              (\<exists>q i. i \<in> set ps \<and> find_chunk v i = Some q \<and> sr_text r = vc_text q)" by blast
          with fp False k d p show ?thesis by (intro exI[of _ ps]) auto
        qed
      qed
    qed
  qed
qed auto


section \<open>Scopes\<close>

text \<open>A chunk whose document is shared or the agent's own.\<close>

definition visible :: "vault \<Rightarrow> string option \<Rightarrow> nat \<Rightarrow> bool" where
  "visible v agent c \<longleftrightarrow> (\<exists>k \<in> set (vt_chunks v). \<exists>d \<in> set (vt_docs v).
     vc_id k = c \<and> vd_id d = vc_doc k \<and> in_scope False agent (vd_agent d))"

lemma lexical_visible:
  assumes "vault_ok v" "h \<in> set (lexical_candidates S v q agent k False)"
  shows "visible v agent (fst h)"
proof -
  obtain r where r: "r \<in> set (vt_fts v)" "fst h = ft_chunk r" "in_scope False agent (ft_agent r)"
    using assms(2) by (auto simp: lexical_candidates_def Let_def split: option.splits dest!: in_set_takeD)
  from assms(1) r(1) obtain c where c: "c \<in> set (vt_chunks v)" "vc_id c = ft_chunk r" "vc_doc c = ft_doc r"
    unfolding vault_ok_def fts_ok_def by blast
  from assms(1) c(1) obtain d where d: "d \<in> set (vt_docs v)" "vd_id d = vc_doc c"
    unfolding vault_ok_def chunks_ok_def by blast
  have "vd_agent d = ft_agent r" using assms(1) r(1) d c(3) unfolding vault_ok_def fts_ok_def by simp
  with r c d show ?thesis unfolding visible_def by force
qed

lemma candidates_visible: "x \<in> set (candidate_vectors v g agent False) \<Longrightarrow> visible v agent (ce_chunk x)"
  unfolding candidate_vectors_def visible_def
  by (auto split: option.splits dest!: find_chunk_row find_document_row)

lemma adapter_visible: "adapter_search S v g q agent k False = Inr hits \<Longrightarrow> h \<in> set hits \<Longrightarrow> visible v agent (fst h)"
  using python_hits[of S v "ig_id g" q agent k False] sqlite_hits[of S v "ig_id g" q agent k False] candidates_visible
  by (fastforce simp: adapter_search_def split: if_splits)

text \<open>The semantic part always answers.\<close>

lemma semantic_answers:
  "\<exists>hits remarks w'. semantic_candidates S q agent al w = (Inr (hits, remarks), w')
    \<and> (hits = [] \<or> (\<exists>g x. adapter_search S (wd_db w') g x agent SEMANTIC_K al = Inr hits))"
proof (cases "active_generation (wd_db w)")
  case None
  then show ?thesis by (simp add: semantic_candidates_def cbind_def read_db_def cget_def cret_def)
next
  case g: (Some g)
  define slow where "slow = (if ig_adapter g = ''python'' then [''adapter=python (sqlite-vec unavailable); slower scan''] else [])"
  show ?thesis
  proof (cases "ig_resource g = None \<or> \<not> ready (find_resource (wd_db w) (ig_resource g))")
    case True
    with g show ?thesis
      by (auto simp: semantic_candidates_def cbind_def read_db_def cget_def cret_def Let_def ready_def split: option.splits)
  next
    case False
    then obtain r where r: "find_resource (wd_db w) (ig_resource g) = Some r" "er_status r = ''ready''" "ig_resource g \<noteq> None"
      by (auto simp: ready_def split: option.splits)
    obtain res w1 where e: "embed_texts (se_vault S) r [q] w = (res, w1)" by fastforce
    show ?thesis
      using g r e
      by (cases res; cases "projr res"; cases "adapter_search S (wd_db w1) g (hd (projr res)) agent SEMANTIC_K al")
        (auto simp: semantic_candidates_def cbind_def read_db_def cget_def cret_def cfail_def catch_op_def Let_def)
  qed
qed

lemma semantic_visible:
  assumes "semantic_candidates S q agent False w = (Inr (hits, remarks), w')" "h \<in> set hits"
  shows "visible (wd_db w') agent (fst h)"
proof -
  have "hits = [] \<or> (\<exists>g x. adapter_search S (wd_db w') g x agent SEMANTIC_K False = Inr hits)"
    using semantic_answers[of S q agent False w] assms(1) by auto
  with assms(2) show ?thesis using adapter_visible by (metis empty_iff list.set(1))
qed

lemma stays_semantic: "op_keeps (stays_ok (se_vault S)) (semantic_candidates S q agent al)"
  unfolding semantic_candidates_def Let_def
  by (intro stays.catch stays.bind stays.option stays.cond stays.read stays.basic stays.embed_texts)
    (auto split: list.split sum.split)

lemma visible_later:
  assumes "vault_ok u" "vault_ok v" "vault_grows u v" "visible u agent c"
    and "find_chunk v c = Some k" "find_document v (vc_doc k) = Some d"
  shows "in_scope False agent (vd_agent d)"
proof -
  from assms(4) obtain c0 d0 where u: "c0 \<in> set (vt_chunks u)" "vc_id c0 = c" "d0 \<in> set (vt_docs u)" "vd_id d0 = vc_doc c0"
    "in_scope False agent (vd_agent d0)" unfolding visible_def by blast
  note k = find_chunk_row[OF assms(5)] and d = find_document_row[OF assms(6)]
  have "c < vt_next u" using assms(1) u(1,2) unfolding vault_ok_def ids_ok_def by blast
  with assms(3) k obtain c1 where c1: "c1 \<in> set (vt_chunks u)" "vc_id c1 = c" "vc_doc c1 = vc_doc k"
    unfolding vault_grows_def by blast
  with chunk_unique[OF assms(1) c1(1) u(1)] u(2) have c: "vc_doc c0 = vc_doc k" by simp
  have "vd_id d < vt_next u" using assms(1) u(3,4) c d unfolding vault_ok_def ids_ok_def by auto
  with assms(3) d obtain d1 where d1: "d1 \<in> set (vt_docs u)" "vd_id d1 = vd_id d" "vd_agent d1 = vd_agent d"
    unfolding vault_grows_def by blast
  with doc_unique[OF assms(1) d1(1) u(3)] u(4) c d have "vd_agent d0 = vd_agent d" by simp
  with u(5) show ?thesis by simp
qed

lemma stays_grows:
  "op_keeps (stays_ok E) m \<Longrightarrow> m w = (r, w') \<Longrightarrow> fair_env E \<Longrightarrow> world_ok w \<Longrightarrow> vault_grows (wd_db w) (wd_db w')"
  by (auto simp: op_keeps_def stays_ok_def dest: spec[of _ w])

lemma retrieve_run:
  assumes "retrieve S query limit agent al w = (Inr (results, tr), w')"
  obtains p w1 semantic remarks where
    "get_active_profile w = (Inr p, w1)"
    "(if vf_fusion (pf_config p) = ''hybrid'' then semantic_candidates S query agent al else cret ([], [])) w1 = (Inr (semantic, remarks), w')"
    "results = expand_all (wd_db w') (vf_max_parents (pf_config p)) []
       (take (nat (max 1 (min limit 20))) (rrf_fuse (lexical_candidates S (wd_db w1) query agent LEXICAL_K al) semantic (vf_rrf_k (pf_config p))))"
    "tr_fusion tr = vf_fusion (pf_config p)" "tr_semantic tr = length semantic" "tr_degraded tr = remarks"
    "tr_lexical tr = length (lexical_candidates S (wd_db w1) query agent LEXICAL_K al)"
  using assms unfolding retrieve_def
  by (elim cbindE) (auto simp: read_db_def Let_def split: prod.splits elim!: cbindE)

lemma fused_ids: "set (rrf_fuse lexical semantic k) = fst ` set lexical \<union> fst ` set semantic" "distinct (rrf_fuse lexical semantic k)"
proof -
  have "map fst (add_ranks k 1 (map fst semantic) (add_ranks k 1 (map fst lexical) [])) = first_seen [] (map fst lexical @ map fst semantic)"
    using add_ranks_spec by (simp add: first_seen_append)
  moreover have "mset (rrf_fuse lexical semantic k) = mset (map fst (add_ranks k 1 (map fst semantic) (add_ranks k 1 (map fst lexical) [])))"
    by (simp add: rrf_fuse_def Let_def)
  ultimately have m: "mset (rrf_fuse lexical semantic k) = mset (first_seen [] (map fst lexical @ map fst semantic))" by simp
  show "set (rrf_fuse lexical semantic k) = fst ` set lexical \<union> fst ` set semantic"
    using mset_eq_setD[OF m] by (simp add: first_seen_set)
  show "distinct (rrf_fuse lexical semantic k)"
    using mset_eq_imp_distinct_iff[OF m] by (simp add: first_seen_distinct)
qed

lemma semantic_part_answers:
  "\<exists>semantic remarks w'. (if hybrid then semantic_candidates S query agent al else cret ([], [])) w = (Inr (semantic, remarks), w')"
  using semantic_answers[of S query agent al w] by (auto simp: cret_def)

lemma retrieve_answers: "\<exists>results tr w'. retrieve S query limit agent al w = (Inr (results, tr), w')"
proof -
  obtain p w1 where p: "get_active_profile w = (Inr p, w1)"
    using profile_run[of w "fst (get_active_profile w)" "snd (get_active_profile w)"] by (metis prod.collapse)
  obtain semantic remarks w2 where
    "(if vf_fusion (pf_config p) = ''hybrid'' then semantic_candidates S query agent al else cret ([], [])) w1 = (Inr (semantic, remarks), w2)"
    using semantic_part_answers by blast
  with p show ?thesis unfolding retrieve_def cbind_def read_db_def cget_def cret_def Let_def by simp
qed

lemma subseq_bounds: "subseq xs ys \<Longrightarrow> distinct (ys :: nat list) \<Longrightarrow> distinct xs \<and> length xs \<le> length ys"
  by (induction xs ys rule: list_emb.induct) (auto dest: list_emb_set)

lemma lexical_rows:
  assumes "vt_fts u = vt_fts v" "vt_chunks u = vt_chunks v"
  shows "lexical_candidates S u query agent k al = lexical_candidates S v query agent k al"
  by (simp only: lexical_candidates_def find_chunk_def assms)

lemma embedding_down:
  assumes "\<And>n m ts. ve_embed E n m ts = None"
  shows "\<exists>e w1. embed_texts E r [q] w = (Inl e, w1)"
proof (cases "find (\<lambda>p. pv_id p = er_provider r) (vt_providers (wd_db w))")
  case None
  then show ?thesis by (simp add: embed_texts_def provider_for_def cbind_def read_db_def cget_def cfail_def)
next
  case (Some p)
  have "\<exists>e w1. embed_batches E p r [q] w = (Inl e, w1)"
    by (subst embed_batches.simps) (simp add: cbind_def cget_def cput_def wait_def assms cfail_def)
  with Some show ?thesis by (simp add: embed_texts_def provider_for_def cbind_def read_db_def cget_def cret_def cfail_def)
qed

lemma semantic_down:
  assumes "\<And>n m ts. ve_embed (se_vault S) n m ts = None"
    and run: "semantic_candidates S q agent al w = (Inr (hits, remarks), w')"
  shows "hits = [] \<and> remarks \<noteq> []"
proof (cases "active_generation (wd_db w)")
  case None
  with run show ?thesis by (auto simp: semantic_candidates_def cbind_def read_db_def cget_def cret_def)
next
  case g: (Some g)
  show ?thesis
  proof (cases "ig_resource g = None \<or> \<not> ready (find_resource (wd_db w) (ig_resource g))")
    case True
    with g run show ?thesis
      by (auto simp: semantic_candidates_def cbind_def read_db_def cget_def cret_def Let_def ready_def split: option.splits if_splits)
  next
    case False
    then obtain r where r: "find_resource (wd_db w) (ig_resource g) = Some r" "er_status r = ''ready''" "ig_resource g \<noteq> None"
      by (auto simp: ready_def split: option.splits)
    obtain e w1 where e: "embed_texts (se_vault S) r [q] w = (Inl e, w1)" using embedding_down[OF assms(1)] by blast
    from g r e run show ?thesis
      by (auto simp: semantic_candidates_def cbind_def read_db_def cget_def cret_def catch_op_def Let_def split: if_splits)
  qed
qed


section \<open>An example\<close>

definition ex_vault :: vault where
  "ex_vault = (empty_vault [])\<lparr>
     vt_docs := [\<lparr>vd_id = 0, vd_agent = None, vd_source = ''a.md'', vd_storage = ''a.md'', vd_name = ''a.md'', vd_hash = ''h'',
         vd_size = 9, vd_status = ''indexed'', vd_semantic = ''na'', vd_error = None\<rparr>,
       \<lparr>vd_id = 1, vd_agent = Some ''b'', vd_source = ''b.md'', vd_storage = ''b.md'', vd_name = ''b.md'', vd_hash = ''g'',
         vd_size = 9, vd_status = ''indexed'', vd_semantic = ''na'', vd_error = None\<rparr>],
     vt_chunks := [\<lparr>vc_id = 2, vc_doc = 0, vc_kind = ''child'', vc_parent = None, vc_seq = 0, vc_text = ''hello'', vc_heading = [],
         vc_page = None, vc_location = None, vc_type = ''page'', vc_tokens = 1\<rparr>,
       \<lparr>vc_id = 3, vc_doc = 1, vc_kind = ''child'', vc_parent = None, vc_seq = 0, vc_text = ''hello'', vc_heading = [],
         vc_page = None, vc_location = None, vc_type = ''page'', vc_tokens = 1\<rparr>],
     vt_fts := [\<lparr>ft_text = ''hello'', ft_chunk = 3, ft_doc = 1, ft_agent = Some ''b'', ft_source = ''b.md'', ft_storage = ''b.md'',
         ft_heading = [], ft_page = None, ft_sheet = None, ft_location = None\<rparr>,
       \<lparr>ft_text = ''hello'', ft_chunk = 2, ft_doc = 0, ft_agent = None, ft_source = ''a.md'', ft_storage = ''a.md'',
         ft_heading = [], ft_page = None, ft_sheet = None, ft_location = None\<rparr>],
     vt_profiles := [\<lparr>pf_id = 4, pf_revision = 1, pf_active = True, pf_config = default_config\<lparr>vf_fusion := ''hybrid''\<rparr>\<rparr>],
     vt_next := 5\<rparr>"

definition ex_search :: search_env where
  "ex_search = \<lparr>se_vault = ex_vault_env\<lparr>ve_embed := \<lambda>n m ts. None\<rparr>, se_match = (\<lambda>m r. True), se_rank = (\<lambda>m r. - 1),
     se_cosine = (\<lambda>x y. 0), se_vector_ok = True\<rparr>"

lemma ex_vault_ok: "vault_ok ex_vault"
  by (simp add: ex_vault_def vault_ok_defs empty_vault_def retrievable_kind_def default_config_def default_chunking_def accepted_profile_def)

lemma ex_query: "fts5_match_query ''hello'' ''AND'' = Some ([quote_mark] @ ''hello'' @ [quote_mark])"
  by (simp add: fts5_match_query_def query_terms_def split_phrases.simps word_char_def py_strip_def py_lstrip_def py_rstrip_def
      py_space_def py_lower_def quoted_term_def starts_with_def)

lemma ex_retrieve: "\<exists>r tr w. retrieve ex_search ''hello'' 5 (Some ''a'') False (opened ex_vault) = (Inr ([r], tr), w) \<and> sr_chunk r = 2"
  by (simp add: retrieve_def get_active_profile_def active_profile_def cbind_def read_db_def cget_def cret_def opened_def
     lexical_candidates_def ex_query semantic_candidates_def active_generation_def ex_vault_def default_config_def empty_vault_def
     ex_search_def find_chunk_def retrievable_kind_def in_scope_def rrf_fuse_def LEXICAL_K_def dget_def
     find_document_def shown_def Let_def)


section \<open>Claims\<close>

text \<open>C28. Retrieval never leaves the scopes of its caller: from tables that satisfy the vault's invariant, with other
  sessions committing requests while the query is embedded, every result of a search on behalf of an agent
  belongs to a shared document or to one of that agent, and its text is that of a chunk of this document
  (the matched one or its parent) as stored when the answer is built.\<close>
theorem retrieval_respects_scope:
  assumes "fair_env (se_vault S)" "vault_ok v"
    and run: "retrieve S query limit agent False (opened v) = (Inr (results, tr), w')"
  shows "\<forall>r \<in> set results. (sr_agent r = None \<or> sr_agent r = agent)
     \<and> (\<exists>d \<in> set (vt_docs (wd_db w')). \<exists>c \<in> set (vt_chunks (wd_db w')). vd_id d = sr_doc r \<and> vd_agent d = sr_agent r
          \<and> vc_doc c = vd_id d \<and> vc_text c = sr_text r)"
proof
  fix r assume r: "r \<in> set results"
  from run obtain p w1 semantic remarks where
    p: "get_active_profile (opened v) = (Inr p, w1)"
    and s: "(if vf_fusion (pf_config p) = ''hybrid'' then semantic_candidates S query agent False else cret ([], [])) w1 = (Inr (semantic, remarks), w')"
    and res: "results = expand_all (wd_db w') (vf_max_parents (pf_config p)) []
       (take (nat (max 1 (min limit 20))) (rrf_fuse (lexical_candidates S (wd_db w1) query agent LEXICAL_K False) semantic (vf_rrf_k (pf_config p))))"
    by (rule retrieve_run)
  let ?lex = "lexical_candidates S (wd_db w1) query agent LEXICAL_K False"
  have w1: "world_ok w1" by (rule stays_run[OF stays_profile p assms(1) opened_ok[OF assms(2)]])
  have k: "op_keeps (stays_ok (se_vault S)) (if vf_fusion (pf_config p) = ''hybrid'' then semantic_candidates S query agent False else cret ([], []))"
    by (intro stays.cond stays_semantic stays.basic)
  have w2: "vault_ok (wd_db w')" using stays_run[OF k s assms(1) w1] by (simp add: world_ok_def)
  have grows: "vault_grows (wd_db w1) (wd_db w')" by (rule stays_grows[OF k s assms(1) w1])
  have u: "vault_ok (wd_db w1)" using w1 by (simp add: world_ok_def)
  have sem: "visible (wd_db w') agent (fst h)" if "h \<in> set semantic" for h
    using s that semantic_visible by (auto split: if_splits simp: cret_def)
  have ok: "result_ok (wd_db w') r" using expand_all_ok r unfolding res list_all_iff by blast
  then obtain k d q where kd: "find_chunk (wd_db w') (sr_chunk r) = Some k" "find_document (wd_db w') (vc_doc k) = Some d"
    "sr_doc r = vd_id d" "sr_agent r = vd_agent d" "sr_text r = vc_text q"
    and q: "q = k \<or> Option.bind (vc_parent k) (find_chunk (wd_db w')) = Some q" unfolding result_ok_def by blast
  note rows = find_chunk_row[OF kd(1)] find_document_row[OF kd(2)]
  have "sr_chunk r \<in> set (rrf_fuse ?lex semantic (vf_rrf_k (pf_config p)))"
    using r unfolding res by (auto dest!: imageI[of r _ sr_chunk] elim!: list_emb_set[OF expand_all_order, simplified] dest: in_set_takeD)
  then have "sr_chunk r \<in> fst ` set ?lex \<or> sr_chunk r \<in> fst ` set semantic" unfolding fused_ids by blast
  then have "in_scope False agent (vd_agent d)"
  proof
    assume "sr_chunk r \<in> fst ` set ?lex"
    then have "visible (wd_db w1) agent (sr_chunk r)" using lexical_visible[OF u] by auto
    from visible_later[OF u w2 grows this kd(1,2)] show ?thesis .
  next
    assume "sr_chunk r \<in> fst ` set semantic"
    then have "visible (wd_db w') agent (sr_chunk r)" using sem by auto
    from visible_later[OF w2 w2 vault_grows_refl this kd(1,2)] show ?thesis .
  qed
  moreover have "q \<in> set (vt_chunks (wd_db w')) \<and> vc_doc q = vc_doc k"
  proof (cases "q = k")
    case False
    then obtain i where i: "vc_parent k = Some i" "find_chunk (wd_db w') i = Some q" using q by (auto split: bind_splits)
    from w2 rows i(1) obtain q' where q': "q' \<in> set (vt_chunks (wd_db w'))" "vc_id q' = i" "vc_doc q' = vc_doc k"
      unfolding vault_ok_def chunks_ok_def by blast
    with chunk_unique[OF w2 q'(1)] find_chunk_row[OF i(2)] show ?thesis by metis
  qed (use rows in simp)
  ultimately show "(sr_agent r = None \<or> sr_agent r = agent)
     \<and> (\<exists>d \<in> set (vt_docs (wd_db w')). \<exists>c \<in> set (vt_chunks (wd_db w')). vd_id d = sr_doc r \<and> vd_agent d = sr_agent r
          \<and> vc_doc c = vd_id d \<and> vc_text c = sr_text r)"
    using kd(3-5) rows by (intro conjI bexI[of _ d] bexI[of _ q]) (auto simp: in_scope_def)
qed

theorem retrieval_respects_scope_witness:
  "\<exists>r tr w. retrieve ex_search ''hello'' 5 (Some ''a'') False (opened ex_vault) = (Inr ([r], tr), w)
     \<and> (sr_agent r = None \<or> sr_agent r = Some ''a'')"
proof -
  obtain r tr w where run: "retrieve ex_search ''hello'' 5 (Some ''a'') False (opened ex_vault) = (Inr ([r], tr), w)"
    using ex_retrieve by blast
  have "fair_env (se_vault ex_search)" by (rule quiet_fair) (simp add: quiet_env_def ex_search_def ex_vault_env_def)
  from retrieval_respects_scope[OF this ex_vault_ok run] run show ?thesis by simp
qed

text \<open>C29. The fused order is reciprocal rank fusion: the chunks of the lexical list, then of the semantic list, each
  once in the order of first occurrence, sorted (stably) by falling sum of \<open>1 / (k + rank)\<close> over the ranks
  the chunk has in the two lists, counted from one.\<close>
theorem fusion_is_reciprocal_rank:
  "rrf_fuse lexical semantic k =
     sort_key (\<lambda>c. - (rank_score k (map fst lexical) c + rank_score k (map fst semantic) c))
       (first_seen [] (map fst lexical @ map fst semantic))"
proof -
  let ?l = "map fst lexical" and ?s = "map fst semantic"
  define sc where "sc = add_ranks k 1 ?s (add_ranks k 1 ?l [])"
  have keys: "map fst sc = first_seen [] (?l @ ?s)"
    using add_ranks_spec by (simp add: sc_def first_seen_append)
  have score: "dget sc c 0 = rank_score k ?l c + rank_score k ?s c" for c
    using add_ranks_spec by (simp add: sc_def rank_score_def dget_def)
  have "distinct (map fst sc)" unfolding keys by (simp add: first_seen_distinct)
  then have "(case e of (c, s) \<Rightarrow> - s) = - (rank_score k ?l (fst e) + rank_score k ?s (fst e))" if "e \<in> set sc" for e
    using dget_entry[of sc "fst e" "snd e"] that score by (auto split: prod.split)
  then have "rrf_fuse lexical semantic k = map fst (sort_key (\<lambda>e. - (rank_score k ?l (fst e) + rank_score k ?s (fst e))) sc)"
    unfolding rrf_fuse_def Let_def sc_def[symmetric] by (simp cong: sort_key_eq)
  then show ?thesis unfolding keys[symmetric] sort_key_map .
qed





text \<open>C32. Retrieval always answers, within its bounds: whatever fails on the way, from any state, there is a result
  with at most \<open>limit\<close> entries (at least one is allowed, never more than 20), no chunk twice, and the texts
  of at most \<open>max_parents\<close> parents of the active profile.\<close>
theorem retrieval_bounded:
  "\<exists>results tr w'. retrieve S query limit agent al w = (Inr (results, tr), w')
     \<and> length results \<le> 20 \<and> int (length results) \<le> max 1 limit \<and> distinct (map sr_chunk results)
     \<and> (\<forall>p. active_profile (wd_db w) = Some p \<longrightarrow>
          card (sr_text ` {r \<in> set results. sr_expanded r}) \<le> nat (vf_max_parents (pf_config p)))"
proof -
  obtain results tr w' where run: "retrieve S query limit agent al w = (Inr (results, tr), w')"
    using retrieve_answers by blast
  from run obtain p w1 semantic where p: "get_active_profile w = (Inr p, w1)"
    and res: "results = expand_all (wd_db w') (vf_max_parents (pf_config p)) []
       (take (nat (max 1 (min limit 20))) (rrf_fuse (lexical_candidates S (wd_db w1) query agent LEXICAL_K al) semantic (vf_rrf_k (pf_config p))))"
      (is "_ = expand_all _ _ _ ?ids")
    by (rule retrieve_run)
  have "distinct ?ids" by (simp add: fused_ids(2))
  then have d: "distinct (map sr_chunk results) \<and> length results \<le> length ?ids"
    using subseq_bounds[OF expand_all_order[of "wd_db w'" "vf_max_parents (pf_config p)" "[]" ?ids]] unfolding res by simp
  have n: "length ?ids \<le> 20 \<and> int (length ?ids) \<le> max 1 limit" by auto
  have "card (sr_text ` {r \<in> set results. sr_expanded r}) \<le> nat (vf_max_parents (pf_config q))"
    if q: "active_profile (wd_db w) = Some q" for q
  proof -
    have pq: "p = q" using p q by (simp add: get_active_profile_def cbind_def read_db_def cget_def cret_def)
    obtain ps where ps: "length ps \<le> nat (vf_max_parents (pf_config p))"
      "\<forall>r \<in> set results. sr_expanded r \<longrightarrow> (\<exists>t i. i \<in> set ps \<and> find_chunk (wd_db w') i = Some t \<and> sr_text r = vc_text t)"
      using expand_all_parents[of "[]" "vf_max_parents (pf_config p)" "wd_db w'" ?ids] unfolding res by auto
    have "sr_text ` {r \<in> set results. sr_expanded r} \<subseteq> (\<lambda>i. vc_text (the (find_chunk (wd_db w') i))) ` set ps"
      using ps(2) by force
    then have "card (sr_text ` {r \<in> set results. sr_expanded r}) \<le> card ((\<lambda>i. vc_text (the (find_chunk (wd_db w') i))) ` set ps)"
      by (rule card_mono[rotated]) simp
    also have "\<dots> \<le> card (set ps)" by (rule card_image_le) simp
    also have "\<dots> \<le> length ps" by (rule card_length)
    finally show ?thesis using ps(1) pq by simp
  qed
  with run d n show ?thesis by (intro exI[of _ results] exI[of _ tr] exI[of _ w']) (simp add: order_trans[OF _ conjunct1[OF n]] order_trans[OF _ conjunct2[OF n]])
qed

theorem retrieval_bounded_witness:
  "\<exists>results tr w. retrieve ex_search ''hello'' 5 None True (opened ex_vault) = (Inr (results, tr), w)
     \<and> length results \<le> 5 \<and> card (sr_text ` {r \<in> set results. sr_expanded r}) \<le> 4"
proof -
  have "active_profile (wd_db (opened ex_vault)) = Some \<lparr>pf_id = 4, pf_revision = 1, pf_active = True, pf_config = default_config\<lparr>vf_fusion := ''hybrid''\<rparr>\<rparr>"
    by (simp add: active_profile_def opened_def ex_vault_def)
  with retrieval_bounded[of ex_search "''hello''" 5 None True "opened ex_vault"] show ?thesis
    by (auto simp: default_config_def)
qed

text \<open>A provider that is down degrades the answer, it does not lose it: when every embedding request fails, a search
  still answers, with lexical hits only, and a hybrid profile's trace says why.\<close>
theorem retrieval_degrades:
  assumes "\<And>n m ts. ve_embed (se_vault S) n m ts = None"
  shows "\<exists>results tr w'. retrieve S query limit agent al w = (Inr (results, tr), w')
     \<and> tr_semantic tr = 0 \<and> (tr_fusion tr = ''hybrid'' \<longrightarrow> tr_degraded tr \<noteq> [])
     \<and> set (map sr_chunk results) \<subseteq> fst ` set (lexical_candidates S (wd_db w) query agent LEXICAL_K al)"
proof -
  obtain results tr w' where run: "retrieve S query limit agent al w = (Inr (results, tr), w')"
    using retrieve_answers by blast
  from run obtain p w1 semantic remarks where p: "get_active_profile w = (Inr p, w1)"
    and s: "(if vf_fusion (pf_config p) = ''hybrid'' then semantic_candidates S query agent al else cret ([], [])) w1 = (Inr (semantic, remarks), w')"
    and res: "results = expand_all (wd_db w') (vf_max_parents (pf_config p)) []
       (take (nat (max 1 (min limit 20))) (rrf_fuse (lexical_candidates S (wd_db w1) query agent LEXICAL_K al) semantic (vf_rrf_k (pf_config p))))"
    and tr: "tr_fusion tr = vf_fusion (pf_config p)" "tr_semantic tr = length semantic" "tr_degraded tr = remarks"
    by (rule retrieve_run)
  have sem: "semantic = [] \<and> (vf_fusion (pf_config p) = ''hybrid'' \<longrightarrow> remarks \<noteq> [])"
    using s semantic_down[OF assms] by (auto simp: cret_def split: if_splits)
  have "lexical_candidates S (wd_db w1) query agent LEXICAL_K al = lexical_candidates S (wd_db w) query agent LEXICAL_K al"
    using lexical_rows[of "wd_db w1" "wd_db w"] profile_run[OF p] by auto
  then have "set (map sr_chunk results) \<subseteq> fst ` set (lexical_candidates S (wd_db w) query agent LEXICAL_K al)"
    using sem fused_ids(1) unfolding res
    by (auto elim!: list_emb_set[OF expand_all_order, simplified] dest: in_set_takeD)
  with run sem tr show ?thesis by auto
qed

theorem retrieval_degrades_witness:
  "\<exists>results tr w. retrieve ex_search ''hello'' 5 None True (opened ex_vault) = (Inr (results, tr), w) \<and> tr_semantic tr = 0"
proof -
  have "ve_embed (se_vault ex_search) n m ts = None" for n m ts by (simp add: ex_search_def)
  from retrieval_degrades[OF this] show ?thesis by blast
qed

end
