(* ===== verification/Run_Events.thy ===== *)
theory Run_Events
  imports Harness_Loop
begin

text \<open>
  The events of a run on their way to storage and to clients: the emitter of \<^verbatim>\<open>pipeline.py\<close> that turns
  streamed events into stored rows and receipts, and the buffer of \<^verbatim>\<open>run_manager.py\<close> with the reconnectable
  stream of \<^verbatim>\<open>api/chat.py\<close>.
\<close>

section \<open>Events\<close>

text \<open>The fields of a payload that the code reads, with the defaults of its \<open>get\<close>; the payload itself.\<close>

record run_event =
  ev_type :: string
  ev_run :: "string option"
  ev_scope :: "string option"
  ev_text :: string
  ev_call :: string
  ev_status :: string
  ev_payload :: pydict


section \<open>The persisting emitter\<close>

text \<open>The variables of the closure: buffers per scope, calls seen, receipts, narration rows, the next number.\<close>

record emit_state =
  em_thinking :: "(string option \<times> string list) list"
  em_tokens :: "(string option \<times> string list) list"
  em_seen :: "string list"
  em_receipts :: "(string \<times> receipt) list"
  em_narration :: "(string option \<times> string) list"
  em_seq :: nat
  em_rows :: "stored_message list"
  em_status :: string
  em_uuids :: nat

record emit_env =
  ee_run :: string
  ee_doc :: doc_lib
  ee_uuid :: "nat \<Rightarrow> string"

definition emit_start :: "nat \<Rightarrow> emit_state" where
  "emit_start n = \<lparr>em_thinking = [(None, [])], em_tokens = [(None, [])], em_seen = [], em_receipts = [],
     em_narration = [], em_seq = 1, em_rows = [], em_status = ''running'', em_uuids = n\<rparr>"

definition buffered :: "(string option \<times> string list) list \<Rightarrow> string option \<Rightarrow> string" where
  "buffered bs scope = concat (dget bs scope [])"

definition add_message :: "emit_env \<Rightarrow> string \<Rightarrow> string \<Rightarrow> string option \<Rightarrow> emit_state \<Rightarrow> emit_state" where
  "add_message E role content scope s =
     s\<lparr>em_rows := em_rows s @ [\<lparr>sm_id = ee_uuid E (em_uuids s), sm_run = ee_run E, sm_role = role, sm_content = content,
         sm_seq = int (em_seq s), sm_attachments = None, sm_subagent = scope\<rparr>],
       em_seq := Suc (em_seq s), em_uuids := Suc (em_uuids s)\<rparr>"

text \<open>Chunks are collected; a token or a call ends the thinking before it.\<close>

definition buffer_event :: "run_event \<Rightarrow> emit_state \<Rightarrow> emit_state" where
  "buffer_event ev s =
     (if ev_type ev = ''thinking''
      then s\<lparr>em_thinking := AList.update (ev_scope ev) (dget (em_thinking s) (ev_scope ev) [] @ [ev_text ev]) (em_thinking s)\<rparr>
      else if ev_type ev = ''token''
      then s\<lparr>em_tokens := AList.update (ev_scope ev) (dget (em_tokens s) (ev_scope ev) [] @ [ev_text ev]) (em_tokens s)\<rparr>
      else s)"

definition flush_thinking :: "emit_env \<Rightarrow> run_event \<Rightarrow> emit_state \<Rightarrow> emit_state" where
  "flush_thinking E ev s =
     (let scope = ev_scope ev; chunks = dget (em_thinking s) scope []; s' = s\<lparr>em_thinking := AList.update scope [] (em_thinking s)\<rparr>
      in if ev_type ev \<in> {''token'', ''tool_call''} \<and> chunks \<noteq> []
         then if concat chunks \<noteq> [] then add_message E ''thinking'' (concat chunks) scope s' else s'
         else s)"

text \<open>Text before a call is kept as a message of its own, unless it is blank.\<close>

definition flush_tokens :: "emit_env \<Rightarrow> run_event \<Rightarrow> emit_state \<Rightarrow> emit_state" where
  "flush_tokens E ev s =
     (let scope = ev_scope ev; chunks = dget (em_tokens s) scope []; s' = s\<lparr>em_tokens := AList.update scope [] (em_tokens s)\<rparr>
      in if ev_type ev = ''tool_call'' \<and> chunks \<noteq> []
         then if py_strip (concat chunks) \<noteq> []
              then (add_message E ''assistant'' (concat chunks) scope s')
                     \<lparr>em_narration := AList.update scope (ee_uuid E (em_uuids s)) (em_narration s)\<rparr>
              else s'
         else s)"

definition outcome_statuses :: "string list" where
  "outcome_statuses = [''complete'', ''denied'', ''failed'', ''timeout'', ''interrupted'']"

definition outcome_json :: "emit_env \<Rightarrow> run_event \<Rightarrow> string" where
  "outcome_json E ev =
     dl_dumps (ee_doc E) (PDict
       [(''id'', PStr (ev_call ev)), (''capability'', dget (ev_payload ev) ''capability'' (PStr [])),
        (''args'', dget (ev_payload ev) ''args'' (PDict [])), (''status'', PStr (ev_status ev)),
        (''result'', dget (ev_payload ev) ''result'' PNone), (''denied_reason'', dget (ev_payload ev) ''reason'' PNone),
        (''approval_id'', dget (ev_payload ev) ''approval_id'' PNone),
        (''approval_batch_id'', dget (ev_payload ev) ''approval_batch_id'' PNone),
        (''approval_batch_size'', dget (ev_payload ev) ''approval_batch_size'' PNone)])"

text \<open>The first outcome of a call is stored and answered with a receipt.\<close>

definition record_call :: "emit_env \<Rightarrow> run_event \<Rightarrow> emit_state \<Rightarrow> receipt option \<times> emit_state" where
  "record_call E ev s =
     (if ev_type ev = ''tool_call'' \<and> ev_status ev \<in> set outcome_statuses \<and> ev_call ev \<notin> set (em_seen s)
      then let r = \<lparr>rt_tool = Some (ee_uuid E (em_uuids s)), rt_assistant = map_of (em_narration s) (ev_scope ev)\<rparr>;
               s = add_message E ''tool_call'' (outcome_json E ev) (ev_scope ev) s
           in (Some r, s\<lparr>em_seen := em_seen s @ [ev_call ev], em_receipts := AList.update (ev_call ev) r (em_receipts s)\<rparr>)
      else (None, s))"

definition settle_event :: "run_event \<Rightarrow> emit_state \<Rightarrow> emit_state" where
  "settle_event ev s =
     (let s = (if ev_type ev = ''turn_complete'' then s\<lparr>em_narration := AList.delete (ev_scope ev) (em_narration s)\<rparr> else s);
          s = (if ev_type ev = ''guardrail_correction'' then s\<lparr>em_tokens := AList.update (ev_scope ev) [] (em_tokens s)\<rparr> else s)
      in if ev_type ev = ''tool_call'' \<and> ev_status ev = ''pending_approval'' then s\<lparr>em_status := ''awaiting_approval''\<rparr> else s)"

definition persist_event :: "emit_env \<Rightarrow> run_event \<Rightarrow> emit_state \<Rightarrow> receipt option \<times> emit_state" where
  "persist_event E ev s =
     (let s = flush_tokens E ev (flush_thinking E ev (buffer_event ev s))
      in if ev_type ev = ''tool_call'' \<and> map_of (em_receipts s) (ev_call ev) \<noteq> None
         then (map_of (em_receipts s) (ev_call ev), s)
         else case record_call E ev s of (r, s) \<Rightarrow> (r, settle_event ev s))"

definition persist_all :: "emit_env \<Rightarrow> run_event list \<Rightarrow> emit_state \<Rightarrow> emit_state" where
  "persist_all E evs s = fold (\<lambda>ev s. snd (persist_event E ev s)) evs s"


section \<open>The event buffer of a run\<close>

text \<open>
  The context of a run: numbered events, the last number, the readers that wait, the status and whether
  its task has ended.  A waiting entry is the reader with the number of its wait.
\<close>

record run_ctx =
  rx_events :: "(nat \<times> run_event) list"
  rx_seq :: nat
  rx_waiters :: "(nat \<times> nat) list"
  rx_status :: string
  rx_done :: bool

text \<open>
  Where a stream stands: replaying from a position, at the top of its loop, in its \<open>t\<close>-th wait (with the number
  it was answered with, if it was), sending the events up to a number from a position on, or over (with the
  number of events buffered then), or dropped by the client.
\<close>

datatype stream_phase =
    Replaying nat
  | AtTop
  | InWait nat "nat option"
  | Sending nat nat
  | StreamOver nat
  | StreamDropped

record stream_reader =
  rd_phase :: stream_phase
  rd_after :: nat
  rd_seen :: nat
  rd_out :: "(nat \<times> run_event) list"
  rd_waits :: nat

definition new_context :: run_ctx where
  "new_context = \<lparr>rx_events = [], rx_seq = 0, rx_waiters = [], rx_status = ''running'', rx_done = False\<rparr>"

definition new_reader :: "nat \<Rightarrow> stream_reader" where
  "new_reader after = \<lparr>rd_phase = Replaying 0, rd_after = after, rd_seen = after, rd_out = [], rd_waits = 0\<rparr>"

text \<open>A waiting reader whose wait is still pending gets the number of the new event.\<close>

definition answer_wait :: "nat \<Rightarrow> (nat \<times> nat) list \<Rightarrow> nat \<Rightarrow> stream_reader \<Rightarrow> stream_reader" where
  "answer_wait n waiters i r =
     (case rd_phase r of
        InWait t None \<Rightarrow> if (i, t) \<in> set waiters then r\<lparr>rd_phase := InWait t (Some n)\<rparr> else r
      | _ \<Rightarrow> r)"

definition append_event ::
    "run_event \<Rightarrow> run_ctx \<times> stream_reader list \<Rightarrow> run_ctx \<times> stream_reader list" where
  "append_event ev cr = (case cr of (c, rs) \<Rightarrow>
     let n = Suc (rx_seq c)
     in (c\<lparr>rx_seq := n, rx_events := rx_events c @ [(n, ev)], rx_waiters := []\<rparr>,
         map (\<lambda>(i, r). answer_wait n (rx_waiters c) i r) (enumerate 0 rs)))"

text \<open>The newest event after a number, if any; otherwise the reader joins the waiters.\<close>

definition newer_event :: "run_ctx \<Rightarrow> nat \<Rightarrow> nat option" where
  "newer_event c after = map_option fst (find (\<lambda>(n, e). n > after) (rev (rx_events c)))"

definition wait_for_event :: "nat \<Rightarrow> run_ctx \<Rightarrow> stream_reader \<Rightarrow> run_ctx \<times> stream_reader" where
  "wait_for_event i c r =
     (case newer_event c (rd_seen r) of
        Some n \<Rightarrow> (c, r\<lparr>rd_phase := Sending n 0\<rparr>)
      | None \<Rightarrow>
          (c\<lparr>rx_waiters := rx_waiters c @ [(i, rd_waits r)]\<rparr>,
           r\<lparr>rd_phase := InWait (rd_waits r) None, rd_waits := Suc (rd_waits r)\<rparr>))"

definition send_one :: "nat \<times> run_event \<Rightarrow> stream_reader \<Rightarrow> stream_reader" where
  "send_one e r = r\<lparr>rd_out := rd_out r @ [e]\<rparr>"

definition final_statuses :: "string list" where
  "final_statuses = [''completed'', ''failed'', ''stopped'']"

text \<open>
  One step of a stream up to its next suspension; \<open>late\<close> is the second that a wait lasts.  A wait that was
  given up is cancelled and its entry stays.
\<close>

definition stream_step :: "nat \<Rightarrow> bool \<Rightarrow> run_ctx \<Rightarrow> stream_reader \<Rightarrow> run_ctx \<times> stream_reader" where
  "stream_step i late c r =
     (case rd_phase r of
        Replaying k \<Rightarrow>
          if k < length (rx_events c)
          then let e = rx_events c ! k
               in (c, if fst e > rd_seen r then (send_one e r)\<lparr>rd_seen := fst e, rd_phase := Replaying (Suc k)\<rparr>
                      else r\<lparr>rd_phase := Replaying (Suc k)\<rparr>)
          else if rx_done c \<or> rx_status c \<in> set final_statuses
          then (c, r\<lparr>rd_phase := StreamOver (length (rx_events c))\<rparr>)
          else (c, r\<lparr>rd_phase := AtTop\<rparr>)
      | AtTop \<Rightarrow>
          if rx_done c \<and> rd_seen r \<ge> rx_seq c then (c, r\<lparr>rd_phase := StreamOver (length (rx_events c))\<rparr>)
          else wait_for_event i c r
      | InWait t w \<Rightarrow>
          (case w of
             Some n \<Rightarrow> (c, r\<lparr>rd_phase := Sending n 0\<rparr>)
           | None \<Rightarrow> if late then (c, r\<lparr>rd_phase := AtTop\<rparr>) else (c, r))
      | Sending n k \<Rightarrow>
          if k < length (rx_events c)
          then let e = rx_events c ! k
               in (c, if fst e > rd_seen r \<and> fst e \<le> n then (send_one e r)\<lparr>rd_phase := Sending n (Suc k)\<rparr>
                      else r\<lparr>rd_phase := Sending n (Suc k)\<rparr>)
          else (c, r\<lparr>rd_seen := n, rd_phase := AtTop\<rparr>)
      | _ \<Rightarrow> (c, r))"

text \<open>
  What happens to a run and its streams: events, status changes and the end of the task; a client connects
  with the number of an event of this run (or zero), its stream advances, it goes away.
\<close>

inductive streaming :: "run_ctx \<Rightarrow> stream_reader list \<Rightarrow> bool" where
  stream_start: "streaming new_context []"
| stream_append: "streaming c rs \<Longrightarrow> append_event ev (c, rs) = (c', rs') \<Longrightarrow> streaming c' rs'"
| stream_status: "streaming c rs \<Longrightarrow> streaming (c\<lparr>rx_status := s\<rparr>) rs"
| stream_task_ends: "streaming c rs \<Longrightarrow> streaming (c\<lparr>rx_done := True\<rparr>) rs"
| stream_connect: "streaming c rs \<Longrightarrow> after \<le> rx_seq c \<Longrightarrow> streaming c (rs @ [new_reader after])"
| stream_advance: "streaming c rs \<Longrightarrow> i < length rs \<Longrightarrow> stream_step i late c (rs ! i) = (c', r)
    \<Longrightarrow> streaming c' (rs[i := r])"
| stream_drop: "streaming c rs \<Longrightarrow> i < length rs \<Longrightarrow> streaming c (rs[i := (rs ! i)\<lparr>rd_phase := StreamDropped\<rparr>])"

end
