(* ===== verification/Run_Events_Safety.thy ===== *)
theory Run_Events_Safety
  imports Run_Events
begin

text \<open>
  What the emitter stores and what a stream sends: an invariant of the emitter's rows and receipts kept by
  every event, and an invariant of contexts and readers kept by every step, whatever the interleaving.
\<close>

section \<open>What the emitter stores\<close>

lemma add_message_simps [simp]:
  "em_thinking (add_message E role c sc s) = em_thinking s" "em_tokens (add_message E role c sc s) = em_tokens s"
  "em_seen (add_message E role c sc s) = em_seen s" "em_receipts (add_message E role c sc s) = em_receipts s"
  "em_narration (add_message E role c sc s) = em_narration s" "em_seq (add_message E role c sc s) = Suc (em_seq s)"
  "em_status (add_message E role c sc s) = em_status s"
  by (simp_all add: add_message_def)

text \<open>The thinking of a scope: in the events, and as stored together with what is still buffered.\<close>

definition thought :: "string option \<Rightarrow> run_event list \<Rightarrow> string" where
  "thought scope evs = concat (map ev_text (filter (\<lambda>e. ev_type e = ''thinking'' \<and> ev_scope e = scope) evs))"

definition stored_thought :: "string option \<Rightarrow> emit_state \<Rightarrow> string" where
  "stored_thought scope s =
     concat (map sm_content (filter (\<lambda>m. sm_role m = ''thinking'' \<and> sm_subagent m = scope) (em_rows s)))
     @ buffered (em_thinking s) scope"

text \<open>The first outcome of every call, in order.\<close>

fun first_outcomes :: "string list \<Rightarrow> run_event list \<Rightarrow> run_event list" where
  "first_outcomes seen [] = []"
| "first_outcomes seen (e # es) =
     (if ev_type e = ''tool_call'' \<and> ev_status e \<in> set outcome_statuses \<and> ev_call e \<notin> set seen
      then e # first_outcomes (seen @ [ev_call e]) es else first_outcomes seen es)"

definition numbered_rows :: "emit_state \<Rightarrow> bool" where
  "numbered_rows s \<longleftrightarrow> map sm_seq (em_rows s) = map int [1..<em_seq s] \<and> em_seq s = Suc (length (em_rows s))"

definition call_rows :: "emit_state \<Rightarrow> string list" where
  "call_rows s = map sm_content (filter (\<lambda>m. sm_role m = ''tool_call'') (em_rows s))"

text \<open>A receipt names a stored outcome of its call and a message of the same scope before it.\<close>

definition receipt_ok :: "emit_env \<Rightarrow> stored_message list \<Rightarrow> string \<Rightarrow> receipt \<Rightarrow> bool" where
  "receipt_ok E rows i r \<longleftrightarrow> (\<exists>pre m post e. rows = pre @ m # post \<and> rt_tool r = Some (sm_id m) \<and> sm_role m = ''tool_call''
     \<and> sm_content m = outcome_json E e \<and> ev_call e = i
     \<and> (\<forall>a. rt_assistant r = Some a \<longrightarrow> (\<exists>n \<in> set pre. sm_id n = a \<and> sm_role n = ''assistant'' \<and> sm_subagent n = sm_subagent m)))"

definition emit_ok :: "emit_env \<Rightarrow> emit_state \<Rightarrow> bool" where
  "emit_ok E s \<longleftrightarrow> numbered_rows s \<and> set (em_seen s) = dom (map_of (em_receipts s))
     \<and> (\<forall>i r. map_of (em_receipts s) i = Some r \<longrightarrow> receipt_ok E (em_rows s) i r)
     \<and> (\<forall>sc a. map_of (em_narration s) sc = Some a \<longrightarrow>
          (\<exists>n \<in> set (em_rows s). sm_id n = a \<and> sm_role n = ''assistant'' \<and> sm_subagent n = sc))"

lemma receipt_ok_append: "receipt_ok E rows i r \<Longrightarrow> receipt_ok E (rows @ rest) i r"
  unfolding receipt_ok_def by (metis append.assoc append_Cons)

lemma numbered_add: "numbered_rows s \<Longrightarrow> numbered_rows (add_message E role c sc s)"
  by (simp add: numbered_rows_def add_message_def)

lemma emit_ok_add:
  assumes "emit_ok E s"
  shows "emit_ok E (add_message E role c sc s)"
  using assms numbered_add receipt_ok_append unfolding emit_ok_def
  by (simp add: add_message_def numbered_rows_def)

lemma emit_ok_start: "emit_ok E (emit_start n)"
  by (simp add: emit_ok_def emit_start_def numbered_rows_def)

lemma emit_ok_buffer: "emit_ok E s \<Longrightarrow> emit_ok E (buffer_event ev s)"
  by (simp add: emit_ok_def buffer_event_def numbered_rows_def)

lemma emit_ok_flush_thinking: "emit_ok E s \<Longrightarrow> emit_ok E (flush_thinking E ev s)"
  unfolding flush_thinking_def Let_def
  by (auto intro!: emit_ok_add) (simp_all add: emit_ok_def numbered_rows_def)

lemma emit_ok_flush_tokens: "emit_ok E s \<Longrightarrow> emit_ok E (flush_tokens E ev s)"
proof -
  assume s: "emit_ok E s"
  define s' where "s' = s\<lparr>em_tokens := AList.update (ev_scope ev) [] (em_tokens s)\<rparr>"
  define t where "t = add_message E ''assistant'' (concat (dget (em_tokens s) (ev_scope ev) [])) (ev_scope ev) s'"
  have s': "emit_ok E s'" using s by (simp add: s'_def emit_ok_def numbered_rows_def)
  then have t: "emit_ok E t" unfolding t_def by (rule emit_ok_add)
  have "\<exists>n \<in> set (em_rows t). sm_id n = ee_uuid E (em_uuids s) \<and> sm_role n = ''assistant'' \<and> sm_subagent n = ev_scope ev"
    by (simp add: t_def add_message_def s'_def)
  with t have "emit_ok E (t\<lparr>em_narration := AList.update (ev_scope ev) (ee_uuid E (em_uuids s)) (em_narration t)\<rparr>)"
    by (simp add: emit_ok_def numbered_rows_def)
  then show ?thesis
    using s s' by (simp add: flush_tokens_def Let_def s'_def[symmetric] t_def[symmetric]) (simp add: t_def s'_def)
qed

lemma emit_ok_record: "emit_ok E s \<Longrightarrow> record_call E ev s = (r, s') \<Longrightarrow> emit_ok E s'"
proof -
  assume s: "emit_ok E s" and rc: "record_call E ev s = (r, s')"
  define t where "t = add_message E ''tool_call'' (outcome_json E ev) (ev_scope ev) s"
  define x where "x = \<lparr>rt_tool = Some (ee_uuid E (em_uuids s)), rt_assistant = map_of (em_narration s) (ev_scope ev)\<rparr>"
  have t: "emit_ok E t" unfolding t_def using s by (rule emit_ok_add)
  have "receipt_ok E (em_rows t) (ev_call ev) x"
    unfolding receipt_ok_def
  proof (intro exI conjI)
    show "em_rows t = em_rows s @ \<lparr>sm_id = ee_uuid E (em_uuids s), sm_run = ee_run E, sm_role = ''tool_call'',
        sm_content = outcome_json E ev, sm_seq = int (em_seq s), sm_attachments = None, sm_subagent = ev_scope ev\<rparr> # []"
      by (simp add: t_def add_message_def)
  qed (use s in \<open>simp_all add: x_def emit_ok_def\<close>)
  with t have "emit_ok E (t\<lparr>em_seen := em_seen t @ [ev_call ev], em_receipts := AList.update (ev_call ev) x (em_receipts t)\<rparr>)"
    by (auto simp: emit_ok_def numbered_rows_def)
  then show "emit_ok E s'"
    using rc s by (auto simp: record_call_def Let_def t_def[symmetric] x_def[symmetric] split: if_splits)
qed

lemma emit_ok_settle: "emit_ok E s \<Longrightarrow> emit_ok E (settle_event ev s)"
  by (simp add: emit_ok_def settle_event_def numbered_rows_def Let_def)


lemma emit_ok_event: "emit_ok E s \<Longrightarrow> emit_ok E (snd (persist_event E ev s))"
proof -
  assume "emit_ok E s"
  then have "emit_ok E (flush_tokens E ev (flush_thinking E ev (buffer_event ev s)))"
    by (intro emit_ok_flush_tokens emit_ok_flush_thinking emit_ok_buffer)
  then show ?thesis
    unfolding persist_event_def Let_def
    by (auto split: prod.split dest: emit_ok_record intro!: emit_ok_settle)
qed

lemma emit_ok_all: "emit_ok E s \<Longrightarrow> emit_ok E (persist_all E evs s)"
  unfolding persist_all_def by (induction evs arbitrary: s) (simp_all add: emit_ok_event)

text \<open>Thinking.\<close>

lemma stored_thought_add [simp]:
  "stored_thought sc (add_message E role c sc' s)
     = concat (map sm_content (filter (\<lambda>m. sm_role m = ''thinking'' \<and> sm_subagent m = sc) (em_rows s)))
       @ (if role = ''thinking'' \<and> sc' = sc then c else []) @ buffered (em_thinking s) sc"
  by (simp add: stored_thought_def add_message_def)

lemma thought_flush: "stored_thought sc (flush_thinking E ev s) = stored_thought sc s"
  unfolding flush_thinking_def Let_def by (auto simp: stored_thought_def add_message_def buffered_def)

lemma thought_tokens: "stored_thought sc (flush_tokens E ev s) = stored_thought sc s"
  unfolding flush_tokens_def Let_def by (auto simp: stored_thought_def add_message_def)

lemma thought_record: "record_call E ev s = (r, s') \<Longrightarrow> stored_thought sc s' = stored_thought sc s"
  by (auto simp: record_call_def Let_def stored_thought_def add_message_def split: if_splits)

lemma thought_settle: "stored_thought sc (settle_event ev s) = stored_thought sc s"
  by (simp add: settle_event_def stored_thought_def Let_def)

lemma thought_buffer:
  "stored_thought sc (buffer_event ev s) = stored_thought sc s @ thought sc [ev]"
  by (auto simp: buffer_event_def stored_thought_def buffered_def thought_def)

lemma thought_event: "stored_thought sc (snd (persist_event E ev s)) = stored_thought sc s @ thought sc [ev]"
  unfolding persist_event_def Let_def
  by (auto simp: thought_settle thought_tokens thought_flush thought_buffer dest: thought_record split: prod.split)

lemma thought_all: "stored_thought sc (persist_all E evs s) = stored_thought sc s @ thought sc evs"
  unfolding persist_all_def
proof (induction evs arbitrary: s)
  case (Cons e evs)
  have "thought sc (e # evs) = thought sc [e] @ thought sc evs" by (simp add: thought_def)
  with Cons show ?case by (simp add: thought_event)
qed (simp add: thought_def)

text \<open>Calls.\<close>

lemma call_rows_add [simp]: "call_rows (add_message E role c sc s) = call_rows s @ (if role = ''tool_call'' then [c] else [])"
  by (simp add: call_rows_def add_message_def)

lemma calls_before:
  "call_rows (flush_tokens E ev (flush_thinking E ev (buffer_event ev s))) = call_rows s"
  "em_seen (flush_tokens E ev (flush_thinking E ev (buffer_event ev s))) = em_seen s"
  by (auto simp: flush_tokens_def flush_thinking_def buffer_event_def Let_def call_rows_def add_message_def)

lemma calls_settle: "call_rows (settle_event ev s) = call_rows s" "em_seen (settle_event ev s) = em_seen s"
  by (simp_all add: settle_event_def call_rows_def Let_def)

lemma calls_event:
  assumes "emit_ok E s"
  shows "call_rows (snd (persist_event E ev s)) = call_rows s @ map (outcome_json E) (first_outcomes (em_seen s) [ev])
    \<and> em_seen (snd (persist_event E ev s)) = em_seen s @ map ev_call (first_outcomes (em_seen s) [ev])"
proof -
  define t where "t = flush_tokens E ev (flush_thinking E ev (buffer_event ev s))"
  have t: "emit_ok E t" unfolding t_def using assms by (intro emit_ok_flush_tokens emit_ok_flush_thinking emit_ok_buffer)
  have b: "call_rows t = call_rows s" "em_seen t = em_seen s" unfolding t_def by (rule calls_before)+
  have k: "map_of (em_receipts t) (ev_call ev) \<noteq> None \<longleftrightarrow> ev_call ev \<in> set (em_seen s)"
    using t b(2) by (auto simp: emit_ok_def)
  show ?thesis
    unfolding persist_event_def Let_def t_def[symmetric]
    using b k by (auto simp: record_call_def Let_def calls_settle split: prod.split) (simp_all add: call_rows_def add_message_def)
qed

lemma first_outcomes_Cons:
  "first_outcomes seen (e # es) = first_outcomes seen [e] @ first_outcomes (seen @ map ev_call (first_outcomes seen [e])) es"
  by simp

lemma calls_all:
  "emit_ok E s \<Longrightarrow> call_rows (persist_all E evs s) = call_rows s @ map (outcome_json E) (first_outcomes (em_seen s) evs)"
  unfolding persist_all_def
proof (induction evs arbitrary: s)
  case (Cons e evs)
  have "fold (\<lambda>ev s. snd (persist_event E ev s)) (e # evs) s = fold (\<lambda>ev s. snd (persist_event E ev s)) evs (snd (persist_event E e s))"
    by simp
  then show ?case
    using Cons.IH[OF emit_ok_event[OF Cons.prems, of e]] calls_event[OF Cons.prems, of e]
    by (subst first_outcomes_Cons) (simp del: first_outcomes.simps)
qed simp

section \<open>What a stream sends\<close>

definition ctx_ok :: "run_ctx \<Rightarrow> bool" where
  "ctx_ok c \<longleftrightarrow> map fst (rx_events c) = [1..<Suc (rx_seq c)]"

text \<open>The stream has sent the events after its start up to the \<open>m\<close>-th.\<close>

definition sent :: "run_ctx \<Rightarrow> stream_reader \<Rightarrow> nat \<Rightarrow> bool" where
  "sent c r m \<longleftrightarrow> m \<le> rx_seq c \<and> rd_out r = drop (rd_after r) (take m (rx_events c))"

definition reader_ok :: "run_ctx \<Rightarrow> stream_reader \<Rightarrow> bool" where
  "reader_ok c r \<longleftrightarrow> rd_after r \<le> rd_seen r \<and> rd_after r \<le> rx_seq c \<and>
     (case rd_phase r of
        Replaying k \<Rightarrow> k \<le> rx_seq c \<and> rd_seen r = max (rd_after r) k \<and> sent c r k
      | AtTop \<Rightarrow> sent c r (rd_seen r)
      | InWait t w \<Rightarrow> sent c r (rd_seen r) \<and> (\<forall>n. w = Some n \<longrightarrow> rd_seen r \<le> n \<and> n \<le> rx_seq c)
      | Sending n k \<Rightarrow> n \<le> rx_seq c \<and> rd_seen r \<le> n \<and> k \<le> rx_seq c \<and> sent c r (max (rd_seen r) (min k n))
      | StreamOver m \<Rightarrow> sent c r m
      | StreamDropped \<Rightarrow> \<exists>m. sent c r m)"

lemma ctx_length: "ctx_ok c \<Longrightarrow> length (rx_events c) = rx_seq c"
  unfolding ctx_ok_def by (metis length_map length_upt diff_Suc_1)

lemma ctx_number: "ctx_ok c \<Longrightarrow> k < rx_seq c \<Longrightarrow> fst (rx_events c ! k) = Suc k"
  using ctx_length[of c] nth_map[of k "rx_events c" fst] by (simp add: ctx_ok_def del: upt_Suc)

lemma sent_append:
  "ctx_ok c \<Longrightarrow> sent c r m \<Longrightarrow> rx_events c' = rx_events c @ [e] \<Longrightarrow> rx_seq c' = Suc (rx_seq c) \<Longrightarrow>
   rd_out r' = rd_out r \<Longrightarrow> rd_after r' = rd_after r \<Longrightarrow> sent c' r' m"
  by (simp add: sent_def ctx_length)

lemma reader_append:
  assumes "ctx_ok c" "reader_ok c r"
  shows "reader_ok (c\<lparr>rx_seq := Suc (rx_seq c), rx_events := rx_events c @ [(Suc (rx_seq c), ev)], rx_waiters := ws\<rparr>)
     (answer_wait (Suc (rx_seq c)) waiters i r)" (is "reader_ok ?c ?r")
proof -
  have same: "rd_out ?r = rd_out r \<and> rd_after ?r = rd_after r \<and> rd_seen ?r = rd_seen r"
    by (auto simp: answer_wait_def split: stream_phase.split option.split)
  then have s: "sent c r m \<Longrightarrow> sent ?c ?r m" for m
    using sent_append[OF assms(1), of r m ?c "(Suc (rx_seq c), ev)" ?r] by simp
  have p: "rd_phase ?r = rd_phase r \<or> (\<exists>t. rd_phase r = InWait t None \<and> rd_phase ?r = InWait t (Some (Suc (rx_seq c))))"
    by (auto simp: answer_wait_def split: stream_phase.split option.split)
  show ?thesis
  proof (cases "rd_phase ?r = rd_phase r")
    case True
    with assms(2) same s show ?thesis unfolding reader_ok_def by (cases "rd_phase r") auto
  next
    case False
    with p obtain t where t: "rd_phase r = InWait t None" "rd_phase ?r = InWait t (Some (Suc (rx_seq c)))" by blast
    from assms(2) t(1) have "sent c r (rd_seen r)" "rd_seen r \<le> rx_seq c" by (auto simp: reader_ok_def sent_def)
    with assms(2) t same s show ?thesis by (simp add: reader_ok_def)
  qed
qed

lemma sent_next:
  assumes "ctx_ok c" "sent c r m" "m < rx_seq c" "rd_after r \<le> m"
  shows "sent c (send_one (rx_events c ! m) r) (Suc m)"
  using assms ctx_length[OF assms(1)] by (simp add: sent_def send_one_def take_Suc_conv_app_nth)

lemma sent_skip: "sent c r m \<Longrightarrow> m < rx_seq c \<Longrightarrow> Suc m \<le> rd_after r \<Longrightarrow> sent c r (Suc m)"
  by (simp add: sent_def)

lemma sent_same: "sent c r m \<Longrightarrow> rx_events c' = rx_events c \<Longrightarrow> rx_seq c' = rx_seq c \<Longrightarrow>
   rd_out r' = rd_out r \<Longrightarrow> rd_after r' = rd_after r \<Longrightarrow> sent c' r' m"
  by (simp add: sent_def)

text \<open>A step keeps the buffer.\<close>

lemma step_events:
  "stream_step i late c r = (c', r') \<Longrightarrow> rx_events c' = rx_events c \<and> rx_seq c' = rx_seq c \<and> rx_done c' = rx_done c
    \<and> rx_status c' = rx_status c"
  by (auto simp: stream_step_def wait_for_event_def Let_def split: stream_phase.splits option.splits if_splits)

lemma newer_event_bounds:
  assumes "ctx_ok c" "newer_event c m = Some n"
  shows "m < n \<and> n \<le> rx_seq c"
proof -
  from assms(2) obtain e where "e \<in> set (rx_events c)" "fst e = n" "m < n"
    by (auto simp: newer_event_def find_Some_iff) (metis nth_mem set_rev length_rev fst_conv)
  moreover have "set (map fst (rx_events c)) = {1..<Suc (rx_seq c)}" using assms(1) unfolding ctx_ok_def by (metis set_upt)
  ultimately show ?thesis by (metis atLeastLessThan_iff image_eqI less_Suc_eq_le list.set_map)
qed

lemma reader_step:
  assumes c: "ctx_ok c" and r: "reader_ok c r" and step: "stream_step i late c r = (c', r')"
  shows "reader_ok c' r'"
proof -
  note same = step_events[OF step] and len = ctx_length[OF c]
  show ?thesis
  proof (cases "rd_phase r")
    case (Replaying k)
    with r have k: "k \<le> rx_seq c" "rd_seen r = max (rd_after r) k" "sent c r k" "rd_after r \<le> rx_seq c"
      by (auto simp: reader_ok_def)
    show ?thesis
    proof (cases "k < rx_seq c")
      case True
      then have e: "fst (rx_events c ! k) = Suc k" by (rule ctx_number[OF c])
      show ?thesis
      proof (cases "Suc k > rd_seen r")
        case big: True
        then have "sent c (send_one (rx_events c ! k) r) (Suc k)" using sent_next[OF c k(3) True] k(2) by simp
        with big True step Replaying e len k show ?thesis
          by (auto simp: stream_step_def Let_def reader_ok_def sent_def send_one_def)
      next
        case False
        then have "sent c r (Suc k)" using sent_skip[OF k(3) True] k(2) by simp
        with False True step Replaying e len k show ?thesis
          by (auto simp: stream_step_def Let_def reader_ok_def sent_def)
      qed
    next
      case False
      with step Replaying len k show ?thesis
        by (auto simp: stream_step_def reader_ok_def sent_def split: if_splits)
    qed
  next
    case AtTop
    show ?thesis
    proof (cases "newer_event c (rd_seen r)")
      case None
      with AtTop r step len show ?thesis
        by (auto simp: stream_step_def wait_for_event_def reader_ok_def sent_def split: if_splits)
    next
      case (Some n)
      with newer_event_bounds[OF c Some] AtTop r step len show ?thesis
        by (auto simp: stream_step_def wait_for_event_def reader_ok_def sent_def split: if_splits)
    qed
  next
    case (InWait t w)
    with r step show ?thesis
      by (auto simp: stream_step_def reader_ok_def sent_def split: if_splits option.splits)
  next
    case (Sending n k)
    with r have k: "n \<le> rx_seq c" "rd_seen r \<le> n" "k \<le> rx_seq c" "sent c r (max (rd_seen r) (min k n))"
      "rd_after r \<le> rd_seen r" "rd_after r \<le> rx_seq c" by (auto simp: reader_ok_def)
    show ?thesis
    proof (cases "k < rx_seq c")
      case True
      then have e: "fst (rx_events c ! k) = Suc k" by (rule ctx_number[OF c])
      show ?thesis
      proof (cases "Suc k > rd_seen r \<and> Suc k \<le> n")
        case mid: True
        then have m: "max (rd_seen r) (min k n) = k" "max (rd_seen r) (min (Suc k) n) = Suc k" by auto
        then have "sent c (send_one (rx_events c ! k) r) (Suc k)" using sent_next[OF c _ True, of r] k by simp
        with mid True step Sending e len k m show ?thesis
          by (auto simp: stream_step_def Let_def reader_ok_def sent_def send_one_def)
      next
        case False
        then have "max (rd_seen r) (min (Suc k) n) = max (rd_seen r) (min k n)" by auto
        with False True step Sending e len k show ?thesis
          by (auto simp: stream_step_def Let_def reader_ok_def sent_def)
      qed
    next
      case False
      then have "max (rd_seen r) (min k n) = n" using k by auto
      with False step Sending len k show ?thesis by (auto simp: stream_step_def reader_ok_def sent_def)
    qed
  next
    case (StreamOver m)
    with r step show ?thesis by (simp add: stream_step_def)
  next
    case StreamDropped
    with r step show ?thesis by (simp add: stream_step_def)
  qed
qed

lemma reader_same_ctx:
  "reader_ok c r \<Longrightarrow> rx_events c' = rx_events c \<Longrightarrow> rx_seq c' = rx_seq c \<Longrightarrow> reader_ok c' r"
  unfolding reader_ok_def sent_def by (cases "rd_phase r") auto

lemma reader_sent: "reader_ok c r \<Longrightarrow> \<exists>m. sent c r m"
  unfolding reader_ok_def by (cases "rd_phase r") auto

lemma reader_dropped: "reader_ok c r \<Longrightarrow> reader_ok c (r\<lparr>rd_phase := StreamDropped\<rparr>)"
  using reader_sent[of c r] unfolding reader_ok_def by (auto simp: sent_def)

lemma streaming_ok: "streaming c rs \<Longrightarrow> ctx_ok c \<and> list_all (reader_ok c) rs"
proof (induction rule: streaming.induct)
  case stream_start
  then show ?case by (simp add: ctx_ok_def new_context_def)
next
  case (stream_append c rs ev c' rs')
  then have "reader_ok c' r'" if "r' \<in> set rs'" for r'
    using that reader_append[where c = c and ev = ev and ws = "[]" and waiters = "rx_waiters c"]
    by (auto simp: append_event_def Let_def list_all_iff in_set_enumerate_eq split: prod.splits)
  moreover have "ctx_ok c'" using stream_append by (auto simp: append_event_def Let_def ctx_ok_def)
  ultimately show ?case by (simp add: list_all_iff)
next
  case (stream_status c rs s)
  then show ?case using reader_same_ctx[of c _ "c\<lparr>rx_status := s\<rparr>"] by (auto simp: ctx_ok_def list_all_iff)
next
  case (stream_task_ends c rs)
  then show ?case using reader_same_ctx[of c _ "c\<lparr>rx_done := True\<rparr>"] by (auto simp: ctx_ok_def list_all_iff)
next
  case (stream_connect c rs after)
  then show ?case by (auto simp: list_all_iff reader_ok_def new_reader_def sent_def)
next
  case (stream_advance c rs i late c' r)
  note same = step_events[OF stream_advance.hyps(3)]
  have "reader_ok c' r" using reader_step[OF _ _ stream_advance.hyps(3)] stream_advance by (simp add: list_all_length)
  moreover have "reader_ok c' x" if "x \<in> set rs" for x
    using reader_same_ctx[of c x c'] same stream_advance.IH that by (simp add: list_all_iff)
  ultimately show ?case
    using stream_advance.IH same set_update_subset_insert[of rs i r] by (auto simp: list_all_iff ctx_ok_def)
next
  case (stream_drop c rs i)
  then show ?case
    using reader_dropped set_update_subset_insert[of rs i] by (fastforce simp: list_all_iff)
qed


lemma stream_ends_complete:
  assumes "ctx_ok c" "reader_ok c r" "stream_step i late c r = (c', r')"
    and "rd_phase r' = StreamOver n" "rd_phase r \<noteq> StreamOver n"
  shows "n = length (rx_events c) \<and> rd_out r' = drop (rd_after r) (rx_events c)"
  using assms ctx_length[OF assms(1)]
  by (auto simp: stream_step_def wait_for_event_def reader_ok_def sent_def Let_def send_one_def
      split: stream_phase.splits if_splits option.splits)

text \<open>A stream alone, its waits running out.\<close>

definition drain_stream :: "nat \<Rightarrow> nat \<Rightarrow> run_ctx \<times> stream_reader \<Rightarrow> run_ctx \<times> stream_reader" where
  "drain_stream i k = (\<lambda>(c, r). stream_step i True c r) ^^ k"

lemma drain_Suc: "drain_stream i (Suc k) cr = drain_stream i k (case cr of (c, r) \<Rightarrow> stream_step i True c r)"
  by (simp add: drain_stream_def funpow_swap1)

definition ends :: "nat \<Rightarrow> run_ctx \<Rightarrow> stream_reader \<Rightarrow> bool" where
  "ends i c r \<longleftrightarrow> (\<exists>k c' r'. drain_stream i k (c, r) = (c', r') \<and> rd_phase r' = StreamOver (length (rx_events c')))"

lemma ends_step: "stream_step i True c r = (c', r') \<Longrightarrow> ends i c' r' \<Longrightarrow> ends i c r"
proof -
  assume s: "stream_step i True c r = (c', r')" and "ends i c' r'"
  then obtain k c2 r2 where "drain_stream i k (c', r') = (c2, r2)" "rd_phase r2 = StreamOver (length (rx_events c2))"
    unfolding ends_def by blast
  with s have "drain_stream i (Suc k) (c, r) = (c2, r2)" by (simp add: drain_Suc)
  with \<open>rd_phase r2 = _\<close> show "ends i c r" unfolding ends_def by blast
qed

lemma ends_over: "rd_phase r = StreamOver (length (rx_events c)) \<Longrightarrow> ends i c r"
  unfolding ends_def by (rule exI[of _ 0]) (simp add: drain_stream_def)

lemma replay_step:
  "rd_phase r = Replaying k \<Longrightarrow> k < length (rx_events c) \<Longrightarrow>
     \<exists>r'. stream_step i late c r = (c, r') \<and> rd_phase r' = Replaying (Suc k)"
  by (cases "rd_seen r < fst (rx_events c ! k)") (simp_all add: stream_step_def Let_def)

lemma send_step:
  "rd_phase r = Sending n k \<Longrightarrow> k < length (rx_events c) \<Longrightarrow>
     \<exists>r'. stream_step i late c r = (c, r') \<and> rd_phase r' = Sending n (Suc k)"
  by (cases "rd_seen r < fst (rx_events c ! k) \<and> fst (rx_events c ! k) \<le> n") (simp_all add: stream_step_def Let_def)

lemma ends_replaying:
  assumes "rx_done c" "rd_phase r = Replaying k"
  shows "ends i c r"
  using assms(2)
proof (induction "length (rx_events c) - k" arbitrary: r k)
  case 0
  then have "stream_step i True c r = (c, r\<lparr>rd_phase := StreamOver (length (rx_events c))\<rparr>)"
    using assms(1) by (simp add: stream_step_def)
  then show ?case by (rule ends_step) (simp add: ends_over)
next
  case (Suc m)
  then have "k < length (rx_events c)" by simp
  from replay_step[OF Suc.prems this] obtain r' where
    r': "stream_step i True c r = (c, r')" "rd_phase r' = Replaying (Suc k)" by blast
  show ?case by (rule ends_step[OF r'(1)], rule Suc.hyps(1)[OF _ r'(2)]) (use Suc.hyps(2) in simp)
qed

lemma ends_sending:
  assumes "rd_phase r = Sending n k" "\<And>r'. rd_phase r' = AtTop \<Longrightarrow> rd_seen r' = n \<Longrightarrow> ends i c r'"
  shows "ends i c r"
  using assms(1)
proof (induction "length (rx_events c) - k" arbitrary: r k)
  case 0
  then have "stream_step i True c r = (c, r\<lparr>rd_seen := n, rd_phase := AtTop\<rparr>)" by (simp add: stream_step_def)
  then show ?case by (rule ends_step) (simp add: assms(2))
next
  case (Suc m)
  then have "k < length (rx_events c)" by simp
  from send_step[OF Suc.prems this] obtain r' where
    r': "stream_step i True c r = (c, r')" "rd_phase r' = Sending n (Suc k)" by blast
  show ?case by (rule ends_step[OF r'(1)], rule Suc.hyps(1)[OF _ r'(2)]) (use Suc.hyps(2) in simp)
qed

lemma newer_event_exists:
  assumes "ctx_ok c" "m < rx_seq c"
  shows "newer_event c m = Some (rx_seq c)"
proof -
  have n: "rx_events c \<noteq> []" using ctx_length[OF assms(1)] assms(2) by auto
  then obtain es e where e: "rx_events c = es @ [e]" by (metis append_butlast_last_id)
  have "length es < rx_seq c" "rx_seq c = Suc (length es)" using ctx_length[OF assms(1)] e by auto
  then have "fst e = rx_seq c" using ctx_number[OF assms(1), of "length es"] e by simp
  with e assms(2) show ?thesis by (cases e) (simp add: newer_event_def)
qed

lemma ends_top:
  assumes "ctx_ok c" "rx_done c" "rd_phase r = AtTop"
  shows "ends i c r"
proof -
  have over: "ends i c r'" if "rd_phase r' = AtTop" "rx_seq c \<le> rd_seen r'" for r'
  proof -
    have "stream_step i True c r' = (c, r'\<lparr>rd_phase := StreamOver (length (rx_events c))\<rparr>)"
      using that assms(2) by (simp add: stream_step_def)
    then show ?thesis by (rule ends_step) (simp add: ends_over)
  qed
  show ?thesis
  proof (cases "rd_seen r < rx_seq c")
    case True
    have "stream_step i True c r = (c, r\<lparr>rd_phase := Sending (rx_seq c) 0\<rparr>)"
      using True assms newer_event_exists by (simp add: stream_step_def wait_for_event_def)
    moreover have "ends i c (r\<lparr>rd_phase := Sending (rx_seq c) 0\<rparr>)"
      by (rule ends_sending[of _ "rx_seq c" 0]) (simp_all add: over)
    ultimately show ?thesis by (rule ends_step)
  qed (use over assms in simp)
qed

lemma ends_connected:
  assumes "ctx_ok c" "rx_done c" "rd_phase r \<noteq> StreamDropped" "\<And>n. rd_phase r \<noteq> StreamOver n"
  shows "ends i c r"
proof (cases "rd_phase r")
  case (InWait t w)
  show ?thesis
  proof (cases w)
    case None
    with InWait have "stream_step i True c r = (c, r\<lparr>rd_phase := AtTop\<rparr>)" by (simp add: stream_step_def)
    then show ?thesis by (rule ends_step) (simp add: ends_top[OF assms(1,2)])
  next
    case (Some n)
    with InWait have "stream_step i True c r = (c, r\<lparr>rd_phase := Sending n 0\<rparr>)" by (simp add: stream_step_def)
    moreover have "ends i c (r\<lparr>rd_phase := Sending n 0\<rparr>)"
      by (rule ends_sending[of _ n 0]) (simp_all add: ends_top[OF assms(1,2)])
    ultimately show ?thesis by (rule ends_step)
  qed
next
  case (Sending n k)
  then show ?thesis using ends_top[OF assms(1,2)] by (rule ends_sending)
next
  case (Replaying k)
  then show ?thesis by (rule ends_replaying[OF assms(2)])
next
  case AtTop
  then show ?thesis by (rule ends_top[OF assms(1,2)])
qed (use assms in auto)

lemma step_after: "stream_step i late c r = (c', r') \<Longrightarrow> rd_after r' = rd_after r"
  by (auto simp: stream_step_def wait_for_event_def Let_def send_one_def split: stream_phase.splits option.splits if_splits)

lemma drain_ok:
  "ctx_ok c \<Longrightarrow> reader_ok c r \<Longrightarrow> drain_stream i k (c, r) = (c', r') \<Longrightarrow>
     reader_ok c' r' \<and> rx_events c' = rx_events c \<and> rd_after r' = rd_after r"
proof (induction k arbitrary: c r)
  case 0
  then show ?case by (simp add: drain_stream_def)
next
  case (Suc k)
  obtain c1 r1 where s: "stream_step i True c r = (c1, r1)" by fastforce
  note same = step_events[OF s]
  have c1: "ctx_ok c1" using Suc.prems(1) same by (simp add: ctx_ok_def)
  have "drain_stream i k (c1, r1) = (c', r')" using Suc.prems(3) s by (simp add: drain_Suc)
  from Suc.IH[OF c1 reader_step[OF Suc.prems(1,2) s] this] same step_after[OF s] show ?case by simp
qed

section \<open>Claims\<close>

text \<open>C22. A reconnecting client gets every event exactly once and in order.  In every reachable state of a run's
  buffer and its streams, whatever the order of events, waits, timeouts and disconnections, a stream has sent
  the events after the number it connected with, without gap or repetition, up to some point; when it ends of
  itself it has sent all that were buffered; and a stream still connected when the task has ended does end.
\<close>
theorem stream_exactly_once:
  assumes "streaming c rs" "r \<in> set rs"
  shows "(\<exists>m \<le> length (rx_events c). rd_out r = drop (rd_after r) (take m (rx_events c)))
    \<and> (\<forall>i late c' r' n. stream_step i late c r = (c', r') \<and> rd_phase r' = StreamOver n \<and> rd_phase r \<noteq> StreamOver n \<longrightarrow>
         rd_out r' = drop (rd_after r) (rx_events c))
    \<and> (rx_done c \<and> rd_phase r \<noteq> StreamDropped \<and> (\<forall>n. rd_phase r \<noteq> StreamOver n) \<longrightarrow>
         (\<exists>k c' r' n. drain_stream i k (c, r) = (c', r') \<and> rd_phase r' = StreamOver n \<and> rd_out r' = drop (rd_after r) (rx_events c)))"
proof -
  from streaming_ok[OF assms(1)] assms(2) have c: "ctx_ok c" and r: "reader_ok c r" by (auto simp: list_all_iff)
  have "\<exists>k c' r' n. drain_stream i k (c, r) = (c', r') \<and> rd_phase r' = StreamOver n \<and> rd_out r' = drop (rd_after r) (rx_events c)"
    if d: "rx_done c" "rd_phase r \<noteq> StreamDropped" "\<forall>n. rd_phase r \<noteq> StreamOver n"
  proof -
    from ends_connected[OF c d(1,2)] d(3) obtain k c' r' where
      k: "drain_stream i k (c, r) = (c', r')" "rd_phase r' = StreamOver (length (rx_events c'))" unfolding ends_def by blast
    from drain_ok[OF c r k(1)] k(2) have "rd_out r' = drop (rd_after r) (rx_events c)"
      by (auto simp: reader_ok_def sent_def)
    with k show ?thesis by blast
  qed
  moreover have "\<exists>m \<le> length (rx_events c). rd_out r = drop (rd_after r) (take m (rx_events c))"
    using reader_sent[OF r] ctx_length[OF c] by (auto simp: sent_def)
  ultimately show ?thesis using stream_ends_complete[OF c r] by blast
qed

definition sample_event :: "string \<Rightarrow> string \<Rightarrow> run_event" where
  "sample_event t i = \<lparr>ev_type = t, ev_run = None, ev_scope = None, ev_text = ''hm'', ev_call = i, ev_status = ''complete'',
     ev_payload = []\<rparr>"

theorem stream_exactly_once_witness:
  "\<exists>k c' r' n. drain_stream 0 k ((fst (append_event (sample_event ''token'' []) (new_context, [])))\<lparr>rx_done := True\<rparr>, new_reader 0) = (c', r')
     \<and> rd_phase r' = StreamOver n \<and> rd_out r' = [(1, sample_event ''token'' [])]"
proof -
  let ?c = "(fst (append_event (sample_event ''token'' []) (new_context, [])))"
  have "streaming ?c []"
    by (rule stream_append[OF stream_start, of "sample_event ''token'' []"]) (simp add: append_event_def Let_def)
  then have "streaming (?c\<lparr>rx_done := True\<rparr>) [new_reader 0]"
    using stream_connect[OF stream_task_ends, of ?c "[]" 0] by simp
  from stream_exactly_once[OF this, of "new_reader 0" 0] show ?thesis
    by (simp add: append_event_def Let_def new_context_def new_reader_def)
qed

text \<open>C23. The emitter stores what happened once.  Over any events of a run: the rows are numbered consecutively
  from one; there is exactly one row for each call that had an outcome, with its first outcome, in order; what
  is stored of the thinking of an agent or sub-agent, with what is still buffered, is all of its thinking; and
  a receipt names the stored row of its call and, if any, a narration row of the run.
\<close>
theorem emitter_stores_once:
  "let s = persist_all E evs (emit_start n) in
     map sm_seq (em_rows s) = map int [1..<Suc (length (em_rows s))]
     \<and> map sm_content (filter (\<lambda>m. sm_role m = ''tool_call'') (em_rows s)) = map (outcome_json E) (first_outcomes [] evs)
     \<and> (\<forall>sc. stored_thought sc s = thought sc evs)
     \<and> (\<forall>i r. map_of (em_receipts s) i = Some r \<longrightarrow> receipt_ok E (em_rows s) i r)"
proof -
  let ?s = "persist_all E evs (emit_start n)"
  have ok: "emit_ok E ?s" by (rule emit_ok_all[OF emit_ok_start])
  have "stored_thought sc ?s = thought sc evs" for sc
    by (simp add: thought_all) (simp add: stored_thought_def emit_start_def buffered_def dget_def)
  moreover have "call_rows ?s = map (outcome_json E) (first_outcomes [] evs)"
    using calls_all[OF emit_ok_start] by (simp add: call_rows_def emit_start_def)
  ultimately show ?thesis using ok by (auto simp: emit_ok_def numbered_rows_def call_rows_def Let_def)
qed

definition sample_emit :: emit_env where
  "sample_emit = \<lparr>ee_run = ''r'',
     ee_doc = \<lparr>dl_py = ex_lib, dl_loads = (\<lambda>t. None), dl_dumps = (\<lambda>v. ''outcome'')\<rparr>,
     ee_uuid = (\<lambda>n. replicate (Suc n) CHR ''u'')\<rparr>"

theorem emitter_stores_once_witness:
  "receipt_ok sample_emit
     (em_rows (persist_all sample_emit [sample_event ''thinking'' [], sample_event ''tool_call'' ''c''] (emit_start 0))) ''c''
     \<lparr>rt_tool = Some ''uu'', rt_assistant = None\<rparr>"
proof -
  let ?s = "persist_all sample_emit [sample_event ''thinking'' [], sample_event ''tool_call'' ''c''] (emit_start 0)"
  have "map_of (em_receipts ?s) ''c'' = Some \<lparr>rt_tool = Some ''uu'', rt_assistant = None\<rparr>" by code_simp
  then show ?thesis using emitter_stores_once[of sample_emit _ 0] unfolding Let_def by blast
qed

end
