(* ===== verification/Sessions_Safety.thy ===== *)
theory Sessions_Safety
  imports Sessions
begin

text \<open>
  Sessions keep their invariant and a message finds the session of its own contact; a session that was closed
  was summarised as a whole; a close that does not happen leaves everything in place.  The statements around
  the model calls are shown once to keep any relation that their elementary steps keep (locales
  \<open>chat_statements\<close>, \<open>chat_frame\<close>), interpreted for the invariant, the transcript, the evidence and active runs.
\<close>

section \<open>Statements\<close>

text \<open>The contract of the statements around the two model calls of a close.\<close>

locale chat_statements = session_frame R "cn_others E"
  for R :: "chat_world \<Rightarrow> chat_world \<Rightarrow> bool" and E :: chat_env +
  assumes aside_step: "wd_db v = wd_db w \<Longrightarrow> wd_saved v = wd_saved w \<Longrightarrow> R w v"
    and index_step: "R w (w\<lparr>wd_db := (wd_db w)\<lparr>cb_summaries := z\<rparr>\<rparr>)"
begin

lemma edit: "(\<And>w. R w (w\<lparr>wd_db := f (wd_db w)\<rparr>)) \<Longrightarrow> op_keeps R (edit_db f)"
  unfolding edit_db_def by (rule change)

lemma aside [intro]:
  "(\<And>w. wd_db (f w) = wd_db w) \<Longrightarrow> (\<And>w. wd_saved (f w) = wd_saved w) \<Longrightarrow> op_keeps R (cput f)"
  by (rule change) (auto intro: aside_step)

lemma signalling [intro!]: "op_keeps R (signal x)" "op_keeps R (set_closing h)"
  unfolding signal_def set_closing_def by (rule aside; simp)+

lemma asking [intro!]: "op_keeps R (ask E q)"
  unfolding ask_def by (intro bind waiting read basic)

lemma telling: "op_keeps R (edit_db f :: unit chat_op) \<Longrightarrow> op_keeps R (tell E f)"
  unfolding tell_def by (intro bind waiting)

lemma clocking [intro!]: "op_keeps R (clock E)"
  by (simp add: clock_def)

lemma updating: "(\<And>w. R w (w\<lparr>wd_db := set_session sid f (wd_db w)\<rparr>)) \<Longrightarrow> op_keeps R (update_session E sid f)"
  unfolding update_session_def by (intro bind read check telling edit)

lemma summarising: "op_keeps R (summarise_session E cfg s rows)"
  unfolding summarise_session_def by (intro bind asking basic signalling waiting)

lemma learning: "op_keeps R (learn_from E rows rids)"
  unfolding learn_from_def by (intro bind basic signalling waiting)

lemma indexing: "op_keeps R (tell E (index_summary pg s t))"
  by (intro telling edit) (use index_step aside_step in \<open>simp add: index_summary_def\<close>)

end

locale chat_frame = chat_statements R E
  for R :: "chat_world \<Rightarrow> chat_world \<Rightarrow> bool" and E :: chat_env +
  assumes summary_step: "R w (w\<lparr>wd_db := set_session sid (\<lambda>x. x\<lparr>lv_summary := t\<rparr>) (wd_db w)\<rparr>)"
begin

lemma summarise_learn: "op_keeps R (summarise_and_learn E cfg s contact rows)"
  unfolding summarise_and_learn_def
  by (intro bind asking committing summarising indexing learning basic updating summary_step)

lemma closing [intro!]: "op_keeps R (close_learning E cfg s contact rows)"
  unfolding close_learning_def by (intro bind signalling catch basic summarise_learn)

end

section \<open>The invariant\<close>

definition contacts_ok :: "chat_db \<Rightarrow> bool" where
  "contacts_ok db \<longleftrightarrow> (\<forall>c \<in> set (cb_contacts db). \<forall>d \<in> set (cb_contacts db).
     has_contact (ct_channel c) (ct_bot c) (ct_user c) d \<or> ct_id c = ct_id d \<longrightarrow> c = d)"

definition session_ok :: "chat_db \<Rightarrow> live_session \<Rightarrow> bool" where
  "session_ok db s \<longleftrightarrow> (lv_closed s \<longleftrightarrow> lv_status s \<noteq> ''active'')
     \<and> (\<forall>ch u. lv_channel s = Some ch \<and> lv_user s = Some u \<longrightarrow>
          (\<exists>c \<in> set (cb_contacts db). ct_id c = lv_contact s \<and> has_contact ch (lv_agent s) u c))"

text \<open>Identifiers were drawn, sessions have different ones, and the foreign keys hold.\<close>

definition drawn :: "chat_env \<Rightarrow> chat_db \<Rightarrow> string \<Rightarrow> bool" where
  "drawn E db i \<longleftrightarrow> (\<exists>n < cb_uuids db. i = cn_uuid E n)"

definition refs_ok :: "chat_db \<Rightarrow> bool" where
  "refs_ok db \<longleftrightarrow> rn_session ` set (cb_runs db) \<subseteq> lv_id ` set (cb_sessions db) \<and> sm_run ` set (cb_messages db) \<subseteq> rn_id ` set (cb_runs db)"

definition chat_ok :: "chat_env \<Rightarrow> chat_db \<Rightarrow> bool" where
  "chat_ok E db \<longleftrightarrow> contacts_ok db \<and> (\<forall>s \<in> set (cb_sessions db). session_ok db s \<and> drawn E db (lv_id s))
     \<and> distinct (map lv_id (cb_sessions db))
     \<and> (\<forall>c \<in> set (cb_contacts db). drawn E db (ct_id c)) \<and> (\<forall>r \<in> set (cb_runs db). drawn E db (rn_id r)) \<and> refs_ok db"

definition same_owner :: "live_session \<Rightarrow> live_session \<Rightarrow> bool" where
  "same_owner s s' \<longleftrightarrow> lv_id s' = lv_id s \<and> lv_contact s' = lv_contact s \<and> lv_agent s' = lv_agent s"

definition chat_grows :: "chat_env \<Rightarrow> chat_db \<Rightarrow> chat_db \<Rightarrow> bool" where
  "chat_grows E db db' \<longleftrightarrow> set (cb_contacts db) \<subseteq> set (cb_contacts db') \<and> cb_uuids db \<le> cb_uuids db'
     \<and> (\<forall>s' \<in> set (cb_sessions db'). drawn E db (lv_id s') \<longrightarrow> (\<exists>s \<in> set (cb_sessions db). same_owner s s'))"

text \<open>
  Other sessions keep the invariant, remove no contact and give no session another owner; identifiers are random.
\<close>

definition fair_chat :: "chat_env \<Rightarrow> bool" where
  "fair_chat E \<longleftrightarrow> inj (cn_uuid E) \<and> (\<forall>n db. chat_ok E db \<longrightarrow> chat_ok E (cn_others E n db) \<and> chat_grows E db (cn_others E n db))"

lemma set_session_same:
  assumes "\<And>s. lv_id (f s) = lv_id s"
  shows "map lv_id (cb_sessions (set_session sid f db)) = map lv_id (cb_sessions db)"
  using assms by (simp add: set_session_def)

lemma session_fields [simp]:
  "cb_contacts (set_session sid f db) = cb_contacts db" "cb_runs (set_session sid f db) = cb_runs db"
  "cb_messages (set_session sid f db) = cb_messages db" "cb_uuids (set_session sid f db) = cb_uuids db"
  "cb_agents (set_session sid f db) = cb_agents db" "cb_snaps (set_session sid f db) = cb_snaps db"
  by (simp_all add: set_session_def)

lemma ok_set_session:
  assumes "chat_ok E db" "\<And>s. same_owner s (f s)" "\<And>s. session_ok db s \<Longrightarrow> session_ok db (f s)"
  shows "chat_ok E (set_session sid f db) \<and> chat_grows E db (set_session sid f db)"
proof -
  have i: "lv_id (f s) = lv_id s" for s using assms(2)[of s] by (simp add: same_owner_def)
  have "session_ok (set_session sid f db) x = session_ok db x" for x by (simp add: session_ok_def)
  moreover have "drawn E (set_session sid f db) x = drawn E db x" for x by (simp add: drawn_def)
  moreover have "\<forall>s \<in> set (cb_sessions (set_session sid f db)). session_ok db s \<and> drawn E db (lv_id s)"
    using assms i by (auto simp: chat_ok_def set_session_def)
  moreover have "refs_ok (set_session sid f db) = refs_ok db"
    using set_session_same[of f sid db, OF i] by (simp add: refs_ok_def flip: set_map)
  moreover have "\<exists>s \<in> set (cb_sessions db). same_owner s s'" if "s' \<in> set (cb_sessions (set_session sid f db))" for s'
    using that assms(2) by (auto simp: set_session_def same_owner_def split: if_splits)
  ultimately show ?thesis using assms(1) set_session_same[OF i]
    by (auto simp: chat_ok_def chat_grows_def contacts_ok_def)
qed

lemma session_ok_fields [simp]:
  "session_ok db (s\<lparr>lv_summary := t\<rparr>) = session_ok db s" "session_ok db s \<Longrightarrow> session_ok db (reopen t' s)"
  "session_ok db s \<Longrightarrow> session_ok db (shut s)"
  by (auto simp: session_ok_def reopen_def shut_def)

lemma same_owner_fields [simp]:
  "same_owner s s" "same_owner s (s\<lparr>lv_summary := t\<rparr>)" "same_owner s (reopen t' s)" "same_owner s (shut s)"
  by (simp_all add: same_owner_def reopen_def shut_def)

lemma chat_grows_same:
  "cb_sessions db' = cb_sessions db \<Longrightarrow> set (cb_contacts db) \<subseteq> set (cb_contacts db') \<Longrightarrow> cb_uuids db \<le> cb_uuids db'
     \<Longrightarrow> chat_grows E db db'"
  unfolding chat_grows_def using same_owner_fields(1) by metis

lemma chat_grows_refl [simp]: "chat_grows E db db"
  by (rule chat_grows_same) simp_all

lemma grows_contacts: "chat_grows E db db' \<Longrightarrow> c \<in> set (cb_contacts db) \<Longrightarrow> c \<in> set (cb_contacts db')"
  by (auto simp: chat_grows_def)

lemma chat_grows_trans: "chat_grows E d e \<Longrightarrow> chat_grows E e f \<Longrightarrow> chat_grows E d f"
  (is "_ \<Longrightarrow> _ \<Longrightarrow> ?thesis")
proof -
  assume a: "chat_grows E d e" "chat_grows E e f"
  have "\<exists>s \<in> set (cb_sessions d). same_owner s x" if x: "x \<in> set (cb_sessions f)" "drawn E d (lv_id x)" for x
  proof -
    have "drawn E e (lv_id x)" using x(2) a(1) by (auto simp: drawn_def chat_grows_def intro: order.strict_trans2)
    then obtain y where y: "y \<in> set (cb_sessions e)" "same_owner y x" using a(2) x(1) by (auto simp: chat_grows_def)
    then have "drawn E d (lv_id y)" using x(2) by (simp add: same_owner_def)
    then obtain z where "z \<in> set (cb_sessions d)" "same_owner z y" using a(1) y(1) by (auto simp: chat_grows_def)
    with y(2) show ?thesis by (auto simp: same_owner_def)
  qed
  with a show ?thesis by (auto simp: chat_grows_def)
qed

definition stays_chat :: "chat_env \<Rightarrow> chat_db \<Rightarrow> bool" where
  "stays_chat E db \<longleftrightarrow> (fair_chat E \<longrightarrow> chat_ok E db)"

definition grows_chat :: "chat_env \<Rightarrow> chat_db \<Rightarrow> chat_db \<Rightarrow> bool" where
  "grows_chat E db db' \<longleftrightarrow> (fair_chat E \<longrightarrow> chat_grows E db db')"

interpretation chat_db: db_contract "stays_chat E" "grows_chat E" "cn_others E" for E
proof
  show "grows_chat E d d" for d by (simp add: grows_chat_def)
  show "grows_chat E d f" if "grows_chat E d e" "grows_chat E e f" for d e f
    using that chat_grows_trans by (auto simp: grows_chat_def)
  show "stays_chat E (cn_others E n d) \<and> grows_chat E d (cn_others E n d)" if "stays_chat E d" for d n
    using that by (simp add: fair_chat_def stays_chat_def grows_chat_def)
qed

interpretation chat: chat_frame "session_keeps (stays_chat E) (grows_chat E)" E for E
proof
  show "session_keeps (stays_chat E) (grows_chat E) w v" if "wd_db v = wd_db w" "wd_saved v = wd_saved w" for v w :: chat_world
    using that by (rule chat_db.aside_keeps)
  show "session_keeps (stays_chat E) (grows_chat E) w (w\<lparr>wd_db := (wd_db w)\<lparr>cb_summaries := z\<rparr>\<rparr>)" for w :: chat_world and z
    by (rule chat_db.change_keeps(1)[where f = "\<lambda>d. d\<lparr>cb_summaries := z\<rparr>"])
      (auto simp: stays_chat_def grows_chat_def chat_ok_def contacts_ok_def session_ok_def drawn_def refs_ok_def intro: chat_grows_same)
  show "session_keeps (stays_chat E) (grows_chat E) w (w\<lparr>wd_db := set_session sid (\<lambda>x. x\<lparr>lv_summary := t\<rparr>) (wd_db w)\<rparr>)"
    for w :: chat_world and sid t
    using ok_set_session[of E _ "\<lambda>x. x\<lparr>lv_summary := t\<rparr>" sid]
    by (intro chat_db.change_keeps(1)) (auto simp: stays_chat_def grows_chat_def)
qed


section \<open>Whose session\<close>

text \<open>The invariant of a world, with a contact that is there.\<close>

definition chat_inv :: "chat_env \<Rightarrow> chat_world \<Rightarrow> bool" where
  "chat_inv E w \<longleftrightarrow> fair_chat E \<and> chat_ok E (wd_db w) \<and> chat_ok E (wd_saved w) \<and> chat_grows E (wd_saved w) (wd_db w)"

definition contact_inv :: "chat_env \<Rightarrow> contact_row \<Rightarrow> chat_world \<Rightarrow> bool" where
  "contact_inv E c w \<longleftrightarrow> chat_inv E w \<and> c \<in> set (cb_contacts (wd_db w))"

lemma inv_set: "chat_inv E w \<Longrightarrow> chat_ok E d \<Longrightarrow> chat_grows E (wd_db w) d \<Longrightarrow> chat_inv E (w\<lparr>wd_db := d\<rparr>)"
  unfolding chat_inv_def using chat_grows_trans by auto

lemma inv_yield: "chat_inv E w \<Longrightarrow> chat_inv E (yield_world (cn_others E) w)"
  by (auto simp: chat_inv_def yield_world_def Let_def fair_chat_def)

lemma contact_yield: "contact_inv E c w \<Longrightarrow> contact_inv E c (yield_world (cn_others E) w)"
  using inv_yield[of E w]
  by (auto simp: contact_inv_def yield_world_def Let_def fair_chat_def chat_inv_def split: if_splits dest: grows_contacts)

lemma statements:
  "read_db q w = (Inr (q (wd_db w)), w)" "edit_db f w = (Inr (), w\<lparr>wd_db := f (wd_db w)\<rparr>)"
  "wait others v = (Inr (), yield_world others v)" "commit_db others v = (Inr (), yield_world others (v\<lparr>wd_saved := wd_db v\<rparr>))"
  "clock E u = (Inr (cn_clock E (wd_waits u)), u)"
  by (simp_all add: read_db_def edit_db_def wait_def commit_db_def cget_def cput_def clock_def)

lemma step_simps [simp]:
  "cbind (read_db q) k1 w = k1 (q (wd_db w)) w" "cbind (edit_db e) k2 v = k2 () (v\<lparr>wd_db := e (wd_db v)\<rparr>)"
  "cbind (wait others) k3 u = k3 () (yield_world others u)" "cbind (cret x) k4 s = k4 x s"
  by (simp_all add: cbind_def statements cret_def)

lemma flow_simps [simp]:
  "cbind (ccheck b e) h s = (if b then h () s else (Inl e, s))"
  "cbind (cbind m f) g t = cbind m (\<lambda>x. cbind (f x) g) t"
  by (simp_all add: cbind_def ccheck_def cret_def cfail_def split: prod.split sum.split)

lemma ask_run: "ask E q w = (Inr (q (wd_db w)), yield_world (cn_others E) w)"
  by (simp add: ask_def cret_def)

lemma ok_new_contact:
  assumes "chat_ok E db" "fair_chat E" "c = \<lparr>ct_id = cn_uuid E (cb_uuids db), ct_channel = ch, ct_bot = b, ct_user = u\<rparr>"
    and "\<not> (\<exists>x \<in> set (cb_contacts db). has_contact ch b u x)"
    and "db' = db\<lparr>cb_uuids := Suc (cb_uuids db), cb_contacts := cb_contacts db @ [c]\<rparr>"
  shows "chat_ok E db' \<and> chat_grows E db db'"
proof -
  have u: "inj (cn_uuid E)" using assms(2) by (simp add: fair_chat_def)
  have d: "drawn E db i \<Longrightarrow> i \<noteq> ct_id c \<and> drawn E db' i" "drawn E db' (ct_id c)" for i
    using assms(3,5) u by (auto simp: drawn_def inj_def less_Suc_eq)
  have "session_ok db x \<Longrightarrow> session_ok db' x" for x using assms(5) by (auto simp: session_ok_def)
  moreover have "contacts_ok db'" unfolding contacts_ok_def
  proof (intro ballI impI)
    fix x y assume xy: "x \<in> set (cb_contacts db')" "y \<in> set (cb_contacts db')"
      "has_contact (ct_channel x) (ct_bot x) (ct_user x) y \<or> ct_id x = ct_id y"
    have "x \<in> set (cb_contacts db) \<or> x = c" "y \<in> set (cb_contacts db) \<or> y = c" using xy(1,2) assms(5) by auto
    moreover have "ct_id z \<noteq> ct_id c" if "z \<in> set (cb_contacts db)" for z using d(1) assms(1) that by (auto simp: chat_ok_def)
    moreover have "\<not> has_contact (ct_channel c) (ct_bot c) (ct_user c) z" "\<not> has_contact (ct_channel z) (ct_bot z) (ct_user z) c"
      if "z \<in> set (cb_contacts db)" for z using assms(3,4) that by (auto simp: has_contact_def)
    ultimately show "x = y" using xy(3) assms(1) unfolding chat_ok_def contacts_ok_def by metis
  qed
  moreover have "refs_ok db'" "chat_grows E db db'" using assms(1,5) by (auto simp: refs_ok_def chat_ok_def intro: chat_grows_same)
  ultimately show ?thesis using assms(1,5) d by (auto simp: chat_ok_def)
qed

lemma add_contact_inv:
  assumes "chat_inv E w" "add_contact E ch b u w = (r, w')"
  shows "chat_inv E w' \<and> (\<forall>c. r = Inr c \<longrightarrow> contact_inv E c w' \<and> has_contact ch b u c)"
proof -
  let ?c = "\<lparr>ct_id = cn_uuid E (cb_uuids (wd_db w)), ct_channel = ch, ct_bot = b, ct_user = u\<rparr>"
  let ?d = "(wd_db w)\<lparr>cb_uuids := Suc (cb_uuids (wd_db w))\<rparr>"
  have w: "chat_ok E (wd_db w)" "fair_chat E" using assms(1) by (auto simp: chat_inv_def)
  show ?thesis
  proof (cases "\<exists>x \<in> set (cb_contacts (wd_db w)). has_contact ch b u x")
    case True
    have "chat_ok E ?d \<and> chat_grows E (wd_db w) ?d"
      using w by (auto simp: chat_ok_def contacts_ok_def session_ok_def drawn_def refs_ok_def less_Suc_eq intro: chat_grows_same)
    with assms True inv_set[OF assms(1), of ?d] show ?thesis
      by (auto simp: add_contact_def new_uuid_def Let_def)
  next
    case False
    from ok_new_contact[OF w(1,2) HOL.refl False HOL.refl] assms False show ?thesis
      using inv_set[OF assms(1)]
      by (auto simp: add_contact_def new_uuid_def Let_def tell_def contact_inv_def has_contact_def
          intro!: contact_yield[unfolded contact_inv_def, THEN conjunct1] contact_yield[unfolded contact_inv_def, THEN conjunct2])
  qed
qed


lemma clock_step [simp]: "cbind (clock E) k w = k (cn_clock E (wd_waits w)) w"
  by (simp add: clock_def cbind_def cget_def)

lemma cret_step [simp]: "cret x s = (Inr x, s)"
  by (simp add: cret_def)

lemma ok_new_session:
  assumes "chat_ok E db" "fair_chat E" "lv_id s = cn_uuid E (cb_uuids db)" "session_ok db s"
    and "db' = db\<lparr>cb_uuids := Suc (cb_uuids db), cb_sessions := cb_sessions db @ [s]\<rparr>"
  shows "chat_ok E db' \<and> chat_grows E db db'"
proof -
  have u: "inj (cn_uuid E)" using assms(2) by (simp add: fair_chat_def)
  have d: "drawn E db i \<Longrightarrow> i \<noteq> lv_id s \<and> drawn E db' i" "drawn E db' (lv_id s)" for i
    using assms(3,5) u by (auto simp: drawn_def inj_def less_Suc_eq)
  have "session_ok db' x = session_ok db x" for x using assms(5) by (auto simp: session_ok_def)
  moreover have "contacts_ok db'" using assms(1,5) by (simp add: contacts_ok_def chat_ok_def)
  moreover have "lv_id s \<notin> set (map lv_id (cb_sessions db))" using d(1) assms(1) by (fastforce simp: chat_ok_def)
  moreover have "refs_ok db'" using assms(1,5) by (auto simp: refs_ok_def chat_ok_def)
  moreover have "chat_grows E db db'"
    using d(1)[of "lv_id s"] assms(5) unfolding chat_grows_def by (auto intro: bexI[where P = "\<lambda>x. same_owner x _", OF same_owner_fields(1)])
  ultimately show ?thesis using assms(1,4) d unfolding assms(5) by (auto simp: chat_ok_def)
qed

text \<open>Where a session may be opened for a contact, and what the session found must satisfy.\<close>

definition place_ok :: "contact_row \<Rightarrow> string \<Rightarrow> string option \<Rightarrow> string option \<Rightarrow> bool" where
  "place_ok c agent channel user \<longleftrightarrow> ct_bot c = agent \<and>
     (\<forall>ch u. channel = Some ch \<and> user = Some u \<longrightarrow> ct_channel c = ch \<and> ct_user c = u)"

definition own_session :: "contact_row \<Rightarrow> string \<Rightarrow> live_session \<Rightarrow> bool" where
  "own_session c agent s \<longleftrightarrow> lv_contact s = ct_id c \<and> lv_agent s = agent"

definition own_open :: "contact_row \<Rightarrow> string \<Rightarrow> live_session \<Rightarrow> bool" where
  "own_open c agent s \<longleftrightarrow> own_session c agent s \<and> \<not> lv_closed s \<and> lv_status s = ''active''"

lemma latest_in: "latest ss = Some s \<Longrightarrow> s \<in> set ss"
  unfolding latest_def by (metis list.case_eq_if list.set_sel(1) option.inject option.simps(3) set_sort)

lemma found_ok: "contact_inv E c w \<Longrightarrow> s \<in> set (cb_sessions (wd_db w)) \<Longrightarrow> lv_closed s = (lv_status s \<noteq> ''active'')"
  by (auto simp: contact_inv_def chat_inv_def chat_ok_def session_ok_def)

lemma channel_found:
  assumes "place_ok c agent (Some ch) (Some u)" "contact_inv E c w" "s \<in> set (cb_sessions (wd_db w))" "channel_session agent ch u s"
  shows "own_session c agent s"
proof -
  have ok: "chat_ok E (wd_db w)" "c \<in> set (cb_contacts (wd_db w))" using assms(2) by (auto simp: contact_inv_def chat_inv_def)
  from ok(1) assms(3,4) obtain d where d: "d \<in> set (cb_contacts (wd_db w))" "ct_id d = lv_contact s" "has_contact ch agent u d"
    unfolding chat_ok_def session_ok_def channel_session_def by metis
  have "has_contact (ct_channel c) (ct_bot c) (ct_user c) d" using d(3) assms(1) by (auto simp: has_contact_def place_ok_def)
  with ok d(1) have "c = d" by (auto simp: chat_ok_def contacts_ok_def)
  with d(2) assms(4) show ?thesis by (simp add: own_session_def channel_session_def)
qed

lemma given_text_Some: "given_text t = Some s \<longleftrightarrow> t = Some s \<and> s \<noteq> []"
  by (auto simp: given_text_def split: option.splits if_splits)

text \<open>A session that is the contact's own, as returned and as stored; one that is open too.\<close>

definition claimed :: "chat_env \<Rightarrow> contact_row \<Rightarrow> string \<Rightarrow> live_session \<Rightarrow> chat_world \<Rightarrow> bool" where
  "claimed E c agent s w \<longleftrightarrow> contact_inv E c w \<and> own_session c agent s \<and> (lv_closed s \<longleftrightarrow> lv_status s \<noteq> ''active'')
     \<and> drawn E (wd_db w) (lv_id s)
     \<and> (\<forall>x \<in> set (cb_sessions (wd_db w)). lv_id x = lv_id s \<longrightarrow> own_session c agent x)"

definition ready_session :: "chat_env \<Rightarrow> contact_row \<Rightarrow> string \<Rightarrow> live_session \<Rightarrow> chat_world \<Rightarrow> bool" where
  "ready_session E c agent s w \<longleftrightarrow> claimed E c agent s w \<and> own_open c agent s"

lemma claimed_keeps:
  assumes "op_keeps (session_keeps (stays_chat E) (grows_chat E)) m" "\<And>w. J w \<Longrightarrow> claimed E c agent s w"
  shows "op_gives J m (\<lambda>_. claimed E c agent s)"
proof -
  have "claimed E c agent s w'" if "m w = (Inr x, w')" "claimed E c agent s w" for w x w'
  proof -
    have f: "fair_chat E" and k: "session_keeps (stays_chat E) (grows_chat E) w w'"
      using that keeps_run[OF assms(1)] by (auto simp: claimed_def contact_inv_def chat_inv_def)
    then have g: "chat_inv E w'" "chat_grows E (wd_db w) (wd_db w')"
      using that(2) by (auto simp: session_keeps_def claimed_def contact_inv_def chat_inv_def stays_chat_def grows_chat_def)
    then have "contact_inv E c w'" "drawn E (wd_db w') (lv_id s)"
      using that(2) by (auto simp: claimed_def contact_inv_def chat_grows_def drawn_def intro: order.strict_trans2)
    moreover have "own_session c agent x" if x: "x \<in> set (cb_sessions (wd_db w'))" "lv_id x = lv_id s" for x
    proof -
      have "drawn E (wd_db w) (lv_id x)" using x(2) \<open>claimed E c agent s w\<close> by (simp add: claimed_def)
      with g(2) x(1) obtain y where "y \<in> set (cb_sessions (wd_db w))" "same_owner y x"
        unfolding chat_grows_def by blast
      with x \<open>claimed E c agent s w\<close> show ?thesis by (auto simp: claimed_def own_session_def same_owner_def)
    qed
    ultimately show ?thesis using that(2) by (simp add: claimed_def)
  qed
  with assms(2) show ?thesis by (auto simp: op_gives_def)
qed

lemma claimed_found:
  assumes "contact_inv E c w" "s \<in> set (cb_sessions (wd_db w))" "own_session c agent s"
  shows "claimed E c agent s w"
proof -
  have ok: "chat_ok E (wd_db w)" using assms(1) by (simp add: contact_inv_def chat_inv_def)
  then have "x = s" if "x \<in> set (cb_sessions (wd_db w))" "lv_id x = lv_id s" for x
    using that assms(2) by (simp add: chat_ok_def distinct_map inj_on_def)
  with assms ok found_ok[OF assms(1,2)] show ?thesis by (auto simp: claimed_def chat_ok_def)
qed

lemma asked_session:
  assumes "\<And>w s. contact_inv E c w \<Longrightarrow> q (wd_db w) = Some s \<Longrightarrow> s \<in> set (cb_sessions (wd_db w)) \<and> own_session c agent s \<and> p s"
  shows "op_gives (contact_inv E c) (ask E q) (\<lambda>x w. contact_inv E c w \<and> (\<forall>s. x = Some s \<longrightarrow> claimed E c agent s w \<and> p s))"
  unfolding op_gives_def
proof (intro allI impI)
  fix w x w' assume a: "contact_inv E c w \<and> ask E q w = (Inr x, w')"
  then have w': "w' = yield_world (cn_others E) w" "x = q (wd_db w)" by (auto simp: ask_run)
  have "claimed E c agent s w' \<and> p s" if "x = Some s" for s
  proof -
    from assms[of w s] a w' that have "claimed E c agent s w" and p: "p s" by (auto intro!: claimed_found)
    with claimed_keeps[OF chat_db.committed.waiting, of "claimed E c agent s" E c agent s] show ?thesis
      by (simp add: op_gives_def statements w')
  qed
  moreover have "contact_inv E c w'" using a w' contact_yield by simp
  ultimately show "contact_inv E c w' \<and> (\<forall>s. x = Some s \<longrightarrow> claimed E c agent s w' \<and> p s)" by blast
qed


lemma gives_clock: "op_gives I (clock E) (\<lambda>_. I)"
  by (simp add: op_gives_def statements)

lemma opened_session:
  assumes "place_ok c agent channel user"
  shows "op_gives (contact_inv E c) (open_session E (ct_id c) agent title channel user) (ready_session E c agent)"
  unfolding op_gives_def
proof (intro allI impI)
  fix w x w' assume a: "contact_inv E c w \<and> open_session E (ct_id c) agent title channel user w = (Inr x, w')"
  let ?s = "\<lparr>lv_id = cn_uuid E (cb_uuids (wd_db w)), lv_contact = ct_id c, lv_agent = agent, lv_status = ''active'', lv_title = title,
              lv_titled = False, lv_started = cn_clock E (wd_waits w), lv_activity = cn_clock E (wd_waits w), lv_summary = None,
              lv_closed = False, lv_channel = channel, lv_user = user, lv_conv = no_summary\<rparr>"
  let ?d = "(wd_db w)\<lparr>cb_uuids := Suc (cb_uuids (wd_db w)), cb_sessions := cb_sessions (wd_db w) @ [?s]\<rparr>"
  have "session_ok (wd_db w) ?s" using assms a by (auto simp: session_ok_def place_ok_def contact_inv_def has_contact_def)
  then have "chat_ok E ?d \<and> chat_grows E (wd_db w) ?d"
    using a by (intro ok_new_session[where s = ?s]) (auto simp: contact_inv_def chat_inv_def)
  then have "contact_inv E c (w\<lparr>wd_db := ?d\<rparr>)" using a inv_set by (auto simp: contact_inv_def)
  then have "claimed E c agent ?s (w\<lparr>wd_db := ?d\<rparr>)" by (rule claimed_found) (simp_all add: own_session_def)
  with claimed_keeps[OF chat_db.committed.waiting, of "claimed E c agent ?s" E] a
  show "ready_session E c agent x w'"
    by (auto simp: ready_session_def own_open_def own_session_def op_gives_def statements open_session_def new_uuid_def tell_def Let_def)
qed

lemma resumed_session:
  assumes "b = lv_closed s \<or> b = (lv_status s \<noteq> ''active'')"
  shows "op_gives (claimed E c agent s) (resume E b s) (ready_session E c agent)"
proof -
  have "op_keeps (session_keeps (stays_chat E) (grows_chat E)) (update_session E (lv_id s) (reopen t))" for t
    using ok_set_session[of E _ "reopen t" "lv_id s"]
    by (intro chat.updating chat_db.change_keeps(1)) (auto simp: stays_chat_def grows_chat_def)
  from claimed_keeps[OF this, of "claimed E c agent s"]
  have "op_gives (claimed E c agent s) (update_session E (lv_id s) (reopen t)) (\<lambda>_. claimed E c agent s)" for t by blast
  moreover have "claimed E c agent s w \<Longrightarrow> ready_session E c agent (reopen t s) w" for t w
    by (simp add: ready_session_def own_open_def claimed_def reopen_def own_session_def)
  ultimately have "op_gives (claimed E c agent s) (cbind (clock E) (\<lambda>t. cbind (update_session E (lv_id s) (reopen t)) (\<lambda>_. cret (reopen t s))))
      (ready_session E c agent)"
    by (intro gives_bind[OF gives_clock] gives_bind[where J = "\<lambda>_. claimed E c agent s"] gives_ret) auto
  moreover have "\<not> b \<Longrightarrow> claimed E c agent s w \<Longrightarrow> ready_session E c agent s w" for w
    using assms by (auto simp: ready_session_def own_open_def claimed_def)
  ultimately show ?thesis unfolding resume_def by (auto intro: gives_ret)
qed

lemma auto_resumed:
  assumes "place_ok c agent channel user"
  shows "op_gives (contact_inv E c) (auto_resume E (ct_id c) agent new channel user) (ready_session E c agent)"
proof -
  let ?J = "\<lambda>x w. contact_inv E c w \<and> (\<forall>s. x = Some s \<longrightarrow> claimed E c agent s w \<and> lv_status s = ''active'')"
  have "op_gives (contact_inv E c) (ask E (\<lambda>db. latest (filter (open_for (ct_id c) agent) (cb_sessions db)))) ?J"
    by (rule asked_session) (auto dest!: latest_in simp: open_for_def own_session_def)
  then show ?thesis unfolding auto_resume_def
    by (intro gives_bind[where J = ?J] gives_option gives_less[OF opened_session[OF assms]] gives_ret) (auto intro!: gives_ret simp: ready_session_def own_open_def claimed_def)
qed

lemma channel_resumed:
  assumes "place_ok c agent channel user"
  shows "op_gives (contact_inv E c) (channel_resume E (ct_id c) agent new channel user) (ready_session E c agent)"
proof (cases "given_text channel = None \<or> given_text user = None")
  case True
  then show ?thesis unfolding channel_resume_def using auto_resumed[OF assms]
    by (cases "given_text channel"; cases "given_text user") simp_all
next
  case False
  then obtain ch u where g: "given_text channel = Some ch" "given_text user = Some u" by auto
  then have p: "place_ok c agent (Some ch) (Some u)" using assms by (simp add: given_text_Some)
  let ?J = "\<lambda>x w. contact_inv E c w \<and> (\<forall>s. x = Some s \<longrightarrow> claimed E c agent s w)"
  have "op_gives (contact_inv E c) (ask E (\<lambda>db. latest (filter (channel_session agent ch u) (cb_sessions db)))) ?J"
    by (rule asked_session[where p = "\<lambda>_. True", simplified]) (auto dest!: latest_in dest: channel_found[OF p])
  then show ?thesis unfolding channel_resume_def g option.case prod.case
    by (intro gives_bind[where J = ?J] gives_option gives_less[OF auto_resumed[OF assms]] resumed_session) auto
qed

lemma resolved_session:
  assumes "place_ok c agent channel user"
  shows "op_gives (contact_inv E c) (resolve_session E (ct_id c) agent explicit new channel user) (ready_session E c agent)"
proof (cases "given_text explicit")
  case None
  then show ?thesis unfolding resolve_session_def using channel_resumed[OF assms] by simp
next
  case (Some sid)
  let ?J = "\<lambda>x w. contact_inv E c w \<and> (\<forall>s. x = Some s \<longrightarrow> claimed E c agent s w)"
  have "op_gives (contact_inv E c) (ask E (\<lambda>db. find (explicit_session sid (ct_id c) agent) (cb_sessions db))) ?J"
    by (rule asked_session[where p = "\<lambda>_. True", simplified]) (auto dest!: find_in_set simp: explicit_session_def own_session_def)
  then show ?thesis unfolding resolve_session_def Some option.case
    by (intro gives_bind[where J = ?J] gives_option gives_less[OF channel_resumed[OF assms]] resumed_session) auto
qed

lemma resolve_contact_inv:
  assumes "chat_inv E w" "resolve_contact E ch b u w = (r, w')"
  shows "chat_inv E w' \<and> (\<forall>c. r = Inr c \<longrightarrow> contact_inv E c w' \<and> has_contact ch b u c)"
proof -
  let ?q = "find (has_contact ch b u) (cb_contacts (wd_db w))" and ?v = "yield_world (cn_others E) w"
  have v: "chat_inv E ?v" using inv_yield[OF assms(1)] .
  show ?thesis
  proof (cases ?q)
    case None
    with assms(2) have "add_contact E ch b u ?v = (r, w')" by (simp add: resolve_contact_def ask_def)
    from add_contact_inv[OF v this] show ?thesis .
  next
    case (Some c)
    then have c: "has_contact ch b u c" "contact_inv E c w" using assms(1) by (auto simp: find_Some_iff contact_inv_def)
    from Some assms(2) have "r = Inr c" "w' = ?v" by (auto simp: resolve_contact_def ask_def)
    with c contact_yield[OF c(2)] v show ?thesis by simp
  qed
qed


section \<open>What a close has seen\<close>

text \<open>
  How a session goes on: it is gone, its activity moved, or its transcript is the same (and, in a strict
  sense, its summary).
\<close>

definition goes_on :: "bool \<Rightarrow> string \<Rightarrow> string \<Rightarrow> string \<Rightarrow> chat_db \<Rightarrow> chat_db \<Rightarrow> bool" where
  "goes_on strict sid agent contact db db' \<longleftrightarrow>
     (case find_session db' sid of
        None \<Rightarrow> True
      | Some y \<Rightarrow> (case find_session db sid of
          None \<Rightarrow> False
        | Some x \<Rightarrow> lv_activity x < lv_activity y
            \<or> lv_activity x = lv_activity y \<and> closing_rows db' sid agent contact = closing_rows db sid agent contact
                \<and> (strict \<longrightarrow> lv_summary y = lv_summary x)))"

definition different_ids :: "chat_db \<Rightarrow> bool" where
  "different_ids db \<longleftrightarrow> distinct (map lv_id (cb_sessions db))"

text \<open>Whoever adds to the transcript of a session moves its activity.\<close>

definition activity_moves :: "chat_env \<Rightarrow> string \<Rightarrow> string \<Rightarrow> string \<Rightarrow> bool" where
  "activity_moves E sid agent contact \<longleftrightarrow>
     (\<forall>n db. different_ids db \<longrightarrow> different_ids (cn_others E n db) \<and> goes_on True sid agent contact db (cn_others E n db))"

definition goes_on_if :: "chat_env \<Rightarrow> bool \<Rightarrow> string \<Rightarrow> string \<Rightarrow> string \<Rightarrow> chat_db \<Rightarrow> chat_db \<Rightarrow> bool" where
  "goes_on_if E b sid agent contact db db' \<longleftrightarrow> (activity_moves E sid agent contact \<longrightarrow> goes_on b sid agent contact db db')"

definition different_if :: "chat_env \<Rightarrow> string \<Rightarrow> string \<Rightarrow> string \<Rightarrow> chat_db \<Rightarrow> bool" where
  "different_if E sid agent contact db \<longleftrightarrow> (activity_moves E sid agent contact \<longrightarrow> different_ids db)"

lemma goes_on_refl: "goes_on b sid agent contact db db"
  by (simp add: goes_on_def split: option.split)

lemma goes_on_trans: "goes_on b sid agent contact d e \<Longrightarrow> goes_on b sid agent contact e f \<Longrightarrow> goes_on b sid agent contact d f"
  by (auto simp: goes_on_def split: option.splits)

lemma goes_on_weaken: "goes_on True sid agent contact d e \<Longrightarrow> goes_on b sid agent contact d e"
  by (auto simp: goes_on_def split: option.splits)

lemma closing_rows_fields [simp]:
  "closing_rows (set_session i f db) sid agent contact = closing_rows db sid agent contact"
  "closing_rows (db\<lparr>cb_summaries := z\<rparr>) sid agent contact = closing_rows db sid agent contact"
  by (simp_all add: closing_rows_def)

lemma find_set_session:
  assumes "\<And>s. lv_id (f s) = lv_id s"
  shows "find_session (set_session i f db) sid = map_option (\<lambda>s. if sid = i then f s else s) (find_session db sid)"
proof -
  have "find (\<lambda>s. lv_id s = sid) (map (\<lambda>s. if lv_id s = i then f s else s) ss)
     = map_option (\<lambda>s. if sid = i then f s else s) (find (\<lambda>s. lv_id s = sid) ss)" for ss
    using assms by (induction ss) auto
  then show ?thesis by (simp add: find_session_def set_session_def)
qed

lemma goes_on_index [simp]: "goes_on b sid agent contact d (d\<lparr>cb_summaries := z\<rparr>)" "different_ids (d\<lparr>cb_summaries := z\<rparr>) = different_ids d"
  by (simp_all add: goes_on_def find_session_def different_ids_def split: option.split)

lemma goes_on_set_session:
  assumes "\<And>s. lv_id (f s) = lv_id s" "\<And>s. lv_activity (f s) = lv_activity s" "\<not> b \<or> (\<forall>s. lv_summary (f s) = lv_summary s)"
  shows "goes_on b sid agent contact d (set_session i f d)"
  using assms by (auto simp: goes_on_def find_set_session split: option.split)

lemma different_set_session: "(\<And>s. lv_id (f s) = lv_id s) \<Longrightarrow> different_ids (set_session i f d) = different_ids d"
  by (simp add: different_ids_def set_session_same)

interpretation lasting_db: db_contract "different_if E sid agent contact" "goes_on_if E b sid agent contact" "cn_others E"
  for E b sid agent contact
proof
  show "goes_on_if E b sid agent contact d d" for d by (simp add: goes_on_if_def goes_on_refl)
  show "goes_on_if E b sid agent contact d f"
    if "goes_on_if E b sid agent contact d e" "goes_on_if E b sid agent contact e f" for d e f
    using that goes_on_trans by (auto simp: goes_on_if_def)
  show "different_if E sid agent contact (cn_others E n d) \<and> goes_on_if E b sid agent contact d (cn_others E n d)"
    if "different_if E sid agent contact d" for d n
    using that goes_on_weaken by (auto simp: goes_on_if_def different_if_def activity_moves_def)
qed

abbreviation lasts :: "chat_env \<Rightarrow> bool \<Rightarrow> string \<Rightarrow> string \<Rightarrow> string \<Rightarrow> chat_world \<Rightarrow> chat_world \<Rightarrow> bool" where
  "lasts E b sid agent contact \<equiv> live_keeps (different_if E sid agent contact) (goes_on_if E b sid agent contact)"

interpretation lasting: chat_statements "lasts E b sid agent contact" E for E b sid agent contact
proof
  show "lasts E b sid agent contact w v" if "wd_db v = wd_db w" "wd_saved v = wd_saved w" for v w :: chat_world
    using that by (rule lasting_db.aside_keeps)
  show "lasts E b sid agent contact w (w\<lparr>wd_db := (wd_db w)\<lparr>cb_summaries := z\<rparr>\<rparr>)" for w :: chat_world and z
    by (rule lasting_db.change_keeps(2)[where f = "\<lambda>d. d\<lparr>cb_summaries := z\<rparr>"]) (simp add: goes_on_if_def different_if_def)
qed

interpretation loose: chat_frame "lasts E False sid agent contact" E for E sid agent contact
proof
  show "lasts E False sid agent contact w (w\<lparr>wd_db := set_session i (\<lambda>x. x\<lparr>lv_summary := t\<rparr>) (wd_db w)\<rparr>)"
    for w :: chat_world and i t
    by (rule lasting_db.change_keeps(2)) (simp add: goes_on_if_def different_if_def goes_on_set_session different_set_session)
qed


lemma lasts_step:
  assumes "op_keeps (lasts E b sid agent contact) m" "activity_moves E sid agent contact" "different_ids (wd_db w)" "m w = (r, w')"
  shows "different_ids (wd_db w') \<and> goes_on b sid agent contact (wd_db w) (wd_db w')"
proof -
  have "lasts E b sid agent contact w (snd (m w))" using assms(1) by (simp add: op_keeps_def)
  with assms show ?thesis by (simp add: live_keeps_def different_if_def goes_on_if_def)
qed

lemma ask_step [simp]: "cbind (ask E q) k w = k (q (wd_db w)) (yield_world (cn_others E) w)"
  by (simp add: ask_def)

lemma summary_generated:
  assumes "summarise_session E cfg s rows w = (Inr t, w')"
  shows "\<exists>g p k reply. close_prompt E cfg g rows = Inr p \<and> cn_summarise E k p = Some reply \<and> t = py_strip reply \<and> t \<noteq> []"
  using assms unfolding summarise_session_def
  by (auto elim!: cbindE simp: summary_of_reply_def split: option.splits if_splits) (metis sym)+

lemma prompt_has_rows:
  assumes "close_prompt E cfg g rows = Inr p" "m \<in> set rows"
  shows "sm_id m \<in> cg_covered g \<or> (\<exists>a b. p = a @ sm_content m @ b)"
proof -
  have join: "\<exists>a b. py_join [nl] (map render_line ms) = a @ sm_content m @ b" if "m \<in> set ms" for ms
    using that
  proof (induction ms)
    case (Cons x ms)
    have r: "\<exists>a. render_line m = a @ sm_content m" by (simp add: render_line_def)
    show ?case
    proof (cases "m = x")
      case True
      then show ?thesis using r by (cases ms) (auto, (metis append.assoc append_Nil2)+)
    next
      case False
      with Cons obtain a b where "py_join [nl] (map render_line ms) = a @ sm_content m @ b" by auto
      moreover have "ms \<noteq> []" using False Cons.prems by auto
      then have "py_join [nl] (map render_line (x # ms)) = (render_line x @ [nl]) @ py_join [nl] (map render_line ms)"
        by (cases ms) simp_all
      ultimately show ?thesis by (metis append.assoc)
    qed
  qed simp
  have p: "p = SESSION_SUMMARY_PROMPT @ transcript g rows"
    using assms(1) by (auto simp: close_prompt_def Let_def split: sum.splits if_splits)
  have "sm_id m \<in> cg_covered g \<or> (\<exists>a b. transcript g rows = a @ sm_content m @ b)"
  proof (cases "sm_id m \<in> cg_covered g \<or> cg_summary g = None \<or> py_strip (the (cg_summary g)) = []")
    case True
    then show ?thesis using join[OF assms(2)] by (auto simp: transcript_def split: option.split)
  next
    case False
    then obtain a b where "py_join [nl] (map render_line (filter (\<lambda>m. sm_id m \<notin> cg_covered g) rows)) = a @ sm_content m @ b"
      using join[of "filter (\<lambda>m. sm_id m \<notin> cg_covered g) rows"] assms(2) by auto
    moreover define h where "h = ''Earlier conversation summary:'' @ [nl] @ py_strip (the (cg_summary g)) @ [nl, nl] @ ''Later messages:'' @ [nl]"
    then have "transcript g rows = h @ py_join [nl] (map render_line (filter (\<lambda>m. sm_id m \<notin> cg_covered g) rows))"
      using False by (cases "cg_summary g") (simp_all add: transcript_def)
    ultimately have "transcript g rows = (h @ a) @ sm_content m @ b" by simp
    then show ?thesis by blast
  qed
  then show ?thesis
  proof
    assume "\<exists>a b. transcript g rows = a @ sm_content m @ b"
    then obtain a b where "p = (SESSION_SUMMARY_PROMPT @ a) @ sm_content m @ b" using p by auto
    then show ?thesis by blast
  qed simp
qed

lemma learning_stores:
  assumes "close_learning E cfg s contact rows w = (Inr frozen, w')" "activity_moves E (lv_id s) agent contact" "different_ids (wd_db w)"
  obtains g p k reply db y where "close_prompt E cfg g rows = Inr p" "cn_summarise E k p = Some reply" "py_strip reply \<noteq> []"
    "find_session db (lv_id s) = Some y" "lv_summary y = Some (py_strip reply)"
    "goes_on False (lv_id s) agent contact (wd_db w) db" "goes_on True (lv_id s) agent contact db (wd_db w')" "different_ids (wd_db w')"
proof -
  let ?L = "lasts E False (lv_id s) agent contact" and ?T = "lasts E True (lv_id s) agent contact"
  obtain w1 w2 where m: "summarise_and_learn E cfg s contact rows w1 = (Inr frozen, w2)" and "wd_db w1 = wd_db w" "wd_db w' = wd_db w2"
    using assms(1) unfolding close_learning_def
    by (auto elim!: cbindE simp: set_closing_def signal_def catch_op_def split: prod.splits sum.splits)
  from m obtain w3 w4 t w5 w6 w7 w8 where
    s1: "ask E (\<lambda>db. terminal_run_ids db s contact) w1 = (Inr frozen, w3)" and s2: "(commit_db (cn_others E) :: unit chat_op) w3 = (Inr (), w4)"
    and s3: "summarise_session E cfg s rows w4 = (Inr t, w5)"
    and s4: "update_session E (lv_id s) (\<lambda>x. x\<lparr>lv_summary := Some t\<rparr>) w5 = (Inr (), w6)"
    and s5: "tell E (index_summary (cn_postgres E) s t) w6 = (Inr (), w7)" and s6: "(commit_db (cn_others E) :: unit chat_op) w7 = (Inr (), w8)"
    and s7: "learn_from E rows frozen w8 = (Inr (), w2)"
    unfolding summarise_and_learn_def by (elim cbindE) simp
  note go = lasts_step[OF _ assms(2)]
  note L = lasting_db.live.committing[of E "lv_id s" agent contact]
  have d1: "different_ids (wd_db w1)" using assms(3) \<open>wd_db w1 = wd_db w\<close> by simp
  have g3: "different_ids (wd_db w3)" "goes_on False (lv_id s) agent contact (wd_db w1) (wd_db w3)"
    using go[OF lasting.asking d1 s1] by auto
  have g4: "different_ids (wd_db w4)" "goes_on False (lv_id s) agent contact (wd_db w3) (wd_db w4)"
    using go[OF L g3(1) s2] by auto
  have g5: "different_ids (wd_db w5)" "goes_on False (lv_id s) agent contact (wd_db w4) (wd_db w5)"
    using go[OF lasting.summarising g4(1) s3] by auto
  let ?d = "set_session (lv_id s) (\<lambda>x. x\<lparr>lv_summary := Some t\<rparr>) (wd_db w5)"
  have u: "find_session (wd_db w5) (lv_id s) \<noteq> None" "w6 = yield_world (cn_others E) (w5\<lparr>wd_db := ?d\<rparr>)"
    using s4 by (auto simp: update_session_def tell_def statements split: if_splits)
  then obtain y where y: "find_session ?d (lv_id s) = Some y" "lv_summary y = Some t" by (auto simp: find_set_session)
  have d5: "different_ids ?d" using g5(1) by (simp add: different_set_session)
  have gd: "goes_on False (lv_id s) agent contact (wd_db w5) ?d" by (rule goes_on_set_session) simp_all
  have g6: "different_ids (wd_db w6)" "goes_on True (lv_id s) agent contact ?d (wd_db w6)"
    using go[where m = "wait (cn_others E) :: unit chat_op" and w = "w5\<lparr>wd_db := ?d\<rparr>", OF lasting_db.live.waiting] d5 u(2) by (auto simp: statements)
  have g7: "different_ids (wd_db w7)" "goes_on True (lv_id s) agent contact (wd_db w6) (wd_db w7)"
    using go[OF lasting.indexing g6(1) s5] by auto
  have g8: "different_ids (wd_db w8)" "goes_on True (lv_id s) agent contact (wd_db w7) (wd_db w8)"
    using go[OF L g7(1) s6] by auto
  have g2: "different_ids (wd_db w2)" "goes_on True (lv_id s) agent contact (wd_db w8) (wd_db w2)"
    using go[OF lasting.learning g8(1) s7] by auto
  from summary_generated[OF s3] obtain g p k reply where
    r: "close_prompt E cfg g rows = Inr p" "cn_summarise E k p = Some reply" "t = py_strip reply" "t \<noteq> []" by blast
  show ?thesis
  proof (rule that[of g p k reply ?d y])
    show "goes_on False (lv_id s) agent contact (wd_db w) ?d"
      using g3(2) g4(2) g5(2) gd goes_on_trans \<open>wd_db w1 = wd_db w\<close> by metis
    show "goes_on True (lv_id s) agent contact ?d (wd_db w')"
      using g6(2) g7(2) g8(2) g2(2) goes_on_trans \<open>wd_db w' = wd_db w2\<close> by metis
  qed (use r y g2(1) \<open>wd_db w' = wd_db w2\<close> in auto)
qed


text \<open>What other sessions make of a database.\<close>

definition later :: "chat_env \<Rightarrow> chat_db \<Rightarrow> chat_db \<Rightarrow> bool" where
  "later E db db' \<longleftrightarrow> (\<exists>ns. db' = fold (cn_others E) ns db)"

lemma later_refl: "later E db db"
  unfolding later_def by (rule exI[of _ "[]"]) simp

lemma later_step: "later E db db' \<Longrightarrow> later E db (cn_others E n db')"
  unfolding later_def by (metis (no_types) comp_def fold_append fold_simps(1) fold_simps(2))

lemma later_yield:
  assumes "later E db (wd_db w)" "wd_db w = wd_saved w"
  shows "later E db (wd_db (yield_world (cn_others E) w)) \<and> wd_db (yield_world (cn_others E) w) = wd_saved (yield_world (cn_others E) w)"
  using assms by (simp add: yield_world_def Let_def later_step)

lemma synced_commit: "wd_db (yield_world others (w\<lparr>wd_saved := wd_db w\<rparr>)) = wd_saved (yield_world others (w\<lparr>wd_saved := wd_db w\<rparr>))"
  by (simp add: yield_world_def Let_def)

lemma commit_synced: "wd_db w = wd_saved w \<Longrightarrow> w\<lparr>wd_saved := wd_db w\<rparr> = w"
  by simp

lemma post_close_later:
  assumes "post_close E s rows frozen w = (r, w')" "later E db (wd_db w)" "wd_db w = wd_saved w"
  shows "later E db (wd_saved w')"
proof -
  let ?v = "yield_world (cn_others E) (w\<lparr>wd_saved := wd_db w\<rparr>)"
  have v: "later E db (wd_db ?v)" "wd_db ?v = wd_saved ?v"
    using later_yield[OF assms(2,3)] assms(3) by (simp_all add: yield_world_def Let_def)
  let ?u = "?v\<lparr>cw_signals := cw_signals ?v @ [Reflected (lv_id s) frozen]\<rparr>"
  have "later E db (wd_db ?u)" "wd_db ?u = wd_saved ?u" using v by simp_all
  from later_yield[OF this] have u: "later E db (wd_saved (yield_world (cn_others E) ?u))" by (rule conjE) (erule subst)
  show ?thesis
  proof (cases "rows = []")
    case True
    with assms(1) have "w' = ?v" by (simp add: post_close_def cbind_def statements)
    with v show ?thesis by simp
  next
    case False
    with assms(1) have "w' = yield_world (cn_others E) ?u"
      by (simp add: post_close_def cbind_def statements signal_def cput_def)
    with u show ?thesis by simp
  qed
qed

lemma found_by_id: "different_ids db \<Longrightarrow> x \<in> set (cb_sessions db) \<Longrightarrow> find_session db (lv_id x) = Some x"
proof -
  have "distinct (map lv_id ss) \<Longrightarrow> x \<in> set ss \<Longrightarrow> find (\<lambda>s. lv_id s = lv_id x) ss = Some x" for ss
    by (induction ss) (auto simp: image_iff)
  then show "different_ids db \<Longrightarrow> x \<in> set (cb_sessions db) \<Longrightarrow> find_session db (lv_id x) = Some x"
    by (simp add: find_session_def different_ids_def)
qed

lemma goes_on_same:
  assumes "goes_on b sid agent contact d e" "goes_on b' sid agent contact e f" "find_session d sid = Some x" "find_session f sid = Some z"
    "lv_activity x = lv_activity z"
  obtains y where "find_session e sid = Some y" "lv_activity y = lv_activity z"
    "closing_rows f sid agent contact = closing_rows e sid agent contact" "b' \<Longrightarrow> lv_summary z = lv_summary y"
  using assms by (auto simp: goes_on_def split: option.splits)



section \<open>A close that does not happen\<close>

definition evidence_kept :: "chat_db \<Rightarrow> chat_db \<Rightarrow> bool" where
  "evidence_kept db db' \<longleftrightarrow>
     map (\<lambda>s. (lv_id s, lv_closed s, lv_status s, lv_activity s)) (cb_sessions db')
       = map (\<lambda>s. (lv_id s, lv_closed s, lv_status s, lv_activity s)) (cb_sessions db)
     \<and> cb_runs db' = cb_runs db \<and> cb_messages db' = cb_messages db"

definition left_alone :: "chat_env \<Rightarrow> bool" where
  "left_alone E \<longleftrightarrow> (\<forall>n db. evidence_kept db (cn_others E n db))"

definition kept_if :: "chat_env \<Rightarrow> chat_db \<Rightarrow> chat_db \<Rightarrow> bool" where
  "kept_if E db db' \<longleftrightarrow> (left_alone E \<longrightarrow> evidence_kept db db')"

interpretation kept_db: db_contract "\<lambda>_. True" "kept_if E" "cn_others E" for E
  by unfold_locales (auto simp: kept_if_def evidence_kept_def left_alone_def)

interpretation kept_open: chat_frame "live_keeps (\<lambda>_. True) (kept_if E)" E for E
proof
  show "live_keeps (\<lambda>_. True) (kept_if E) w v" if "wd_db v = wd_db w" "wd_saved v = wd_saved w" for v w :: chat_world
    using that by (rule kept_db.aside_keeps)
  show "live_keeps (\<lambda>_. True) (kept_if E) w (w\<lparr>wd_db := (wd_db w)\<lparr>cb_summaries := z\<rparr>\<rparr>)" for w :: chat_world and z
    by (rule kept_db.change_keeps(2)[where f = "\<lambda>d. d\<lparr>cb_summaries := z\<rparr>"]) (simp add: kept_if_def evidence_kept_def)
  show "live_keeps (\<lambda>_. True) (kept_if E) w (w\<lparr>wd_db := set_session sid (\<lambda>x. x\<lparr>lv_summary := t\<rparr>) (wd_db w)\<rparr>)"
    for w :: chat_world and sid t
    by (rule kept_db.change_keeps(2)) (simp add: kept_if_def evidence_kept_def set_session_def if_distrib cong: if_cong)
qed

definition unless_closed :: "chat_env \<Rightarrow> close_outcome chat_op \<Rightarrow> bool" where
  "unless_closed E m \<longleftrightarrow> (\<forall>w r w'. m w = (r, w') \<and> r \<noteq> Inr SessionClosed \<longrightarrow> live_keeps (\<lambda>_. True) (kept_if E) w w')"

lemma unless_closed_bind:
  assumes "op_keeps (live_keeps (\<lambda>_. True) (kept_if E)) m" "\<And>x. unless_closed E (k x)"
  shows "unless_closed E (cbind m k)"
  unfolding unless_closed_def
proof (intro allI impI)
  fix w r w' assume a: "cbind m k w = (r, w') \<and> r \<noteq> Inr SessionClosed"
  have m: "live_keeps (\<lambda>_. True) (kept_if E) w (snd (m w))" using assms(1) by (simp add: op_keeps_def)
  show "live_keeps (\<lambda>_. True) (kept_if E) w w'"
  proof (cases "m w")
    case (Pair q v)
    then show ?thesis
    proof (cases q)
      case (Inl e)
      with Pair a m show ?thesis by (auto simp: cbind_def)
    next
      case (Inr x)
      with Pair a have "k x v = (r, w')" by (simp add: cbind_def)
      with a assms(2)[unfolded unless_closed_def] have "live_keeps (\<lambda>_. True) (kept_if E) v w'" by blast
      with m Pair show ?thesis using kept_db.live.trans by fastforce
    qed
  qed
qed

lemma unless_closed_ret: "op_keeps (live_keeps (\<lambda>_. True) (kept_if E)) m \<Longrightarrow> unless_closed E m"
  unfolding op_keeps_def unless_closed_def by (metis snd_conv)

lemma unless_closed_cond: "unless_closed E m \<Longrightarrow> unless_closed E n \<Longrightarrow> unless_closed E (if b then m else n)"
  by simp

lemma unless_conditional:
  "unless_closed E (cbind (conditional_close E s contact token)
     (\<lambda>ok. if ok then cbind (post_close E s rows frozen) (\<lambda>_. cret SessionClosed) else cret LostRace))"
  unfolding unless_closed_def
proof (intro allI impI)
  fix w r w'
  assume a: "cbind (conditional_close E s contact token)
      (\<lambda>ok. if ok then cbind (post_close E s rows frozen) (\<lambda>_. cret SessionClosed) else cret LostRace) w = (r, w') \<and> r \<noteq> Inr SessionClosed"
  have p: "\<exists>v'. post_close E s rows frozen v = (Inr (), v')" for v
    by (simp add: post_close_def cbind_def statements signal_def cput_def)
  show "live_keeps (\<lambda>_. True) (kept_if E) w w'"
  proof (cases "closable (wd_db w) s contact token")
    case True
    with a p show ?thesis by (auto simp: conditional_close_def statements cbind_def split: prod.splits sum.splits) (metis p prod.inject sum.distinct(1))+
  next
    case False
    with a have "w' = yield_world (cn_others E) (w\<lparr>wd_saved := wd_db w\<rparr>)"
      by (auto simp: conditional_close_def statements cbind_def)
    then show ?thesis using kept_db.live.step_commit by simp
  qed
qed



section \<open>Runs that never end\<close>

text \<open>
  A run whose status is not among the terminal ones keeps its session open for good.  The loop ends a run that
  exceeds a limit with the status \<open>limit_exceeded\<close>, which is not among them.
\<close>

definition busy_stays :: "chat_env \<Rightarrow> string \<Rightarrow> bool" where
  "busy_stays E sid \<longleftrightarrow> (\<forall>n db. busy db sid \<longrightarrow> busy (cn_others E n db) sid)"

definition busy_if :: "chat_env \<Rightarrow> string \<Rightarrow> chat_db \<Rightarrow> bool" where
  "busy_if E sid db \<longleftrightarrow> (busy_stays E sid \<longrightarrow> busy db sid)"

interpretation busy_db: db_contract "busy_if E sid" "\<lambda>_ _. True" "cn_others E" for E sid
  by unfold_locales (auto simp: busy_if_def busy_stays_def)

interpretation stays_busy: chat_frame "live_keeps (busy_if E sid) (\<lambda>_ _. True)" E for E sid
proof
  show "live_keeps (busy_if E sid) (\<lambda>_ _. True) w v" if "wd_db v = wd_db w" "wd_saved v = wd_saved w" for v w :: chat_world
    using that by (rule busy_db.aside_keeps)
  show "live_keeps (busy_if E sid) (\<lambda>_ _. True) w (w\<lparr>wd_db := (wd_db w)\<lparr>cb_summaries := z\<rparr>\<rparr>)" for w :: chat_world and z
    by (rule busy_db.change_keeps(2)[where f = "\<lambda>d. d\<lparr>cb_summaries := z\<rparr>"]) (simp add: busy_if_def busy_def)
  show "live_keeps (busy_if E sid) (\<lambda>_ _. True) w (w\<lparr>wd_db := set_session i (\<lambda>x. x\<lparr>lv_summary := t\<rparr>) (wd_db w)\<rparr>)"
    for w :: chat_world and i t
    by (rule busy_db.change_keeps(2)) (simp add: busy_if_def busy_def)
qed

lemma busy_run:
  assumes "op_keeps (live_keeps (busy_if E sid) (\<lambda>_ _. True)) m" "busy_stays E sid" "busy (wd_db w) sid" "m w = (r, w')"
  shows "busy (wd_db w') sid"
proof -
  have "live_keeps (busy_if E sid) (\<lambda>_ _. True) w (snd (m w))" using assms(1) by (simp add: op_keeps_def)
  with assms show ?thesis by (simp add: live_keeps_def busy_if_def)
qed

lemma busy_never_closes:
  assumes "busy_stays E sid" "busy (wd_db w) sid"
  shows "fst (close_session E cfg sid contact w) \<noteq> Inr SessionClosed"
proof
  let ?y = "yield_world (cn_others E)"
  have y: "busy (wd_db (?y v)) sid" if "busy (wd_db v) sid" for v :: chat_world
    using busy_run[where m = "wait (cn_others E) :: unit chat_op", OF busy_db.live.waiting assms(1) that] by (simp add: statements)
  assume "fst (close_session E cfg sid contact w) = Inr SessionClosed"
  then obtain w' where "close_session E cfg sid contact w = (Inr SessionClosed, w')" by (metis prod.collapse)
  then obtain s where s: "find_session (wd_db (?y w)) sid = Some s" "close_open_session E cfg s contact (?y (?y w)) = (Inr SessionClosed, w')"
    by (auto simp: close_session_def split: option.splits if_splits)
  have sid: "lv_id s = sid" using s(1) by (auto simp: find_session_def dest: find_in_set)
  define w1 where "w1 = ?y (?y (?y w))"
  define rows where "rows = closing_rows (wd_db (?y w1)) sid (lv_agent s) contact"
  from s(2) obtain frozen w3 token where
    l: "(if rows = [] then cret [] else close_learning E cfg s contact rows) (?y (?y w1)) = (Inr frozen, w3)"
    and c: "closable (wd_db w3) s contact token"
    unfolding close_open_session_def
    by (auto simp: sid conditional_close_def statements rows_def w1_def elim!: cbindE split: if_splits)
  have k: "op_keeps (live_keeps (busy_if E sid) (\<lambda>_ _. True)) (if rows = [] then cret [] else close_learning E cfg s contact rows)"
    by (intro busy_db.live.cond busy_db.live.basic stays_busy.closing)
  have "busy (wd_db w3) sid" by (rule busy_run[OF k assms(1) _ l]) (simp add: y assms(2) w1_def)
  with c sid show False by (simp add: closable_def)
qed

lemma limit_exceeded_never_closed:
  assumes "r \<in> set (cb_runs (wd_db w))" "rn_session r = sid" "lr_status r = ''limit_exceeded''" "\<not> lr_test r" "busy_stays E sid"
  shows "fst (close_session E cfg sid contact w) \<noteq> Inr SessionClosed"
proof (rule busy_never_closes[OF assms(5)])
  show "busy (wd_db w) sid"
    unfolding busy_def by (rule bexI[OF _ assms(1)]) (simp add: active_run_def TERMINAL_RUN_STATUSES_def assms)
qed

lemma sweep_sleeps_within_bounds: "sweep_once E w = (Inr t, w') \<Longrightarrow> SWEEP_MIN_SLEEP_SECONDS \<le> t \<and> t \<le> SWEEP_FALLBACK_SECONDS"
proof -
  have "fold (\<lambda>s d. min d (f s)) ss m \<le> (m :: rat)" for f and ss :: "live_session list" and m
    by (induction ss arbitrary: m) (simp, metis (no_types) comp_apply fold_simps(2) min.coboundedI1 min.cobounded1 order.trans)
  then have "snd (sweep_plan db now ss) \<le> SWEEP_FALLBACK_SECONDS" for db now ss by (simp add: sweep_plan_def)
  then show "sweep_once E w = (Inr t, w') \<Longrightarrow> ?thesis"
    by (auto simp: sweep_once_def ask_run SWEEP_MIN_SLEEP_SECONDS_def SWEEP_FALLBACK_SECONDS_def elim!: cbindE) (metis snd_conv)
qed


section \<open>A session of two runs\<close>

definition ex_run :: "string \<Rightarrow> string \<Rightarrow> int \<Rightarrow> live_run" where
  "ex_run i st t = \<lparr>rn_id = i, rn_session = ''s'', rn_trigger = ''user_message'', rn_started = t, lr_contact = ''c'', lr_agent = ''a'',
     lr_status = st, lr_message = None, lr_test = False, lr_completed = None, lr_error = None, lr_tokens_in = 0,
     lr_tokens_out = 0, lr_cost = 0, lr_latency = 0, lr_context_tokens = 0, lr_max_context = 0, lr_compacted = False\<rparr>"

definition ex_message :: "string \<Rightarrow> string \<Rightarrow> string \<Rightarrow> stored_message" where
  "ex_message i r t = \<lparr>sm_id = i, sm_run = r, sm_role = ''user'', sm_content = t, sm_seq = 0, sm_attachments = None, sm_subagent = None\<rparr>"

definition ex_chat :: chat_db where
  "ex_chat = \<lparr>cb_agents = [(''a'', True, Some (default_agent ''a'' ''A'' default_model_config))],
     cb_contacts = [\<lparr>ct_id = ''c'', ct_channel = ''dashboard_chat'', ct_bot = ''a'', ct_user = ''u''\<rparr>],
     cb_sessions = [\<lparr>lv_id = ''s'', lv_contact = ''c'', lv_agent = ''a'', lv_status = ''active'', lv_title = None, lv_titled = False,
       lv_started = 0, lv_activity = 0, lv_summary = None, lv_closed = False, lv_channel = None, lv_user = None, lv_conv = no_summary\<rparr>],
     cb_runs = [ex_run ''r'' ''completed'' 0], cb_messages = [ex_message ''m'' ''r'' ''hi''], cb_index = [], cb_summaries = [],
     cb_snaps = [], cb_uuids = 0\<rparr>"

definition ex_chat_env :: "chat_db others \<Rightarrow> chat_env" where
  "ex_chat_env others = \<lparr>cn_uuid = (\<lambda>n. CHR ''i'' # show_nat n), cn_clock = int, cn_others = others, cn_doc = ex_doc, cn_resolved = None,
     cn_prompt_tokens = (\<lambda>p. 0), cn_summarise = (\<lambda>n p. Some ''brief''), cn_learn = (\<lambda>n. Learned), cn_postgres = False\<rparr>"

definition ex_chat_world :: chat_world where
  "ex_chat_world = \<lparr>wd_db = ex_chat, wd_saved = ex_chat, wd_waits = 0, cw_signals = [], cw_closing = {}\<rparr>"

abbreviation ex_close :: "chat_db others \<Rightarrow> (chat_error + close_outcome) \<times> chat_world" where
  "ex_close others \<equiv> close_session (ex_chat_env others) (default_agent ''a'' ''A'' default_model_config) ''s'' ''c'' ex_chat_world"

lemma idle_yield [simp]: "yield_world (\<lambda>n d. d) w = w\<lparr>wd_waits := Suc (wd_waits w)\<rparr>"
  by (simp add: yield_world_def Let_def)

lemmas close_run = close_session_def close_open_session_def close_learning_def summarise_and_learn_def summarise_session_def
  learn_from_def update_session_def tell_def conditional_close_def post_close_def statements signal_def set_closing_def catch_op_def
  cbind_def cget_def cput_def clift_def ccheck_def cret_def cfail_def ask_run

lemmas close_tables = find_session_def set_session_def busy_def active_run_def closable_def closing_rows_def terminal_run_def
  terminal_run_ids_def spoken_def TERMINAL_RUN_STATUSES_def index_summary_def shut_def

lemmas ex_close_data = ex_chat_world_def ex_chat_def ex_run_def ex_message_def

lemma ex_env_fields [simp]:
  "cn_others (ex_chat_env others) = others" "cn_clock (ex_chat_env others) = int" "cn_postgres (ex_chat_env others) = False"
  "cn_summarise (ex_chat_env others) n p = Some ''brief''" "cn_learn (ex_chat_env others) n = Learned"
  "ac_id (default_agent i name m) = i"
  by (simp_all add: ex_chat_env_def default_agent_def)

lemma ex_reply: "summary_of_reply (Some ''brief'') = Inr ''brief''"
  by (simp add: summary_of_reply_def) code_simp

lemma ex_summary_budget: "\<exists>b \<ge> 0. summary_budget (ex_chat_env others) (default_agent ''a'' ''A'' default_model_config) = Inr b"
  by (simp add: summary_budget_def ex_chat_env_def resolve_input_budget_def summary_max_tokens_def default_agent_def default_model_config_def
      default_limits_def bad_budget_def model_budget_def dget_def)

lemma ex_prompt:
  "close_prompt (ex_chat_env others) (default_agent ''a'' ''A'' default_model_config) g rows = Inr (SESSION_SUMMARY_PROMPT @ transcript g rows)"
  using ex_summary_budget[of others] by (auto simp: close_prompt_def Let_def) (simp add: ex_chat_env_def)

lemma ex_close_runs: "fst (ex_close (\<lambda>n db. db)) = Inr SessionClosed"
  by (simp add: close_run close_tables ex_prompt ex_reply ex_close_data)



text \<open>
  A run that fails while the models are asked does not move the activity of its session: the session closes,
  and nothing of that run was summarised or learned.
\<close>

definition fails_meanwhile :: "chat_db others" where
  "fails_meanwhile n db =
     (if n = 7 then db\<lparr>cb_runs := cb_runs db @ [ex_run ''q'' ''failed'' 1], cb_messages := cb_messages db @ [ex_message ''n'' ''q'' ''lost'']\<rparr>
      else db)"

definition learned_texts :: "chat_world \<Rightarrow> string list" where
  "learned_texts w = concat (map (\<lambda>x. case x of LearnerAsked rows ids \<Rightarrow> map sm_content rows | _ \<Rightarrow> []) (cw_signals w))"

lemma meanwhile_yield:
  "wd_waits w \<noteq> 7 \<Longrightarrow> yield_world fails_meanwhile w = w\<lparr>wd_waits := Suc (wd_waits w)\<rparr>"
  by (simp add: yield_world_def Let_def fails_meanwhile_def)

lemma meanwhile_failure:
  assumes "wd_waits w = 7" "wd_db w = wd_saved w"
  shows "yield_world fails_meanwhile w = (let d = (wd_db w)\<lparr>cb_runs := cb_runs (wd_db w) @ [ex_run ''q'' ''failed'' 1],
           cb_messages := cb_messages (wd_db w) @ [ex_message ''n'' ''q'' ''lost'']\<rparr> in w\<lparr>wd_db := d, wd_saved := d, wd_waits := 8\<rparr>)"
  using assms by (simp add: yield_world_def Let_def fails_meanwhile_def)

lemma failed_run_is_left_out:
  "case ex_close fails_meanwhile of (r, w) \<Rightarrow> r = Inr SessionClosed
     \<and> map sm_content (closing_rows (wd_saved w) ''s'' ''a'' ''c'') = [''hi'', ''lost''] \<and> learned_texts w = [''hi'']"
  by (simp add: close_run close_tables ex_prompt ex_reply ex_close_data learned_texts_def meanwhile_yield meanwhile_failure Let_def)

end
