(* ===== verification/Uploads.thy ===== *)
theory Uploads
  imports Prelude
begin

text \<open>
  The uploads of a message are stored in the agent's workspace and described by records for the tools
  (\<^verbatim>\<open>pipeline.py\<close>, \<open>_prepare_attachment_context\<close>); no file that is there is overwritten.
\<close>

record upload =
  up_type :: string
  up_mime :: string
  up_data :: string
  up_name :: string

text \<open>The files of a workspace by relative path, and other paths that exist in it.\<close>

record workspace =
  ws_files :: "(string \<times> string) list"
  ws_other :: "string list"

text \<open>\<open>b64decode\<close> (\<open>None\<close> when it raises); the error of writing a file, if any.\<close>

record upload_env =
  un_b64 :: "string \<Rightarrow> string option"
  un_save :: "string \<Rightarrow> string \<Rightarrow> string option"

definition path_exists :: "workspace \<Rightarrow> string \<Rightarrow> bool" where
  "path_exists ws p \<longleftrightarrow> p \<in> fst ` set (ws_files ws) \<union> set (ws_other ws)"

text \<open>The last component of a path, and where its suffix starts (\<open>Path.name\<close>, \<open>Path.suffix\<close>).\<close>

fun slash_parts :: "string \<Rightarrow> string \<Rightarrow> string list" where
  "slash_parts acc [] = [acc]"
| "slash_parts acc (c # cs) = (if c = CHR ''/'' then acc # slash_parts [] cs else slash_parts (acc @ [c]) cs)"

definition path_name :: "string \<Rightarrow> string" where
  "path_name p = (case filter (\<lambda>x. x \<noteq> [] \<and> x \<noteq> ''.'') (slash_parts [] p) of [] \<Rightarrow> [] | x # xs \<Rightarrow> last (x # xs))"

definition suffix_start :: "string \<Rightarrow> nat" where
  "suffix_start name =
     (let after = length (takeWhile (\<lambda>c. c \<noteq> CHR ''.'') (List.rev name)); i = length name - after - 1
      in if after < length name \<and> 0 < i \<and> i < length name - 1 then i else length name)"

definition attachment_target :: "string \<Rightarrow> nat \<Rightarrow> string" where
  "attachment_target base n =
     ''attachments/'' @ (if n = 0 then base
        else take (suffix_start base) base @ '' ('' @ show_nat n @ '')'' @ drop (suffix_start base) base)"

lemma attachment_target_inject: "attachment_target base m = attachment_target base n \<longleftrightarrow> m = n"
proof
  assume a: "attachment_target base m = attachment_target base n"
  have l: "length (attachment_target base k) = (if k = 0 then 12 + length base else 15 + length (show_nat k) + length base)" for k
    by (auto simp: attachment_target_def)
  from a have "length (attachment_target base m) = length (attachment_target base n)" by simp
  then have "m = 0 \<longleftrightarrow> n = 0" unfolding l by (auto split: if_splits)
  with a show "m = n" by (cases "m = 0") (auto simp: attachment_target_def)
qed simp

text \<open>The search for a free name ends: there are more names than paths.\<close>

definition taken_after :: "workspace \<Rightarrow> string \<Rightarrow> nat \<Rightarrow> string set" where
  "taken_after ws base n = {p \<in> fst ` set (ws_files ws) \<union> set (ws_other ws). \<exists>k \<ge> n. p = attachment_target base k}"

lemma taken_after_less:
  assumes "path_exists ws (attachment_target base n)"
  shows "card (taken_after ws base (Suc n)) < card (taken_after ws base n)"
proof (rule psubset_card_mono)
  show "finite (taken_after ws base n)" by (simp add: taken_after_def)
  have "attachment_target base n \<in> taken_after ws base n" using assms by (auto simp: taken_after_def path_exists_def)
  moreover have "attachment_target base n \<notin> taken_after ws base (Suc n)"
    by (auto simp: taken_after_def attachment_target_inject)
  moreover have "taken_after ws base (Suc n) \<subseteq> taken_after ws base n"
    unfolding taken_after_def by (auto intro: Suc_leD)
  ultimately show "taken_after ws base (Suc n) \<subset> taken_after ws base n" by blast
qed

function free_target :: "workspace \<Rightarrow> string \<Rightarrow> nat \<Rightarrow> string" where
  "free_target ws base n =
     (if path_exists ws (attachment_target base n) then free_target ws base (Suc n) else attachment_target base n)"
  by pat_completeness auto
termination by (relation "measure (\<lambda>(ws, base, n). card (taken_after ws base n))") (auto simp: taken_after_less)

declare free_target.simps [simp del]

definition dedupe_attachment_target :: "workspace \<Rightarrow> string \<Rightarrow> nat \<Rightarrow> string" where
  "dedupe_attachment_target ws filename index =
     (let base = (if path_name filename = [] then ''attachment_'' @ show_nat index else path_name filename)
      in free_target ws base 0)"

text \<open>\<open>str.encode\<close> for code points below 256.\<close>

definition utf8_char :: "char \<Rightarrow> string" where
  "utf8_char c = (let n = of_char c :: nat
     in if n < 128 then [c] else [char_of (192 + n div 64), char_of (128 + n mod 64)])"

definition utf8_encode :: "string \<Rightarrow> string" where
  "utf8_encode s = concat (map utf8_char s)"

definition upload_bytes :: "upload_env \<Rightarrow> upload \<Rightarrow> string option" where
  "upload_bytes U a =
     (if up_type a = ''file'' \<and> (starts_with ''text/'' (up_mime a) \<or> up_mime a = ''application/json'')
      then Some (utf8_encode (up_data a)) else un_b64 U (up_data a))"

definition upload_record :: "nat \<Rightarrow> upload \<Rightarrow> pydict" where
  "upload_record index a =
     (let i = ''attachment_'' @ show_nat index
      in [(''id'', PStr i), (''type'', PStr (up_type a)), (''mime_type'', PStr (up_mime a)),
          (''filename'', PStr (if up_name a = [] then i else up_name a))])"

definition store_upload :: "upload_env \<Rightarrow> nat \<Rightarrow> upload \<Rightarrow> workspace \<Rightarrow> pydict \<times> workspace" where
  "store_upload U index a ws =
     (let r = upload_record index a in
      if up_type a \<in> {''url'', ''image_url''} then (AList.update ''url'' (PStr (up_data a)) r, ws)
      else let target = dedupe_attachment_target ws (up_name a) index
        in case upload_bytes U a of
             None \<Rightarrow> (AList.update ''error'' (PStr ''Attachment data was not valid base64'') r, ws)
           | Some raw \<Rightarrow>
               (case un_save U target raw of
                  Some e \<Rightarrow> (AList.update ''error'' (PStr (''Could not save attachment: '' @ e)) r, ws)
                | None \<Rightarrow>
                    (AList.update ''size'' (PInt (int (length raw)))
                       (AList.update ''filename'' (PStr (path_name target)) (AList.update ''path'' (PStr target) r)),
                     ws\<lparr>ws_files := (target, raw) # ws_files ws\<rparr>)))"

fun prepare_uploads :: "upload_env \<Rightarrow> nat \<Rightarrow> upload list \<Rightarrow> workspace \<Rightarrow> pydict list \<times> workspace" where
  "prepare_uploads U index [] ws = ([], ws)"
| "prepare_uploads U index (a # as) ws =
     (case store_upload U index a ws of (r, ws) \<Rightarrow>
      case prepare_uploads U (Suc index) as ws of (rs, ws) \<Rightarrow> (r # rs, ws))"

definition prepare_attachment_context :: "upload_env \<Rightarrow> upload list \<Rightarrow> workspace \<Rightarrow> pydict list \<times> workspace" where
  "prepare_attachment_context U as ws = prepare_uploads U 1 as ws"

text \<open>The metadata that is kept with the message.\<close>

definition stored_keys :: "string list" where
  "stored_keys = [''id'', ''type'', ''mime_type'', ''filename'', ''url'', ''path'', ''size'']"

definition attachment_meta :: "pydict list \<Rightarrow> pyval" where
  "attachment_meta rs =
     PList (map (\<lambda>r. PDict (concat (map (\<lambda>k. case map_of r k of None \<Rightarrow> [] | Some v \<Rightarrow> [(k, v)]) stored_keys))) rs)"


section \<open>No file is overwritten\<close>

lemma free_target_free: "\<not> path_exists ws (free_target ws base n)"
  by (induction ws base n rule: free_target.induct) (subst free_target.simps, simp)

text \<open>Files that were there stay; a record with a path names a new file with the upload's bytes.\<close>

definition record_stored :: "upload_env \<Rightarrow> workspace \<Rightarrow> workspace \<Rightarrow> upload \<Rightarrow> pydict \<Rightarrow> bool" where
  "record_stored U ws ws' a r \<longleftrightarrow>
     (case map_of r ''path'' of
        None \<Rightarrow> map_of r ''url'' = Some (PStr (up_data a)) \<or> map_of r ''error'' \<noteq> None
      | Some v \<Rightarrow> \<exists>p raw. v = PStr p \<and> \<not> path_exists ws p \<and> upload_bytes U a = Some raw \<and> map_of (ws_files ws') p = Some raw)"

definition record_paths :: "pydict list \<Rightarrow> pyval list" where
  "record_paths rs = concat (map (\<lambda>r. case map_of r ''path'' of None \<Rightarrow> [] | Some v \<Rightarrow> [v]) rs)"

definition ws_grows :: "workspace \<Rightarrow> workspace \<Rightarrow> bool" where
  "ws_grows ws ws' \<longleftrightarrow> (\<forall>p. path_exists ws p \<longrightarrow> path_exists ws' p \<and> map_of (ws_files ws') p = map_of (ws_files ws) p)"

lemma ws_grows_trans: "ws_grows u v \<Longrightarrow> ws_grows v w \<Longrightarrow> ws_grows u w"
  by (simp add: ws_grows_def)

lemma path_exists_add: "path_exists (ws\<lparr>ws_files := (t, b) # ws_files ws\<rparr>) p \<longleftrightarrow> p = t \<or> path_exists ws p"
  by (auto simp: path_exists_def)

lemma store_upload_grows:
  assumes "store_upload U i a ws = (r, ws')"
  shows "ws_grows ws ws' \<and> record_stored U ws ws' a r
    \<and> (\<forall>v. map_of r ''path'' = Some v \<longrightarrow> (\<exists>p. v = PStr p \<and> path_exists ws' p))"
proof -
  let ?t = "dedupe_attachment_target ws (up_name a) i"
  have "\<not> path_exists ws ?t" by (simp add: dedupe_attachment_target_def Let_def free_target_free)
  with assms show ?thesis
    by (auto simp: store_upload_def Let_def upload_record_def ws_grows_def record_stored_def path_exists_add
        split: if_splits option.splits)
qed

lemma prepare_grows: "prepare_uploads U i ups ws = (rs, ws') \<Longrightarrow> ws_grows ws ws'"
proof (induction ups arbitrary: i ws rs)
  case Nil
  then show ?case by (simp add: ws_grows_def)
next
  case (Cons a ups)
  obtain r ws1 rs1 where s: "store_upload U i a ws = (r, ws1)" and p: "prepare_uploads U (Suc i) ups ws1 = (rs1, ws')"
    using Cons.prems by (auto split: prod.splits)
  from store_upload_grows[OF s] Cons.IH[OF p] show ?case by (auto intro: ws_grows_trans)
qed

lemma prepare_stored:
  "prepare_uploads U i ups ws = (rs, ws') \<Longrightarrow>
     list_all2 (record_stored U ws ws') ups rs \<and> distinct (record_paths rs)
     \<and> (\<forall>v \<in> set (record_paths rs). \<exists>p. v = PStr p \<and> \<not> path_exists ws p)"
proof (induction ups arbitrary: i ws rs)
  case Nil
  then show ?case by (simp add: record_paths_def)
next
  case (Cons a ups)
  obtain r ws1 rs1 where s: "store_upload U i a ws = (r, ws1)" and p: "prepare_uploads U (Suc i) ups ws1 = (rs1, ws')" "rs = r # rs1"
    using Cons.prems by (auto split: prod.splits)
  note IH = Cons.IH[OF p(1)] and g = store_upload_grows[OF s] and g' = prepare_grows[OF p(1)]
  have fresh: "\<not> path_exists ws1 q \<Longrightarrow> \<not> path_exists ws q" for q using g by (auto simp: ws_grows_def)
  have first: "record_stored U ws ws' a r"
    using g g' unfolding record_stored_def ws_grows_def by (auto split: option.splits)
  have "record_stored U ws1 ws' x y \<Longrightarrow> record_stored U ws ws' x y" for x y
    using fresh unfolding record_stored_def by (auto split: option.splits)
  then have rest: "list_all2 (record_stored U ws ws') ups rs1" using IH by (auto elim: list_all2_mono)
  have "\<exists>q. v = PStr q \<and> \<not> path_exists ws q" if "map_of r ''path'' = Some v" for v
    using g that by (auto simp: record_stored_def)
  moreover have "v \<notin> set (record_paths rs1)" if "map_of r ''path'' = Some v" for v
    using IH g that by auto
  moreover have "\<forall>v \<in> set (record_paths rs1). \<exists>p. v = PStr p \<and> \<not> path_exists ws p" using IH fresh by blast
  moreover have "record_paths rs = (case map_of r ''path'' of None \<Rightarrow> [] | Some v \<Rightarrow> [v]) @ record_paths rs1"
    by (simp add: record_paths_def p(2))
  ultimately show ?case using IH first rest p(2) by (auto split: option.splits)
qed


definition ex_upload :: upload where
  "ex_upload = \<lparr>up_type = ''file'', up_mime = ''text/plain'', up_data = ''hi'', up_name = ''a.b''\<rparr>"


end
