(* ===== verification/Pipeline.thy ===== *)
theory Pipeline
  imports Sessions Run_Events Uploads
begin

text \<open>
  One message through the pipeline (\<^verbatim>\<open>pipeline.py\<close>, \<open>handle_inbound\<close>) and the entry point around it
  (\<^verbatim>\<open>runner.py\<close>, \<open>run_agent\<close>): the contact, the session and the run are found or made, uploads are stored, the
  agent loop runs over the conversation, its events are stored, and the run is settled on every way out.
\<close>

section \<open>Messages and the outside\<close>

text \<open>A model override: provider, name, the two settings of thinking.\<close>

record model_choice =
  mo_provider :: string
  mo_name :: string
  mo_thinking :: "bool option"
  mo_effort :: "string option"

record inbound =
  im_channel :: string
  im_agent :: string
  im_user :: string
  im_text :: string
  im_id :: string
  im_test :: bool
  im_override :: "model_choice option"
  im_session :: "string option"
  im_new :: bool
  im_uploads :: "upload list"
  im_max_cost :: "rat option"

datatype core_outcome = CorePinned | CoreRefused string | CoreRaised

text \<open>
  What the pipeline uses of the rest: whether somebody listens, the input guardrails, the pinning of the core
  (\<open>load_or_pin_core\<close>), the workspace and the uploads, the environment of the agent loop for a run, whether a
  provider is there, the model's answer to a request for a title.
\<close>

record pipe_env =
  pn_chat :: chat_env
  pn_emits :: bool
  pn_guard :: "string \<Rightarrow> guard_result"
  pn_core :: "nat \<Rightarrow> core_outcome"
  pn_uploads :: upload_env
  pn_workspace :: "nat \<Rightarrow> workspace"
  pn_loop :: "string \<Rightarrow> agent_config \<Rightarrow> harness_env"
  pn_provider :: "string \<Rightarrow> bool"
  pn_title :: "nat \<Rightarrow> string \<Rightarrow> string option"

abbreviation "pn_others P \<equiv> cn_others (pn_chat P)"

definition is_channel :: "inbound \<Rightarrow> bool" where
  "is_channel m \<longleftrightarrow> im_channel m \<notin> {''dashboard_chat'', ''heartbeat'', ''schedule''}"

definition emit_to :: "pipe_env \<Rightarrow> string \<Rightarrow> pydict \<Rightarrow> unit chat_op" where
  "emit_to P kind payload =
     (if pn_emits P then cbind (signal (Emitted kind payload)) (\<lambda>_. wait (pn_others P)) else cret ())"


section \<open>The run and its first message\<close>

definition new_run :: "string \<Rightarrow> live_session \<Rightarrow> contact_row \<Rightarrow> inbound \<Rightarrow> string \<Rightarrow> bool \<Rightarrow> int \<Rightarrow> live_run" where
  "new_run i s c m trigger test t =
     \<lparr>rn_id = i, rn_session = lv_id s, rn_trigger = trigger, rn_started = t, lr_contact = ct_id c, lr_agent = im_agent m,
      lr_status = ''pending'', lr_message = Some (im_id m), lr_test = (test \<or> im_test m), lr_completed = None, lr_error = None,
      lr_tokens_in = 0, lr_tokens_out = 0, lr_cost = 0, lr_latency = 0, lr_context_tokens = 0, lr_max_context = 0,
      lr_compacted = False\<rparr>"

text \<open>The foreign keys of \<open>runs\<close> and \<open>messages\<close>; the update of a loaded run, which must still be there.\<close>

definition known_run :: "live_run \<Rightarrow> chat_db \<Rightarrow> bool" where
  "known_run r db \<longleftrightarrow> rn_session r \<in> lv_id ` set (cb_sessions db) \<and> lr_contact r \<in> ct_id ` set (cb_contacts db)
     \<and> lr_agent r \<in> fst ` set (cb_agents db)"

definition has_run :: "string \<Rightarrow> chat_db \<Rightarrow> bool" where
  "has_run rid db \<longleftrightarrow> rid \<in> rn_id ` set (cb_runs db)"

definition update_run :: "pipe_env \<Rightarrow> string \<Rightarrow> (live_run \<Rightarrow> live_run) \<Rightarrow> unit chat_op" where
  "update_run P rid f =
     cbind (read_db (has_run rid)) (\<lambda>there.
     cbind (ccheck there StaleData) (\<lambda>_. tell (pn_chat P) (set_run rid f)))"

definition create_run :: "pipe_env \<Rightarrow> live_session \<Rightarrow> contact_row \<Rightarrow> inbound \<Rightarrow> string \<Rightarrow> bool \<Rightarrow> live_run chat_op" where
  "create_run P s c m trigger test =
     cbind (new_uuid (pn_chat P)) (\<lambda>i. cbind (clock (pn_chat P)) (\<lambda>t.
     let r = new_run i s c m trigger test t
     in cbind (read_db (known_run r)) (\<lambda>known.
        cbind (ccheck known IntegrityError) (\<lambda>_.
        cbind (tell (pn_chat P) (\<lambda>db. db\<lparr>cb_runs := cb_runs db @ [r]\<rparr>)) (\<lambda>_. cret r)))))"

text \<open>A message and its row of the full-text index, which is SQLite's.\<close>

definition run_message :: "string \<Rightarrow> string \<Rightarrow> string \<Rightarrow> string \<Rightarrow> int \<Rightarrow> stored_message" where
  "run_message i rid role content n =
     \<lparr>sm_id = i, sm_run = rid, sm_role = role, sm_content = content, sm_seq = n, sm_attachments = None, sm_subagent = None\<rparr>"

definition store_message :: "pipe_env \<Rightarrow> live_run \<Rightarrow> string \<Rightarrow> string \<Rightarrow> int \<Rightarrow> stored_message chat_op" where
  "store_message P r role content n =
     cbind (new_uuid (pn_chat P)) (\<lambda>i.
     let x = run_message i (rn_id r) role content n
     in cbind (read_db (has_run (rn_id r))) (\<lambda>there.
        cbind (ccheck there IntegrityError) (\<lambda>_.
        cbind (tell (pn_chat P) (\<lambda>db. db\<lparr>cb_messages := cb_messages db @ [x]\<rparr>)) (\<lambda>_.
        cbind (tell (pn_chat P) (\<lambda>db. db\<lparr>cb_index := cb_index db @ [\<lparr>mx_message = i, mx_run = rn_id r, mx_session = rn_session r,
                     mx_agent = lr_agent r, mx_content = content\<rparr>]\<rparr>)) (\<lambda>_. cret x)))))"

definition first_title :: "string \<Rightarrow> string" where
  "first_title text = (let t = py_strip (take 60 text) in if t = [] then ''New conversation'' else t)"

definition name_session :: "pipe_env \<Rightarrow> live_session \<Rightarrow> string \<Rightarrow> live_session chat_op" where
  "name_session P s text =
     (if given_text (lv_title s) = None
      then cbind (update_session (pn_chat P) (lv_id s) (\<lambda>x. x\<lparr>lv_title := Some (first_title text)\<rparr>)) (\<lambda>_.
           cret (s\<lparr>lv_title := Some (first_title text)\<rparr>))
      else cret s)"

text \<open>From the message to its contact and session, committed; idle sessions of the contact close in the background.\<close>

definition find_place :: "pipe_env \<Rightarrow> inbound \<Rightarrow> (contact_row \<times> live_session) chat_op" where
  "find_place P m =
     cbind (ask (pn_chat P) (\<lambda>db. \<exists>r \<in> set (cb_runs db). lr_message r = Some (im_id m))) (\<lambda>seen.
     cbind (ccheck (\<not> seen) ResultClosed) (\<lambda>_.
     cbind (resolve_contact (pn_chat P) (im_channel m) (im_agent m) (im_user m)) (\<lambda>c.
     cbind (resolve_session (pn_chat P) (ct_id c) (im_agent m) (im_session m) (im_new m)
              (if is_channel m then Some (im_channel m) else None) (if is_channel m then Some (im_user m) else None)) (\<lambda>s.
     cbind (commit_db (pn_others P)) (\<lambda>_.
     cbind (signal SweeperPoked) (\<lambda>_.
     cbind (if is_channel m then cret () else close_idle_sessions (pn_chat P) (im_agent m) (ct_id c) (lv_id s)) (\<lambda>_.
     cret (c, s))))))))"

text \<open>The run is announced and gets the guarded message; then everything is committed.\<close>

definition begin_run ::
    "pipe_env \<Rightarrow> inbound \<Rightarrow> live_session \<Rightarrow> live_run \<Rightarrow> (live_session \<times> live_run \<times> stored_message) chat_op" where
  "begin_run P m s r =
     (let g = pn_guard P (im_text m) in
      cbind (emit_to P ''run_started'' [(''run_id'', PStr (rn_id r)), (''session_id'', PStr (lv_id s)), (''agent_id'', PStr (im_agent m))]) (\<lambda>_.
      cbind (if gr_warnings g = [] then cret ()
             else emit_to P ''guardrail_warning'' [(''warnings'', PList (map PStr (gr_warnings g))), (''direction'', PStr ''input'')]) (\<lambda>_.
      cbind (store_message P r ''user'' (gr_content g) 0) (\<lambda>x.
      cbind (name_session P s (gr_content g)) (\<lambda>s. cret (s, r, x))))))"

definition open_run ::
    "pipe_env \<Rightarrow> inbound \<Rightarrow> string \<Rightarrow> bool \<Rightarrow> contact_row \<Rightarrow> live_session \<Rightarrow> (live_session \<times> live_run \<times> stored_message) chat_op" where
  "open_run P m trigger test c s = cbind (create_run P s c m trigger test) (begin_run P m s)"

definition accept_message ::
    "pipe_env \<Rightarrow> inbound \<Rightarrow> string \<Rightarrow> bool \<Rightarrow> (live_session \<times> live_run \<times> stored_message) chat_op" where
  "accept_message P m trigger test =
     cbind (find_place P m) (\<lambda>(c, s).
     cbind (open_run P m trigger test c s) (\<lambda>opened.
     cbind (commit_db (pn_others P)) (\<lambda>_. cret opened)))"


section \<open>The run\<close>

definition chosen_model :: "agent_config \<Rightarrow> model_choice option \<Rightarrow> agent_config" where
  "chosen_model cfg choice =
     (case choice of
        None \<Rightarrow> cfg
      | Some o' \<Rightarrow> cfg\<lparr>ac_model := \<lparr>mc_provider_id = mo_provider o', mc_name = mo_name o', mc_max_tokens = mc_max_tokens (ac_model cfg),
          mc_max_context_tokens = None, mc_thinking_enabled = mo_thinking o', mc_thinking_effort = mo_effort o'\<rparr>\<rparr>)"

definition cost_limit :: "agent_config \<Rightarrow> rat option \<Rightarrow> agent_config" where
  "cost_limit cfg c =
     (case c of None \<Rightarrow> cfg | Some x \<Rightarrow> cfg\<lparr>ac_limits := (ac_limits cfg)\<lparr>lim_max_cost_per_run := x\<rparr>\<rparr>)"

definition run_config :: "pipe_env \<Rightarrow> inbound \<Rightarrow> agent_config chat_op" where
  "run_config P m =
     cbind (ask (pn_chat P) (\<lambda>db. get_active_config db (im_agent m))) (\<lambda>config.
     case config of
       None \<Rightarrow> cfail (PipelineFailed ''no active config'')
     | Some cfg \<Rightarrow>
         let cfg = chosen_model cfg (im_override m)
         in cbind (ccheck (im_test m \<or> is_configured (ac_model cfg)) (PipelineFailed ''No model configured'')) (\<lambda>_. cret cfg))"

definition text_field :: "pydict \<Rightarrow> string \<Rightarrow> string option" where
  "text_field d k = (case map_of d k of Some (PStr s) \<Rightarrow> Some s | _ \<Rightarrow> None)"

definition as_event :: "string \<times> pydict \<Rightarrow> run_event" where
  "as_event e = (case e of (kind, d) \<Rightarrow>
     \<lparr>ev_type = kind, ev_run = text_field d ''run_id'', ev_scope = text_field d ''subagent_id'',
      ev_text = (case text_field d ''content'' of Some t \<Rightarrow> t | None \<Rightarrow> []),
      ev_call = (case text_field d ''id'' of Some t \<Rightarrow> t | None \<Rightarrow> []),
      ev_status = (case text_field d ''status'' of Some t \<Rightarrow> t | None \<Rightarrow> []), ev_payload = d\<rparr>)"

text \<open>
  Each event of the loop is forwarded, then stored by the emitter, and committed when it left a row or the status
  of a run that waits for approval.
\<close>

definition emitter_env :: "pipe_env \<Rightarrow> live_run \<Rightarrow> emit_env" where
  "emitter_env P r = \<lparr>ee_run = rn_id r, ee_doc = cn_doc (pn_chat P), ee_uuid = cn_uuid (pn_chat P)\<rparr>"

definition emit_next :: "pipe_env \<Rightarrow> live_run \<Rightarrow> emit_state \<Rightarrow> string \<times> pydict \<Rightarrow> nat \<Rightarrow> emit_state" where
  "emit_next P r e ev n =
     snd (persist_event (emitter_env P r) (as_event ev) (e\<lparr>em_uuids := n, em_status := ''running''\<rparr>))"

definition keep_event :: "live_run \<Rightarrow> emit_state \<Rightarrow> emit_state \<Rightarrow> chat_db \<Rightarrow> chat_db" where
  "keep_event r e e' db =
     (if em_status e' = ''awaiting_approval'' then set_run (rn_id r) (\<lambda>x. x\<lparr>lr_status := ''awaiting_approval''\<rparr>) else id)
       (db\<lparr>cb_messages := cb_messages db @ drop (length (em_rows e)) (em_rows e'), cb_uuids := em_uuids e'\<rparr>)"

definition store_event :: "pipe_env \<Rightarrow> live_run \<Rightarrow> emit_state \<Rightarrow> string \<times> pydict \<Rightarrow> emit_state chat_op" where
  "store_event P r e ev =
     cbind (emit_to P (fst ev) (snd ev)) (\<lambda>_.
     cbind (read_db (\<lambda>db. emit_next P r e ev (cb_uuids db))) (\<lambda>e'.
     if em_rows e' = em_rows e \<and> em_status e' \<noteq> ''awaiting_approval'' then cret e'
     else
       cbind (read_db (has_run (rn_id r))) (\<lambda>there.
       cbind (ccheck there IntegrityError) (\<lambda>_.
       cbind (edit_db (keep_event r e e')) (\<lambda>_.
       cbind (commit_db (pn_others P)) (\<lambda>_. cret e'))))))"

fun store_events :: "pipe_env \<Rightarrow> live_run \<Rightarrow> emit_state \<Rightarrow> (string \<times> pydict) list \<Rightarrow> emit_state chat_op" where
  "store_events P r e [] = cret e"
| "store_events P r e (ev # evs) = cbind (store_event P r e ev) (\<lambda>e'. store_events P r e' evs)"

text \<open>What the loop stored of the session's summary.\<close>

definition keep_summary :: "string \<Rightarrow> conv_db \<Rightarrow> chat_db \<Rightarrow> chat_db" where
  "keep_summary sid cd db =
     (set_session sid (\<lambda>s. case map_of (cd_sessions cd) sid of None \<Rightarrow> s | Some c \<Rightarrow> s\<lparr>lv_conv := c\<rparr>) db)
        \<lparr>cb_snaps := cd_snaps cd\<rparr>"

definition loaded_conversation :: "pipe_env \<Rightarrow> live_session \<Rightarrow> live_run \<Rightarrow> chat_db \<Rightarrow> conversation" where
  "loaded_conversation P s r db =
     load_conversation (cn_doc (pn_chat P)) (conv_view db) (lv_id s) (lv_conv s) (Some (rn_id r))"

definition loop_input :: "conversation \<Rightarrow> stored_message \<Rightarrow> pydict list \<Rightarrow> chat_db \<Rightarrow> run_input" where
  "loop_input cv x atts db =
     \<lparr>in_message = sm_content x, in_attachments = map StoredAttachment atts, in_recent = [], in_conversation = Some cv,
      in_message_id = Some (sm_id x), in_db = conv_view db\<rparr>"

text \<open>
  The loop over the loaded conversation; its events are stored after it here.  What leaves it: an exception, a
  cancellation, or a call that waits for an answer for ever.
\<close>

fun left_by :: "mediation \<Rightarrow> chat_error" where
  "left_by (MedRaised t) = PipelineFailed t"
| "left_by MedCancelled = RunCancelled"
| "left_by MedBlocked = RunBlocked"
| "left_by (MedResult x) = PipelineFailed []"

definition run_the_loop ::
    "pipe_env \<Rightarrow> agent_config \<Rightarrow> live_session \<Rightarrow> live_run \<Rightarrow> stored_message \<Rightarrow> conversation \<Rightarrow> pydict list
       \<Rightarrow> (run_result \<times> nat) chat_op" where
  "run_the_loop P cfg s r x cv atts =
     cbind (read_db (\<lambda>db. run_harness (pn_loop P (rn_id r) cfg) (loop_input cv x atts db))) (\<lambda>over.
     let st = (case over of RunReturned st \<Rightarrow> st | RunEscaped e st \<Rightarrow> st)
     in cbind (edit_db (keep_summary (lv_id s) (lp_db st))) (\<lambda>_.
        cbind (commit_db (pn_others P)) (\<lambda>_.
        cbind (store_events P r (emit_start 0) (lp_events st)) (\<lambda>e.
        case over of
          RunReturned st \<Rightarrow> cret (lp_result st, em_seq e)
        | RunEscaped m st \<Rightarrow> cfail (left_by m)))))"

text \<open>Latency in milliseconds; the clock does not run backwards.\<close>

definition finished_run :: "run_result \<Rightarrow> int \<Rightarrow> int \<Rightarrow> live_run \<Rightarrow> live_run" where
  "finished_run res started t r =
     r\<lparr>lr_status := rr_status res, lr_tokens_in := rr_tokens_in res, lr_tokens_out := rr_tokens_out res, lr_cost := rr_cost res,
       lr_completed := Some t, lr_latency := (t - started) div 1000,
       lr_error := (case given_text (rr_error res) of None \<Rightarrow> lr_error r | Some e \<Rightarrow> Some e),
       lr_context_tokens := rr_context_tokens res, lr_max_context := rr_max_context res, lr_compacted := rr_compacted res\<rparr>"

text \<open>The answer, the closing of the run, the session's activity, the title in the background.\<close>

definition settle_run :: "pipe_env \<Rightarrow> live_session \<Rightarrow> live_run \<Rightarrow> run_result \<Rightarrow> nat \<Rightarrow> live_run chat_op" where
  "settle_run P s r res n =
     cbind (store_message P r ''assistant'' (rr_answer res) (int n)) (\<lambda>_.
     cbind (clock (pn_chat P)) (\<lambda>t.
     cbind (update_run P (rn_id r) (finished_run res (rn_started r) t)) (\<lambda>_.
     cbind (update_session (pn_chat P) (lv_id s) (\<lambda>x. x\<lparr>lv_activity := t\<rparr>)) (\<lambda>_.
     cbind (if rr_answer res \<noteq> [] \<and> given_text (lv_title s) \<noteq> None \<and> \<not> lv_titled s \<and> \<not> lr_test r \<and> t - lv_started s \<ge> 180000000
            then signal (TitleSpawned (lv_id s) (rn_id r)) else cret ()) (\<lambda>_.
     cbind (commit_db (pn_others P)) (\<lambda>_.
     cbind (signal SweeperPoked) (\<lambda>_.
     cret (finished_run res (rn_started r) t r))))))))"

definition refuse_run :: "pipe_env \<Rightarrow> live_run \<Rightarrow> string \<Rightarrow> live_run chat_op" where
  "refuse_run P r e =
     cbind (update_run P (rn_id r) (\<lambda>x. x\<lparr>lr_status := ''failed'', lr_error := Some e\<rparr>)) (\<lambda>_.
     cbind (commit_db (pn_others P)) (\<lambda>_.
     cret (r\<lparr>lr_status := ''failed'', lr_error := Some e\<rparr>)))"

definition keep_attachments :: "pipe_env \<Rightarrow> stored_message \<Rightarrow> pydict list \<Rightarrow> unit chat_op" where
  "keep_attachments P x atts =
     (if atts = [] then cret ()
      else
        cbind (read_db (\<lambda>db. \<exists>y \<in> set (cb_messages db). sm_id y = sm_id x)) (\<lambda>there.
        cbind (ccheck there StaleData) (\<lambda>_.
        tell (pn_chat P) (\<lambda>db. db\<lparr>cb_messages := map (\<lambda>y. if sm_id y = sm_id x
          then y\<lparr>sm_attachments := Some (dl_dumps (cn_doc (pn_chat P)) (attachment_meta atts))\<rparr> else y) (cb_messages db)\<rparr>))))"

definition execute_run ::
    "pipe_env \<Rightarrow> inbound \<Rightarrow> live_session \<Rightarrow> live_run \<Rightarrow> stored_message \<Rightarrow> live_run chat_op" where
  "execute_run P m s r x =
     cbind (run_config P m) (\<lambda>cfg.
     cbind (wait (pn_others P)) (\<lambda>_.
     cbind (cget (\<lambda>w. Inr (pn_core P (wd_waits w)))) (\<lambda>core.
     cbind (wait (pn_others P)) (\<lambda>_.
     case core of
       CoreRaised \<Rightarrow> cfail (PipelineFailed ''core'')
     | CoreRefused e \<Rightarrow> refuse_run P r e
     | CorePinned \<Rightarrow>
         cbind (commit_db (pn_others P)) (\<lambda>_.
         cbind (ask (pn_chat P) (loaded_conversation P s r)) (\<lambda>cv.
         cbind (cget (\<lambda>w. Inr (fst (prepare_attachment_context (pn_uploads P) (im_uploads m) (pn_workspace P (wd_waits w)))))) (\<lambda>atts.
         cbind (keep_attachments P x atts) (\<lambda>_.
         cbind (commit_db (pn_others P)) (\<lambda>_.
         cbind (run_the_loop P (cost_limit cfg (im_max_cost m)) s r x cv atts) (\<lambda>(res, n).
         settle_run P s r res n))))))))))"

text \<open>The failure is marked in a transaction of its own; a cancellation is not an exception of this handler.\<close>

definition is_exception :: "chat_error \<Rightarrow> bool" where
  "is_exception e \<longleftrightarrow> e \<noteq> RunCancelled \<and> e \<noteq> RunBlocked"

definition mark_failed :: "pipe_env \<Rightarrow> live_run \<Rightarrow> chat_error \<Rightarrow> 'a chat_op" where
  "mark_failed P r e =
     cbind rollback_db (\<lambda>_.
     cbind (wait (pn_others P)) (\<lambda>_.
     cbind (clock (pn_chat P)) (\<lambda>t.
     cbind (tell (pn_chat P) (set_run (rn_id r) (\<lambda>x. x\<lparr>lr_status := ''failed'',
              lr_error := Some ''The agent run failed due to an internal error.'', lr_completed := Some t\<rparr>))) (\<lambda>_.
     cbind (commit_db (pn_others P)) (\<lambda>_.
     cbind (signal SweeperPoked) (\<lambda>_. cfail e))))))"

text \<open>Under the lock of the session; the run starts when the lock is held.\<close>

definition handle_inbound :: "pipe_env \<Rightarrow> inbound \<Rightarrow> string \<Rightarrow> bool \<Rightarrow> live_run chat_op" where
  "handle_inbound P m trigger test =
     cbind (accept_message P m trigger test) (\<lambda>(s, r, x).
     cbind (wait (pn_others P)) (\<lambda>_.
     cbind (clock (pn_chat P)) (\<lambda>t.
     cbind (update_run P (rn_id r) (\<lambda>y. y\<lparr>lr_status := ''running'', rn_started := t\<rparr>)) (\<lambda>_.
     let r = r\<lparr>lr_status := ''running'', rn_started := t\<rparr>
     in catch_op (execute_run P m s r x) (\<lambda>e. if is_exception e then mark_failed P r e else cfail e)))))"


section \<open>The entry point\<close>

record run_report =
  ro_run :: string
  ro_session :: string
  ro_status :: string
  ro_cost :: rat
  ro_error :: "string option"

definition internal_error :: string where
  "internal_error = ''The agent run failed due to an internal error.''"

text \<open>The identifier of the message is random: the one of \<open>m\<close>.\<close>

definition chosen_provider :: "model_choice option \<Rightarrow> string option" where
  "chosen_provider choice = (case choice of None \<Rightarrow> None | Some o' \<Rightarrow> given_text (Some (mo_provider o')))"

definition check_model :: "pipe_env \<Rightarrow> inbound \<Rightarrow> unit chat_op" where
  "check_model P m =
     cbind (ask (pn_chat P) (\<lambda>db. get_active_config db (im_agent m))) (\<lambda>cfg.
     case (chosen_provider (im_override m), map_option (\<lambda>c. mc_provider_id (ac_model c)) cfg) of
       (Some p, _) \<Rightarrow> ccheck (pn_provider P p) (PipelineFailed ''Provider not found'')
     | (None, Some p) \<Rightarrow> ccheck (pn_provider P p) (PipelineFailed ''Provider not found'')
     | (None, None) \<Rightarrow> cfail (PipelineFailed ''no active config''))"

text \<open>The events; the counters of the context, copied into the first, are left out.\<close>

definition report_run :: "pipe_env \<Rightarrow> live_run \<Rightarrow> run_report chat_op" where
  "report_run P r =
     cbind (emit_to P ''message_complete'' [(''run_id'', PStr (rn_id r)), (''session_id'', PStr (rn_session r)),
              (''status'', PStr (lr_status r)), (''total_cost'', PFloat (lr_cost r))]) (\<lambda>_.
     cret \<lparr>ro_run = rn_id r, ro_session = rn_session r, ro_status = lr_status r, ro_cost = lr_cost r, ro_error = lr_error r\<rparr>)"

definition report_failure :: "pipe_env \<Rightarrow> run_report chat_op" where
  "report_failure P =
     cbind (emit_to P ''message_complete'' [(''run_id'', PStr []), (''status'', PStr ''failed''), (''error'', PStr internal_error)]) (\<lambda>_.
     cret \<lparr>ro_run = [], ro_session = [], ro_status = ''failed'', ro_cost = 0, ro_error = Some internal_error\<rparr>)"

definition check_agent :: "pipe_env \<Rightarrow> inbound \<Rightarrow> bool \<Rightarrow> unit chat_op" where
  "check_agent P m test =
     cbind (ask (pn_chat P) (\<lambda>db. map_of (cb_agents db) (im_agent m))) (\<lambda>agent.
     cbind (ccheck (agent \<noteq> None) (PipelineFailed ''Agent not found'')) (\<lambda>_.
     cbind (ccheck (fst (the agent)) (PipelineFailed ''Agent is disabled'')) (\<lambda>_.
     if test then cret () else check_model P m)))"

definition run_agent :: "pipe_env \<Rightarrow> inbound \<Rightarrow> string \<Rightarrow> bool \<Rightarrow> run_report chat_op" where
  "run_agent P m trigger test =
     request_op (cbind (check_agent P m test) (\<lambda>_.
     catch_op (cbind (handle_inbound P (m\<lparr>im_test := test\<rparr>) trigger test) (report_run P))
       (\<lambda>e. if is_exception e then report_failure P else cfail e)))"


section \<open>A stopped run\<close>

text \<open>\<open>_update_run_status\<close> of the run manager, in a session of its own.\<close>

definition update_run_status :: "pipe_env \<Rightarrow> string \<Rightarrow> string \<Rightarrow> string option \<Rightarrow> unit chat_op" where
  "update_run_status P rid status error =
     cbind (clock (pn_chat P)) (\<lambda>t.
     cbind (tell (pn_chat P) (set_run rid (\<lambda>r. r\<lparr>lr_status := status,
        lr_error := (case given_text error of None \<Rightarrow> lr_error r | Some e \<Rightarrow> Some e),
        lr_completed := (if status \<in> {''completed'', ''failed'', ''stopped'', ''interrupted''} then Some t else lr_completed r)\<rparr>))) (\<lambda>_.
     commit_db (pn_others P)))"


section \<open>The title\<close>

text \<open>The latest six messages of the parent, oldest first; the last twenty rows are read.\<close>

definition title_line :: "stored_message \<Rightarrow> string" where
  "title_line m = (if sm_role m = ''user'' then ''User: '' else ''Assistant: '') @ take 150 (sm_content m)"

definition title_lines :: "stored_message list \<Rightarrow> string list" where
  "title_lines ms =
     map title_line (List.rev (take 6 (filter (\<lambda>m. sm_role m \<in> {''user'', ''assistant''} \<and> sm_content m \<noteq> []) (List.rev ms))))"

definition title_prompt :: "stored_message list \<Rightarrow> string" where
  "title_prompt ms =
     ''Summarize this conversation in 3-5 words. '' @ ''Output ONLY the title, no quotes, no punctuation at the end.''
       @ [nl, nl] @ py_join [nl] (title_lines ms)"

definition strip_char :: "char \<Rightarrow> string \<Rightarrow> string" where
  "strip_char c s = List.rev (dropWhile (\<lambda>x. x = c) (List.rev (dropWhile (\<lambda>x. x = c) s)))"

definition clean_title :: "string \<Rightarrow> string option" where
  "clean_title t = given_text (Some (take 60 (strip_char (CHR 0x27) (strip_char (CHR 0x22) (py_strip t)))))"

definition session_messages :: "string \<Rightarrow> chat_db \<Rightarrow> stored_message list" where
  "session_messages sid db =
     filter (\<lambda>m. \<exists>r \<in> set (cb_runs db). rn_id r = sm_run m \<and> rn_session r = sid) (cb_messages db)"

definition generate_title :: "pipe_env \<Rightarrow> string \<Rightarrow> unit chat_op" where
  "generate_title P sid =
     request_op (
     cbind (ask (pn_chat P) (\<lambda>db. let ms = session_messages sid db in drop (length ms - 20) ms)) (\<lambda>ms.
     if title_lines ms = [] then cret ()
     else
       cbind (cget (\<lambda>w. Inr (pn_title P (wd_waits w) (title_prompt ms)))) (\<lambda>reply.
       cbind (wait (pn_others P)) (\<lambda>_.
       case (case reply of None \<Rightarrow> None | Some t \<Rightarrow> clean_title t) of
         None \<Rightarrow> cret ()
       | Some t \<Rightarrow>
           cbind (tell (pn_chat P) (set_session sid (\<lambda>s. s\<lparr>lv_title := Some t, lv_titled := True\<rparr>))) (\<lambda>_.
           commit_db (pn_others P))))))"

end
