(* ===== verification/Pipeline_Frames.thy ===== *)
theory Pipeline_Frames
  imports Pipeline Sessions_Safety Run_Events_Safety Harness_Safety
begin

text \<open>
  What every step of a run keeps: the statuses with which the agent loop ends, the locale \<open>run_frame\<close> of a relation
  that the elementary changes of a run keep and therefore every operation up to its settlement, and \<open>place_frame\<close> for
  the steps before the run is there.
\<close>

section \<open>How the loop ends\<close>

text \<open>The loop never reports completion itself, and leaves one of three statuses.\<close>

definition quiet_loop :: "loop_state \<Rightarrow> bool" where
  "quiet_loop st \<longleftrightarrow> ''message_complete'' \<notin> fst ` set (lp_events st)
     \<and> rr_status (lp_result st) \<in> {''completed'', ''failed'', ''limit_exceeded''}"

lemma quiet_same: "lp_events st' = lp_events st \<Longrightarrow> lp_result st' = lp_result st \<Longrightarrow> quiet_loop st' = quiet_loop st"
  by (simp add: quiet_loop_def)

lemma quiet_emit [simp]: "k \<noteq> ''message_complete'' \<Longrightarrow> quiet_loop (emit_event H k p st) = quiet_loop st"
  by (simp add: quiet_loop_def emit_event_def)

lemma quiet_result: "quiet_loop st \<Longrightarrow> rr_status (f (lp_result st)) \<in> {rr_status (lp_result st), ''failed'', ''limit_exceeded''}
    \<Longrightarrow> quiet_loop (on_result f st)"
  by (auto simp: quiet_loop_def on_result_def)

lemma quiet_steps [simp]:
  "quiet_loop (record_model_call H s a b c e st) = quiet_loop st" "quiet_loop (add_row m ids st) = quiet_loop st"
  "quiet_loop (announce H k cl st) = quiet_loop st" "quiet_loop (outcome_event H batch cl r st) = quiet_loop st"
  "quiet_loop (turn_complete H rp st) = quiet_loop st" "quiet_loop (close_batch H i cs st) = quiet_loop st"
  by (simp_all add: record_model_call_def add_row_def announce_def outcome_event_def turn_complete_def close_batch_def Let_def)
    (simp_all add: quiet_loop_def)

lemma quiet_folds [simp]:
  "quiet_loop (fold (announce H k) cs st) = quiet_loop st" "quiet_loop (stream_deltas H ds st) = quiet_loop st"
proof -
  show "quiet_loop (fold (announce H k) cs st) = quiet_loop st" by (induction cs arbitrary: st) simp_all
  have "quiet_loop (fold (\<lambda>(is_token, t). emit_event H (if is_token then ''token'' else ''thinking'') (content_payload t)) ds st) = quiet_loop st"
    by (induction ds arbitrary: st) (simp_all split: prod.split)
  then show "quiet_loop (stream_deltas H ds st) = quiet_loop st" by (simp only: stream_deltas_def)
qed

lemma quiet_process: "quiet_loop st \<Longrightarrow> quiet_loop (fold (process_result H b) crs st)"
proof (induction crs arbitrary: st)
  case (Cons cr crs)
  obtain c r where cr: "cr = (c, r)" by fastforce
  have "quiet_loop (process_result H b cr st)"
    using Cons.prems by (simp add: cr process_result_def Let_def outcome_event_def quiet_loop_def on_result_def emit_event_def add_row_def)
  with Cons.IH show ?case by simp
qed simp

lemma quiet_batch: "draw_batch H calls st = (b, st') \<Longrightarrow> quiet_loop st' = quiet_loop st"
  by (auto simp: draw_batch_def quiet_loop_def split: if_splits)

lemma quiet_fail: "quiet_loop st \<Longrightarrow> quiet_loop (fail e st)" "quiet_loop st \<Longrightarrow> quiet_loop (give_up H err st)"
  by (auto simp: fail_def give_up_def intro!: quiet_result)

lemma persist_compaction_events: "persist_compaction H cr st = Inr st' \<Longrightarrow> lp_events st' = lp_events st"
  unfolding persist_compaction_def Let_def by (auto split: if_splits prod.splits)

lemma apply_compaction_events: "apply_compaction H force budget st = (err, st') \<Longrightarrow> lp_events st' = lp_events st"
  unfolding apply_compaction_def Let_def on_result_def
  by (auto split: if_splits sum.splits dest: persist_compaction_events)

lemma quiet_compaction: "apply_compaction H force budget st = (err, st') \<Longrightarrow> quiet_loop st \<Longrightarrow> quiet_loop st'"
  using apply_compaction_events apply_compaction_status by (fastforce simp: quiet_loop_def)

lemma quiet_gate: "budget_gate H budget st = (err, st') \<Longrightarrow> quiet_loop st \<Longrightarrow> quiet_loop st'"
  unfolding budget_gate_def Let_def
  by (auto split: if_splits option.splits prod.splits intro!: quiet_result dest: quiet_compaction)

lemma quiet_calls: "quiet_loop st \<Longrightarrow> quiet_loop (end_state (run_calls H n rp st))"
  unfolding run_calls_def open_batch_def Let_def
  by (auto split: prod.split sum.split dest!: quiet_batch intro!: quiet_result quiet_process) (auto simp: quiet_loop_def)

lemma quiet_answer: "quiet_loop st \<Longrightarrow> quiet_loop (final_answer H rp st)"
  unfolding final_answer_def Let_def by (auto intro!: quiet_result)

lemma quiet_replied: "quiet_loop st \<Longrightarrow> quiet_loop (end_state (model_replied H n rp st))"
  unfolding model_replied_def Let_def by (auto intro!: quiet_calls quiet_answer quiet_result simp: account_def)

lemma quiet_failed: "quiet_loop st \<Longrightarrow> quiet_loop (end_state (model_failed H budget e st))"
  unfolding model_failed_def
  by (auto split: prod.split option.split intro!: quiet_fail quiet_result
      dest!: quiet_compaction[of _ _ _ "st\<lparr>lp_retried := True\<rparr>"]) (auto simp: quiet_loop_def)

lemma quiet_dispatch: "quiet_loop st \<Longrightarrow> quiet_loop (end_state (dispatch H n budget st))"
proof -
  assume q: "quiet_loop st"
  have "quiet_loop (st\<lparr>lp_requests := x\<rparr>)" for x using q by (simp add: quiet_loop_def)
  with q show ?thesis unfolding dispatch_def Let_def
    by (auto split: reply.split intro!: quiet_replied quiet_failed) (auto simp: quiet_loop_def emit_event_def)
qed

lemma quiet_turn: "quiet_loop st \<Longrightarrow> quiet_loop (end_state (take_turn H budget st))"
proof -
  assume q: "quiet_loop st"
  obtain err d where g: "budget_gate H budget (begin_turn H (length (lp_requests st)) st) = (err, d)" by fastforce
  have "quiet_loop (begin_turn H (length (lp_requests st)) st)"
    unfolding begin_turn_def by (rule quiet_result) (use q in \<open>simp_all add: quiet_loop_def\<close>)
  from quiet_gate[OF g this] q g show ?thesis
    by (auto simp: take_turn_def Let_def split: option.split intro!: quiet_result quiet_fail quiet_dispatch)
qed

interpretation quieting: turn_contract H budget quiet_loop "\<lambda>e. quiet_loop (end_state e)" for H budget
proof
  fix st st' :: loop_state
  assume q: "quiet_loop st"
  then show "quiet_loop (end_state (take_turn H budget st))" by (rule quiet_turn)
  then show "quiet_loop st'" if "take_turn H budget st = NextTurn st'" using that by simp
qed simp

lemma quiet_run: "quiet_loop (final_state (run_harness H inp))"
proof -
  have start: "quiet_loop (start_state H inp b)" for b by (simp add: start_state_def Let_def quiet_loop_def new_result_def)
  have e: "quiet_loop st \<Longrightarrow> quiet_loop (end_run H st)" for st
    unfolding end_run_def Let_def by (auto intro!: quiet_result)
  have "quiet_loop (end_state t) \<Longrightarrow> quiet_loop (final_state (leave H t))" for t by (cases t) (auto intro: e)
  then show ?thesis
    using quieting.run_end[OF start] start
    by (auto simp: run_harness_def split: sum.split intro!: quiet_fail)
qed

section \<open>What an event adds\<close>

definition emits :: "emit_env \<Rightarrow> emit_state \<Rightarrow> emit_state \<Rightarrow> bool" where
  "emits E s s' \<longleftrightarrow> (\<exists>xs. em_rows s' = em_rows s @ xs \<and> sm_run ` set xs \<subseteq> {ee_run E}) \<and> em_uuids s \<le> em_uuids s'"

lemma emits_trans: "emits E s t \<Longrightarrow> emits E t u \<Longrightarrow> emits E s u"
  unfolding emits_def by (elim conjE exE, intro conjI exI[where x = "_ @ _"]) auto

lemma emits_same: "em_rows t = em_rows s \<Longrightarrow> em_uuids t = em_uuids s \<Longrightarrow> emits E s t"
  by (simp add: emits_def)

lemma emits_event: "emits E s (snd (persist_event E ev s))"
proof -
  have b: "emits E s (buffer_event ev s)" for s by (rule emits_same) (simp_all add: buffer_event_def)
  have f: "emits E s (flush_thinking E ev s)" for s
    by (auto simp: flush_thinking_def Let_def emits_def add_message_def)
  have g: "emits E s (flush_tokens E ev s)" for s
    by (auto simp: flush_tokens_def Let_def emits_def add_message_def)
  have r: "emits E s (snd (record_call E ev s))" for s
    by (auto simp: record_call_def Let_def emits_def add_message_def)
  have t: "emits E s (settle_event ev s)" for s by (rule emits_same) (simp_all add: settle_event_def Let_def)
  let ?s = "flush_tokens E ev (flush_thinking E ev (buffer_event ev s))"
  have "emits E s ?s" by (rule emits_trans[OF emits_trans[OF b f] g])
  moreover have "emits E s (settle_event ev (snd (record_call E ev ?s)))" by (rule emits_trans[OF calculation emits_trans[OF r t]])
  ultimately show ?thesis by (simp add: persist_event_def Let_def split: prod.split) (metis snd_conv)
qed

section \<open>Relations that the pipeline keeps\<close>

text \<open>
  The contract of the elementary changes of a run: its row keeps identifier, owner and message, messages are its
  own, sessions keep their owner.
\<close>

definition same_run :: "live_run \<Rightarrow> live_run \<Rightarrow> bool" where
  "same_run r r' \<longleftrightarrow> rn_id r' = rn_id r \<and> rn_session r' = rn_session r \<and> lr_contact r' = lr_contact r
     \<and> lr_agent r' = lr_agent r \<and> lr_message r' = lr_message r"

definition same_state :: "live_session \<Rightarrow> live_session \<Rightarrow> bool" where
  "same_state s s' \<longleftrightarrow> same_owner s s' \<and> lv_closed s' = lv_closed s \<and> lv_status s' = lv_status s
     \<and> lv_channel s' = lv_channel s \<and> lv_user s' = lv_user s"

definition no_report :: "chat_signal \<Rightarrow> bool" where
  "no_report x \<longleftrightarrow> (\<forall>d. x \<noteq> Emitted ''message_complete'' d)"

definition same_tables :: "chat_db \<Rightarrow> chat_db \<Rightarrow> bool" where
  "same_tables d d' \<longleftrightarrow> cb_agents d' = cb_agents d \<and> cb_contacts d' = cb_contacts d \<and> cb_sessions d' = cb_sessions d
     \<and> cb_runs d' = cb_runs d \<and> cb_uuids d \<le> cb_uuids d'"

lemma commit_step [simp]: "cbind (commit_db others) k w = k () (yield_world others (w\<lparr>wd_saved := wd_db w\<rparr>))"
  by (simp add: cbind_def statements)

locale run_frame = session_frame R "pn_others P"
  for R :: "chat_world \<Rightarrow> chat_world \<Rightarrow> bool" and P :: pipe_env +
  fixes i :: string
  assumes run_step: "(\<And>r. same_run r (f r)) \<Longrightarrow> R w (w\<lparr>wd_db := set_run i f (wd_db w)\<rparr>)"
    and session_step: "(\<And>s. same_state s (g s)) \<Longrightarrow> R w (w\<lparr>wd_db := set_session sid g (wd_db w)\<rparr>)"
    and rows_added: "same_tables (wd_db w) d \<Longrightarrow> cb_messages d = cb_messages (wd_db w) @ xs \<Longrightarrow> sm_run ` set xs \<subseteq> {i} \<Longrightarrow>
        (xs \<noteq> [] \<longrightarrow> has_run i (wd_db w)) \<Longrightarrow> R w (w\<lparr>wd_db := d\<rparr>)"
    and rows_step: "(\<And>m. sm_run (h m) = sm_run m) \<Longrightarrow>
        R w (w\<lparr>wd_db := (wd_db w)\<lparr>cb_messages := map h (cb_messages (wd_db w))\<rparr>\<rparr>)"
    and signal_step: "no_report z \<Longrightarrow> R w (w\<lparr>cw_signals := cw_signals w @ [z]\<rparr>)"
begin

lemma sending [intro]: "no_report z \<Longrightarrow> op_keeps R (signal z)"
  unfolding signal_def by (rule change) (rule signal_step)

lemma emitting [intro]: "k \<noteq> ''message_complete'' \<Longrightarrow> op_keeps R (emit_to P k d)"
  unfolding emit_to_def by (intro cond bind waiting sending) (simp_all add: no_report_def)

lemma asking [intro!]: "op_keeps R (ask (pn_chat P) q)"
  unfolding ask_def by (intro bind waiting read basic)

lemma clocking [intro!]: "op_keeps R (clock (pn_chat P))"
  by (simp add: clock_def)

lemma telling: "(\<And>w. R w (w\<lparr>wd_db := f (wd_db w)\<rparr>)) \<Longrightarrow> op_keeps R (tell (pn_chat P) f)"
  unfolding tell_def edit_db_def by (intro bind waiting change)

lemma guarded:
  assumes "\<And>w. p (wd_db w) \<Longrightarrow> R w (w\<lparr>wd_db := f (wd_db w)\<rparr>)" "\<And>x. op_keeps R (k x)"
  shows "op_keeps R (cbind (read_db p) (\<lambda>b. cbind (ccheck b e) (\<lambda>_. cbind (tell (pn_chat P) f) k)))"
  unfolding op_keeps_def
proof
  fix w :: chat_world
  let ?v = "yield_world (pn_others P) (w\<lparr>wd_db := f (wd_db w)\<rparr>)"
  have "R w (snd (k () ?v))" if "p (wd_db w)"
    using assms(1)[OF that] step_wait assms(2)[of "()"] trans unfolding op_keeps_def by blast
  then show "R w (snd (cbind (read_db p) (\<lambda>b. cbind (ccheck b e) (\<lambda>_. cbind (tell (pn_chat P) f) k)) w))"
    by (simp add: tell_def refl)
qed

lemma aside_added: "same_tables (wd_db w) d \<Longrightarrow> cb_messages d = cb_messages (wd_db w) \<Longrightarrow> R w (w\<lparr>wd_db := d\<rparr>)"
  using rows_added[where xs = "[]"] by simp

lemma drawing [intro!]: "op_keeps R (new_uuid (pn_chat P))"
  unfolding new_uuid_def edit_db_def
  by (intro bind read change aside_added basic) (simp_all add: same_tables_def)

lemma updating_run: "(\<And>r. same_run r (f r)) \<Longrightarrow> op_keeps R (update_run P i f)"
  unfolding update_run_def by (intro bind read check telling run_step)

lemma updating_session: "(\<And>s. same_state s (g s)) \<Longrightarrow> op_keeps R (update_session (pn_chat P) sid g)"
  unfolding update_session_def by (intro bind read check telling session_step)

lemma naming: "op_keeps R (name_session P s t)"
  unfolding name_session_def by (intro cond bind basic updating_session) (simp add: same_state_def same_owner_def)

lemma storing: "rn_id r = i \<Longrightarrow> op_keeps R (store_message P r role content n)"
  unfolding store_message_def Let_def
  by (intro bind drawing guarded telling basic rows_added[where xs = "[run_message j i role content n]" for j] aside_added)
     (auto simp: run_message_def same_tables_def)

text \<open>An event.\<close>

lemma keeping_event:
  assumes "rn_id r = i" "has_run i (wd_db w)" "e' = emit_next P r e ev (cb_uuids (wd_db w))"
  shows "R w (w\<lparr>wd_db := keep_event r e e' (wd_db w)\<rparr>)"
proof -
  from emits_event[of "emitter_env P r" "e\<lparr>em_uuids := cb_uuids (wd_db w), em_status := ''running''\<rparr>" "as_event ev"]
  obtain xs where e: "em_rows e' = em_rows e @ xs" "sm_run ` set xs \<subseteq> {i}" "cb_uuids (wd_db w) \<le> em_uuids e'"
    using assms(1,3) by (auto simp: emits_def emit_next_def emitter_env_def)
  let ?d = "(wd_db w)\<lparr>cb_messages := cb_messages (wd_db w) @ xs, cb_uuids := em_uuids e'\<rparr>"
  have d: "R w (w\<lparr>wd_db := ?d\<rparr>)" using assms(2) e by (intro rows_added[where xs = xs]) (auto simp: same_tables_def)
  have "R (w\<lparr>wd_db := ?d\<rparr>) (w\<lparr>wd_db := set_run i (\<lambda>x. x\<lparr>lr_status := ''awaiting_approval''\<rparr>) ?d\<rparr>)"
    using run_step[of "\<lambda>x. x\<lparr>lr_status := ''awaiting_approval''\<rparr>" "w\<lparr>wd_db := ?d\<rparr>"] by (simp add: same_run_def)
  from trans[OF d this] have "R w (w\<lparr>wd_db := set_run i (\<lambda>x. x\<lparr>lr_status := ''awaiting_approval''\<rparr>) ?d\<rparr>)" by simp
  moreover have "keep_event r e e' (wd_db w) =
      (if em_status e' = ''awaiting_approval'' then set_run i (\<lambda>x. x\<lparr>lr_status := ''awaiting_approval''\<rparr>) else id) ?d"
    by (simp add: keep_event_def assms(1) e(1))
  ultimately show ?thesis using d by (simp split: if_split)
qed

lemma storing_event:
  assumes "rn_id r = i" "fst ev \<noteq> ''message_complete''"
  shows "op_keeps R (store_event P r e ev)"
proof -
  have "R w (snd ((\<lambda>e'. if em_rows e' = em_rows e \<and> em_status e' \<noteq> ''awaiting_approval'' then cret e'
     else cbind (read_db (has_run (rn_id r))) (\<lambda>there. cbind (ccheck there IntegrityError) (\<lambda>_.
       cbind (edit_db (keep_event r e e')) (\<lambda>_. cbind (commit_db (pn_others P)) (\<lambda>_. cret e'))))) (emit_next P r e ev (cb_uuids (wd_db w))) w))"
    for w
  proof -
    let ?d = "keep_event r e (emit_next P r e ev (cb_uuids (wd_db w))) (wd_db w)"
    have "R w (yield_world (pn_others P) (w\<lparr>wd_db := ?d, wd_saved := ?d\<rparr>))" if "has_run (rn_id r) (wd_db w)"
      using keeping_event[OF assms(1) _ HOL.refl, of w e ev] that assms(1) step_commit[of "w\<lparr>wd_db := ?d\<rparr>"] trans by auto
    then show ?thesis using refl by simp
  qed
  then have "op_keeps R (cbind (read_db (\<lambda>db. emit_next P r e ev (cb_uuids db))) (\<lambda>e'.
     if em_rows e' = em_rows e \<and> em_status e' \<noteq> ''awaiting_approval'' then cret e'
     else cbind (read_db (has_run (rn_id r))) (\<lambda>there. cbind (ccheck there IntegrityError) (\<lambda>_.
       cbind (edit_db (keep_event r e e')) (\<lambda>_. cbind (commit_db (pn_others P)) (\<lambda>_. cret e'))))))"
    by (simp add: op_keeps_def)
  from bind[OF emitting[OF assms(2)] this] show ?thesis unfolding store_event_def .
qed

lemma storing_events:
  assumes "rn_id r = i" "''message_complete'' \<notin> fst ` set evs"
  shows "op_keeps R (store_events P r e evs)"
  using assms(2)
proof (induction evs arbitrary: e)
  case (Cons ev evs)
  then have "fst ev \<noteq> ''message_complete''" "''message_complete'' \<notin> fst ` set evs" by auto
  with Cons.IH show ?case by (auto intro!: bind storing_event assms(1))
qed simp

text \<open>The loop and what follows.\<close>

lemma keeping_summary: "R w (w\<lparr>wd_db := keep_summary sid cd (wd_db w)\<rparr>)"
proof -
  let ?g = "\<lambda>s. case map_of (cd_sessions cd) sid of None \<Rightarrow> s | Some c \<Rightarrow> s\<lparr>lv_conv := c\<rparr>"
  let ?v = "w\<lparr>wd_db := set_session sid ?g (wd_db w)\<rparr>"
  have "R w ?v" by (rule session_step) (simp add: same_state_def same_owner_def split: option.split)
  moreover have "R ?v (?v\<lparr>wd_db := (wd_db ?v)\<lparr>cb_snaps := cd_snaps cd\<rparr>\<rparr>)"
    by (rule aside_added) (simp_all add: same_tables_def)
  ultimately show ?thesis using trans by (simp add: keep_summary_def)
qed

lemma looping:
  assumes "rn_id r = i"
  shows "op_keeps R (run_the_loop P cfg s r x cv atts)"
proof -
  have "op_keeps R (cbind (edit_db (keep_summary (lv_id s) (lp_db (final_state over)))) (\<lambda>_.
        cbind (commit_db (pn_others P)) (\<lambda>_.
        cbind (store_events P r (emit_start 0) (lp_events (final_state over))) (\<lambda>e.
        case over of RunReturned st \<Rightarrow> cret (lp_result st, em_seq e) | RunEscaped m st \<Rightarrow> cfail (left_by m)))))"
    if "quiet_loop (final_state over)" for over
    using that assms
    by (intro bind committing storing_events) (auto simp: edit_db_def quiet_loop_def intro: keeping_summary split: run_end.split)
  moreover have "(case over of RunReturned st \<Rightarrow> st | RunEscaped e st \<Rightarrow> st) = final_state over" for over by (cases over) simp_all
  ultimately show ?thesis using quiet_run unfolding run_the_loop_def Let_def
    by (simp add: op_keeps_def)
qed

lemma settling:
  assumes "rn_id r = i"
  shows "op_keeps R (settle_run P s r res n)"
  unfolding settle_run_def assms
  by (intro bind storing clocking updating_run updating_session committing cond sending basic assms)
     (simp_all add: same_run_def finished_run_def same_state_def same_owner_def no_report_def split: option.split)

lemma refusing: "rn_id r = i \<Longrightarrow> op_keeps R (refuse_run P r e)"
  unfolding refuse_run_def by (rule bind[OF _ bind[OF committing basic(1)]]) (simp add: updating_run same_run_def)

lemma configuring: "op_keeps R (run_config P m)"
  unfolding run_config_def Let_def by (intro bind asking option check basic)

lemma attaching: "op_keeps R (keep_attachments P x atts)"
  unfolding keep_attachments_def by (intro cond bind read check telling rows_step basic) simp

lemma executing:
  assumes "rn_id r = i"
  shows "op_keeps R (execute_run P m s r x)"
proof -
  have core: "op_keeps R k \<Longrightarrow>
      op_keeps R (case core of CorePinned \<Rightarrow> k | CoreRefused e \<Rightarrow> refuse_run P r e | CoreRaised \<Rightarrow> cfail (PipelineFailed ''core''))"
    for core k using refusing[OF assms] by (cases core) simp_all
  show ?thesis unfolding execute_run_def
    by (intro bind core configuring waiting basic committing asking telling attaching looping[OF assms] pair settling[OF assms])
qed

lemma beginning: "rn_id r = i \<Longrightarrow> op_keeps R (begin_run P m s r)"
  unfolding begin_run_def Let_def by (intro bind emitting cond storing naming basic) simp_all

end

text \<open>Before the run is there: whatever leaves the runs alone.\<close>

locale place_frame = run_frame R P i
  for R :: "chat_world \<Rightarrow> chat_world \<Rightarrow> bool" and P :: pipe_env and i :: string +
  assumes other_step: "cb_runs d = cb_runs (wd_db w) \<Longrightarrow> R w (w\<lparr>wd_db := d\<rparr>)"
    and signals_step: "list_all no_report zs \<Longrightarrow> R w (w\<lparr>cw_signals := cw_signals w @ zs\<rparr>)"
begin

lemma telling_other: "(\<And>d. cb_runs (f d) = cb_runs d) \<Longrightarrow> op_keeps R (tell (pn_chat P) f)"
  by (intro telling other_step)

lemma updating_other: "op_keeps R (update_session (pn_chat P) sid g)"
  unfolding update_session_def by (intro bind read check telling_other) simp

lemma finding_contact: "op_keeps R (resolve_contact (pn_chat P) ch b u)"
  unfolding resolve_contact_def add_contact_def Let_def
  by (intro bind asking option basic drawing read check telling_other) simp

lemma making_session: "op_keeps R (open_session (pn_chat P) c a t ch u)"
  unfolding open_session_def Let_def by (intro bind drawing clocking telling_other basic) simp

lemma resuming: "op_keeps R (resume (pn_chat P) b s)"
  unfolding resume_def by (intro cond bind clocking updating_other basic)

lemma auto_resuming: "op_keeps R (auto_resume (pn_chat P) c a new ch u)"
  unfolding auto_resume_def by (intro cond bind asking option making_session basic)

lemma channel_resuming: "op_keeps R (channel_resume (pn_chat P) c a new ch u)"
proof -
  have "op_keeps R (case p of (Some x, Some y) \<Rightarrow> f x y | _ \<Rightarrow> m)" if "\<And>x y. op_keeps R (f x y)" "op_keeps R m"
    for p :: "string option \<times> string option" and f and m :: "live_session chat_op"
    using that by (auto split: prod.split option.split)
  then show ?thesis unfolding channel_resume_def by (simp add: bind asking option resuming auto_resuming)
qed

lemma finding_session: "op_keeps R (resolve_session (pn_chat P) c a e new ch u)"
  unfolding resolve_session_def by (intro option bind asking channel_resuming resuming)

lemma sweeping_idle: "op_keeps R (close_idle_sessions (pn_chat P) a c s)"
proof -
  have idle: "op_keeps R (find_idle_sessions (pn_chat P) m)" for m
    unfolding find_idle_sessions_def by (intro bind asking option clocking basic)
  have "list_all no_report (map (\<lambda>s. CloseSpawned (lv_id s) (lv_agent s) (lv_contact s)) ss)" for ss
    by (simp add: no_report_def list_all_iff)
  then show ?thesis unfolding close_idle_sessions_def Let_def
    by (intro bind asking idle change signals_step)
qed

lemma placing: "op_keeps R (find_place P m)"
  unfolding find_place_def
  by (intro bind asking basic finding_contact finding_session committing sending cond sweeping_idle) (simp_all add: no_report_def)

end

section \<open>Single steps\<close>

lemma tell_step [simp]: "cbind (tell E f) k w = k () (yield_world (cn_others E) (w\<lparr>wd_db := f (wd_db w)\<rparr>))"
  by (simp add: tell_def)

lemma guarded_steps [simp]:
  "cbind (update_run P i f) k v = (if has_run i (wd_db v) then k () (yield_world (pn_others P) (v\<lparr>wd_db := set_run i f (wd_db v)\<rparr>))
     else (Inl StaleData, v))"
  "cbind (update_session E sid g) h w = (if find_session (wd_db w) sid \<noteq> None
     then h () (yield_world (cn_others E) (w\<lparr>wd_db := set_session sid g (wd_db w)\<rparr>)) else (Inl StaleData, w))"
  by (simp_all add: update_run_def update_session_def)

lemma signal_step [simp]: "cbind (signal x) k w = k () (w\<lparr>cw_signals := cw_signals w @ [x]\<rparr>)"
  by (simp add: signal_def cbind_def cput_def)

lemma get_step [simp]: "cbind (cget (\<lambda>w. Inr (f w))) k w = k (f w) w"
  by (simp add: cbind_def cget_def)

lemma rollback_step [simp]: "cbind rollback_db k w = k () (w\<lparr>wd_db := wd_saved w\<rparr>)"
  by (simp add: rollback_db_def cbind_def cput_def)

lemma signals_aside [simp]:
  "wd_db (w\<lparr>cw_signals := x\<rparr>) = wd_db w" "wd_saved (w\<lparr>cw_signals := x\<rparr>) = wd_saved w"
  by simp_all

end
