(* ===== verification/Pipeline_Safety.thy ===== *)
theory Pipeline_Safety
  imports Pipeline_Frames
begin

text \<open>
  The theorems of the pipeline: the run of a message ends on every way out, belongs to the contact and session of
  its message, and is reported once.
\<close>

section \<open>A run ends\<close>

text \<open>The runs of a message that a restart would find unfinished.\<close>

definition unfinished :: "string \<Rightarrow> chat_db \<Rightarrow> string set" where
  "unfinished mid db = rn_id ` {r \<in> set (cb_runs db). lr_message r = Some mid \<and> orphaned r}"

definition leaves_message :: "pipe_env \<Rightarrow> string \<Rightarrow> bool" where
  "leaves_message P mid \<longleftrightarrow> (\<forall>n db. unfinished mid (pn_others P n db) = unfinished mid db)"

definition stays_within :: "string \<Rightarrow> string set \<Rightarrow> pipe_env \<Rightarrow> chat_world \<Rightarrow> chat_world \<Rightarrow> bool" where
  "stays_within mid X P w w' \<longleftrightarrow> (leaves_message P mid \<longrightarrow>
     unfinished mid (wd_db w') \<union> unfinished mid (wd_saved w') \<subseteq> unfinished mid (wd_db w) \<union> unfinished mid (wd_saved w) \<union> X)"

lemma unfinished_run: "(\<And>r. same_run r (f r)) \<Longrightarrow> unfinished mid (set_run i f db) \<subseteq> unfinished mid db \<union> {i}"
  by (auto simp: unfinished_def set_run_def same_run_def split: if_splits)

lemma unfinished_over:
  "(\<And>r. same_run r (f r)) \<Longrightarrow> (\<And>r. \<not> orphaned (f r)) \<Longrightarrow> unfinished mid (set_run i f db) \<subseteq> unfinished mid db - {i}"
  by (auto simp: unfinished_def set_run_def same_run_def split: if_splits)

lemma unfinished_same: "cb_runs d = cb_runs e \<Longrightarrow> unfinished mid d = unfinished mid e"
  by (simp add: unfinished_def)

interpretation within: place_frame "stays_within mid (insert i X) P" P i for mid i X P
proof
  fix w :: chat_world
  let ?R = "stays_within mid (insert i X) P"
  show "?R w w" by (auto simp: stays_within_def)
  show "?R u w" if "?R u v" "?R v w" for u v using that by (auto simp: stays_within_def)
  show "?R w (yield_world (pn_others P) w)" "?R w (yield_world (pn_others P) (w\<lparr>wd_saved := wd_db w\<rparr>))"
    by (auto simp: stays_within_def yield_world_def Let_def leaves_message_def)
  show "?R w (w\<lparr>wd_db := set_run i f (wd_db w)\<rparr>)" if "\<And>r. same_run r (f r)" for f
    using unfinished_run[of f mid i "wd_db w", OF that] by (auto simp: stays_within_def)
  have other: "?R w (w\<lparr>wd_db := d\<rparr>)" if "cb_runs d = cb_runs (wd_db w)" for d
    using unfinished_same[OF that, of mid] by (auto simp: stays_within_def)
  then show "cb_runs d = cb_runs (wd_db w) \<Longrightarrow> ?R w (w\<lparr>wd_db := d\<rparr>)" for d .
  show "?R w (w\<lparr>wd_db := set_session sid g (wd_db w)\<rparr>)" for sid g by (rule other) simp
  show "?R w (w\<lparr>wd_db := d\<rparr>)" if "same_tables (wd_db w) d" for d using that by (intro other) (simp add: same_tables_def)
  show "?R w (w\<lparr>wd_db := (wd_db w)\<lparr>cb_messages := map h (cb_messages (wd_db w))\<rparr>\<rparr>)" for h by (rule other) simp
  show "?R w (w\<lparr>cw_signals := cw_signals w @ [z]\<rparr>)" for z by (auto simp: stays_within_def)
  show "?R w (w\<lparr>cw_signals := cw_signals w @ zs\<rparr>)" for zs by (auto simp: stays_within_def)
qed

lemma loop_status:
  assumes "run_the_loop P cfg s r x cv atts w = (Inr (res, n), w')"
  shows "rr_status res \<in> {''completed'', ''failed'', ''limit_exceeded''}"
  using assms quiet_run[of "pn_loop P (rn_id r) cfg" "loop_input cv x atts (wd_db w)"]
  by (auto simp: run_the_loop_def Let_def bind_Inr quiet_loop_def statements split: run_end.splits)


lemma execute_cases:
  assumes "execute_run P m s r x w = (Inr y, w')"
  shows "(\<exists>v e. refuse_run P r e v = (Inr y, w'))
    \<or> (\<exists>v res n. settle_run P s r res n v = (Inr y, w') \<and> rr_status res \<in> {''completed'', ''failed'', ''limit_exceeded''})"
  using assms unfolding execute_run_def
  by (simp only: bind_Inr, elim exE conjE)
    (auto simp: bind_Inr cfail_def split: core_outcome.splits prod.splits dest!: loop_status; blast)

lemma both_sides: "wd_saved v = wd_db v \<Longrightarrow> wd_saved (yield_world others v) = wd_db (yield_world others v)"
  by (simp add: yield_world_def Let_def)

lemma unfinished_yield [simp]:
  "leaves_message P mid \<Longrightarrow> unfinished mid (wd_db (yield_world (pn_others P) w)) = unfinished mid (wd_db w)"
  by (simp add: yield_world_def Let_def leaves_message_def)

lemma unfinished_fields [simp]:
  "unfinished mid (set_session sid g db) = unfinished mid db" "unfinished mid (db\<lparr>cb_messages := x\<rparr>) = unfinished mid db"
  "unfinished mid (db\<lparr>cb_index := z\<rparr>) = unfinished mid db"
  by (simp_all add: unfinished_def)

text \<open>What an execution leaves, when it comes to its end and when it fails.\<close>

lemma settled_over:
  assumes "settle_run P s r res n w = (Inr y, w')" "rr_status res \<in> {''completed'', ''failed'', ''limit_exceeded''}" "leaves_message P mid"
  shows "rn_id r \<notin> unfinished mid (wd_db w') \<and> wd_saved w' = wd_db w'"
proof -
  have "rn_id r \<notin> unfinished mid (set_run (rn_id r) (finished_run res (rn_started r) t) db)" for t db
    using unfinished_over[of "finished_run res (rn_started r) t" mid "rn_id r" db] assms(2)
    by (auto simp: finished_run_def same_run_def orphaned_def split: option.split)
  then show ?thesis using assms(1,3)
    by (auto simp: settle_run_def bind_Inr[of "store_message _ _ _ _ _"] both_sides split: if_splits)
qed

lemma refused_over:
  assumes "refuse_run P r e w = (Inr y, w')" "leaves_message P mid"
  shows "rn_id r \<notin> unfinished mid (wd_db w') \<and> wd_saved w' = wd_db w'"
proof -
  have "rn_id r \<notin> unfinished mid (set_run (rn_id r) (\<lambda>x. x\<lparr>lr_status := ''failed'', lr_error := Some e\<rparr>) db)" for db
    using unfinished_over[of "\<lambda>x. x\<lparr>lr_status := ''failed'', lr_error := Some e\<rparr>" mid "rn_id r" db]
    by (auto simp: same_run_def orphaned_def)
  then show ?thesis using assms
    by (auto simp: refuse_run_def both_sides split: if_splits)
qed

lemma failure_marked:
  assumes "mark_failed P r e w = (y, w')" "leaves_message P mid" "unfinished mid (wd_saved w) \<subseteq> {rn_id r}"
  shows "unfinished mid (wd_saved w') = {} \<and> y = Inl e"
proof -
  let ?f = "\<lambda>t x. x\<lparr>lr_status := ''failed'', lr_error := Some ''The agent run failed due to an internal error.'', lr_completed := Some t\<rparr>"
  have u: "unfinished mid (set_run (rn_id r) (?f t) db) \<subseteq> unfinished mid db - {rn_id r}" for t db
    by (rule unfinished_over) (simp_all add: same_run_def orphaned_def)
  let ?v = "yield_world (pn_others P) (w\<lparr>wd_db := wd_saved w\<rparr>)"
  have "unfinished mid (wd_db ?v) \<subseteq> {rn_id r}" using assms(2,3) by simp
  with u[of "cn_clock (pn_chat P) (wd_waits ?v)" "wd_db ?v"] assms(1,2) show ?thesis
    by (auto simp: mark_failed_def both_sides cfail_def)
qed


text \<open>What was committed while the run was opened.\<close>

definition saved_stays :: "string \<Rightarrow> pipe_env \<Rightarrow> chat_world \<Rightarrow> chat_world \<Rightarrow> bool" where
  "saved_stays mid P w w' \<longleftrightarrow> (leaves_message P mid \<longrightarrow> unfinished mid (wd_saved w') = unfinished mid (wd_saved w))"

interpretation uncommitted: kept_relation "saved_stays mid P" for mid P
  by unfold_locales (auto simp: saved_stays_def)

lemma saved_steps:
  "op_keeps (saved_stays mid P) (wait (pn_others P))" "op_keeps (saved_stays mid P) (edit_db f)"
  "op_keeps (saved_stays mid P) (signal z)" "op_keeps (saved_stays mid P) (read_db q)"
  by (auto simp: op_keeps_def statements saved_stays_def yield_world_def Let_def leaves_message_def signal_def cput_def)

lemma opening_uncommitted: "op_keeps (saved_stays mid P) (open_run P m trigger test c s)"
  unfolding open_run_def begin_run_def create_run_def emit_to_def store_message_def name_session_def new_uuid_def tell_def update_session_def
    clock_def Let_def
  by (intro uncommitted.bind uncommitted.cond uncommitted.check uncommitted.basic saved_steps)

lemma created_run:
  assumes "create_run P s c m trigger test w = (Inr r, w')"
  shows "stays_within (im_id m) {rn_id r} P w w' \<and> lr_message r = Some (im_id m)"
proof -
  let ?i = "cn_uuid (pn_chat P) (cb_uuids (wd_db w))"
  let ?r = "new_run ?i s c m trigger test (cn_clock (pn_chat P) (wd_waits w))"
  let ?d = "(wd_db w)\<lparr>cb_uuids := Suc (cb_uuids (wd_db w)), cb_runs := cb_runs (wd_db w) @ [?r]\<rparr>"
  from assms have r: "r = ?r" "w' = yield_world (pn_others P) (w\<lparr>wd_db := ?d\<rparr>)"
    by (auto simp: create_run_def new_uuid_def Let_def split: if_splits)
  have "unfinished (im_id m) ?d \<subseteq> unfinished (im_id m) (wd_db w) \<union> {?i}"
    by (auto simp: unfinished_def new_run_def)
  then have "stays_within (im_id m) {?i} P w (w\<lparr>wd_db := ?d\<rparr>)" by (auto simp: stays_within_def)
  from within.trans[OF this within.step_wait] show ?thesis by (simp add: r new_run_def)
qed

lemma opened_run:
  assumes "open_run P m trigger test c s w = (Inr (s', r, x), w')"
  shows "stays_within (im_id m) {rn_id r} P w w'"
proof -
  from assms obtain r0 v where v: "create_run P s c m trigger test w = (Inr r0, v)" and
    rest: "begin_run P m s r0 v = (Inr (s', r, x), w')"
    by (auto simp: open_run_def bind_Inr)
  from rest have r: "r0 = r" by (auto simp: begin_run_def Let_def bind_Inr)
  from within.trans[OF created_run[OF v, THEN conjunct1, unfolded r] keeps_run[OF within.beginning[OF HOL.refl] rest, unfolded r]] show ?thesis .
qed

definition unfinished_anywhere :: "string \<Rightarrow> chat_world \<Rightarrow> string set" where
  "unfinished_anywhere mid w = unfinished mid (wd_db w) \<union> unfinished mid (wd_saved w)"

lemma within_nothing:
  assumes "stays_within mid {i} P w w'" "leaves_message P mid"
  shows "unfinished_anywhere mid w' \<subseteq> unfinished_anywhere mid w \<union> {i}"
  using assms by (simp add: stays_within_def unfinished_anywhere_def)

lemma placed:
  assumes "find_place P m w = (y, w')" "leaves_message P mid" "unfinished_anywhere mid w = {}"
  shows "unfinished_anywhere mid w' = {}"
proof -
  have "unfinished_anywhere mid w' \<subseteq> {i}" for i
    using within_nothing[OF keeps_run[OF within.placing[of mid i "{}"] assms(1)] assms(2)] assms(3) by simp
  from this[of "''a''"] this[of "''b''"] show ?thesis by auto
qed

lemma accepted:
  assumes "accept_message P m trigger test w = (y, w')" "leaves_message P (im_id m)" "unfinished_anywhere (im_id m) w = {}"
  shows "case y of
      Inl e \<Rightarrow> unfinished (im_id m) (wd_saved w') = {}
    | Inr (s, r, x) \<Rightarrow> unfinished (im_id m) (wd_db w') \<subseteq> {rn_id r} \<and> wd_saved w' = wd_db w'"
proof (cases "find_place P m w")
  case (Pair p v)
  then have v: "unfinished_anywhere (im_id m) v = {}" using placed assms(2,3) by blast
  show ?thesis
  proof (cases p)
    case (Inl e)
    with Pair assms(1) v show ?thesis by (auto simp: accept_message_def cbind_def unfinished_anywhere_def)
  next
    case (Inr cs)
    obtain c s where cs: "cs = (c, s)" by fastforce
    obtain q u where q: "open_run P m trigger test c s v = (q, u)" by fastforce
    show ?thesis
    proof (cases q)
      case (Inl e)
      from keeps_run[OF opening_uncommitted q, of "im_id m"] assms(2) v
      have "unfinished (im_id m) (wd_saved u) = {}" by (simp add: saved_stays_def unfinished_anywhere_def)
      with assms(1) Pair Inr cs q Inl show ?thesis by (auto simp: accept_message_def cbind_def)
    next
      case (Inr o')
      obtain s' r x where o': "o' = (s', r, x)" by (cases o')
      let ?w = "yield_world (pn_others P) (u\<lparr>wd_saved := wd_db u\<rparr>)"
      have "unfinished_anywhere (im_id m) u \<subseteq> {rn_id r}"
        using within_nothing[OF opened_run assms(2)] q Inr o' v by fastforce
      then have "unfinished (im_id m) (wd_db ?w) \<subseteq> {rn_id r}" using assms(2) by (simp add: unfinished_anywhere_def)
      moreover have "y = Inr (s', r, x)" "w' = ?w"
        using assms(1) Pair \<open>p = Inr cs\<close> cs q Inr o' by (auto simp: accept_message_def cbind_def statements cret_def)
      ultimately show ?thesis by (simp add: both_sides)
    qed
  qed
qed

lemma started:
  assumes "handle_inbound P m trigger test w = (y, w')" "leaves_message P (im_id m)" "unfinished_anywhere (im_id m) w = {}"
  obtains (not_accepted) e where "y = Inl e" "unfinished (im_id m) (wd_saved w') = {}"
    | (executed) s r x v where "unfinished_anywhere (im_id m) v \<subseteq> {rn_id r}"
        "catch_op (execute_run P m s r x) (\<lambda>e. if is_exception e then mark_failed P r e else cfail e) v = (y, w')"
proof -
  obtain a u where a: "accept_message P m trigger test w = (a, u)" by fastforce
  note acc = accepted[OF a assms(2,3)]
  show ?thesis
  proof (cases a)
    case (Inl e)
    with assms(1) a acc show ?thesis by (auto simp: handle_inbound_def cbind_def intro: not_accepted)
  next
    case (Inr o')
    obtain s r x where o': "o' = (s, r, x)" by (cases o')
    let ?u = "yield_world (pn_others P) u"
    let ?f = "\<lambda>y. y\<lparr>lr_status := ''running'', rn_started := cn_clock (pn_chat P) (wd_waits ?u)\<rparr>"
    let ?r = "r\<lparr>lr_status := ''running'', rn_started := cn_clock (pn_chat P) (wd_waits ?u)\<rparr>"
    let ?v = "yield_world (pn_others P) (?u\<lparr>wd_db := set_run (rn_id r) ?f (wd_db ?u)\<rparr>)"
    have u: "unfinished (im_id m) (wd_db ?u) \<subseteq> {rn_id r}" "wd_saved ?u = wd_db ?u"
      using acc Inr o' assms(2) by (simp_all add: both_sides)
    from assms(1) a Inr o' have y: "(if has_run (rn_id r) (wd_db ?u)
        then catch_op (execute_run P m s ?r x) (\<lambda>e. if is_exception e then mark_failed P ?r e else cfail e) ?v
        else (Inl StaleData, ?u)) = (y, w')"
      by (simp add: handle_inbound_def cbind_def[of "accept_message P m trigger test"] Let_def)
    show ?thesis
    proof (cases "has_run (rn_id r) (wd_db ?u)")
      case False
      then have "rn_id r \<notin> unfinished (im_id m) (wd_db ?u)" by (auto simp: unfinished_def has_run_def)
      with u y False show ?thesis by (intro not_accepted[of StaleData]) auto
    next
      case True
      have "op_keeps (stays_within (im_id m) {rn_id r} P) (cbind (update_run P (rn_id r) ?f) (\<lambda>_. cret ()))"
        by (intro within.bind within.updating_run within.basic) (simp add: same_run_def)
      from keeps_run[OF this, of ?u "Inr ()" ?v] True have "stays_within (im_id m) {rn_id r} P ?u ?v" by simp
      from within_nothing[OF this assms(2)] u have "unfinished_anywhere (im_id m) ?v \<subseteq> {rn_id ?r}"
        unfolding unfinished_anywhere_def by auto
      with y True show ?thesis by (intro executed) simp_all
    qed
  qed
qed


lemma stop_marks:
  assumes "leaves_message P mid" "unfinished mid (wd_saved w) \<subseteq> {i}"
    "update_run_status P i ''stopped'' None (w\<lparr>wd_db := wd_saved w\<rparr>) = (y, v)"
  shows "unfinished mid (wd_saved v) = {}"
proof -
  have "unfinished mid (set_run i (\<lambda>x. x\<lparr>lr_status := ''stopped'', lr_error := lr_error x, lr_completed := Some t\<rparr>) db)
      \<subseteq> unfinished mid db - {i}" for t db
    by (rule unfinished_over) (simp_all add: same_run_def orphaned_def)
  with assms show ?thesis by (fastforce simp: update_run_status_def statements given_text_def both_sides)
qed

text \<open>The run of a cancelled task is the only one left, and \<open>stop_run\<close> marks it.\<close>

lemma cancelled_run_is_marked:
  assumes "handle_inbound P m trigger test w = (Inl e, w')" "leaves_message P (im_id m)" "unfinished_anywhere (im_id m) w = {}"
    "\<not> is_exception e"
  shows "\<exists>i. \<forall>y v. update_run_status P i ''stopped'' None (w'\<lparr>wd_db := wd_saved w'\<rparr>) = (y, v) \<longrightarrow> unfinished (im_id m) (wd_saved v) = {}"
  using assms(1,2,3)
proof (cases rule: started)
  case (executed s r x v)
  obtain z u where z: "execute_run P m s r x v = (z, u)" by fastforce
  have u: "unfinished_anywhere (im_id m) u \<subseteq> {rn_id r}"
    using within_nothing[OF keeps_run[OF within.executing[OF HOL.refl] z] assms(2)] executed(1) by blast
  then have "w' = u"
    using executed(2) z assms(4) failure_marked[of P r _ u "Inl e" w' "im_id m"] assms(2)
    by (auto simp: catch_op_def cfail_def unfinished_anywhere_def split: sum.splits if_splits)
  with u have "unfinished (im_id m) (wd_saved w') \<subseteq> {rn_id r}" by (simp add: unfinished_anywhere_def)
  from stop_marks[OF assms(2) this] show ?thesis by blast
next
  case (not_accepted e')
  then have "unfinished (im_id m) (wd_saved w') \<subseteq> {[]}" by simp
  from stop_marks[OF assms(2) this] show ?thesis by blast
qed

section \<open>Whose run\<close>

lemma chat_ok_same:
  assumes "chat_ok E db" "cb_contacts d = cb_contacts db" "cb_sessions d = cb_sessions db" "rn_id ` set (cb_runs d) = rn_id ` set (cb_runs db)"
    "rn_session ` set (cb_runs d) = rn_session ` set (cb_runs db)" "sm_run ` set (cb_messages d) \<subseteq> sm_run ` set (cb_messages db) \<union> X"
    "X \<subseteq> rn_id ` set (cb_runs db)" "cb_uuids db \<le> cb_uuids d"
  shows "chat_ok E d \<and> chat_grows E db d"
proof -
  have "session_ok d s = session_ok db s" for s using assms(2) by (simp add: session_ok_def)
  moreover have dr: "drawn E db j \<Longrightarrow> drawn E d j" for j using assms(8) by (auto simp: drawn_def intro: order.strict_trans2)
  moreover have "contacts_ok d = contacts_ok db" using assms(2) by (simp add: contacts_ok_def)
  moreover have "refs_ok d"
  proof -
    have "refs_ok db" using assms(1) by (simp add: chat_ok_def)
    then have a: "sm_run ` set (cb_messages db) \<subseteq> rn_id ` set (cb_runs db)" by (simp add: refs_ok_def)
    have "sm_run ` set (cb_messages d) \<subseteq> rn_id ` set (cb_runs d)"
      unfolding assms(4) by (rule subset_trans[OF assms(6) Un_least[OF a assms(7)]])
    with \<open>refs_ok db\<close> assms(3,5) show ?thesis by (simp add: refs_ok_def)
  qed
  moreover have "drawn E d (rn_id r)" if "r \<in> set (cb_runs d)" for r
  proof -
    have "rn_id r \<in> rn_id ` set (cb_runs db)" using that assms(4) by blast
    with assms(1) show ?thesis by (auto simp: chat_ok_def dr)
  qed
  moreover have "chat_grows E db d" using assms by (intro chat_grows_same) simp_all
  ultimately show ?thesis using assms(1-3) by (auto simp: chat_ok_def)
qed

lemma run_images:
  assumes "\<And>r. same_run r (f r)"
  shows "rn_id ` set (cb_runs (set_run i f db)) = rn_id ` set (cb_runs db)"
    "rn_session ` set (cb_runs (set_run i f db)) = rn_session ` set (cb_runs db)"
proof -
  have e: "rn_id (if rn_id r = i then f r else r) = rn_id r" "rn_session (if rn_id r = i then f r else r) = rn_session r" for r
    using assms by (simp_all add: same_run_def)
  have r: "set (cb_runs (set_run i f db)) = (\<lambda>r. if rn_id r = i then f r else r) ` set (cb_runs db)" by (simp add: set_run_def del: if_image_distrib)
  show "rn_id ` set (cb_runs (set_run i f db)) = rn_id ` set (cb_runs db)"
    "rn_session ` set (cb_runs (set_run i f db)) = rn_session ` set (cb_runs db)"
    unfolding r image_image e by simp_all
qed

lemma set_run_fields [simp]:
  "cb_contacts (set_run i f db) = cb_contacts db" "cb_sessions (set_run i f db) = cb_sessions db"
  "cb_messages (set_run i f db) = cb_messages db" "cb_uuids (set_run i f db) = cb_uuids db"
  by (simp_all add: set_run_def)

interpretation owning: run_frame "session_keeps (stays_chat (pn_chat P)) (grows_chat (pn_chat P))" P i for P i
proof
  fix w :: chat_world
  let ?R = "session_keeps (stays_chat (pn_chat P)) (grows_chat (pn_chat P))"
  have other: "?R w (w\<lparr>wd_db := d\<rparr>)" if "chat_ok (pn_chat P) (wd_db w) \<Longrightarrow> chat_ok (pn_chat P) d \<and> chat_grows (pn_chat P) (wd_db w) d" for d
    using that by (intro chat_db.change_keeps(1)[where f = "\<lambda>_. d"]) (auto simp: stays_chat_def grows_chat_def)
  show "?R w (w\<lparr>wd_db := set_run i f (wd_db w)\<rparr>)" if "\<And>r. same_run r (f r)" for f
    by (rule other, rule chat_ok_same[where X = "{}"]) (simp_all add: run_images[OF that])
  show "?R w (w\<lparr>wd_db := set_session sid g (wd_db w)\<rparr>)" if "\<And>s. same_state s (g s)" for g sid
    by (rule other, rule ok_set_session) (use that in \<open>auto simp: same_state_def session_ok_def same_owner_def\<close>)
  show "?R w (w\<lparr>wd_db := d\<rparr>)" if "same_tables (wd_db w) d" "cb_messages d = cb_messages (wd_db w) @ xs" "sm_run ` set xs \<subseteq> {i}"
      "xs \<noteq> [] \<longrightarrow> has_run i (wd_db w)" for d xs
    by (rule other, rule chat_ok_same[where X = "sm_run ` set xs"])
      (use that in \<open>auto simp: same_tables_def has_run_def\<close>)
  show "?R w (w\<lparr>wd_db := (wd_db w)\<lparr>cb_messages := map h (cb_messages (wd_db w))\<rparr>\<rparr>)" if "\<And>m. sm_run (h m) = sm_run m" for h
    by (rule other, rule chat_ok_same[where X = "{}"]) (use that in \<open>auto simp: image_image\<close>)
  show "?R w (w\<lparr>cw_signals := cw_signals w @ [z]\<rparr>)" for z by (rule chat_db.aside_keeps) simp_all
qed


lemma created_for:
  assumes "create_run P s c m trigger test w = (Inr r, w')"
  shows "session_keeps (stays_chat (pn_chat P)) (grows_chat (pn_chat P)) w w' \<and> rn_session r = lv_id s \<and> lr_contact r = ct_id c
    \<and> lr_agent r = im_agent m"
proof -
  let ?E = "pn_chat P"
  let ?r = "new_run (cn_uuid ?E (cb_uuids (wd_db w))) s c m trigger test (cn_clock ?E (wd_waits w))"
  let ?d = "(wd_db w)\<lparr>cb_uuids := Suc (cb_uuids (wd_db w))\<rparr>"
  let ?e = "?d\<lparr>cb_runs := cb_runs (wd_db w) @ [?r]\<rparr>"
  from assms have k: "known_run ?r ?d" and r: "r = ?r" "w' = yield_world (pn_others P) (w\<lparr>wd_db := ?e\<rparr>)"
    by (auto simp: create_run_def new_uuid_def Let_def split: if_splits)
  have "chat_ok ?E ?e \<and> chat_grows ?E (wd_db w) ?e" if ok: "chat_ok ?E (wd_db w)"
  proof -
    have "drawn ?E (wd_db w) j \<Longrightarrow> drawn ?E ?e j" "drawn ?E ?e (rn_id ?r)" for j
      by (auto simp: drawn_def new_run_def less_Suc_eq)
    moreover have "refs_ok ?e" using ok k by (auto simp: chat_ok_def refs_ok_def known_run_def)
    ultimately show ?thesis using ok
      by (auto simp: chat_ok_def contacts_ok_def session_ok_def intro: chat_grows_same)
  qed
  then have "session_keeps (stays_chat ?E) (grows_chat ?E) w (w\<lparr>wd_db := ?e\<rparr>)"
    by (intro chat_db.change_keeps(1)[where f = "\<lambda>_. ?e"]) (auto simp: stays_chat_def grows_chat_def)
  from chat_db.committed.trans[OF this chat_db.committed.step_wait] show ?thesis by (simp add: r new_run_def)
qed

definition run_for :: "contact_row \<Rightarrow> string \<Rightarrow> live_session \<Rightarrow> live_run \<Rightarrow> bool" where
  "run_for c agent s r \<longleftrightarrow> rn_session r = lv_id s \<and> lr_contact r = ct_id c \<and> lr_agent r = agent"

definition mine :: "pipe_env \<Rightarrow> inbound \<Rightarrow> contact_row \<Rightarrow> live_session \<Rightarrow> chat_world \<Rightarrow> bool" where
  "mine P m c s w \<longleftrightarrow> claimed (pn_chat P) c (im_agent m) s w \<and> has_contact (im_channel m) (im_agent m) (im_user m) c"

lemma mine_keeps:
  assumes "op_keeps (session_keeps (stays_chat (pn_chat P)) (grows_chat (pn_chat P))) x"
  shows "op_gives (mine P m c s) x (\<lambda>_. mine P m c s)"
  using claimed_keeps[OF assms, of "claimed (pn_chat P) c (im_agent m) s"] by (auto simp: op_gives_def mine_def)

lemma mine_step:
  assumes "session_keeps (stays_chat (pn_chat P)) (grows_chat (pn_chat P)) w w'" "mine P m c s w"
  shows "mine P m c s w'"
proof -
  let ?o = "\<lambda>z. (Inr (), if z = w then w' else z) :: (chat_error + unit) \<times> chat_world"
  have "op_keeps (session_keeps (stays_chat (pn_chat P)) (grows_chat (pn_chat P))) ?o"
    using assms(1) by (simp add: op_keeps_def chat_db.committed.refl)
  from mine_keeps[OF this, of m c s] have "\<forall>z x z'. mine P m c s z \<and> ?o z = (Inr x, z') \<longrightarrow> mine P m c s z'"
    by (simp only: op_gives_def)
  from this[rule_format, of w "()" w'] assms(2) show ?thesis by simp
qed

lemma contact_resolved:
  "op_gives (chat_inv (pn_chat P)) (resolve_contact (pn_chat P) ch b u) (\<lambda>c w. contact_inv (pn_chat P) c w \<and> has_contact ch b u c)"
  using resolve_contact_inv by (fastforce simp: op_gives_def)

lemma idle_sweep_keeps:
  "op_keeps (session_keeps (stays_chat (pn_chat P)) (grows_chat (pn_chat P))) (close_idle_sessions (pn_chat P) a c s)"
  unfolding close_idle_sessions_def find_idle_sessions_def Let_def
  by (intro chat_db.committed.bind chat.asking chat_db.committed.option chat.clocking chat_db.committed.basic chat.aside) simp_all

lemma placed_mine: "op_gives (chat_inv (pn_chat P)) (find_place P m) (\<lambda>(c, s). mine P m c s)"
proof -
  let ?E = "pn_chat P" and ?ch = "if is_channel m then Some (im_channel m) else None"
  and ?u = "if is_channel m then Some (im_user m) else None"
  let ?A = "\<lambda>c w. contact_inv ?E c w \<and> has_contact (im_channel m) (im_agent m) (im_user m) c"
  have s: "op_gives (?A c) (resolve_session ?E (ct_id c) (im_agent m) (im_session m) (im_new m) ?ch ?u) (mine P m c)" for c
  proof (cases "has_contact (im_channel m) (im_agent m) (im_user m) c")
    case True
    then have "place_ok c (im_agent m) ?ch ?u" by (auto simp: place_ok_def has_contact_def)
    from resolved_session[OF this, of ?E "im_session m" "im_new m"] True show ?thesis
      by (auto simp: op_gives_def mine_def ready_session_def)
  qed (simp add: op_gives_def)
  have i: "op_gives (chat_inv ?E) (ask ?E q) (\<lambda>_. chat_inv ?E)" "op_gives (chat_inv ?E) (ccheck b e) (\<lambda>_. chat_inv ?E)" for q b e
    using inv_yield by (auto simp: op_gives_def ask_run ccheck_def cret_def cfail_def split: if_splits)
  have k: "op_gives (mine P m c s) (commit_db (pn_others P)) (\<lambda>_. mine P m c s)" "op_gives (mine P m c s) (signal SweeperPoked) (\<lambda>_. mine P m c s)"
    "op_gives (mine P m c s) (if is_channel m then cret () else close_idle_sessions ?E (im_agent m) (ct_id c) (lv_id s)) (\<lambda>_. mine P m c s)"
    for c s by (intro mine_keeps chat_db.committed.committing chat.signalling(1) chat_db.committed.cond chat_db.committed.basic idle_sweep_keeps)+
  show ?thesis unfolding find_place_def
    by (rule gives_bind[OF i(1)] gives_bind[OF i(2)] gives_bind[OF contact_resolved] gives_bind[OF s] gives_bind[OF k(1)]
        gives_bind[OF k(2)] gives_bind[OF k(3)] gives_ret)+ simp
qed


lemma accepted_mine:
  assumes "chat_inv (pn_chat P) w" "accept_message P m trigger test w = (Inr (s', r, x), w')"
  shows "\<exists>c s. mine P m c s w' \<and> run_for c (im_agent m) s r"
proof -
  let ?R = "session_keeps (stays_chat (pn_chat P)) (grows_chat (pn_chat P))"
  from assms(2) obtain c s v u where v: "find_place P m w = (Inr (c, s), v)"
    and u: "open_run P m trigger test c s v = (Inr (s', r, x), u)" and w': "commit_db (pn_others P) u = (Inr (), w')"
    by (auto simp: accept_message_def bind_Inr statements split: prod.splits)
  have m: "mine P m c s v" using placed_mine[of P m] assms(1) v by (auto simp: op_gives_def)
  from u obtain r0 v1 where v1: "create_run P s c m trigger test v = (Inr r0, v1)" and rest: "begin_run P m s r0 v1 = (Inr (s', r, x), u)"
    by (auto simp: open_run_def bind_Inr)
  from rest have r: "r0 = r" by (auto simp: begin_run_def Let_def bind_Inr)
  note c = created_for[OF v1]
  have "?R v w'"
    by (rule chat_db.committed.trans[OF chat_db.committed.trans[OF c[THEN conjunct1] keeps_run[OF owning.beginning[OF HOL.refl] rest]] keeps_run[OF chat_db.committed.committing w']])
  from mine_step[OF this m] have "mine P m c s w'" .
  with c r show ?thesis by (auto simp: run_for_def)
qed

lemma executed_for:
  assumes "execute_run P m s r x w = (Inr y, w')"
  shows "same_run r y \<and> wd_saved w' = wd_db w'"
proof -
  have st: "settle_run P s r res n v = (Inr y, w') \<Longrightarrow> ?thesis" for v res n
    by (auto simp: settle_run_def bind_Inr[of "store_message _ _ _ _ _"] both_sides same_run_def finished_run_def split: if_splits option.splits)
  have rf: "refuse_run P r e v = (Inr y, w') \<Longrightarrow> ?thesis" for v e
    by (auto simp: refuse_run_def both_sides same_run_def split: if_splits)
  from execute_cases[OF assms] st rf show ?thesis by blast
qed

text \<open>C16. A message reaches its own conversation: whatever other sessions do - provided that they keep the tables'
  invariant, remove no contact and give no session another owner - a run that the pipeline returns belongs to the
  contact of the message's channel, agent and user, and to a session of that contact and agent: no explicit session
  identifier, channel or resumption ever attaches a run to somebody else's session.\<close>
theorem message_reaches_own_session:
  assumes "chat_inv (pn_chat P) w" "handle_inbound P m trigger test w = (Inr r, w')"
  shows "\<exists>c \<in> set (cb_contacts (wd_saved w')). has_contact (im_channel m) (im_agent m) (im_user m) c
    \<and> lr_contact r = ct_id c \<and> lr_agent r = im_agent m
    \<and> (\<forall>s \<in> set (cb_sessions (wd_saved w')). lv_id s = rn_session r \<longrightarrow> lv_contact s = ct_id c \<and> lv_agent s = im_agent m)"
proof -
  let ?R = "session_keeps (stays_chat (pn_chat P)) (grows_chat (pn_chat P))"
  from assms(2) obtain s0 r0 x v where a: "accept_message P m trigger test w = (Inr (s0, r0, x), v)"
    by (auto simp: handle_inbound_def bind_Inr[of "accept_message P m trigger test"])
  from accepted_mine[OF assms(1) a] obtain c s where m: "mine P m c s v" and f: "run_for c (im_agent m) s r0" by blast
  let ?u = "yield_world (pn_others P) v"
  let ?f = "\<lambda>y. y\<lparr>lr_status := ''running'', rn_started := cn_clock (pn_chat P) (wd_waits ?u)\<rparr>"
  let ?v = "yield_world (pn_others P) (?u\<lparr>wd_db := set_run (rn_id r0) ?f (wd_db ?u)\<rparr>)"
  from assms(2) a have e: "has_run (rn_id r0) (wd_db ?u)"
    "catch_op (execute_run P m s0 (?f r0) x) (\<lambda>e. if is_exception e then mark_failed P (?f r0) e else cfail e) ?v = (Inr r, w')"
    by (auto simp: handle_inbound_def cbind_def[of "accept_message P m trigger test"] Let_def split: if_splits)
  have "mark_failed P (?f r0) e z \<noteq> (Inr r, w')" for e z by (auto simp: mark_failed_def cfail_def)
  with e(2) have x: "execute_run P m s0 (?f r0) x ?v = (Inr r, w')"
    by (auto simp: catch_op_def cfail_def split: prod.splits sum.splits if_splits)
  have k: "op_keeps ?R (cbind (wait (pn_others P)) (\<lambda>_. cbind (update_run P (rn_id r0) ?f) (\<lambda>_. cret ())))"
    by (intro chat_db.committed.bind chat_db.committed.waiting owning.updating_run chat_db.committed.basic) (simp add: same_run_def)
  have "?R v ?v" using keeps_run[OF k, of v "Inr ()" ?v] e(1) by simp
  from mine_step[OF this m] have "mine P m c s ?v" .
  from mine_step[OF keeps_run[OF owning.executing[OF HOL.refl] x] this] have "mine P m c s w'" .
  with executed_for[OF x] f show ?thesis
    by (auto simp: mine_def claimed_def contact_inv_def own_session_def run_for_def same_run_def)
qed


section \<open>What is reported\<close>

definition sends_no_report :: "chat_world \<Rightarrow> chat_world \<Rightarrow> bool" where
  "sends_no_report w w' \<longleftrightarrow> (\<exists>xs. cw_signals w' = cw_signals w @ xs \<and> list_all no_report xs)"

lemma yield_signals [simp]: "cw_signals (yield_world others w) = cw_signals w"
  by (simp add: yield_world_def Let_def)

lemma unreported_same: "cw_signals w' = cw_signals w \<Longrightarrow> sends_no_report w w'"
  by (simp add: sends_no_report_def)

interpretation unreported: place_frame sends_no_report P i for P i
proof
  fix w :: chat_world
  show "sends_no_report w w" by (simp add: sends_no_report_def)
  show "sends_no_report u v" if "sends_no_report u w" "sends_no_report w v" for u v
    using that unfolding sends_no_report_def by force
  show "sends_no_report w (w\<lparr>cw_signals := cw_signals w @ [z]\<rparr>)" if "no_report z" for z using that by (simp add: sends_no_report_def)
  show "sends_no_report w (w\<lparr>cw_signals := cw_signals w @ zs\<rparr>)" if "list_all no_report zs" for zs using that by (simp add: sends_no_report_def)
qed (rule unreported_same; simp)+

lemma unreported_rollback: "op_keeps sends_no_report rollback_db"
  unfolding rollback_db_def by (intro unreported.change unreported_same) simp

lemma unreported_handling: "op_keeps sends_no_report (handle_inbound P m trigger test)"
proof -
  have "op_keeps sends_no_report (create_run P s c m trigger test)" for s c
    unfolding create_run_def Let_def
    by (intro unreported.bind unreported.drawing unreported.clocking unreported.read unreported.check unreported.telling
        unreported_same unreported.basic) simp
  then have open_: "op_keeps sends_no_report (open_run P m trigger test c s)" for c s
    unfolding open_run_def using unreported.beginning[OF HOL.refl] by (intro unreported.bind)
  have failed: "op_keeps sends_no_report (mark_failed P r e)" for r e
    unfolding mark_failed_def
    by (intro unreported.bind unreported_rollback unreported.waiting unreported.clocking unreported.telling unreported_same
        unreported.committing unreported.sending unreported.basic) (simp_all add: no_report_def)
  have run: "op_keeps sends_no_report (catch_op (execute_run P m s r x) (\<lambda>e. if is_exception e then mark_failed P r e else cfail e))" for s r x
    by (intro unreported.catch unreported.executing[OF HOL.refl] unreported.cond failed unreported.basic)
  have start: "op_keeps sends_no_report (update_run P (rn_id r) (\<lambda>y. y\<lparr>lr_status := ''running'', rn_started := t\<rparr>))" for r t
    by (rule unreported.updating_run) (simp add: same_run_def)
  show ?thesis unfolding handle_inbound_def accept_message_def Let_def
    by (intro unreported.bind unreported.placing unreported.pair open_ unreported.committing unreported.basic unreported.waiting
        unreported.clocking start run)
qed

definition reported :: "run_report \<Rightarrow> pydict \<Rightarrow> bool" where
  "reported out d \<longleftrightarrow> map_of d ''run_id'' = Some (PStr (ro_run out)) \<and> map_of d ''status'' = Some (PStr (ro_status out))"

lemma emitted_once:
  assumes "pn_emits P" "emit_to P k d w = (y, w')"
  shows "cw_signals w' = cw_signals w @ [Emitted k d]"
  using assms by (auto simp: emit_to_def statements cbind_def signal_def cput_def)

lemma unreported_check: "op_keeps sends_no_report (check_agent P m test)"
proof -
  have "op_keeps sends_no_report (check_model P m)"
    unfolding check_model_def by (rule unreported.bind[OF unreported.asking]) (auto split: option.split)
  then show ?thesis unfolding check_agent_def
    by (intro unreported.bind unreported.asking unreported.check unreported.cond unreported.basic)
qed

lemma reports:
  assumes "pn_emits P" "m w = (y, w')" "m = report_run P r \<or> m = report_failure P"
  shows "\<exists>out d. y = Inr out \<and> cw_signals w' = cw_signals w @ [Emitted ''message_complete'' d] \<and> reported out d"
  using assms by (auto simp: report_run_def report_failure_def emit_to_def statements cbind_def signal_def cput_def reported_def)



section \<open>An example\<close>

text \<open>A message whose schedule allows no cost: the run starts and the loop ends it before the first request.\<close>

definition ex_pipe_agent :: agent_config where
  "ex_pipe_agent = default_agent ''a'' ''A'' default_model_config"

definition ex_pipe :: pipe_env where
  "ex_pipe = \<lparr>pn_chat = ex_chat_env (\<lambda>n db. db), pn_emits = True,
     pn_guard = (\<lambda>t. \<lparr>gr_content = t, gr_warnings = [], gr_redactions = []\<rparr>), pn_core = (\<lambda>n. CorePinned),
     pn_uploads = \<lparr>un_b64 = (\<lambda>s. None), un_save = (\<lambda>p s. None)\<rparr>, pn_workspace = (\<lambda>n. \<lparr>ws_files = [], ws_other = []\<rparr>),
     pn_loop = (\<lambda>i cfg. ex_direct\<lparr>hn_agent := cfg\<rparr>), pn_provider = (\<lambda>p. True), pn_title = (\<lambda>n p. None)\<rparr>"

definition ex_inbound :: inbound where
  "ex_inbound = \<lparr>im_channel = ''dashboard_chat'', im_agent = ''a'', im_user = ''u'', im_text = ''hi'', im_id = ''x'', im_test = True,
     im_override = None, im_session = None, im_new = False, im_uploads = [], im_max_cost = Some 0\<rparr>"

definition ex_pipe_db :: chat_db where
  "ex_pipe_db = \<lparr>cb_agents = [(''a'', True, Some ex_pipe_agent)], cb_contacts = [], cb_sessions = [], cb_runs = [], cb_messages = [],
     cb_index = [], cb_summaries = [], cb_snaps = [], cb_uuids = 0\<rparr>"

definition ex_pipe_world :: chat_world where
  "ex_pipe_world = \<lparr>wd_db = ex_pipe_db, wd_saved = ex_pipe_db, wd_waits = 0, cw_signals = [], cw_closing = {}\<rparr>"

abbreviation "ex_no_cost \<equiv> ex_direct\<lparr>hn_agent := cost_limit ex_pipe_agent (Some 0)\<rparr>"

lemma ex_no_cost_budget: "\<exists>b. input_budget_of ex_no_cost = Inr b"
  by (simp add: input_budget_of_def ex_direct_def ex_harness_def resolve_input_budget_def cost_limit_def ex_pipe_agent_def default_agent_def
      default_model_config_def default_limits_def bad_budget_def model_budget_def dget_def)

lemma ex_no_cost_run:
  "\<exists>st. run_harness ex_no_cost inp = RunReturned st \<and> lp_events st = [] \<and> lp_db st = in_db inp
     \<and> rr_status (lp_result st) = ''limit_exceeded''"
proof -
  obtain b where b: "input_budget_of ex_no_cost = Inr b" using ex_no_cost_budget by blast
  let ?s = "start_state ex_no_cost inp (ib_tokens b)"
  have "rr_turns (lp_result ?s) < max_turns ex_no_cost"
    by (simp add: start_state_def Let_def new_result_def max_turns_def cost_limit_def ex_pipe_agent_def default_agent_def default_limits_def)
  moreover have "max_cost ex_no_cost = 0"
    by (simp add: max_cost_def ex_direct_def ex_harness_def cost_limit_def)
  ultimately have "run_loop ex_no_cost (ib_tokens b) ?s = LeaveLoop (on_result (\<lambda>r. r\<lparr>rr_status := ''limit_exceeded'',
      rr_error := Some ''Run cost limit reached before model dispatch''\<rparr>) ?s)"
    by (simp add: run_loop.simps[of ex_no_cost] take_turn_def start_state_def Let_def new_result_def)
  with b show ?thesis
    by (simp add: run_harness_def end_run_def Let_def start_state_def new_result_def on_result_def ex_direct_def ex_harness_def
        max_turns_def cost_limit_def ex_pipe_agent_def default_agent_def default_limits_def)
qed

lemma ex_pipe_fields [simp]:
  "pn_chat ex_pipe = ex_chat_env (\<lambda>n db. db)" "pn_emits ex_pipe" "pn_core ex_pipe n = CorePinned"
  "gr_content (pn_guard ex_pipe t) = t" "gr_warnings (pn_guard ex_pipe t) = []"
  "pn_loop ex_pipe i cfg = ex_direct\<lparr>hn_agent := cfg\<rparr>" "cn_uuid (ex_chat_env f) n = CHR ''i'' # show_nat n"
  by (simp_all add: ex_pipe_def ex_chat_env_def)

lemma ex_pipe_inv: "chat_inv (pn_chat ex_pipe) ex_pipe_world"
  by (auto simp: chat_inv_def fair_chat_def inj_def ex_pipe_world_def ex_pipe_db_def chat_ok_def contacts_ok_def refs_ok_def)

lemmas pipe_run = accept_message_def find_place_def resolve_contact_def resolve_session_def channel_resume_def auto_resume_def
  open_session_def add_contact_def new_uuid_def close_idle_sessions_def find_idle_sessions_def open_run_def begin_run_def
  create_run_def store_message_def name_session_def emit_to_def statements ask_run signal_def cput_def cget_def cbind_def cret_def
  cfail_def ccheck_def tell_def update_session_def Let_def

lemmas pipe_tables = is_channel_def given_text_def has_contact_def latest_def open_for_def idle_sessions_def busy_def
  get_active_config_def known_run_def new_run_def has_run_def find_session_def set_session_def no_summary_def run_message_def

lemmas ex_pipe_data = ex_inbound_def ex_pipe_world_def ex_pipe_db_def

lemma ex_accepted:
  "\<exists>s r x w. accept_message ex_pipe ex_inbound ''schedule'' True (ex_pipe_world\<lparr>wd_waits := k\<rparr>) = (Inr (s, r, x), w)
     \<and> has_run (rn_id r) (wd_db w) \<and> find_session (wd_db w) (lv_id s) \<noteq> None
     \<and> get_active_config (wd_db w) ''a'' = Some ex_pipe_agent \<and> wd_saved w = wd_db w"
  by (simp add: pipe_run pipe_tables ex_pipe_data)

lemma has_run_fields [simp]:
  "has_run i (set_session sid f db) = has_run i db" "has_run i (db\<lparr>cb_messages := m\<rparr>) = has_run i db"
  "has_run i (db\<lparr>cb_index := n\<rparr>) = has_run i db" "has_run i (db\<lparr>cb_snaps := y\<rparr>) = has_run i db"
  "has_run i (db\<lparr>cb_uuids := u\<rparr>) = has_run i db"
  by (simp_all add: has_run_def)

lemma has_run_set_run [simp]: "(\<And>r. rn_id (f r) = rn_id r) \<Longrightarrow> has_run i (set_run j f db) = has_run i db"
proof -
  assume f: "\<And>r. rn_id (f r) = rn_id r"
  have "rn_id (if rn_id r = j then f r else r) = rn_id r" for r using f by simp
  then show ?thesis by (simp add: has_run_def set_run_def image_image del: if_image_distrib)
qed

lemma ex_tables [simp]:
  "find_session (set_run j f db) sid = find_session db sid" "get_active_config (set_run j f db) a = get_active_config db a"
  "find_session (db\<lparr>cb_messages := m\<rparr>) sid = find_session db sid" "find_session (db\<lparr>cb_index := n\<rparr>) sid = find_session db sid"
  "find_session (db\<lparr>cb_uuids := u\<rparr>) sid = find_session db sid" "find_session (db\<lparr>cb_snaps := y\<rparr>) sid = find_session db sid"
  by (simp_all add: find_session_def set_run_def get_active_config_def)

lemma ex_settled:
  assumes "has_run (rn_id r) (wd_db w)" "find_session (wd_db w) (lv_id s) \<noteq> None"
  shows "\<exists>y u. settle_run ex_pipe s r res n w = (Inr y, u)"
proof -
  have f: "rn_id (finished_run res t t' q) = rn_id q" for t t' q by (simp add: finished_run_def split: option.split)
  have i: "cbind (if b then signal z else cret ()) k v = (if b then cbind (signal z) k v else k () v)" for b z k and v :: chat_world
    by simp
  show ?thesis using assms
    by (simp add: settle_run_def store_message_def new_uuid_def Let_def f i split: if_splits)
qed

lemma ex_executed:
  assumes "has_run (rn_id r) (wd_db w)" "find_session (wd_db w) (lv_id s) \<noteq> None" "get_active_config (wd_db w) ''a'' = Some ex_pipe_agent"
  shows "\<exists>y u. execute_run ex_pipe ex_inbound s r x w = (Inr y, u)"
proof -
  obtain st where st: "run_harness ex_no_cost inp = RunReturned (st inp)" "lp_events (st inp) = []" "lp_db (st inp) = in_db inp" for inp
    using ex_no_cost_run by metis
  have c: "run_config ex_pipe ex_inbound w = (Inr ex_pipe_agent, w\<lparr>wd_waits := Suc (wd_waits w)\<rparr>)"
    using assms(3) by (simp add: run_config_def ex_inbound_def chosen_model_def)
  have i: "im_uploads ex_inbound = []" "im_max_cost ex_inbound = Some 0" by (simp_all add: ex_inbound_def)
  have k: "has_run j (keep_summary sid cd db) = has_run j db" "find_session db sid \<noteq> None \<Longrightarrow> find_session (keep_summary sid cd db) sid \<noteq> None"
    for j sid cd db by (auto simp: keep_summary_def find_set_session split: option.split)
  show ?thesis
    using assms c
    by (simp add: execute_run_def cbind_def[of "run_config ex_pipe ex_inbound"] prepare_attachment_context_def keep_attachments_def i)
      (simp add: run_the_loop_def st Let_def, rule ex_settled, simp_all add: k[simplified])
qed

lemma ex_handled: "\<exists>r w. handle_inbound ex_pipe ex_inbound ''schedule'' True (ex_pipe_world\<lparr>wd_waits := k\<rparr>) = (Inr r, w)"
proof -
  obtain s r x v where a: "accept_message ex_pipe ex_inbound ''schedule'' True (ex_pipe_world\<lparr>wd_waits := k\<rparr>) = (Inr (s, r, x), v)"
    "has_run (rn_id r) (wd_db v)" "find_session (wd_db v) (lv_id s) \<noteq> None" "get_active_config (wd_db v) ''a'' = Some ex_pipe_agent"
    using ex_accepted by blast
  let ?t = "cn_clock (ex_chat_env (\<lambda>n db. db)) (Suc (wd_waits v))"
  let ?f = "\<lambda>y. y\<lparr>lr_status := ''running'', rn_started := ?t\<rparr>"
  let ?v = "v\<lparr>wd_db := set_run (rn_id r) ?f (wd_db v), wd_waits := Suc (Suc (wd_waits v))\<rparr>"
  obtain y u where y: "execute_run ex_pipe ex_inbound s (?f r) x ?v = (Inr y, u)"
    using ex_executed[of "?f r" ?v s x] a by auto
  have "handle_inbound ex_pipe ex_inbound ''schedule'' True (ex_pipe_world\<lparr>wd_waits := k\<rparr>) = (Inr y, u)"
    using a y by (simp add: handle_inbound_def cbind_def[of "accept_message ex_pipe ex_inbound _ _"] Let_def catch_op_def)
  then show ?thesis by blast
qed

lemma ex_handled_now: "\<exists>r w. handle_inbound ex_pipe ex_inbound ''schedule'' True ex_pipe_world = (Inr r, w)"
  using ex_handled[of "wd_waits ex_pipe_world"] by simp

lemma ex_reported: "\<exists>out w. run_agent ex_pipe ex_inbound ''schedule'' True ex_pipe_world = (Inr out, w)"
proof -
  have "check_agent ex_pipe ex_inbound True ex_pipe_world = (Inr (), ex_pipe_world\<lparr>wd_waits := 1\<rparr>)"
    by (auto simp: check_agent_def ex_pipe_data)
  moreover have "ex_inbound\<lparr>im_test := True\<rparr> = ex_inbound" by (simp add: ex_inbound_def)
  moreover obtain r w where "handle_inbound ex_pipe ex_inbound ''schedule'' True (ex_pipe_world\<lparr>wd_waits := 1\<rparr>) = (Inr r, w)"
    using ex_handled by blast
  moreover obtain out v where "report_run ex_pipe r w = (Inr out, v)"
    by (simp add: report_run_def emit_to_def)
  ultimately show ?thesis by (simp add: run_agent_def request_op_def catch_op_def cbind_def)
qed

theorem message_reaches_own_session_witness:
  "\<exists>r w. handle_inbound ex_pipe ex_inbound ''schedule'' True ex_pipe_world = (Inr r, w)
     \<and> (\<exists>c \<in> set (cb_contacts (wd_saved w)). lr_contact r = ct_id c)"
proof -
  obtain r w where h: "handle_inbound ex_pipe ex_inbound ''schedule'' True ex_pipe_world = (Inr r, w)" using ex_handled_now by blast
  from message_reaches_own_session[OF ex_pipe_inv h] h show ?thesis by blast
qed



end
