(* ===== verification/Spec2Isabelle.thy ===== *)
theory Spec2Isabelle
  imports Config Capabilities Run_Catalog Approvals Approval_Flow Mcp_Servers Mediator Mediator_Safety Compaction
    Scheduler Scheduler_Safety Context Conversation Harness_Loop Harness_Safety
    Core_Memory Core_Memory_Safety Chunker Chunker_Safety
    Vault Vault_Safety Retrieval Retrieval_Safety
    Run_Events Run_Events_Safety Sessions Sessions_Safety Uploads
    Pipeline Pipeline_Frames Pipeline_Safety
begin

text \<open>
  A verification development for the backend of Cabernect OS (\<^verbatim>\<open>src/backend/src/agentos\<close>; the paths
  below are relative to it).

  \<^bold>\<open>The program.\<close>  The backend runs agents.  A message, a schedule or a heartbeat starts a run; the
  agent loop assembles the conversation, asks a model, and lets it call tools.  Every call goes through
  the syscall mediator, which decides authority, subject, approval and binding, executes the call and
  writes an audit row.  Approvals and questions to the user are rows of the database together with
  waiters in the process; conversations that outgrow the model's window are compacted into a summary
  that is stored under a version check.

  \<^bold>\<open>Theories and sources.\<close>
  \<^item> \<open>Prelude\<close>: Python values, dictionaries, string functions, the error monad \<open>sbind\<close>.
  \<^item> \<open>Config\<close>: the agent configuration (\<^verbatim>\<open>config_schema.py\<close>) and the input budget
    (\<^verbatim>\<open>providers/catalog_policy.py\<close>).
  \<^item> \<open>Capabilities\<close>, \<open>Run_Catalog\<close>: effects, the registry, the grant ceiling, and the run-scoped catalogue
    with search, visibility and loading (\<^verbatim>\<open>capabilities/\<close>).
  \<^item> \<open>Approvals\<close>, \<open>Approval_Flow\<close>: both in-process registries (\<^verbatim>\<open>syscall/\<close>), the endpoints that decide
    (\<^verbatim>\<open>api/approvals.py\<close>, \<^verbatim>\<open>api/elicitation.py\<close>) and the barrier of a turn (\<^verbatim>\<open>harness/loop.py\<close>).
  \<^item> \<open>Mcp_Servers\<close>: discovery, tool map, credentials, bindings, calls (\<^verbatim>\<open>mcp/\<close>).
  \<^item> \<open>Mediator\<close>, \<open>Mediator_Safety\<close>: every gate of \<^verbatim>\<open>syscall/mediator.py\<close>, the waits, the execution, the
    audit, and its theorems.
  \<^item> \<open>Compaction\<close>, \<open>Context\<close>, \<open>Conversation\<close>: the compaction pipeline (\<^verbatim>\<open>harness/compaction.py\<close>), stored rows
    as model messages (\<^verbatim>\<open>harness/context.py\<close>), loading a session and storing its summary
    (\<^verbatim>\<open>harness/conversation.py\<close>).
  \<^item> \<open>Harness_Loop\<close>, \<open>Harness_Safety\<close>: \<^verbatim>\<open>Harness.run\<close> of \<^verbatim>\<open>harness/loop.py\<close> and its theorems.
  \<^item> \<open>Core_Memory\<close>, \<open>Core_Memory_Safety\<close>: the agent's notebook with its managed identity and its archive of
    revisions (\<^verbatim>\<open>memory/core.py\<close>).
  \<^item> \<open>Chunker\<close>, \<open>Chunker_Safety\<close>: documents cut into a tree of chunks (\<^verbatim>\<open>knowledge/chunker.py\<close>).
  \<^item> \<open>Vault\<close>, \<open>Vault_Safety\<close>: documents, chunks, full-text rows and embedding generations with the
    endpoints that change them (\<^verbatim>\<open>knowledge/ingest.py\<close>, \<^verbatim>\<open>indexing.py\<close>, \<^verbatim>\<open>embeddings.py\<close>, \<^verbatim>\<open>api/knowledge.py\<close>).
  \<^item> \<open>Retrieval\<close>, \<open>Retrieval_Safety\<close>: full-text queries, candidates, fusion and expansion (\<^verbatim>\<open>fts.py\<close>,
    \<^verbatim>\<open>knowledge/vectors.py\<close>, \<^verbatim>\<open>knowledge/retrieval.py\<close>).
  \<^item> \<open>Scheduler\<close>, \<open>Scheduler_Safety\<close>: triggers, revisions, the tick, overlap and missed-run policies,
    retries, startup (\<^verbatim>\<open>scheduler.py\<close>) and the theorems on histories of its operations.
  \<^item> \<open>Db_Session\<close>: a database session beside others: what it sees, what is committed, and the points where
    others act.
  \<^item> \<open>Run_Events\<close>, \<open>Run_Events_Safety\<close>: the emitter that stores the events of a run (\<^verbatim>\<open>pipeline.py\<close>), their buffer
    (\<^verbatim>\<open>run_manager.py\<close>) and the stream that clients reconnect to (\<^verbatim>\<open>api/chat.py\<close>).
  \<^item> \<open>Sessions\<close>, \<open>Sessions_Safety\<close>: contacts and sessions (\<^verbatim>\<open>pipeline.py\<close>, \<^verbatim>\<open>api/chat.py\<close>), and the close of
    an idle session with its summary and its learner (\<^verbatim>\<open>memory/episodic.py\<close>, \<^verbatim>\<open>main.py\<close>).
  \<^item> \<open>Uploads\<close>: the uploads of a message (\<^verbatim>\<open>pipeline.py\<close>).
  \<^item> \<open>Pipeline\<close>, \<open>Pipeline_Frames\<close>, \<open>Pipeline_Safety\<close>: one message through \<open>handle_inbound\<close> (\<^verbatim>\<open>pipeline.py\<close>) and
    \<open>run_agent\<close> (\<^verbatim>\<open>runner.py\<close>): it joins the sessions, the uploads, the conversation, the agent loop and the emitter
    in one database session; what each step keeps; the theorems.

  \<^bold>\<open>Conventions.\<close>  A class is a record, an enumeration a datatype, a JSON value a \<open>pyval\<close>, a dictionary an
  association list, Python's integers are \<open>int\<close>, costs \<open>rat\<close>.  Tables are lists of rows; a handler takes the
  tables and returns them updated; an exception is the left side of a sum.  What other tasks do while
  a handler waits is an argument (a script of operations, or a function of the state).  Code outside
  the sources (JSON, SHA-256, UUIDs, the tokenizer, the model, MCP servers, cron parsing) is a field of
  an environment record.

  \<^bold>\<open>What is shown.\<close>  Mediator: no execution without authority, approval and subject, one audit row per
  decided call.  Loop: every request is well paired and within the budget, the number of requests and
  the cost are bounded, a completed run answers with a guarded reply.  Conversation: replay accounts for
  every row, summaries are read back, one of several compactors wins.  Compaction: what it covers is
  between the protected ends.  Registries and endpoints: a waiter reads the decision of the row, a row is
  decided once, the barrier waits for all and opens.  Allowlists refine a set of grants.  Catalogue:
  nothing outside the ceiling is found, visible or loaded.  MCP: discovery and disconnection are inverse.
  Scheduler: one run at a time, bounded retries, append-only history, catching up.  Core memory: an update
  swaps exactly what it compared, evidence precedes the swap.  Knowledge: chunking loses no word, the
  tables keep their invariant through every request whatever other sessions do, a rebuild is atomic,
  retrieval stays in its scopes and bounds and ranks by reciprocal ranks.  Runs: the emitter stores every
  thought and the first outcome of every call, a stream delivers each event once and ends.  Sessions: a closed
  session was summarised as a whole, a close that fails loses nothing, an upload overwrites nothing.  Pipeline: a
  run belongs to the contact and session of its message, no way out leaves it unfinished, it is reported once.

  \<^bold>\<open>Interfaces.\<close>  Locales state what a client relies on and are interpreted on the model: the waiter registry
  of approvals and questions, the growing history of the scheduler, the contract of a turn of the agent
  loop (\<open>turn_contract\<close>, interpreted for pairing, budget, trace, count, cost and answer), and relations kept by
  operations on a state (\<open>kept_relation\<close>, extended by \<open>index_frame\<close> for embedding), interpreted for the vault's
  invariant, its ownership of documents and the parts of the tables that indexing leaves alone.  A session beside
  others is a \<open>session_frame\<close>, which every \<open>db_contract\<close> (an invariant and a preorder that others respect) gives in
  two ways; \<open>chat_statements\<close> and \<open>chat_frame\<close> add the statements of a close, interpreted for the invariant of
  sessions, their transcripts, the evidence of a close and active runs.  \<open>run_frame\<close> extends the session's frame to
  the steps of a run and \<open>place_frame\<close> to those before it, interpreted for the owners of the tables, the unfinished
  runs of a message and what was reported.

  \<^bold>\<open>Bounds.\<close>  There is no fuel: loops are structural or carry a measure.  The agent loop decreases twice the
  turns left plus the unused retry; the sweep of a schedule decreases the instants before now, since a
  validated trigger fires strictly later.

  \<^bold>\<open>Not modelled.\<close>  The system prompt's text, request capture, latency and database sessions of the loop;
  MCP transport and OAuth; the tools themselves; extraction of documents; reports, artifacts, browser, channels, sandbox,
  installation; skills, the execution manifest and the task registry of the run manager.  The pipeline stores the
  loop's events after the loop, and a cancellation reaches it inside the loop only.  Concurrent tool calls of a turn are given by their outcomes, the first failure in
  the order of the calls ending the run.
\<close>

end
